(* ===== verification/Prelude.thy ===== *)
theory Prelude
  imports
    "HOL-Library.Word"
    "HOL-Library.AList"
    "HOL-Library.Multiset"
    "HOL-Library.Signed_Division"
begin

text \<open>
  Shared vocabulary of the development: Go's integers, byte slices and strings, Go maps as
  association lists with distinct keys, the outcome of a Go call (a value, a panic, or no
  return), \<open>for\<close> loops over slices and over \<open>uint64\<close> ranges, decimal and hexadecimal
  printing, and the lemma collections the component theories extend.
\<close>

section \<open>Lemma collections\<close>

named_theorems go_simps \<open>evaluation rules for Go outcomes, loops and maps\<close>
named_theorems frame_simps \<open>fields an operation leaves unchanged\<close>

section \<open>Integers, bytes and strings\<close>

type_synonym u64 = "64 word"
type_synonym byte = "8 word"
type_synonym bytes = "byte list"

text \<open>
  The conversions \<open>[]byte(s)\<close> and \<open>string(b)\<close>: a Go string is a sequence of bytes, as
  an Isabelle string is a list of 8-bit characters.
\<close>

definition bytes_of_string :: "string \<Rightarrow> bytes" where
  "bytes_of_string s = map (\<lambda>c. of_nat (of_char c)) s"

definition string_of_bytes :: "bytes \<Rightarrow> string" where
  "string_of_bytes b = map (\<lambda>w. char_of (unat w)) b"

lemma string_of_bytes_of_string [simp]: "string_of_bytes (bytes_of_string s) = s"
proof -
  have "char_of (unat (of_nat (of_char c) :: byte)) = c" for c :: char
  proof -
    have "(of_char c :: nat) < 256" by (simp add: of_char_of [symmetric] del: of_char_of)
    then have "unat (of_nat (of_char c) :: byte) = of_char c"
      by (simp add: unat_of_nat)
    then show ?thesis by simp
  qed
  then show ?thesis by (simp add: string_of_bytes_def bytes_of_string_def comp_def)
qed

lemma bytes_of_string_of_bytes [simp]: "bytes_of_string (string_of_bytes b) = b"
proof -
  have "of_nat (of_char (char_of (unat w))) = w" for w :: byte
  proof -
    have "unat w < 256" using unsigned_less [of w] by simp
    then show ?thesis by simp
  qed
  then show ?thesis by (simp add: string_of_bytes_def bytes_of_string_def comp_def map_idI)
qed

lemma inj_string_of_bytes: "string_of_bytes a = string_of_bytes b \<longleftrightarrow> a = b"
  by (metis bytes_of_string_of_bytes)

lemma length_bytes_of_string [simp]: "length (bytes_of_string s) = length s"
  by (simp add: bytes_of_string_def)

text \<open>\<open>hex.EncodeToString\<close>: two lower-case hexadecimal digits per byte.\<close>

definition hex_digits :: string where
  "hex_digits = ''0123456789abcdef''"

definition hex_byte :: "byte \<Rightarrow> string" where
  "hex_byte w = [hex_digits ! (unat w div 16), hex_digits ! (unat w mod 16)]"

definition hex_encode :: "bytes \<Rightarrow> string" where
  "hex_encode b = concat (map hex_byte b)"

lemma distinct_hex_digits: "distinct hex_digits" and length_hex_digits: "length hex_digits = 16"
  by (simp_all add: hex_digits_def)

lemma hex_byte_inj: "hex_byte v = hex_byte w \<longleftrightarrow> v = w"
proof
  assume eq: "hex_byte v = hex_byte w"
  have "unat x < 256" for x :: byte
    using unsigned_less [of x] by simp
  then have b: "unat x div 16 < 16" "unat x mod 16 < 16" for x :: byte
    by (simp_all add: less_mult_imp_div_less)
  from eq have "unat v div 16 = unat w div 16" "unat v mod 16 = unat w mod 16"
    using b [of v] b [of w]
    by (auto simp: hex_byte_def nth_eq_iff_index_eq distinct_hex_digits length_hex_digits)
  then have "unat v = unat w" by (metis div_mult_mod_eq)
  then show "v = w" by (simp add: word_unat_eq_iff)
qed simp

lemma length_hex_encode [simp]: "length (hex_encode b) = 2 * length b"
  by (induction b) (simp_all add: hex_encode_def hex_byte_def)

lemma hex_encode_inj: "hex_encode a = hex_encode b \<longleftrightarrow> a = b"
proof (induction a arbitrary: b)
  case Nil
  show ?case by (cases b) (simp_all add: hex_encode_def hex_byte_def)
next
  case (Cons x a)
  show ?case
  proof (cases b)
    case Nil
    then show ?thesis by (simp add: hex_encode_def hex_byte_def)
  next
    case (Cons y b')
    have "hex_encode (x # a) = hex_encode b \<longleftrightarrow> hex_byte x = hex_byte y \<and> hex_encode a = hex_encode b'"
      using Cons by (auto simp: hex_encode_def hex_byte_def)
    then show ?thesis using Cons Cons.IH by (simp add: hex_byte_inj)
  qed
qed

text \<open>The \<open>%d\<close> verb of \<open>fmt.Sprintf\<close> on an unsigned number.\<close>

fun show_nat :: "nat \<Rightarrow> string" where
  "show_nat n = (if n < 10 then [char_of (48 + n)]
                 else show_nat (n div 10) @ [char_of (48 + n mod 10)])"

declare show_nat.simps [simp del]


section \<open>Outcomes of a Go call\<close>

text \<open>
  A call returns a value, panics, or does not return at all (a loop that runs forever).
\<close>

datatype go_panic = Nil_Deref | Index_Out_Of_Range | Divide_By_Zero | Closed_Channel | Explicit_Panic

datatype 'a go = Ret 'a | Panic go_panic | Diverge

fun go_bind :: "'a go \<Rightarrow> ('a \<Rightarrow> 'b go) \<Rightarrow> 'b go" where
  "go_bind (Ret x) f = f x"
| "go_bind (Panic p) f = Panic p"
| "go_bind Diverge f = Diverge"

definition of_loop :: "'a option \<Rightarrow> 'a go" where
  "of_loop r = (case r of None \<Rightarrow> Diverge | Some x \<Rightarrow> Ret x)"

lemma of_loop_simps [simp, go_simps]: "of_loop (Some x) = Ret x" "of_loop None = Diverge"
  by (simp_all add: of_loop_def)

lemma go_bind_Ret_iff: "go_bind m f = Ret y \<longleftrightarrow> (\<exists>x. m = Ret x \<and> f x = Ret y)"
  by (cases m) auto

lemma go_bind_assoc: "go_bind (go_bind m f) g = go_bind m (\<lambda>x. go_bind (f x) g)"
  by (cases m) auto

lemma go_bind_cong [fundef_cong]:
  "m = m' \<Longrightarrow> (\<And>x. m' = Ret x \<Longrightarrow> f x = g x) \<Longrightarrow> go_bind m f = go_bind m' g"
  by (cases m') auto

section \<open>Loops\<close>

text \<open>
  \<open>for _, x := range xs\<close> with a body that goes on with a new state (\<open>Inr\<close>) or returns
  from the enclosing function (\<open>Inl\<close>).
\<close>

fun for_each :: "('a \<Rightarrow> 's \<Rightarrow> 'r + 's) \<Rightarrow> 'a list \<Rightarrow> 's \<Rightarrow> 'r + 's" where
  "for_each body [] s = Inr s"
| "for_each body (x # xs) s = (case body x s of Inl r \<Rightarrow> Inl r | Inr s' \<Rightarrow> for_each body xs s')"

lemma for_each_fold: "for_each (\<lambda>x s. Inr (f x s)) xs s = Inr (fold f xs s)"
  by (induction xs arbitrary: s) auto

text \<open>
  \<open>for i := lo; i <= hi; i++\<close> on \<open>uint64\<close>: the increment wraps, so with \<open>hi\<close> the largest
  value the guard never fails. \<open>None\<close> is a loop that never ends.
\<close>

partial_function (option) u64_for ::
  "(u64 \<Rightarrow> 's \<Rightarrow> 'r + 's) \<Rightarrow> u64 \<Rightarrow> u64 \<Rightarrow> 's \<Rightarrow> ('r + 's) option" where
  "u64_for body i hi s =
     (if i \<le> hi
      then (case body i s of Inl r \<Rightarrow> Some (Inl r) | Inr s' \<Rightarrow> u64_for body (i + 1) hi s')
      else Some (Inr s))"

lemma unat_u64_less: "unat (x :: u64) < 18446744073709551616"
  using unsigned_less [of x] by simp

lemma unat_u64_of_nat: "k < 18446744073709551616 \<Longrightarrow> unat (of_nat k :: u64) = k"
  by (simp add: unat_of_nat)

lemma unat_u64_Suc: "(x :: u64) \<noteq> - 1 \<Longrightarrow> unat (x + 1) = Suc (unat x)"
proof -
  assume "x \<noteq> - 1"
  then have "1 + x \<noteq> 0" by (simp add: add.commute eq_neg_iff_add_eq_0)
  then show ?thesis using unatSuc [of x] by (simp add: add.commute)
qed

definition u64_range :: "u64 \<Rightarrow> u64 \<Rightarrow> u64 list" where
  "u64_range lo hi = map of_nat [unat lo..<Suc (unat hi)]"

lemma u64_range_Cons:
  assumes "i \<le> hi" and "hi \<noteq> - 1"
  shows "u64_range i hi = i # u64_range (i + 1) hi"
proof -
  from assms have le: "unat i \<le> unat hi" by (simp add: word_le_nat_alt)
  have "i \<noteq> - 1"
    using assms by (auto simp: word_order.extremum_uniqueI)
  then have "unat (i + 1) = Suc (unat i)"
    by (rule unat_u64_Suc)
  then show ?thesis
    using le by (simp add: u64_range_def upt_conv_Cons del: upt_Suc)
qed

lemma u64_range_Nil: "hi < i \<Longrightarrow> u64_range i hi = []"
  by (simp add: u64_range_def word_less_nat_alt)

lemma set_u64_range: "set (u64_range lo hi) = {lo..hi}"
proof -
  have "x \<in> set (u64_range lo hi) \<longleftrightarrow> lo \<le> x \<and> x \<le> hi" for x
  proof
    assume "x \<in> set (u64_range lo hi)"
    then obtain k where k: "x = of_nat k" "unat lo \<le> k" "k \<le> unat hi"
      by (auto simp: u64_range_def simp del: upt_Suc)
    then have "unat x = k"
      using unat_u64_less [of hi] by (simp add: unat_u64_of_nat)
    then show "lo \<le> x \<and> x \<le> hi" using k by (simp add: word_le_nat_alt)
  next
    assume "lo \<le> x \<and> x \<le> hi"
    then have "unat x \<in> set [unat lo..<Suc (unat hi)]"
      by (simp only: word_le_nat_alt set_upt atLeastLessThan_iff less_Suc_eq_le)
    then have "of_nat (unat x) \<in> set (u64_range lo hi)"
      unfolding u64_range_def by (metis imageI list.set_map)
    then show "x \<in> set (u64_range lo hi)" by simp
  qed
  then show ?thesis by (intro set_eqI) (simp only: atLeastAtMost_iff)
qed

lemma sorted_u64_range: "sorted (u64_range lo hi)"
  and distinct_u64_range: "distinct (u64_range lo hi)"
proof -
  have b: "unat (of_nat k :: u64) = k" if "k \<in> set [unat lo..<Suc (unat hi)]" for k
    using that unat_u64_less [of hi] by (auto intro: unat_u64_of_nat)
  show "sorted (u64_range lo hi)"
    unfolding u64_range_def sorted_map
    by (rule sorted_wrt_mono_rel [OF _ sorted_upt])
      (simp add: word_le_nat_alt b del: upt_Suc)
  show "distinct (u64_range lo hi)"
    unfolding u64_range_def distinct_map
    using b by (metis distinct_upt inj_onI)
qed

theorem u64_for_terminates:
  assumes "hi \<noteq> - 1"
  shows "u64_for body i hi s = Some (for_each body (u64_range i hi) s)"
proof (induction "Suc (unat hi) - unat i" arbitrary: i s)
  case 0
  then have "hi < i" by (simp add: word_less_nat_alt)
  then show ?case by (simp add: u64_for.simps u64_range_Nil not_le [symmetric])
next
  case (Suc n)
  then have le: "i \<le> hi" by (simp add: word_le_nat_alt)
  have "i \<noteq> - 1" using le assms by (auto simp: word_order.extremum_uniqueI)
  then have "unat (i + 1) = Suc (unat i)"
    by (rule unat_u64_Suc)
  with Suc.hyps(2) have "n = Suc (unat hi) - unat (i + 1)" by simp
  note IH = Suc.hyps(1) [OF this]
  show ?case
    using le IH by (simp add: u64_for.simps [of body i hi s] u64_range_Cons [OF le assms]
        split: sum.split)
qed

theorem u64_for_diverges:
  assumes never: "\<And>i s r. body i s \<noteq> Inl r"
  shows "u64_for body i (- 1) s = None"
proof -
  have "hi \<noteq> - 1" if "u64_for b i hi s = Some r" "b = body" for b i hi s r
  proof -
    have "b = body \<longrightarrow> hi \<noteq> - 1"
    proof (rule u64_for.raw_induct [where P = "\<lambda>b i hi s r. b = body \<longrightarrow> hi \<noteq> - 1", OF _ that(1)])
      fix f b i hi s r
      assume IH: "\<And>b i hi s r. f b i hi s = Some r \<Longrightarrow> b = body \<longrightarrow> hi \<noteq> - 1"
        and eq: "(if i \<le> hi then (case b i s of Inl r \<Rightarrow> Some (Inl r) | Inr s' \<Rightarrow> f b (i + 1) hi s')
                  else Some (Inr s)) = Some r"
      show "b = body \<longrightarrow> hi \<noteq> - 1"
      proof (intro impI notI)
        assume b: "b = body" and hi: "hi = - 1"
        from eq hi have "(case b i s of Inl r \<Rightarrow> Some (Inl r) | Inr s' \<Rightarrow> f b (i + 1) hi s') = Some r"
          by simp
        then obtain s' where "f b (i + 1) hi s' = Some r"
          using never b by (auto split: sum.splits)
        from IH [OF this] b hi show False by simp
      qed
    qed
    then show ?thesis using that(2) by simp
  qed
  then show ?thesis by (cases "u64_for body i (- 1) s") blast+
qed

section \<open>Go maps\<close>

text \<open>
  A Go map is an association list with distinct keys. \<open>m[k]\<close> is \<open>go_get\<close>, assignment is
  \<open>go_put\<close>, the builtin \<open>delete\<close> is \<open>go_del\<close>, \<open>len\<close> is the length of the list. The order in
  which \<open>range\<close> visits a map is not specified: where it matters, the operation takes a
  function that permutes the entries (\<open>go_order\<close>).
\<close>

type_synonym ('k, 'v) gomap = "('k \<times> 'v) list"

abbreviation go_get :: "('k, 'v) gomap \<Rightarrow> 'k \<Rightarrow> 'v option" where
  "go_get \<equiv> map_of"

abbreviation go_put :: "'k \<Rightarrow> 'v \<Rightarrow> ('k, 'v) gomap \<Rightarrow> ('k, 'v) gomap" where
  "go_put \<equiv> AList.update"

abbreviation go_del :: "'k \<Rightarrow> ('k, 'v) gomap \<Rightarrow> ('k, 'v) gomap" where
  "go_del \<equiv> AList.delete"

abbreviation go_keys :: "('k, 'v) gomap \<Rightarrow> 'k set" where
  "go_keys m \<equiv> fst ` set m"

definition go_wf :: "('k, 'v) gomap \<Rightarrow> bool" where
  "go_wf m \<longleftrightarrow> distinct (map fst m)"

definition go_order :: "('a list \<Rightarrow> 'a list) \<Rightarrow> bool" where
  "go_order it \<longleftrightarrow> (\<forall>xs. mset (it xs) = mset xs)"

text \<open>Entries stored under a key that their value determines.\<close>

definition keyed :: "('v \<Rightarrow> 'k) \<Rightarrow> ('k, 'v) gomap \<Rightarrow> bool" where
  "keyed f m \<longleftrightarrow> (\<forall>e \<in> set m. f (snd e) = fst e)"

lemma keyed_Nil [simp]: "keyed f []"
  by (simp add: keyed_def)

lemma set_go_put_subset: "set (AList.update k v m) \<subseteq> insert (k, v) (set m)"
  by (induction m) auto

lemma keyed_go_put [simp]: "keyed f m \<Longrightarrow> f v = k \<Longrightarrow> keyed f (AList.update k v m)"
  using set_go_put_subset [of k v m] by (fastforce simp: keyed_def)

lemma keyed_go_del [simp]: "keyed f m \<Longrightarrow> keyed f (AList.delete k m)"
  by (simp add: keyed_def AList.delete_eq)

lemma keyed_get: "keyed f m \<Longrightarrow> map_of m k = Some v \<Longrightarrow> f v = k"
  by (fastforce simp: keyed_def dest: map_of_SomeD)

lemma keyed_snd: "keyed f m \<Longrightarrow> map f (map snd m) = map fst m"
  by (simp add: keyed_def)

lemma go_wf_Nil [simp]: "go_wf []"
  by (simp add: go_wf_def)

lemma go_wf_put [simp, intro]: "go_wf m \<Longrightarrow> go_wf (go_put k v m)"
  by (simp add: go_wf_def distinct_update)

lemma go_wf_del [simp, intro]: "go_wf m \<Longrightarrow> go_wf (go_del k m)"
  by (simp add: go_wf_def distinct_delete)

lemma go_get_put [simp]: "go_get (go_put k v m) = (go_get m)(k \<mapsto> v)"
  by (simp add: update_conv')

lemma go_get_del [simp]: "go_get (go_del k m) = (go_get m)(k := None)"
  by (simp add: delete_conv')

lemma go_get_None_iff: "go_get m k = None \<longleftrightarrow> k \<notin> go_keys m"
  by (simp add: map_of_eq_None_iff)

lemma go_get_Some_iff: "go_wf m \<Longrightarrow> go_get m k = Some v \<longleftrightarrow> (k, v) \<in> set m"
  by (simp add: go_wf_def)

lemma go_get_SomeD: "go_get m k = Some v \<Longrightarrow> (k, v) \<in> set m"
  by (rule map_of_SomeD)

lemma go_keys_put [simp]: "go_keys (go_put k v m) = insert k (go_keys m)"
  by (metis dom_map_of_conv_image_fst dom_fun_upd option.distinct(1) update_conv')

lemma go_keys_del [simp]: "go_keys (go_del k m) = go_keys m - {k}"
  by (metis dom_map_of_conv_image_fst dom_fun_upd delete_conv')

lemma go_put_new: "k \<notin> go_keys m \<Longrightarrow> go_put k v m = m @ [(k, v)]"
  by (induction m) auto

lemma length_go_put:
  "length (go_put k v m) = (if k \<in> go_keys m then length m else Suc (length m))"
  by (induction m) auto

lemma go_del_filter: "go_del k m = filter (\<lambda>e. fst e \<noteq> k) m"
  by (induction m) auto

lemma length_go_del_le: "length (go_del k m) \<le> length m"
  by (simp add: go_del_filter)

lemma set_go_del: "set (go_del k m) = {e \<in> set m. fst e \<noteq> k}"
  by (auto simp: go_del_filter)

text \<open>Deleting a present key takes exactly its entry away.\<close>

lemma mset_go_del:
  assumes "go_wf m" and "go_get m k = Some v"
  shows "mset m = add_mset (k, v) (mset (go_del k m))"
  using assms
proof (induction m)
  case Nil
  then show ?case by simp
next
  case (Cons e m)
  obtain k' v' where e: "e = (k', v')" by (cases e)
  show ?case
  proof (cases "k' = k")
    case True
    with Cons.prems e have "k \<notin> go_keys m" "v' = v" by (auto simp: go_wf_def)
    moreover from this(1) have "go_del k m = m" by (rule delete_id)
    ultimately show ?thesis using True e by simp
  next
    case False
    with Cons e show ?thesis by (simp add: go_wf_def)
  qed
qed

lemma length_go_del:
  assumes "go_wf m" and "go_get m k = Some v"
  shows "length m = Suc (length (go_del k m))"
  using mset_go_del [OF assms] by (metis size_add_mset size_mset)

lemma mset_snd_go_del:
  assumes "go_wf m" and "go_get m k = Some v"
  shows "mset (map snd m) = add_mset v (mset (map snd (go_del k m)))"
  using mset_go_del [OF assms] by (metis image_mset_add_mset mset_map snd_conv)

lemma card_go_keys: "go_wf m \<Longrightarrow> card (go_keys m) = length m"
  unfolding go_wf_def by (metis distinct_card length_map list.set_map)

lemma go_order_set: "go_order it \<Longrightarrow> set (it xs) = set xs"
  unfolding go_order_def by (metis set_mset_mset)

lemma go_order_length: "go_order it \<Longrightarrow> length (it xs) = length xs"
  unfolding go_order_def by (metis size_mset)

lemma go_order_id [simp]: "go_order (\<lambda>xs. xs)" and go_order_rev [simp]: "go_order rev"
  by (simp_all add: go_order_def)

section \<open>Collecting the values of a range of keys\<close>

lemma strict_u64_range: "sorted_wrt (<) (u64_range lo hi)"
  using sorted_u64_range distinct_u64_range by (simp add: strict_sorted_iff)

lemma in_map_filter: "x \<in> set (List.map_filter g ns) \<longleftrightarrow> (\<exists>n \<in> set ns. g n = Some x)"
  by (induction ns) (auto simp: List.map_filter_simps split: option.splits)

lemma map_filter_sorted:
  fixes g :: "'k::linorder \<Rightarrow> 'v option"
  assumes key: "\<And>n x. g n = Some x \<Longrightarrow> f x = n"
  shows "sorted_wrt (<) ns \<Longrightarrow> sorted_wrt (<) (map f (List.map_filter g ns))"
proof (induction ns)
  case Nil
  show ?case by (simp add: List.map_filter_simps)
next
  case (Cons n ns)
  have IH: "sorted_wrt (<) (map f (List.map_filter g ns))"
    using Cons unfolding sorted_wrt.simps by blast
  have less: "n < m" if "m \<in> set (map f (List.map_filter g ns))" for m
  proof -
    from that obtain x where "x \<in> set (List.map_filter g ns)" "f x = m" by auto
    with key have "m \<in> set ns" unfolding in_map_filter by blast
    with Cons.prems show ?thesis unfolding sorted_wrt.simps by blast
  qed
  show ?case
  proof (cases "g n")
    case None
    show ?thesis using IH unfolding List.map_filter_simps None option.case .
  next
    case (Some x)
    show ?thesis using IH less
      unfolding List.map_filter_simps Some option.case list.map key [OF Some] sorted_wrt.simps by blast
  qed
qed

lemma fold_max: "fold (\<lambda>x mx. if f x > mx then f x else (mx :: u64)) xs m = Max (insert m (f ` set xs))"
proof (induction xs arbitrary: m)
  case Nil
  show ?case by simp
next
  case (Cons x xs)
  have "Max (insert (if f x > m then f x else m) (f ` set xs)) = Max (insert m (insert (f x) (f ` set xs)))"
    by (cases "f ` set xs = {}") (auto simp: max_def max.assoc)
  then show ?case by (simp add: Cons.IH)
qed

end
