(* ===== verification/Types.thy ===== *)
theory Types
  imports Sha256
begin

text \<open>
  \<open>types/types.go\<close>: blocks, transactions, validators and the quorum arithmetic. Pointers to
  validators are the values they point to (no code compares them by address); \<open>time.Time\<close> is
  a number of nanoseconds. Integers keep their width where the code narrows them
  (\<open>ComputeHash\<close>); the lengths of slices are natural numbers.
\<close>

section \<open>Data\<close>

type_synonym gotime = int

record BlockHeader =
  hHeight :: u64
  hPrevHash :: bytes
  hTimestamp :: gotime
  hProposerID :: string
  hStateRoot :: bytes
  hTxRoot :: bytes
  hView :: u64
  hSequenceNum :: u64

record Transaction =
  txID :: string
  txData :: bytes
  txTimestamp :: gotime
  txSignature :: bytes
  txFrom :: string

record Block =
  bHeader :: BlockHeader
  bTransactions :: "Transaction list"
  bHash :: bytes

record Validator =
  vID :: string
  vAddress :: string
  vPublicKey :: bytes
  vPower :: int

record ValidatorSet =
  vsValidators :: "Validator list"
  vsProposer :: "Validator option"

section \<open>Validator sets\<close>

definition NewValidatorSet :: "Validator list \<Rightarrow> ValidatorSet" where
  "NewValidatorSet vs =
     \<lparr>vsValidators = vs, vsProposer = (if 0 < length vs then Some (vs ! 0) else None)\<rparr>"

definition Size :: "ValidatorSet \<Rightarrow> nat" where
  "Size vs = length (vsValidators vs)"

definition GetByID :: "ValidatorSet \<Rightarrow> string \<Rightarrow> Validator option" where
  "GetByID vs i = find (\<lambda>v. vID v = i) (vsValidators vs)"

text \<open>Go's \<open>/\<close> on \<open>int\<close> truncates: for an empty set \<open>(0 - 1) / 3\<close> is \<open>0\<close>.\<close>

definition FaultyTolerance :: "ValidatorSet \<Rightarrow> int" where
  "FaultyTolerance vs = (int (length (vsValidators vs)) - 1) sdiv 3"

definition QuorumSize :: "ValidatorSet \<Rightarrow> int" where
  "QuorumSize vs =
     (let n = int (length (vsValidators vs)); f = (n - 1) sdiv 3 in 2 * f + 1)"

section \<open>Blocks\<close>

definition hash_input :: "Block \<Rightarrow> bytes" where
  "hash_input b =
     hPrevHash (bHeader b) @ bytes_of_string (hProposerID (bHeader b)) @
     [ucast (hHeight (bHeader b)), ucast (hView (bHeader b))] @
     concat (map txData (bTransactions b))"

definition ComputeHash :: "Block \<Rightarrow> bytes" where
  "ComputeHash b = sha256 (hash_input b)"

definition HashString :: "Block \<Rightarrow> string" where
  "HashString b = hex_encode (bHash b)"

definition NewBlock ::
  "gotime \<Rightarrow> u64 \<Rightarrow> bytes \<Rightarrow> string \<Rightarrow> u64 \<Rightarrow> Transaction list \<Rightarrow> Block" where
  "NewBlock now height prevHash proposerID view txs =
     (let block = \<lparr>bHeader = \<lparr>hHeight = height, hPrevHash = prevHash, hTimestamp = now,
                     hProposerID = proposerID, hStateRoot = [], hTxRoot = [], hView = view,
                     hSequenceNum = height\<rparr>,
                   bTransactions = txs, bHash = []\<rparr>
      in block\<lparr>bHash := ComputeHash block\<rparr>)"

section \<open>Lemmas\<close>

lemma sdiv_pred_3: "0 < n \<Longrightarrow> (int n - 1) sdiv 3 = int ((n - 1) div 3)"
  by (simp add: signed_divide_int_def sgn_if of_nat_diff zdiv_int)

lemma QuorumSize_pos: "vsValidators vs \<noteq> [] \<Longrightarrow>
    QuorumSize vs = 2 * int ((length (vsValidators vs) - 1) div 3) + 1"
  by (simp add: QuorumSize_def Let_def sdiv_pred_3)

lemma QuorumSize_empty: "vsValidators vs = [] \<Longrightarrow> QuorumSize vs = 1"
  by (simp add: QuorumSize_def Let_def signed_divide_int_def)

lemma QuorumSize_ge_1: "1 \<le> QuorumSize vs"
  by (cases "vsValidators vs = []") (simp_all add: QuorumSize_empty QuorumSize_pos)

text \<open>A quorum can always be met: it is never larger than the set (when there is a set).\<close>

lemma QuorumSize_le_Size:
  assumes "vsValidators vs \<noteq> []"
  shows "QuorumSize vs \<le> int (length (vsValidators vs))"
proof -
  have "2 * ((length (vsValidators vs) - 1) div 3) + 1 \<le> length (vsValidators vs)"
    using assms by (cases "vsValidators vs") auto
  then show ?thesis using assms by (simp add: QuorumSize_pos)
qed

lemma NewBlock_simps [simp]:
  "bHash (NewBlock now h p pid v txs) =
     ComputeHash (NewBlock now h p pid v txs)"
  "bTransactions (NewBlock now h p pid v txs) = txs"
  "hHeight (bHeader (NewBlock now h p pid v txs)) = h"
  "hSequenceNum (bHeader (NewBlock now h p pid v txs)) = h"
  "hView (bHeader (NewBlock now h p pid v txs)) = v"
  "hPrevHash (bHeader (NewBlock now h p pid v txs)) = p"
  "hProposerID (bHeader (NewBlock now h p pid v txs)) = pid"
  by (simp_all add: NewBlock_def Let_def ComputeHash_def hash_input_def)

end
