(* ===== verification/Quorum.thy ===== *)
theory Quorum
  imports Types
begin

text \<open>
  What the protocol asks of \<open>QuorumSize\<close>: any two quorums share a correct node. The
  interface is the locale \<open>bft_quorum\<close> (a set of nodes, a quorum size, a bound on the faulty
  nodes); it is interpreted on validator sets of \<open>3 f + 1\<close> distinct identities, and the sets
  of other sizes, where the code's formula does not give it, are characterised.
\<close>

locale bft_quorum =
  fixes nodes :: "'a set" and q :: nat and f :: nat
  assumes finite_nodes: "finite nodes"
    and overlap: "card nodes + f < 2 * q"
    and reachable_quorum: "q + f \<le> card nodes"
begin

lemma quorums_share:
  assumes "A \<subseteq> nodes" "B \<subseteq> nodes" "q \<le> card A" "q \<le> card B"
  shows "f < card (A \<inter> B)"
proof -
  have fin: "finite A" "finite B"
    using assms(1,2) finite_nodes by (auto intro: finite_subset)
  have "card (A \<union> B) \<le> card nodes"
    using assms(1,2) by (intro card_mono finite_nodes) auto
  moreover have "card A + card B = card (A \<union> B) + card (A \<inter> B)"
    by (rule card_Un_Int [OF fin])
  ultimately show ?thesis using assms(3,4) overlap by linarith
qed

lemma correct_in_common:
  assumes "A \<subseteq> nodes" "B \<subseteq> nodes" "q \<le> card A" "q \<le> card B"
    and "card F \<le> f" "finite F"
  obtains x where "x \<in> A" "x \<in> B" "x \<notin> F"
proof -
  have "f < card (A \<inter> B)" by (rule quorums_share [OF assms(1-4)])
  then have "\<not> A \<inter> B \<subseteq> F"
    using assms(5,6) card_mono [of F "A \<inter> B"] by linarith
  then show thesis using that by blast
qed

lemma correct_quorum:
  assumes "F \<subseteq> nodes" "card F \<le> f"
  shows "\<exists>A \<subseteq> nodes - F. q \<le> card A"
proof -
  have "q \<le> card (nodes - F)"
    using assms reachable_quorum finite_nodes by (simp add: card_Diff_subset finite_subset)
  then show ?thesis by blast
qed

end

definition ids :: "ValidatorSet \<Rightarrow> string set" where
  "ids vs = vID ` set (vsValidators vs)"

text \<open>A validator set as the protocol wants it: distinct identities, \<open>3 f + 1\<close> of them.\<close>

definition pbft_set :: "ValidatorSet \<Rightarrow> bool" where
  "pbft_set vs \<longleftrightarrow> distinct (map vID (vsValidators vs)) \<and> length (vsValidators vs) mod 3 = 1"

definition quorum_of :: "ValidatorSet \<Rightarrow> nat" where
  "quorum_of vs = nat (QuorumSize vs)"

definition tolerance_of :: "ValidatorSet \<Rightarrow> nat" where
  "tolerance_of vs = nat (FaultyTolerance vs)"

lemma card_ids: "distinct (map vID (vsValidators vs)) \<Longrightarrow> card (ids vs) = length (vsValidators vs)"
  unfolding ids_def by (metis distinct_card length_map list.set_map)

lemma quorum_of_eq: "vsValidators vs \<noteq> [] \<Longrightarrow>
    quorum_of vs = 2 * ((length (vsValidators vs) - 1) div 3) + 1"
  by (simp add: quorum_of_def QuorumSize_pos nat_add_distrib nat_mult_distrib)

lemma tolerance_of_eq: "vsValidators vs \<noteq> [] \<Longrightarrow>
    tolerance_of vs = (length (vsValidators vs) - 1) div 3"
  by (simp add: tolerance_of_def FaultyTolerance_def sdiv_pred_3)

lemma pbft_set_size:
  assumes "pbft_set vs"
  shows "length (vsValidators vs) = 3 * tolerance_of vs + 1"
    and "quorum_of vs = 2 * tolerance_of vs + 1"
proof -
  have ne: "vsValidators vs \<noteq> []" using assms by (auto simp: pbft_set_def)
  have m: "length (vsValidators vs) mod 3 = 1" using assms by (simp add: pbft_set_def)
  show "length (vsValidators vs) = 3 * tolerance_of vs + 1"
    unfolding tolerance_of_eq [OF ne] using m by presburger
  show "quorum_of vs = 2 * tolerance_of vs + 1"
    by (simp add: tolerance_of_eq [OF ne] quorum_of_eq [OF ne])
qed

text \<open>\<open>createDefaultValidators\<close> of \<open>cmd/pbftd/main.go\<close>: the built-in four-node set.\<close>

definition createDefaultValidators :: "Validator list" where
  "createDefaultValidators =
    [\<lparr>vID = ''node0'', vAddress = '''', vPublicKey = bytes_of_string ''pubkey0'', vPower = 10\<rparr>,
     \<lparr>vID = ''node1'', vAddress = '''', vPublicKey = bytes_of_string ''pubkey1'', vPower = 10\<rparr>,
     \<lparr>vID = ''node2'', vAddress = '''', vPublicKey = bytes_of_string ''pubkey2'', vPower = 10\<rparr>,
     \<lparr>vID = ''node3'', vAddress = '''', vPublicKey = bytes_of_string ''pubkey3'', vPower = 10\<rparr>]"

abbreviation default_set :: ValidatorSet where
  "default_set \<equiv> NewValidatorSet createDefaultValidators"

lemma pbft_set_default: "pbft_set default_set"
  by (simp add: pbft_set_def createDefaultValidators_def NewValidatorSet_def)

lemma ids_default: "ids default_set = {''node0'', ''node1'', ''node2'', ''node3''}"
  by (auto simp: ids_def createDefaultValidators_def NewValidatorSet_def)

lemma size_default: "QuorumSize default_set = 3" "FaultyTolerance default_set = 1"
  by (simp_all add: QuorumSize_pos FaultyTolerance_def sdiv_pred_3 createDefaultValidators_def
      NewValidatorSet_def)

text \<open>The type of the sets the protocol is meant for, and the interface's instance on it.\<close>

typedef pbft_validators = "{vs. pbft_set vs}"
  using pbft_set_default by blast

lemma pbft_set_Rep: "pbft_set (Rep_pbft_validators w)"
  using Rep_pbft_validators by simp

interpretation pv: bft_quorum
  "ids (Rep_pbft_validators w)" "quorum_of (Rep_pbft_validators w)" "tolerance_of (Rep_pbft_validators w)"
  for w :: pbft_validators
proof
  let ?vs = "Rep_pbft_validators w"
  note ok = pbft_set_Rep [of w]
  show "finite (ids ?vs)" by (simp add: ids_def)
  have "card (ids ?vs) = 3 * tolerance_of ?vs + 1"
    using ok by (simp add: card_ids pbft_set_def pbft_set_size(1) [OF ok])
  then show "card (ids ?vs) + tolerance_of ?vs < 2 * quorum_of ?vs"
    and "quorum_of ?vs + tolerance_of ?vs \<le> card (ids ?vs)"
    by (simp_all add: pbft_set_size(2) [OF ok])
qed

lemma FaultyTolerance_nonneg: "0 \<le> FaultyTolerance vs"
proof (cases "vsValidators vs = []")
  case True
  then show ?thesis by (simp add: FaultyTolerance_def signed_divide_int_def)
next
  case False
  then show ?thesis by (simp add: FaultyTolerance_def sdiv_pred_3 del: of_nat_diff)
qed

text \<open>
  C1. In a set of \<open>3 f + 1\<close> distinct validators, any two groups of \<open>QuorumSize\<close> nodes have a
  node in common that is outside any given set of at most \<open>FaultyTolerance\<close> faulty nodes.
\<close>

theorem quorums_share_correct_node:
  assumes "pbft_set vs"
    and "A \<subseteq> ids vs" "B \<subseteq> ids vs"
    and "QuorumSize vs \<le> int (card A)" "QuorumSize vs \<le> int (card B)"
    and "finite F" "int (card F) \<le> FaultyTolerance vs"
  shows "\<exists>x. x \<in> A \<and> x \<in> B \<and> x \<notin> F"
proof -
  have vs: "Rep_pbft_validators (Abs_pbft_validators vs) = vs"
    using assms(1) by (simp add: Abs_pbft_validators_inverse)
  have "quorum_of vs \<le> card A" "quorum_of vs \<le> card B" "card F \<le> tolerance_of vs"
    using assms(4,5,7) by (simp_all add: quorum_of_def tolerance_of_def nat_le_iff le_nat_iff
        FaultyTolerance_nonneg)
  from pv.correct_in_common [of A "Abs_pbft_validators vs" B F, unfolded vs, OF assms(2,3) this assms(6)]
  show ?thesis by blast
qed

theorem quorums_share_correct_node_witness:
  "\<exists>x. x \<in> {''node0'', ''node1'', ''node2''} \<and> x \<in> {''node1'', ''node2'', ''node3''} \<and> x \<notin> {''node1''}"
  by (rule quorums_share_correct_node [OF pbft_set_default]) (simp_all add: ids_default size_default)

section \<open>Sets of other sizes\<close>

text \<open>
  Two groups of \<open>q\<close> members of a list without repetition that overlap as little as possible.
\<close>

lemma small_overlap:
  assumes "distinct xs" and "q \<le> length xs"
  shows "card (set (take q xs) \<inter> set (drop (length xs - q) xs)) = 2 * q - length xs"
proof -
  let ?A = "set (take q xs)" and ?B = "set (drop (length xs - q) xs)"
  have cards: "card ?A = q" "card ?B = q"
    using assms by (simp_all add: distinct_card)
  show ?thesis
  proof (cases "2 * q \<le> length xs")
    case True
    then have "q \<le> length xs - q" by simp
    then have "set (drop (length xs - q) xs) \<subseteq> set (drop q xs)"
      by (rule set_drop_subset_set_drop)
    then have "?A \<inter> ?B = {}"
      using set_take_disj_set_drop_if_distinct [OF assms(1), of q q] by blast
    then show ?thesis using True by simp
  next
    case False
    then have "length xs - q \<le> q" by simp
    then have "set (take (length xs - q) xs) \<subseteq> ?A"
      by (rule set_take_subset_set_take)
    moreover have "set xs = set (take (length xs - q) xs) \<union> ?B"
      by (metis append_take_drop_id set_append)
    ultimately have "?A \<union> ?B = set xs"
      using set_take_subset [of q xs] by blast
    then have "card (?A \<union> ?B) = length xs"
      using assms(1) by (simp add: distinct_card)
    then show ?thesis
      using card_Un_Int [of ?A ?B] cards by simp
  qed
qed

lemma quorum_deficit:
  assumes "(n :: nat) mod 3 \<noteq> 1" and "n \<noteq> 0"
  shows "2 * (2 * ((n - 1) div 3) + 1) - n \<le> (n - 1) div 3"
proof -
  define k where "k = n div 3"
  have n: "n = 3 * k + n mod 3" and "n mod 3 < 3" by (simp_all add: k_def)
  then have "n mod 3 = 0 \<or> n mod 3 = 2" using assms by linarith
  then show ?thesis
  proof
    assume r: "n mod 3 = 2"
    then have "(n - 1) div 3 = k" using n by simp
    then show ?thesis using n r by simp
  next
    assume r: "n mod 3 = 0"
    show ?thesis
    proof (cases k)
      case 0
      then show ?thesis using n r assms(2) by simp
    next
      case (Suc j)
      then have "(n - 1) div 3 = j" using n r by simp
      then show ?thesis using n r Suc by simp
    qed
  qed
qed

text \<open>
  For every other size (\<open>n = 3 f + 2\<close> or \<open>3 f + 3\<close>) the code's quorum is too small: there
  are two groups of \<open>QuorumSize\<close> nodes whose common members are at most \<open>FaultyTolerance\<close>
  many, so all of them may be faulty.
\<close>

theorem quorums_may_miss_correct_nodes:
  assumes "distinct (map vID (vsValidators vs))" and "vsValidators vs \<noteq> []"
    and "length (vsValidators vs) mod 3 \<noteq> 1"
  shows "\<exists>A B. A \<subseteq> ids vs \<and> B \<subseteq> ids vs \<and> int (card A) = QuorumSize vs \<and>
               int (card B) = QuorumSize vs \<and> int (card (A \<inter> B)) \<le> FaultyTolerance vs"
proof -
  let ?xs = "map vID (vsValidators vs)" and ?q = "quorum_of vs"
  let ?A = "set (take ?q ?xs)" and ?B = "set (drop (length ?xs - ?q) ?xs)"
  have q: "int ?q = QuorumSize vs" using QuorumSize_ge_1 [of vs] by (simp add: quorum_of_def)
  have le: "?q \<le> length ?xs"
    using QuorumSize_le_Size [OF assms(2)] q by simp
  have "2 * ?q - length ?xs \<le> tolerance_of vs"
    unfolding quorum_of_eq [OF assms(2)] tolerance_of_eq [OF assms(2)] length_map
    by (rule quorum_deficit [OF assms(3)]) (use assms(2) in simp)
  then have "int (card (?A \<inter> ?B)) \<le> FaultyTolerance vs"
    using small_overlap [OF assms(1) le] by (simp add: tolerance_of_def le_nat_iff FaultyTolerance_nonneg)
  moreover have "card ?A = ?q" "card ?B = ?q"
    using assms(1) le distinct_take [OF assms(1)] distinct_drop [OF assms(1)]
    by (simp_all add: distinct_card)
  moreover have "?A \<subseteq> ids vs" "?B \<subseteq> ids vs"
    using set_take_subset [of ?q ?xs] set_drop_subset [of "length ?xs - ?q" ?xs]
    by (simp_all add: ids_def)
  ultimately show ?thesis using q by (intro exI [of _ ?A] exI [of _ ?B]) simp
qed

definition six_nodes :: ValidatorSet where
  "six_nodes = NewValidatorSet (map (\<lambda>i. \<lparr>vID = i, vAddress = '''', vPublicKey = bytes_of_string i, vPower = 1\<rparr>)
     [''n0'', ''n1'', ''n2'', ''n3'', ''n4'', ''n5''])"

theorem quorums_may_miss_correct_nodes_witness:
  "\<exists>A B. A \<subseteq> ids six_nodes \<and> B \<subseteq> ids six_nodes \<and> int (card A) = QuorumSize six_nodes \<and>
         int (card B) = QuorumSize six_nodes \<and> int (card (A \<inter> B)) \<le> FaultyTolerance six_nodes"
  by (rule quorums_may_miss_correct_nodes) (simp_all add: six_nodes_def NewValidatorSet_def)

end
