(* ===== verification/Mempool.thy ===== *)
theory Mempool
  imports Types
begin

text \<open>
  \<open>mempool/tx.go\<close> and \<open>mempool/mempool.go\<close>: the transaction pool. A method is a function of
  the pool (the mutex makes it atomic), of the clock reading \<open>now\<close> and of the orders in which
  \<open>range\<close> visits the two maps and in which the unstable \<open>sort.Slice\<close> leaves equal elements
  (\<open>mp_env\<close>). \<open>int\<close> and \<open>int64\<close> counters of objects in memory are \<open>int\<close>. The \<open>CheckTx\<close>
  callback is a function of the transaction; the result \<open>Some e\<close> is its error.
\<close>

section \<open>Transactions\<close>

record Tx =
  tHash :: bytes
  tID :: string
  tData :: bytes
  tSender :: string
  tNonce :: u64
  tGasPrice :: u64
  tGasLimit :: u64
  tTimestamp :: gotime
  tHeight :: int
  tCheckedAt :: gotime

definition NewTx :: "gotime \<Rightarrow> bytes \<Rightarrow> Tx" where
  "NewTx now data =
     (let hash = sha256 data
      in \<lparr>tHash = hash, tID = hex_encode hash, tData = data, tSender = [], tNonce = 0,
          tGasPrice = 0, tGasLimit = 0, tTimestamp = now, tHeight = 0, tCheckedAt = now\<rparr>)"

definition NewTxWithMeta :: "gotime \<Rightarrow> bytes \<Rightarrow> string \<Rightarrow> u64 \<Rightarrow> u64 \<Rightarrow> u64 \<Rightarrow> Tx" where
  "NewTxWithMeta now data sender nonce gasPrice gasLimit =
     (NewTx now data)\<lparr>tSender := sender, tNonce := nonce, tGasPrice := gasPrice, tGasLimit := gasLimit\<rparr>"

definition tx_Size :: "Tx \<Rightarrow> int" where
  "tx_Size tx = int (length (tData tx))"

definition tx_Age :: "gotime \<Rightarrow> Tx \<Rightarrow> int" where
  "tx_Age now tx = now - tTimestamp tx"

definition Priority :: "Tx \<Rightarrow> u64" where
  "Priority tx = tGasPrice tx"

section \<open>The pool\<close>

datatype mempool_error =
  ErrTxAlreadyExists | ErrMempoolFull | ErrTxTooLarge | ErrTxExpired | ErrInvalidTx string
  | ErrLowNonce | ErrNonceGap | ErrInsufficientGas | ErrMempoolNotRunning

record MempoolConfig =
  mcMaxTxs :: int
  mcMaxBytes :: int
  mcMaxTxBytes :: int
  mcMaxBatchTxs :: int
  mcTTL :: int
  mcRecheckEnabled :: bool
  mcRecheckTimeout :: int
  mcCacheSize :: int
  mcMinGasPrice :: u64

text \<open>Durations are in nanoseconds.\<close>

definition DefaultMempoolConfig :: MempoolConfig where
  "DefaultMempoolConfig =
     \<lparr>mcMaxTxs = 5000, mcMaxBytes = 1024 * 1024 * 1024, mcMaxTxBytes = 1024 * 1024,
      mcMaxBatchTxs = 500, mcTTL = 600000000000, mcRecheckEnabled = True,
      mcRecheckTimeout = 5000000000, mcCacheSize = 10000, mcMinGasPrice = 0\<rparr>"

record MempoolMetrics =
  mmTxsReceived :: int
  mmTxsAccepted :: int
  mmTxsRejected :: int
  mmTxsExpired :: int
  mmTxsEvicted :: int
  mmTxsCommitted :: int
  mmRecheckCount :: int
  mmCurrentSize :: int
  mmCurrentBytes :: int
  mmPeakSize :: int
  mmPeakBytes :: int
  mmLastBlockTime :: gotime

record Mempool =
  mpConfig :: MempoolConfig
  mpTxStore :: "(string, Tx) gomap"
  mpSenderIndex :: "(string, Tx list) gomap"
  mpTxCount :: int
  mpTxBytes :: int
  mpHeight :: int
  mpIsRunning :: bool
  mpSenderNonce :: "(string, u64) gomap"
  mpRecentlyRemoved :: "(string, gotime) gomap"
  mpCheckTxCallback :: "(Tx \<Rightarrow> string option) option"
  mpNewTxCh :: "Tx list"
  mpChClosed :: bool
  mpMetrics :: MempoolMetrics

record mp_env =
  env_now :: gotime
  env_range :: "(string \<times> Tx) list \<Rightarrow> (string \<times> Tx) list"
  env_sort :: "Tx list \<Rightarrow> Tx list"
  env_cache :: "(string \<times> gotime) list \<Rightarrow> (string \<times> gotime) list"

definition env_ok :: "mp_env \<Rightarrow> bool" where
  "env_ok E \<longleftrightarrow> go_order (env_range E) \<and> go_order (env_sort E) \<and> go_order (env_cache E)"

definition NewMempool :: "MempoolConfig option \<Rightarrow> Mempool" where
  "NewMempool config =
     \<lparr>mpConfig = (case config of None \<Rightarrow> DefaultMempoolConfig | Some c \<Rightarrow> c),
      mpTxStore = [], mpSenderIndex = [], mpTxCount = 0, mpTxBytes = 0, mpHeight = 0,
      mpIsRunning = False, mpSenderNonce = [], mpRecentlyRemoved = [], mpCheckTxCallback = None,
      mpNewTxCh = [], mpChClosed = False,
      mpMetrics = \<lparr>mmTxsReceived = 0, mmTxsAccepted = 0, mmTxsRejected = 0, mmTxsExpired = 0,
        mmTxsEvicted = 0, mmTxsCommitted = 0, mmRecheckCount = 0, mmCurrentSize = 0,
        mmCurrentBytes = 0, mmPeakSize = 0, mmPeakBytes = 0, mmLastBlockTime = 0\<rparr>\<rparr>"

text \<open>The buffer of \<open>newTxCh\<close>.\<close>

definition newTxCh_cap :: nat where
  "newTxCh_cap = 1000"

definition mp_Start :: "Mempool \<Rightarrow> Mempool" where
  "mp_Start mp = (if mpIsRunning mp then mp else mp\<lparr>mpIsRunning := True\<rparr>)"

definition mp_Stop :: "Mempool \<Rightarrow> Mempool go" where
  "mp_Stop mp =
     (if \<not> mpIsRunning mp then Ret mp
      else if mpChClosed mp then Panic Closed_Channel
      else Ret (mp\<lparr>mpIsRunning := False, mpChClosed := True\<rparr>))"

definition SetCheckTxCallback :: "(Tx \<Rightarrow> string option) option \<Rightarrow> Mempool \<Rightarrow> Mempool" where
  "SetCheckTxCallback cb mp = mp\<lparr>mpCheckTxCallback := cb\<rparr>"

section \<open>Metrics helpers\<close>

definition update_metrics :: "(MempoolMetrics \<Rightarrow> MempoolMetrics) \<Rightarrow> Mempool \<Rightarrow> Mempool" where
  "update_metrics f mp = mp\<lparr>mpMetrics := f (mpMetrics mp)\<rparr>"

definition acceptTx :: "Mempool \<Rightarrow> Mempool" where
  "acceptTx = update_metrics (\<lambda>m. m\<lparr>mmTxsAccepted := mmTxsAccepted m + 1\<rparr>)"

definition rejectTx :: "Mempool \<Rightarrow> Mempool" where
  "rejectTx = update_metrics (\<lambda>m. m\<lparr>mmTxsRejected := mmTxsRejected m + 1\<rparr>)"

definition updateMetrics :: "Mempool \<Rightarrow> Mempool" where
  "updateMetrics mp = update_metrics (\<lambda>m.
     m\<lparr>mmCurrentSize := mpTxCount mp, mmCurrentBytes := mpTxBytes mp,
       mmPeakSize := (if mpTxCount mp > mmPeakSize m then mpTxCount mp else mmPeakSize m),
       mmPeakBytes := (if mpTxBytes mp > mmPeakBytes m then mpTxBytes mp else mmPeakBytes m)\<rparr>) mp"

section \<open>Adding and removing\<close>

definition checkNonce :: "string \<Rightarrow> u64 \<Rightarrow> Mempool \<Rightarrow> mempool_error option" where
  "checkNonce sender nonce mp =
     (case go_get (mpSenderNonce mp) sender of
        None \<Rightarrow> None
      | Some lastNonce \<Rightarrow> if nonce \<le> lastNonce then Some ErrLowNonce else None)"

text \<open>A missing key of the sender maps reads as the empty slice, or as nonce 0.\<close>

definition sender_txs :: "string \<Rightarrow> Mempool \<Rightarrow> Tx list" where
  "sender_txs s mp = (case go_get (mpSenderIndex mp) s of None \<Rightarrow> [] | Some l \<Rightarrow> l)"

definition sender_nonce :: "string \<Rightarrow> Mempool \<Rightarrow> u64" where
  "sender_nonce s mp = (case go_get (mpSenderNonce mp) s of None \<Rightarrow> 0 | Some n \<Rightarrow> n)"

definition addTxLocked :: "mp_env \<Rightarrow> Tx \<Rightarrow> Mempool \<Rightarrow> Mempool" where
  "addTxLocked E tx mp =
     (let mp = mp\<lparr>mpTxStore := go_put (tID tx) tx (mpTxStore mp),
                  mpTxCount := mpTxCount mp + 1,
                  mpTxBytes := mpTxBytes mp + tx_Size tx\<rparr>;
          mp = (if tSender tx \<noteq> [] then
                  let senderTxs = sort_key tNonce (env_sort E (sender_txs (tSender tx) mp @ [tx]));
                      mp = mp\<lparr>mpSenderIndex := go_put (tSender tx) senderTxs (mpSenderIndex mp)\<rparr>
                  in if tNonce tx > sender_nonce (tSender tx) mp
                     then mp\<lparr>mpSenderNonce := go_put (tSender tx) (tNonce tx) (mpSenderNonce mp)\<rparr>
                     else mp
                else mp)
      in updateMetrics mp)"

text \<open>The loop of \<open>removeTxLocked\<close> over the sender's slice stops at the first match.\<close>

fun remove_first :: "string \<Rightarrow> Tx list \<Rightarrow> Tx list" where
  "remove_first i [] = []"
| "remove_first i (t # ts) = (if tID t = i then ts else t # remove_first i ts)"

definition removeTxLocked :: "gotime \<Rightarrow> string \<Rightarrow> bool \<Rightarrow> Mempool \<Rightarrow> Mempool" where
  "removeTxLocked now txid addToCache mp =
     (case go_get (mpTxStore mp) txid of
        None \<Rightarrow> mp
      | Some tx \<Rightarrow>
          let mp = mp\<lparr>mpTxStore := go_del txid (mpTxStore mp),
                      mpTxCount := mpTxCount mp - 1,
                      mpTxBytes := mpTxBytes mp - tx_Size tx\<rparr>;
              mp = (if tSender tx \<noteq> [] then
                      let senderTxs = sender_txs (tSender tx) mp;
                          mp = (if \<exists>t \<in> set senderTxs. tID t = txid
                                then mp\<lparr>mpSenderIndex := go_put (tSender tx)
                                          (remove_first txid senderTxs) (mpSenderIndex mp)\<rparr>
                                else mp)
                      in if sender_txs (tSender tx) mp = []
                         then mp\<lparr>mpSenderIndex := go_del (tSender tx) (mpSenderIndex mp)\<rparr>
                         else mp
                    else mp);
              mp = (if addToCache
                    then mp\<lparr>mpRecentlyRemoved := go_put txid now (mpRecentlyRemoved mp)\<rparr> else mp)
          in updateMetrics mp)"

text \<open>The scan for the cheapest transaction: strictly below the maximal \<open>uint64\<close>.\<close>

definition lowest_tx :: "mp_env \<Rightarrow> Mempool \<Rightarrow> u64 \<times> Tx option" where
  "lowest_tx E mp =
     fold (\<lambda>(i, tx) (lowestPrice, lowestTx).
            if tGasPrice tx < lowestPrice then (tGasPrice tx, Some tx) else (lowestPrice, lowestTx))
       (env_range E (mpTxStore mp)) (- 1, None)"

definition evictLowestPriority :: "mp_env \<Rightarrow> u64 \<Rightarrow> Mempool \<Rightarrow> Mempool option" where
  "evictLowestPriority E minPrice mp =
     (case lowest_tx E mp of
        (_, None) \<Rightarrow> None
      | (lowestPrice, Some lowestTx) \<Rightarrow>
          if lowestPrice \<ge> minPrice then None
          else Some (update_metrics (\<lambda>m. m\<lparr>mmTxsEvicted := mmTxsEvicted m + 1\<rparr>)
                       (removeTxLocked (env_now E) (tID lowestTx) True mp)))"

text \<open>
  The two eviction loops: \<open>Inl\<close> when an eviction fails and the caller returns
  \<open>ErrMempoolFull\<close>; the evictions made so far stay.
\<close>

partial_function (option) evict_while ::
  "(Mempool \<Rightarrow> bool) \<Rightarrow> mp_env \<Rightarrow> u64 \<Rightarrow> Mempool \<Rightarrow> (Mempool + Mempool) option" where
  "evict_while cond E price mp =
     (if cond mp
      then (case evictLowestPriority E price mp of
              None \<Rightarrow> Some (Inl mp)
            | Some mp' \<Rightarrow> evict_while cond E price mp')
      else Some (Inr mp))"

definition ensureCapacity ::
  "mp_env \<Rightarrow> Tx \<Rightarrow> Mempool \<Rightarrow> (Mempool \<times> mempool_error option) go" where
  "ensureCapacity E newTx mp =
     go_bind (of_loop (evict_while (\<lambda>mp. mpTxCount mp \<ge> mcMaxTxs (mpConfig mp)) E (tGasPrice newTx) mp))
       (\<lambda>r. case r of
          Inl mp \<Rightarrow> Ret (mp, Some ErrMempoolFull)
        | Inr mp \<Rightarrow>
            go_bind (of_loop (evict_while
                (\<lambda>mp. mpTxBytes mp + tx_Size newTx > mcMaxBytes (mpConfig mp)) E (tGasPrice newTx) mp))
              (\<lambda>r. case r of
                 Inl mp \<Rightarrow> Ret (mp, Some ErrMempoolFull)
               | Inr mp \<Rightarrow> Ret (mp, None)))"

text \<open>A non-blocking send: dropped when the buffer is full, a panic on a closed channel.\<close>

definition notify_new_tx :: "Tx \<Rightarrow> Mempool \<Rightarrow> Mempool go" where
  "notify_new_tx tx mp =
     (if mpChClosed mp then Panic Closed_Channel
      else if length (mpNewTxCh mp) < newTxCh_cap then Ret (mp\<lparr>mpNewTxCh := mpNewTxCh mp @ [tx]\<rparr>)
      else Ret mp)"

definition AddTxWithMeta ::
  "mp_env \<Rightarrow> bytes \<Rightarrow> string \<Rightarrow> u64 \<Rightarrow> u64 \<Rightarrow> u64 \<Rightarrow> Mempool
    \<Rightarrow> (Mempool \<times> mempool_error option) go" where
  "AddTxWithMeta E txBytes sender nonce gasPrice gasLimit mp =
     (if \<not> mpIsRunning mp then Ret (mp, Some ErrMempoolNotRunning)
      else
        let mp = update_metrics (\<lambda>m. m\<lparr>mmTxsReceived := mmTxsReceived m + 1\<rparr>) mp
        in if int (length txBytes) > mcMaxTxBytes (mpConfig mp)
           then Ret (rejectTx mp, Some ErrTxTooLarge)
           else
             let tx = (NewTxWithMeta (env_now E) txBytes sender nonce gasPrice gasLimit)
                        \<lparr>tHeight := mpHeight mp\<rparr>
             in if go_get (mpTxStore mp) (tID tx) \<noteq> None
                then Ret (rejectTx mp, Some ErrTxAlreadyExists)
                else if go_get (mpRecentlyRemoved mp) (tID tx) \<noteq> None
                then Ret (rejectTx mp, Some ErrTxAlreadyExists)
                else if gasPrice < mcMinGasPrice (mpConfig mp)
                then Ret (rejectTx mp, Some ErrInsufficientGas)
                else case (if sender \<noteq> [] then checkNonce sender nonce mp else None) of
                  Some err \<Rightarrow> Ret (rejectTx mp, Some err)
                | None \<Rightarrow>
                    (case (case mpCheckTxCallback mp of None \<Rightarrow> None | Some cb \<Rightarrow> cb tx) of
                       Some err \<Rightarrow> Ret (rejectTx mp, Some (ErrInvalidTx err))
                     | None \<Rightarrow>
                         go_bind (ensureCapacity E tx mp) (\<lambda>(mp, full).
                           case full of
                             Some err \<Rightarrow> Ret (rejectTx mp, Some err)
                           | None \<Rightarrow>
                               go_bind (notify_new_tx tx (addTxLocked E tx mp))
                                 (\<lambda>mp. Ret (acceptTx mp, None)))))"

definition AddTx :: "mp_env \<Rightarrow> bytes \<Rightarrow> Mempool \<Rightarrow> (Mempool \<times> mempool_error option) go" where
  "AddTx E txBytes mp = AddTxWithMeta E txBytes [] 0 0 0 mp"

section \<open>Reaping\<close>

definition ReapMaxTxs :: "mp_env \<Rightarrow> int \<Rightarrow> Mempool \<Rightarrow> Tx list go" where
  "ReapMaxTxs E mx mp =
     (let mx = (if mx \<le> 0 \<or> mx > mcMaxBatchTxs (mpConfig mp) then mcMaxBatchTxs (mpConfig mp) else mx)
      in if mpTxCount mp = 0 then Ret []
         else
           let txs = sort_key tTimestamp (map snd (env_range E (mpTxStore mp)))
           in if int (length txs) > mx
              then (if mx < 0 then Panic Index_Out_Of_Range else Ret (take (nat mx) txs))
              else Ret txs)"

fun take_bytes :: "int \<Rightarrow> int \<Rightarrow> Tx list \<Rightarrow> Tx list" where
  "take_bytes maxBytes used [] = []"
| "take_bytes maxBytes used (tx # txs) =
     (if used + tx_Size tx > maxBytes then []
      else tx # take_bytes maxBytes (used + tx_Size tx) txs)"

definition ReapMaxBytes :: "mp_env \<Rightarrow> int \<Rightarrow> Mempool \<Rightarrow> Tx list go" where
  "ReapMaxBytes E maxBytes mp =
     (if mpTxCount mp = 0 then Ret []
      else go_bind (ReapMaxTxs E (mpTxCount mp) mp) (\<lambda>txs. Ret (take_bytes maxBytes 0 txs)))"

section \<open>After a block\<close>

definition recheckTxsLocked :: "mp_env \<Rightarrow> Mempool \<Rightarrow> Mempool" where
  "recheckTxsLocked E mp =
     (case mpCheckTxCallback mp of
        None \<Rightarrow> mp
      | Some cb \<Rightarrow>
          let mp = update_metrics (\<lambda>m. m\<lparr>mmRecheckCount := mmRecheckCount m + 1\<rparr>) mp;
              toRemove = map fst (filter (\<lambda>(i, tx). cb tx \<noteq> None) (env_range E (mpTxStore mp)))
          in fold (\<lambda>i mp. removeTxLocked (env_now E) i False mp) toRemove mp)"

definition commit_tx :: "mp_env \<Rightarrow> bytes \<Rightarrow> Mempool \<Rightarrow> Mempool" where
  "commit_tx E txBytes mp =
     update_metrics (\<lambda>m. m\<lparr>mmTxsCommitted := mmTxsCommitted m + 1\<rparr>)
       (removeTxLocked (env_now E) (tID (NewTx (env_now E) txBytes)) True mp)"

definition Update :: "mp_env \<Rightarrow> int \<Rightarrow> bytes list \<Rightarrow> Mempool \<Rightarrow> Mempool" where
  "Update E height committedTxs mp =
     (let mp = mp\<lparr>mpHeight := height\<rparr>;
          mp = update_metrics (\<lambda>m. m\<lparr>mmLastBlockTime := env_now E\<rparr>) mp;
          mp = fold (commit_tx E) committedTxs mp
      in if mcRecheckEnabled (mpConfig mp) then recheckTxsLocked E mp else mp)"

section \<open>Queries\<close>

definition GetTx :: "string \<Rightarrow> Mempool \<Rightarrow> Tx option" where
  "GetTx txid mp = go_get (mpTxStore mp) txid"

definition HasTx :: "string \<Rightarrow> Mempool \<Rightarrow> bool" where
  "HasTx txid mp \<longleftrightarrow> go_get (mpTxStore mp) txid \<noteq> None"

definition mp_Size :: "Mempool \<Rightarrow> int" where
  "mp_Size mp = mpTxCount mp"

definition SizeBytes :: "Mempool \<Rightarrow> int" where
  "SizeBytes mp = mpTxBytes mp"

definition GetTxsBySender :: "string \<Rightarrow> Mempool \<Rightarrow> Tx list" where
  "GetTxsBySender sender mp = sender_txs sender mp"

definition GetMetrics :: "Mempool \<Rightarrow> MempoolMetrics" where
  "GetMetrics mp = (mpMetrics mp)\<lparr>mmCurrentSize := mpTxCount mp, mmCurrentBytes := mpTxBytes mp\<rparr>"

text \<open>A receive from \<open>NewTxCh()\<close>, for a consumer that finds a transaction waiting.\<close>

definition recv_new_tx :: "Mempool \<Rightarrow> (Tx \<times> Mempool) option" where
  "recv_new_tx mp = (case mpNewTxCh mp of [] \<Rightarrow> None | tx # q \<Rightarrow> Some (tx, mp\<lparr>mpNewTxCh := q\<rparr>))"

section \<open>Background work\<close>

definition expireTxs :: "mp_env \<Rightarrow> Mempool \<Rightarrow> Mempool" where
  "expireTxs E mp =
     (let now = env_now E;
          toRemove = map fst (filter (\<lambda>(i, tx). now - tTimestamp tx > mcTTL (mpConfig mp))
                                (env_range E (mpTxStore mp)))
      in fold (\<lambda>i mp. update_metrics (\<lambda>m. m\<lparr>mmTxsExpired := mmTxsExpired m + 1\<rparr>)
                 (removeTxLocked now i True mp)) toRemove mp)"

definition cleanupCache :: "mp_env \<Rightarrow> Mempool \<Rightarrow> Mempool go" where
  "cleanupCache E mp =
     (let cutoff = env_now E - mcTTL (mpConfig mp);
          removed = filter (\<lambda>(i, removedAt). \<not> removedAt < cutoff) (mpRecentlyRemoved mp)
      in if int (length removed) > mcCacheSize (mpConfig mp)
         then
           let entries = sort_key snd (env_cache E removed);
               toRemove = int (length removed) - mcCacheSize (mpConfig mp)
           in if toRemove > int (length entries) then Panic Index_Out_Of_Range
              else Ret (mp\<lparr>mpRecentlyRemoved :=
                     fold (\<lambda>(i, t) m. go_del i m) (take (nat toRemove) entries) removed\<rparr>)
         else Ret (mp\<lparr>mpRecentlyRemoved := removed\<rparr>))"

definition Flush :: "Mempool \<Rightarrow> Mempool" where
  "Flush mp = updateMetrics
     (mp\<lparr>mpTxStore := [], mpSenderIndex := [], mpSenderNonce := [], mpTxCount := 0, mpTxBytes := 0\<rparr>)"

section \<open>Background loops\<close>

text \<open>
  The two goroutines of \<open>Start\<close>, given what their \<open>select\<close> takes: the end of the pool, or a tick.
  \<open>time.NewTicker\<close> panics on an interval that is not positive.
\<close>

datatype loop_event = Loop_Done | Loop_Tick mp_env

fun expire_ticks :: "loop_event list \<Rightarrow> Mempool \<Rightarrow> Mempool" where
  "expire_ticks [] mp = mp"
| "expire_ticks (Loop_Done # evs) mp = mp"
| "expire_ticks (Loop_Tick E # evs) mp = expire_ticks evs (expireTxs E mp)"

definition expireLoop :: "loop_event list \<Rightarrow> Mempool \<Rightarrow> Mempool go" where
  "expireLoop evs mp =
     (if mcTTL (mpConfig mp) div 2 \<le> 0 then Panic Explicit_Panic else Ret (expire_ticks evs mp))"

fun cleanupCacheLoop :: "loop_event list \<Rightarrow> Mempool \<Rightarrow> Mempool go" where
  "cleanupCacheLoop [] mp = Ret mp"
| "cleanupCacheLoop (Loop_Done # evs) mp = Ret mp"
| "cleanupCacheLoop (Loop_Tick E # evs) mp = go_bind (cleanupCache E mp) (cleanupCacheLoop evs)"

definition tx_Key :: "Tx \<Rightarrow> string" where
  "tx_Key tx = tID tx"

definition SenderKey :: "Tx \<Rightarrow> string" where
  "SenderKey tx = tSender tx"

end
