(* ===== verification/Mempool_Inv.thy ===== *)
theory Mempool_Inv
  imports Mempool
begin

text \<open>
  The invariant of the transaction pool: the store is keyed by transaction id, the counters
  count it, and the sender index holds exactly the stored transactions of each sender in nonce
  order. Every operation keeps it; what each does to the store is stated on the multiset of
  stored transactions.
\<close>

section \<open>The invariant\<close>

definition stored :: "Mempool \<Rightarrow> Tx multiset" where
  "stored mp = mset (map snd (mpTxStore mp))"

definition bytes_of :: "Tx multiset \<Rightarrow> int" where
  "bytes_of M = (\<Sum>t\<in>#M. tx_Size t)"

definition index_ok :: "Tx multiset \<Rightarrow> (string, Tx list) gomap \<Rightarrow> bool" where
  "index_ok M ix \<longleftrightarrow> go_wf ix \<and>
     (\<forall>e \<in> set ix. fst e \<noteq> [] \<and> snd e \<noteq> [] \<and> sorted (map tNonce (snd e))) \<and>
     (\<forall>s. s \<noteq> [] \<longrightarrow> mset (case go_get ix s of None \<Rightarrow> [] | Some l \<Rightarrow> l) = filter_mset (\<lambda>t. tSender t = s) M)"

definition mp_ok :: "Mempool \<Rightarrow> bool" where
  "mp_ok mp \<longleftrightarrow> go_wf (mpTxStore mp) \<and> keyed tID (mpTxStore mp) \<and>
     mpTxCount mp = int (size (stored mp)) \<and> mpTxBytes mp = bytes_of (stored mp) \<and>
     index_ok (stored mp) (mpSenderIndex mp)"

lemma mp_ok_New [simp]: "mp_ok (NewMempool c)"
  by (simp add: mp_ok_def NewMempool_def stored_def bytes_of_def index_ok_def)

lemma mp_ok_frame [simp]:
  "mp_ok (mp\<lparr>mpMetrics := a\<rparr>) = mp_ok mp" "mp_ok (mp\<lparr>mpRecentlyRemoved := b\<rparr>) = mp_ok mp"
  "mp_ok (mp\<lparr>mpSenderNonce := c\<rparr>) = mp_ok mp" "mp_ok (mp\<lparr>mpHeight := d\<rparr>) = mp_ok mp"
  "mp_ok (mp\<lparr>mpIsRunning := e\<rparr>) = mp_ok mp" "mp_ok (mp\<lparr>mpNewTxCh := f\<rparr>) = mp_ok mp"
  "mp_ok (mp\<lparr>mpChClosed := g\<rparr>) = mp_ok mp" "mp_ok (mp\<lparr>mpCheckTxCallback := h\<rparr>) = mp_ok mp"
  by (simp_all add: mp_ok_def stored_def)

lemma stored_frame [simp]:
  "stored (mp\<lparr>mpMetrics := a\<rparr>) = stored mp" "stored (mp\<lparr>mpRecentlyRemoved := b\<rparr>) = stored mp"
  "stored (mp\<lparr>mpSenderNonce := c\<rparr>) = stored mp" "stored (mp\<lparr>mpHeight := d\<rparr>) = stored mp"
  "stored (mp\<lparr>mpNewTxCh := f\<rparr>) = stored mp" "stored (mp\<lparr>mpSenderIndex := i\<rparr>) = stored mp"
  "stored (mp\<lparr>mpTxCount := j\<rparr>) = stored mp" "stored (mp\<lparr>mpTxBytes := k\<rparr>) = stored mp"
  by (simp_all add: stored_def)

lemma update_metrics_simps [simp]:
  "mp_ok (update_metrics f mp) = mp_ok mp" "stored (update_metrics f mp) = stored mp"
  "mpConfig (update_metrics f mp) = mpConfig mp" "mpTxStore (update_metrics f mp) = mpTxStore mp"
  "mpSenderIndex (update_metrics f mp) = mpSenderIndex mp" "mpTxCount (update_metrics f mp) = mpTxCount mp"
  "mpTxBytes (update_metrics f mp) = mpTxBytes mp" "mpHeight (update_metrics f mp) = mpHeight mp"
  "mpIsRunning (update_metrics f mp) = mpIsRunning mp" "mpSenderNonce (update_metrics f mp) = mpSenderNonce mp"
  "mpRecentlyRemoved (update_metrics f mp) = mpRecentlyRemoved mp"
  "mpCheckTxCallback (update_metrics f mp) = mpCheckTxCallback mp"
  "mpNewTxCh (update_metrics f mp) = mpNewTxCh mp" "mpChClosed (update_metrics f mp) = mpChClosed mp"
  "sender_nonce s (update_metrics f mp) = sender_nonce s mp"
  by (simp_all add: update_metrics_def sender_nonce_def)

lemma mp_ok_count: "mp_ok mp \<Longrightarrow> mpTxCount mp = int (length (mpTxStore mp))"
  by (simp add: mp_ok_def stored_def)

lemma stored_unique:
  assumes "mp_ok mp" and "t \<in># stored mp"
  shows "go_get (mpTxStore mp) (tID t) = Some t"
proof -
  from assms(2) obtain i where "(i, t) \<in> set (mpTxStore mp)" by (auto simp: stored_def)
  then show ?thesis
    using assms(1) by (force simp: mp_ok_def keyed_def go_get_Some_iff)
qed

lemma stored_get: "go_get (mpTxStore mp) i = Some t \<Longrightarrow> t \<in># stored mp"
  by (force simp: stored_def dest: map_of_SomeD)

lemma stored_id: "mp_ok mp \<Longrightarrow> go_get (mpTxStore mp) i = Some t \<Longrightarrow> tID t = i"
  unfolding mp_ok_def using keyed_get by fast

section \<open>The sender index\<close>

lemma index_ok_add:
  assumes ix: "index_ok M ix" and f: "go_order f" and s: "tSender t \<noteq> []"
  shows "index_ok (add_mset t M)
    (go_put (tSender t) (sort_key tNonce (f ((case go_get ix (tSender t) of None \<Rightarrow> [] | Some l \<Rightarrow> l) @ [t]))) ix)"
    (is "index_ok _ (go_put ?s ?l ix)")
proof -
  have ms: "mset ?l = add_mset t (filter_mset (\<lambda>u. tSender u = ?s) M)"
    using ix s f by (simp add: index_ok_def go_order_def)
  have "\<forall>e \<in> set (go_put ?s ?l ix). fst e \<noteq> [] \<and> snd e \<noteq> [] \<and> sorted (map tNonce (snd e))"
  proof
    fix e assume "e \<in> set (go_put ?s ?l ix)"
    then consider "e = (?s, ?l)" | "e \<in> set ix" using set_go_put_subset [of ?s ?l ix] by blast
    then show "fst e \<noteq> [] \<and> snd e \<noteq> [] \<and> sorted (map tNonce (snd e))"
    proof cases
      case 1
      have "?l \<noteq> []" using ms by (metis add_mset_not_empty mset_zero_iff)
      with 1 s show ?thesis by simp
    qed (use ix in \<open>simp add: index_ok_def\<close>)
  qed
  moreover have "mset (case go_get (go_put ?s ?l ix) u of None \<Rightarrow> [] | Some l \<Rightarrow> l) =
      filter_mset (\<lambda>v. tSender v = u) (add_mset t M)" if "u \<noteq> []" for u
    using ix ms that by (cases "tSender t = u") (auto simp: index_ok_def)
  ultimately show ?thesis using ix by (simp add: index_ok_def)
qed

lemma index_ok_add_anonymous:
  "index_ok M ix \<Longrightarrow> tSender t = [] \<Longrightarrow> index_ok (add_mset t M) ix"
  by (auto simp: index_ok_def)

lemma remove_first_remove1:
  "\<forall>u \<in> set l. tID u = i \<longleftrightarrow> u = t \<Longrightarrow> remove_first i l = remove1 t l"
  by (induction l) auto

definition index_del :: "string \<Rightarrow> Tx \<Rightarrow> (string, Tx list) gomap \<Rightarrow> (string, Tx list) gomap" where
  "index_del i t ix =
     (let l = (case go_get ix (tSender t) of None \<Rightarrow> [] | Some l \<Rightarrow> l);
          ix' = (if \<exists>u \<in> set l. tID u = i then go_put (tSender t) (remove_first i l) ix else ix)
      in if (case go_get ix' (tSender t) of None \<Rightarrow> [] | Some l \<Rightarrow> l) = []
         then go_del (tSender t) ix' else ix')"

lemma index_ok_del:
  assumes ix: "index_ok (add_mset t M) ix" and s: "tSender t \<noteq> []"
    and uniq: "\<forall>u \<in># add_mset t M. tID u = i \<longleftrightarrow> u = t"
  shows "index_ok M (index_del i t ix)"
proof -
  let ?s = "tSender t"
  from ix s have ms: "mset (case go_get ix ?s of None \<Rightarrow> [] | Some l \<Rightarrow> l) =
      add_mset t (filter_mset (\<lambda>u. tSender u = ?s) M)"
    by (simp add: index_ok_def)
  then obtain l where l: "go_get ix ?s = Some l" by (cases "go_get ix ?s") auto
  with ms have ml: "mset l = add_mset t (filter_mset (\<lambda>u. tSender u = ?s) M)" by simp
  then have tl: "t \<in> set l" by (metis set_mset_add_mset_insert insertI1 set_mset_mset)
  have "\<forall>u \<in> set l. tID u = i \<longleftrightarrow> u = t"
    using uniq ml by (metis (mono_tags, lifting) mset_subset_eqD multiset_filter_subset mset_subset_eq_add_mset_cancel set_mset_mset)
  then have rf: "remove_first i l = remove1 t l" by (rule remove_first_remove1)
  have rm: "mset (remove1 t l) = filter_mset (\<lambda>u. tSender u = ?s) M" using ml by simp
  have ex: "\<exists>u \<in> set l. tID u = i" using tl uniq by auto
  have sl: "sorted (map tNonce (remove1 t l))"
    using ix l by (force simp: index_ok_def intro: sorted_map_remove1 dest: map_of_SomeD)
  have d: "index_del i t ix = (if remove1 t l = [] then go_del ?s (go_put ?s (remove1 t l) ix)
      else go_put ?s (remove1 t l) ix)"
    using ex by (simp add: index_del_def Let_def l rf)
  have get: "mset (case go_get (index_del i t ix) u of None \<Rightarrow> [] | Some l \<Rightarrow> l) =
      filter_mset (\<lambda>v. tSender v = u) M" if "u \<noteq> []" for u
  proof (cases "u = ?s")
    case True
    then show ?thesis using rm unfolding d by (cases "remove1 t l = []") auto
  next
    case False
    then show ?thesis using ix that unfolding d by (simp add: index_ok_def)
  qed
  have sub: "e \<in> set (index_del i t ix) \<Longrightarrow> (e = (?s, remove1 t l) \<and> remove1 t l \<noteq> []) \<or> e \<in> set ix" for e
    unfolding d using set_go_put_subset [of ?s "remove1 t l" ix]
    by (auto simp: AList.delete_eq split: if_splits)
  then have "\<forall>e \<in> set (index_del i t ix). fst e \<noteq> [] \<and> snd e \<noteq> [] \<and> sorted (map tNonce (snd e))"
    using ix sl s by (fastforce simp: index_ok_def)
  moreover have "go_wf (index_del i t ix)" using ix unfolding d by (simp add: index_ok_def)
  ultimately show ?thesis using get by (simp add: index_ok_def)
qed

section \<open>Adding and removing one transaction\<close>

lemma go_put_fresh: "go_get m k = None \<Longrightarrow> mset (map snd (go_put k v m)) = add_mset v (mset (map snd m))"
  by (induction m) auto

lemma addTxLocked_index:
  "mpSenderIndex (addTxLocked E tx mp) =
     (if tSender tx \<noteq> []
      then go_put (tSender tx) (sort_key tNonce (env_sort E ((case go_get (mpSenderIndex mp) (tSender tx) of
             None \<Rightarrow> [] | Some l \<Rightarrow> l) @ [tx]))) (mpSenderIndex mp)
      else mpSenderIndex mp)"
  by (simp add: addTxLocked_def Let_def updateMetrics_def sender_txs_def sender_nonce_def)

lemma addTxLocked_fields [simp]:
  "mpTxStore (addTxLocked E tx mp) = go_put (tID tx) tx (mpTxStore mp)"
  "mpTxCount (addTxLocked E tx mp) = mpTxCount mp + 1"
  "mpTxBytes (addTxLocked E tx mp) = mpTxBytes mp + tx_Size tx"
  "mpConfig (addTxLocked E tx mp) = mpConfig mp" "mpHeight (addTxLocked E tx mp) = mpHeight mp"
  "mpIsRunning (addTxLocked E tx mp) = mpIsRunning mp"
  "mpRecentlyRemoved (addTxLocked E tx mp) = mpRecentlyRemoved mp"
  "mpCheckTxCallback (addTxLocked E tx mp) = mpCheckTxCallback mp"
  "mpNewTxCh (addTxLocked E tx mp) = mpNewTxCh mp" "mpChClosed (addTxLocked E tx mp) = mpChClosed mp"
  by (simp_all add: addTxLocked_def Let_def updateMetrics_def)

lemma addTxLocked_ok:
  assumes ok: "mp_ok mp" and fresh: "go_get (mpTxStore mp) (tID tx) = None" and E: "env_ok E"
  shows "mp_ok (addTxLocked E tx mp)" and "stored (addTxLocked E tx mp) = add_mset tx (stored mp)"
proof -
  show st: "stored (addTxLocked E tx mp) = add_mset tx (stored mp)"
    using go_put_fresh [OF fresh] by (simp add: stored_def)
  from ok have ix: "index_ok (stored mp) (mpSenderIndex mp)" by (simp add: mp_ok_def)
  have "index_ok (add_mset tx (stored mp)) (mpSenderIndex (addTxLocked E tx mp))"
    unfolding addTxLocked_index
    using index_ok_add [OF ix, of "env_sort E" tx] index_ok_add_anonymous [OF ix, of tx] E
    by (simp add: env_ok_def)
  then show "mp_ok (addTxLocked E tx mp)"
    using ok by (simp add: mp_ok_def st bytes_of_def)
qed

lemma removeTxLocked_absent [simp]:
  "go_get (mpTxStore mp) i = None \<Longrightarrow> removeTxLocked now i c mp = mp"
  by (simp add: removeTxLocked_def)

lemma removeTxLocked_present:
  assumes "go_get (mpTxStore mp) i = Some tx"
  shows "mpTxStore (removeTxLocked now i c mp) = go_del i (mpTxStore mp)"
    and "mpTxCount (removeTxLocked now i c mp) = mpTxCount mp - 1"
    and "mpTxBytes (removeTxLocked now i c mp) = mpTxBytes mp - tx_Size tx"
    and "mpSenderIndex (removeTxLocked now i c mp) =
           (if tSender tx \<noteq> [] then index_del i tx (mpSenderIndex mp) else mpSenderIndex mp)"
    and "mpRecentlyRemoved (removeTxLocked now i c mp) =
           (if c then go_put i now (mpRecentlyRemoved mp) else mpRecentlyRemoved mp)"
  using assms
  by (simp_all add: removeTxLocked_def Let_def updateMetrics_def index_del_def sender_txs_def)
    (auto split: option.split)

lemma removeTxLocked_fields [simp]:
  "mpConfig (removeTxLocked now i c mp) = mpConfig mp"
  "mpHeight (removeTxLocked now i c mp) = mpHeight mp"
  "mpIsRunning (removeTxLocked now i c mp) = mpIsRunning mp"
  "mpSenderNonce (removeTxLocked now i c mp) = mpSenderNonce mp"
  "mpCheckTxCallback (removeTxLocked now i c mp) = mpCheckTxCallback mp"
  "mpNewTxCh (removeTxLocked now i c mp) = mpNewTxCh mp"
  "mpChClosed (removeTxLocked now i c mp) = mpChClosed mp"
  by (simp_all add: removeTxLocked_def Let_def updateMetrics_def split: option.split)

lemma removeTxLocked_ok:
  assumes ok: "mp_ok mp"
  shows "mp_ok (removeTxLocked now i c mp)"
    and "stored (removeTxLocked now i c mp) = filter_mset (\<lambda>t. tID t \<noteq> i) (stored mp)"
proof -
  have "mp_ok (removeTxLocked now i c mp) \<and>
      stored (removeTxLocked now i c mp) = filter_mset (\<lambda>t. tID t \<noteq> i) (stored mp)"
  proof (cases "go_get (mpTxStore mp) i")
    case None
    have "tID t \<noteq> i" if "t \<in># stored mp" for t
      using stored_unique [OF ok that] None by auto
    then have "filter_mset (\<lambda>t. tID t \<noteq> i) (stored mp) = stored mp"
      by (simp add: filter_mset_eq_conv)
    with None ok show ?thesis by simp
  next
    case (Some tx)
    let ?mp = "removeTxLocked now i c mp"
    note f = removeTxLocked_present [OF Some, of now c]
    have wf: "go_wf (mpTxStore mp)" using ok by (simp add: mp_ok_def)
    have st: "stored mp = add_mset tx (stored ?mp)"
      unfolding stored_def f(1) by (rule mset_snd_go_del [OF wf Some])
    have uniq: "\<forall>u \<in># add_mset tx (stored ?mp). tID u = i \<longleftrightarrow> u = tx"
      using stored_unique [OF ok] Some stored_id [OF ok Some] unfolding st by (metis option.inject)
    have notin: "tx \<notin># stored ?mp"
    proof
      assume "tx \<in># stored ?mp"
      then obtain k where k: "(k, tx) \<in> set (go_del i (mpTxStore mp))" by (auto simp: stored_def f(1))
      then have "k \<noteq> i" "(k, tx) \<in> set (mpTxStore mp)" by (auto simp: AList.delete_eq)
      then show False using ok stored_id [OF ok Some] by (auto simp: mp_ok_def keyed_def)
    qed
    have "filter_mset (\<lambda>t. tID t \<noteq> i) (stored ?mp) = stored ?mp"
      using uniq notin by (auto simp: filter_mset_eq_conv)
    then have keep: "stored ?mp = filter_mset (\<lambda>t. tID t \<noteq> i) (stored mp)"
      using stored_id [OF ok Some] by (simp add: st)
    have ix: "index_ok (add_mset tx (stored ?mp)) (mpSenderIndex mp)"
      using ok st by (simp add: mp_ok_def)
    have "index_ok (stored ?mp) (mpSenderIndex ?mp)"
    proof (cases "tSender tx = []")
      case True
      then show ?thesis using ix unfolding f(4) by (auto simp: index_ok_def)
    next
      case False
      then show ?thesis using index_ok_del [OF ix False uniq] unfolding f(4) by simp
    qed
    then have "mp_ok ?mp"
      using ok unfolding mp_ok_def f(1-3) st by (simp add: bytes_of_def)
    with keep show ?thesis by blast
  qed
  then show "mp_ok (removeTxLocked now i c mp)"
    and "stored (removeTxLocked now i c mp) = filter_mset (\<lambda>t. tID t \<noteq> i) (stored mp)"
    by blast+
qed

lemma fold_remove_ok:
  assumes f: "\<And>i mp. f i mp = update_metrics (g i) (removeTxLocked now i c mp)" and ok: "mp_ok mp"
  shows "mp_ok (fold f is mp)"
    and "stored (fold f is mp) = filter_mset (\<lambda>t. tID t \<notin> set is) (stored mp)"
    and "mpConfig (fold f is mp) = mpConfig mp"
    and "mpIsRunning (fold f is mp) = mpIsRunning mp"
  using ok
proof (induction "is" arbitrary: mp)
  case (Cons i "is")
  { case 1 then show ?case using Cons.IH(1) by (simp add: f removeTxLocked_ok) }
  { case 2 then show ?case using Cons.IH(2) by (simp add: f removeTxLocked_ok filter_filter_mset conj_commute) }
  { case 3 then show ?case using Cons.IH(3) by (simp add: f removeTxLocked_ok) }
  { case 4 then show ?case using Cons.IH(4) by (simp add: f removeTxLocked_ok) }
qed simp_all

section \<open>Eviction\<close>

definition cheapest_of :: "u64 \<times> Tx option \<Rightarrow> (string \<times> Tx) list \<Rightarrow> bool" where
  "cheapest_of r xs \<longleftrightarrow> (case r of
     (lp, None) \<Rightarrow> lp = - 1 \<and> (\<forall>e \<in> set xs. tGasPrice (snd e) = - 1)
   | (lp, Some t) \<Rightarrow> lp = tGasPrice t \<and> t \<in> snd ` set xs \<and> (\<forall>e \<in> set xs. lp \<le> tGasPrice (snd e)))"

lemma cheapest_step:
  assumes "cheapest_of (lp, lt) xs"
  shows "cheapest_of (if tGasPrice tx < lp then (tGasPrice tx, Some tx) else (lp, lt)) (xs @ [(i, tx)])"
proof (cases "tGasPrice tx < lp")
  case True
  have "lp \<le> tGasPrice (snd e)" if "e \<in> set xs" for e
    using assms that by (cases lt) (auto simp: cheapest_of_def)
  then have "tGasPrice tx \<le> tGasPrice (snd e)" if "e \<in> set xs" for e
    using True that by (meson less_imp_le order_trans)
  with True show ?thesis by (auto simp: cheapest_of_def)
next
  case False
  then have le: "lp \<le> tGasPrice tx" by simp
  show ?thesis
  proof (cases lt)
    case None
    with assms le have "tGasPrice tx = - 1"
      by (simp add: cheapest_of_def word_order.extremum_uniqueI)
    with None assms False show ?thesis by (auto simp: cheapest_of_def)
  next
    case (Some t)
    with assms le False show ?thesis by (auto simp: cheapest_of_def)
  qed
qed

lemma cheapest_fold:
  "cheapest_of r ys \<Longrightarrow> cheapest_of (fold (\<lambda>(i, tx) (lowestPrice, lowestTx).
            if tGasPrice tx < lowestPrice then (tGasPrice tx, Some tx) else (lowestPrice, lowestTx)) xs r) (ys @ xs)"
proof (induction xs arbitrary: r ys)
  case (Cons e xs)
  obtain lp lt where r: "r = (lp, lt)" by (cases r)
  obtain i tx where e: "e = (i, tx)" by (cases e)
  have "cheapest_of (if tGasPrice tx < lp then (tGasPrice tx, Some tx) else (lp, lt)) (ys @ [e])"
    using cheapest_step Cons.prems r e by simp
  from Cons.IH [OF this] show ?case by (simp add: r e)
qed simp

lemma lowest_tx_cheapest: "cheapest_of (lowest_tx E mp) (env_range E (mpTxStore mp))"
  using cheapest_fold [of "(- 1, None)" "[]"] by (simp add: lowest_tx_def cheapest_of_def)

lemma range_stored: "env_ok E \<Longrightarrow> set (env_range E (mpTxStore mp)) = set (mpTxStore mp)"
  by (simp add: env_ok_def go_order_set)

definition same_frame :: "Mempool \<Rightarrow> Mempool \<Rightarrow> bool" where
  "same_frame mp mp' \<longleftrightarrow> mpConfig mp' = mpConfig mp \<and> mpHeight mp' = mpHeight mp \<and>
     mpIsRunning mp' = mpIsRunning mp \<and> mpSenderNonce mp' = mpSenderNonce mp \<and>
     mpCheckTxCallback mp' = mpCheckTxCallback mp \<and> mpNewTxCh mp' = mpNewTxCh mp \<and>
     mpChClosed mp' = mpChClosed mp"

lemma same_frame_refl [simp]: "same_frame mp mp"
  by (simp add: same_frame_def)

lemma stored_split:
  assumes "mp_ok mp" and "t \<in># stored mp"
  shows "stored mp = add_mset t (stored (removeTxLocked now (tID t) c mp))"
  unfolding stored_def removeTxLocked_present(1) [OF stored_unique [OF assms]]
  using mset_snd_go_del [OF _ stored_unique [OF assms]] assms(1) by (simp add: mp_ok_def)

lemma evict_None:
  assumes "env_ok E" and "evictLowestPriority E p mp = None"
  shows "\<forall>t \<in># stored mp. p \<le> tGasPrice t"
proof -
  obtain lp lt where r: "lowest_tx E mp = (lp, lt)" by (cases "lowest_tx E mp")
  note c = lowest_tx_cheapest [of E mp, unfolded r cheapest_of_def range_stored [OF assms(1)]]
  have "\<forall>e \<in> set (mpTxStore mp). p \<le> tGasPrice (snd e)"
  proof (cases lt)
    case None
    with c show ?thesis by simp
  next
    case (Some t)
    with assms(2) r have "p \<le> lp" by (simp add: evictLowestPriority_def split: if_splits)
    with c Some show ?thesis by (auto intro: order_trans)
  qed
  then show ?thesis by (auto simp: stored_def)
qed

lemma evict_Some:
  assumes ok: "mp_ok mp" and E: "env_ok E" and ev: "evictLowestPriority E p mp = Some mp'"
  obtains t where "t \<in># stored mp" "tGasPrice t < p" "\<forall>u \<in># stored mp. tGasPrice t \<le> tGasPrice u"
    "mp_ok mp'" "stored mp = add_mset t (stored mp')" "same_frame mp mp'"
proof -
  obtain lp lt where r: "lowest_tx E mp = (lp, lt)" by (cases "lowest_tx E mp")
  note c = lowest_tx_cheapest [of E mp, unfolded r cheapest_of_def range_stored [OF E]]
  from ev r obtain t where t: "lt = Some t" and less: "lp < p"
    and mp': "mp' = update_metrics (\<lambda>m. m\<lparr>mmTxsEvicted := mmTxsEvicted m + 1\<rparr>)
                       (removeTxLocked (env_now E) (tID t) True mp)"
    by (auto simp: evictLowestPriority_def not_le split: option.splits if_splits)
  from c t have lp: "lp = tGasPrice t" and mem: "t \<in># stored mp"
    and min: "\<forall>u \<in># stored mp. tGasPrice t \<le> tGasPrice u"
    by (auto simp: stored_def)
  show thesis
  proof (rule that)
    show "tGasPrice t < p" using less lp by simp
    show "stored mp = add_mset t (stored mp')" unfolding mp' update_metrics_simps
      by (rule stored_split [OF ok mem])
    show "mp_ok mp'" by (simp add: mp' removeTxLocked_ok [OF ok])
    show "same_frame mp mp'" by (simp add: mp' same_frame_def)
  qed (use mem min in simp_all)
qed

text \<open>
  An eviction loop ends: it removes transactions cheaper than the new one, the cheapest first,
  until its condition fails or nothing cheaper is left.
\<close>

lemma evict_while_spec:
  assumes "mp_ok mp" and E: "env_ok E"
  shows "\<exists>r mp' D. evict_while cond E p mp = Some r \<and> r = (if cond mp' then Inl mp' else Inr mp') \<and>
    mp_ok mp' \<and> same_frame mp mp' \<and> stored mp = D + stored mp' \<and>
    (\<forall>t \<in># D. tGasPrice t < p) \<and> (\<forall>t \<in># D. \<forall>u \<in># stored mp'. tGasPrice t \<le> tGasPrice u) \<and>
    (cond mp' \<longrightarrow> (\<forall>u \<in># stored mp'. p \<le> tGasPrice u))"
  using assms(1)
proof (induction "size (stored mp)" arbitrary: mp)
  case 0
  then have empty: "stored mp = {#}" by simp
  have "evictLowestPriority E p mp = None"
  proof (rule ccontr)
    assume "evictLowestPriority E p mp \<noteq> None"
    then obtain mp' where "evictLowestPriority E p mp = Some mp'" by auto
    from evict_Some [OF 0(2) E this] show False using empty by auto
  qed
  then show ?case
    using 0 by (intro exI [of _ "if cond mp then Inl mp else Inr mp"] exI [of _ mp] exI [of _ "{#}"])
      (simp add: evict_while.simps empty)
next
  case (Suc n)
  show ?case
  proof (cases "cond mp")
    case False
    then show ?thesis using Suc.prems
      by (intro exI [of _ "Inr mp"] exI [of _ mp] exI [of _ "{#}"]) (simp add: evict_while.simps)
  next
    case c: True
    show ?thesis
    proof (cases "evictLowestPriority E p mp")
      case None
      then show ?thesis using c Suc.prems evict_None [OF E None]
        by (intro exI [of _ "Inl mp"] exI [of _ mp] exI [of _ "{#}"]) (simp add: evict_while.simps)
    next
      case (Some mp1)
      from evict_Some [OF Suc.prems E Some] obtain t where t: "tGasPrice t < p"
        "\<forall>u \<in># stored mp. tGasPrice t \<le> tGasPrice u" "mp_ok mp1"
        "stored mp = add_mset t (stored mp1)" "same_frame mp mp1" .
      then have "n = size (stored mp1)" using Suc.hyps(2) by simp
      from Suc.hyps(1) [OF this t(3)] obtain r mp' D where
        IH: "evict_while cond E p mp1 = Some r" "r = (if cond mp' then Inl mp' else Inr mp')"
          "mp_ok mp'" "same_frame mp1 mp'" "stored mp1 = D + stored mp'" "\<forall>t \<in># D. tGasPrice t < p"
          "\<forall>t \<in># D. \<forall>u \<in># stored mp'. tGasPrice t \<le> tGasPrice u"
          "cond mp' \<longrightarrow> (\<forall>u \<in># stored mp'. p \<le> tGasPrice u)"
        by blast
      have "evict_while cond E p mp = Some r"
        using c Some IH(1) by (simp add: evict_while.simps [of cond E p mp])
      moreover have "same_frame mp mp'" using IH(4) t(5) by (simp add: same_frame_def)
      moreover have "stored mp = add_mset t D + stored mp'" using t(4) IH(5) by simp
      moreover have "\<forall>x \<in># add_mset t D. tGasPrice x < p" using t(1) IH(6) by simp
      moreover have "\<forall>x \<in># add_mset t D. \<forall>u \<in># stored mp'. tGasPrice x \<le> tGasPrice u"
        using t(2) IH(7) unfolding t(4) IH(5) by simp
      ultimately show ?thesis using IH(2,3,8) by blast
    qed
  qed
qed

text \<open>
  What \<open>ensureCapacity\<close> does to a well-formed pool: \<open>D\<close> are the evicted transactions.
\<close>

lemma ensureCapacity_spec:
  assumes ok: "mp_ok mp" and E: "env_ok E"
  shows "\<exists>mp' r D. ensureCapacity E tx mp = Ret (mp', r) \<and> mp_ok mp' \<and> same_frame mp mp' \<and>
    stored mp = D + stored mp' \<and> (\<forall>t \<in># D. tGasPrice t < tGasPrice tx) \<and>
    (r = None \<and> mpTxCount mp' < mcMaxTxs (mpConfig mp) \<and>
       mpTxBytes mp' + tx_Size tx \<le> mcMaxBytes (mpConfig mp)
     \<or> r = Some ErrMempoolFull \<and> (\<forall>u \<in># stored mp'. tGasPrice tx \<le> tGasPrice u) \<and>
       (mpTxCount mp' \<ge> mcMaxTxs (mpConfig mp) \<or>
        mpTxBytes mp' + tx_Size tx > mcMaxBytes (mpConfig mp)))"
proof -
  let ?c1 = "\<lambda>mp. mpTxCount mp \<ge> mcMaxTxs (mpConfig mp)"
  let ?c2 = "\<lambda>mp. mpTxBytes mp + tx_Size tx > mcMaxBytes (mpConfig mp)"
  obtain r1 mp1 D1 where
    1: "evict_while ?c1 E (tGasPrice tx) mp = Some r1" "r1 = (if ?c1 mp1 then Inl mp1 else Inr mp1)"
      "mp_ok mp1" "same_frame mp mp1" "stored mp = D1 + stored mp1" "\<forall>t \<in># D1. tGasPrice t < tGasPrice tx"
      "?c1 mp1 \<longrightarrow> (\<forall>u \<in># stored mp1. tGasPrice tx \<le> tGasPrice u)"
    using evict_while_spec [OF ok E, of ?c1 "tGasPrice tx"] by blast
  obtain r2 mp2 D2 where
    2: "evict_while ?c2 E (tGasPrice tx) mp1 = Some r2" "r2 = (if ?c2 mp2 then Inl mp2 else Inr mp2)"
      "mp_ok mp2" "same_frame mp1 mp2" "stored mp1 = D2 + stored mp2" "\<forall>t \<in># D2. tGasPrice t < tGasPrice tx"
      "?c2 mp2 \<longrightarrow> (\<forall>u \<in># stored mp2. tGasPrice tx \<le> tGasPrice u)"
    using evict_while_spec [OF 1(3) E, of ?c2 "tGasPrice tx"] by blast
  show ?thesis
  proof (cases "?c1 mp1")
    case True
    then have "ensureCapacity E tx mp = Ret (mp1, Some ErrMempoolFull)"
      using 1(1,2) by (simp add: ensureCapacity_def)
    moreover have "mcMaxTxs (mpConfig mp) \<le> mpTxCount mp1"
      using 1(4) True by (simp add: same_frame_def)
    ultimately show ?thesis using 1(3-7) True
      by (intro exI [of _ mp1] exI [of _ "Some ErrMempoolFull"] exI [of _ D1]) blast
  next
    case False
    have cfg: "mpConfig mp2 = mpConfig mp" "mpConfig mp1 = mpConfig mp"
      using 1(4) 2(4) by (simp_all add: same_frame_def)
    have "mpTxCount mp2 \<le> mpTxCount mp1"
      using 1(3) 2(3,5) by (simp add: mp_ok_def)
    then have n: "mpTxCount mp2 < mcMaxTxs (mpConfig mp)" using False cfg by simp
    have f: "same_frame mp mp2" using 1(4) 2(4) by (simp add: same_frame_def)
    have D: "stored mp = (D1 + D2) + stored mp2" "\<forall>t \<in># D1 + D2. tGasPrice t < tGasPrice tx"
      using 1(5,6) 2(5,6) by auto
    show ?thesis
    proof (cases "?c2 mp2")
      case True
      then have "ensureCapacity E tx mp = Ret (mp2, Some ErrMempoolFull)"
        using False 1(1,2) 2(1,2) by (simp add: ensureCapacity_def)
      moreover have "mcMaxBytes (mpConfig mp) < mpTxBytes mp2 + tx_Size tx" using True cfg by simp
      ultimately show ?thesis using 2(3,7) True f D
        by (intro exI [of _ mp2] exI [of _ "Some ErrMempoolFull"] exI [of _ "D1 + D2"]) blast
    next
      case ok2: False
      then have "ensureCapacity E tx mp = Ret (mp2, None)"
        using False 1(1,2) 2(1,2) by (simp add: ensureCapacity_def)
      moreover have "mpTxBytes mp2 + tx_Size tx \<le> mcMaxBytes (mpConfig mp)" using ok2 cfg by simp
      ultimately show ?thesis using 2(3) n f D
        by (intro exI [of _ mp2] exI [of _ None] exI [of _ "D1 + D2"]) blast
    qed
  qed
qed

end
