(* ===== verification/Mempool_Props.thy ===== *)
theory Mempool_Props
  imports Mempool_Inv
begin

text \<open>
  What the pool promises: which transactions are admitted and what admitting one may evict,
  capacity, first-in-first-out reaping, removal of committed transactions, and the places where
  the pool does less than it means to.
\<close>

section \<open>Admission\<close>

definition new_tx :: "mp_env \<Rightarrow> bytes \<Rightarrow> string \<Rightarrow> u64 \<Rightarrow> u64 \<Rightarrow> u64 \<Rightarrow> Mempool \<Rightarrow> Tx" where
  "new_tx E d s n p g mp = (NewTxWithMeta (env_now E) d s n p g)\<lparr>tHeight := mpHeight mp\<rparr>"

text \<open>The checks made before the capacity is looked at; they decide in this order.\<close>

definition admission_error ::
  "mp_env \<Rightarrow> bytes \<Rightarrow> string \<Rightarrow> u64 \<Rightarrow> u64 \<Rightarrow> u64 \<Rightarrow> Mempool \<Rightarrow> mempool_error option" where
  "admission_error E d s n p g mp =
     (let tx = new_tx E d s n p g mp in
      if int (length d) > mcMaxTxBytes (mpConfig mp) then Some ErrTxTooLarge
      else if HasTx (tID tx) mp \<or> go_get (mpRecentlyRemoved mp) (tID tx) \<noteq> None
        then Some ErrTxAlreadyExists
      else if p < mcMinGasPrice (mpConfig mp) then Some ErrInsufficientGas
      else if s \<noteq> [] \<and> checkNonce s n mp \<noteq> None then Some ErrLowNonce
      else case mpCheckTxCallback mp of None \<Rightarrow> None
           | Some cb \<Rightarrow> map_option ErrInvalidTx (cb tx))"

definition received :: "Mempool \<Rightarrow> Mempool" where
  "received = update_metrics (\<lambda>m. m\<lparr>mmTxsReceived := mmTxsReceived m + 1\<rparr>)"

lemma checkNonce_range: "checkNonce s n mp = None \<or> checkNonce s n mp = Some ErrLowNonce"
  by (simp add: checkNonce_def split: option.split)

lemma checkNonce_received [simp]: "checkNonce s n (received mp) = checkNonce s n mp"
  by (simp add: checkNonce_def received_def)

lemma received_simps [simp]:
  "mp_ok (received mp) = mp_ok mp" "stored (received mp) = stored mp"
  "mpConfig (received mp) = mpConfig mp" "mpTxStore (received mp) = mpTxStore mp"
  "mpRecentlyRemoved (received mp) = mpRecentlyRemoved mp" "mpHeight (received mp) = mpHeight mp"
  "mpCheckTxCallback (received mp) = mpCheckTxCallback mp" "mpChClosed (received mp) = mpChClosed mp"
  "mpIsRunning (received mp) = mpIsRunning mp" "mpSenderNonce (received mp) = mpSenderNonce mp"
  "mpNewTxCh (received mp) = mpNewTxCh mp"
  by (simp_all add: received_def)

lemma rejectTx_simps [simp]:
  "mp_ok (rejectTx mp) = mp_ok mp" "stored (rejectTx mp) = stored mp"
  "mpConfig (rejectTx mp) = mpConfig mp" "mpTxStore (rejectTx mp) = mpTxStore mp"
  "mpRecentlyRemoved (rejectTx mp) = mpRecentlyRemoved mp" "mpSenderNonce (rejectTx mp) = mpSenderNonce mp"
  "mpTxCount (rejectTx mp) = mpTxCount mp" "mpTxBytes (rejectTx mp) = mpTxBytes mp"
  by (simp_all add: rejectTx_def)

lemma acceptTx_simps [simp]:
  "mp_ok (acceptTx mp) = mp_ok mp" "stored (acceptTx mp) = stored mp"
  "mpConfig (acceptTx mp) = mpConfig mp" "mpTxCount (acceptTx mp) = mpTxCount mp"
  "mpTxBytes (acceptTx mp) = mpTxBytes mp" "mpTxStore (acceptTx mp) = mpTxStore mp"
  "mpSenderNonce (acceptTx mp) = mpSenderNonce mp"
  by (simp_all add: acceptTx_def)

lemma AddTx_unfold:
  assumes "mpIsRunning mp"
  shows "AddTxWithMeta E d s n p g mp =
    (case admission_error E d s n p g mp of
       Some e \<Rightarrow> Ret (rejectTx (received mp), Some e)
     | None \<Rightarrow> go_bind (ensureCapacity E (new_tx E d s n p g mp) (received mp)) (\<lambda>(mp', full).
         case full of Some err \<Rightarrow> Ret (rejectTx mp', Some err)
         | None \<Rightarrow> go_bind (notify_new_tx (new_tx E d s n p g mp) (addTxLocked E (new_tx E d s n p g mp) mp'))
                     (\<lambda>mp. Ret (acceptTx mp, None))))"
proof -
  have tx: "(NewTxWithMeta (env_now E) d s n p g)\<lparr>tHeight := mpHeight (received mp)\<rparr> = new_tx E d s n p g mp"
    by (simp add: new_tx_def)
  show ?thesis
    using assms checkNonce_range [of s n mp]
    unfolding AddTxWithMeta_def admission_error_def Let_def HasTx_def received_def [symmetric] tx
    by (auto split: option.split)
qed

lemma notify_new_tx_Ret:
  "\<not> mpChClosed mp \<Longrightarrow> \<exists>mp'. notify_new_tx tx mp = Ret mp' \<and> mp_ok mp' = mp_ok mp \<and> stored mp' = stored mp \<and>
     mpConfig mp' = mpConfig mp \<and> mpTxCount mp' = mpTxCount mp \<and> mpTxBytes mp' = mpTxBytes mp \<and>
     mpTxStore mp' = mpTxStore mp"
  by (simp add: notify_new_tx_def)

lemma new_tx_simps [simp]:
  "tID (new_tx E d s n p g mp) = hex_encode (sha256 d)" "tData (new_tx E d s n p g mp) = d"
  "tSender (new_tx E d s n p g mp) = s" "tNonce (new_tx E d s n p g mp) = n"
  "tGasPrice (new_tx E d s n p g mp) = p" "tTimestamp (new_tx E d s n p g mp) = env_now E"
  "tx_Size (new_tx E d s n p g mp) = int (length d)"
  by (simp_all add: new_tx_def NewTxWithMeta_def NewTx_def Let_def tx_Size_def)

text \<open>
  The outcome of a call on a running pool whose channel is open.
\<close>

lemma AddTx_cases:
  assumes ok: "mp_ok mp" and E: "env_ok E" and run: "mpIsRunning mp" and ch: "\<not> mpChClosed mp"
  obtains (rejected) e where "admission_error E d s n p g mp = Some e"
      "AddTxWithMeta E d s n p g mp = Ret (rejectTx (received mp), Some e)"
  | (full) mp' D where "admission_error E d s n p g mp = None"
      "AddTxWithMeta E d s n p g mp = Ret (mp', Some ErrMempoolFull)"
      "mp_ok mp'" "stored mp = D + stored mp'" "\<forall>t \<in># D. tGasPrice t < p" "mpConfig mp' = mpConfig mp"
      "\<forall>u \<in># stored mp'. p \<le> tGasPrice u"
      "mpTxCount mp' \<ge> mcMaxTxs (mpConfig mp) \<or> mpTxBytes mp' + int (length d) > mcMaxBytes (mpConfig mp)"
  | (added) mp' D where "admission_error E d s n p g mp = None"
      "AddTxWithMeta E d s n p g mp = Ret (mp', None)"
      "mp_ok mp'" "add_mset (new_tx E d s n p g mp) (stored mp) = D + stored mp'"
      "\<forall>t \<in># D. tGasPrice t < p" "new_tx E d s n p g mp \<in># stored mp'" "mpConfig mp' = mpConfig mp"
      "mpTxCount mp' \<le> mcMaxTxs (mpConfig mp)" "mpTxBytes mp' \<le> mcMaxBytes (mpConfig mp)"
proof (cases "admission_error E d s n p g mp")
  case (Some e)
  then show thesis using rejected AddTx_unfold [OF run, of E d s n p g] by simp
next
  case None
  let ?tx = "new_tx E d s n p g mp"
  from ensureCapacity_spec [of "received mp" E ?tx] ok E obtain mp1 r D where
    1: "ensureCapacity E ?tx (received mp) = Ret (mp1, r)" "mp_ok mp1" "same_frame (received mp) mp1"
      "stored mp = D + stored mp1" "\<forall>t \<in># D. tGasPrice t < p"
    and alt: "r = None \<and> mpTxCount mp1 < mcMaxTxs (mpConfig mp) \<and>
       mpTxBytes mp1 + int (length d) \<le> mcMaxBytes (mpConfig mp)
     \<or> r = Some ErrMempoolFull \<and> (\<forall>u \<in># stored mp1. p \<le> tGasPrice u) \<and>
       (mpTxCount mp1 \<ge> mcMaxTxs (mpConfig mp) \<or> mpTxBytes mp1 + int (length d) > mcMaxBytes (mpConfig mp))"
    by auto
  note unf = AddTx_unfold [OF run, of E d s n p g, unfolded None option.case 1(1) go_bind.simps prod.case]
  have cfg: "mpConfig mp1 = mpConfig mp" and ch1: "\<not> mpChClosed mp1"
    using 1(3) ch by (simp_all add: same_frame_def)
  from alt show thesis
  proof
    assume a: "r = Some ErrMempoolFull \<and> (\<forall>u \<in># stored mp1. p \<le> tGasPrice u) \<and>
       (mpTxCount mp1 \<ge> mcMaxTxs (mpConfig mp) \<or> mpTxBytes mp1 + int (length d) > mcMaxBytes (mpConfig mp))"
    show thesis
    proof (rule full [OF None])
      show "AddTxWithMeta E d s n p g mp = Ret (rejectTx mp1, Some ErrMempoolFull)" using unf a by simp
    qed (use 1 a cfg in simp_all)
  next
    assume a: "r = None \<and> mpTxCount mp1 < mcMaxTxs (mpConfig mp) \<and>
       mpTxBytes mp1 + int (length d) \<le> mcMaxBytes (mpConfig mp)"
    have "go_get (mpTxStore mp) (tID ?tx) = None"
      using None by (auto simp: admission_error_def Let_def HasTx_def split: if_splits)
    then have fresh: "go_get (mpTxStore mp1) (tID ?tx) = None"
    proof (rule contrapos_pp)
      assume "go_get (mpTxStore mp1) (tID ?tx) \<noteq> None"
      then obtain u where u: "go_get (mpTxStore mp1) (tID ?tx) = Some u" by auto
      have "u \<in># stored mp" using stored_get [OF u] 1(4) by simp
      from stored_unique [OF ok this] stored_id [OF 1(2) u]
      show "go_get (mpTxStore mp) (tID ?tx) \<noteq> None" by simp
    qed
    obtain mp2 where 2: "notify_new_tx ?tx (addTxLocked E ?tx mp1) = Ret mp2"
      "mp_ok mp2 = mp_ok (addTxLocked E ?tx mp1)" "stored mp2 = stored (addTxLocked E ?tx mp1)"
      "mpConfig mp2 = mpConfig mp1" "mpTxCount mp2 = mpTxCount mp1 + 1"
      "mpTxBytes mp2 = mpTxBytes mp1 + int (length d)"
      using notify_new_tx_Ret [of "addTxLocked E ?tx mp1" ?tx] ch1 by auto
    show thesis
    proof (rule added [OF None])
      show "AddTxWithMeta E d s n p g mp = Ret (acceptTx mp2, None)" using unf a 2(1) by simp
      show "mp_ok (acceptTx mp2)" using 2(2) addTxLocked_ok(1) [OF 1(2) fresh E] by simp
      show "add_mset ?tx (stored mp) = D + stored (acceptTx mp2)"
        using 2(3) addTxLocked_ok(2) [OF 1(2) fresh E] 1(4) by simp
      show "?tx \<in># stored (acceptTx mp2)"
        using 2(3) addTxLocked_ok(2) [OF 1(2) fresh E] by simp
    qed (use 1 2 a cfg in simp_all)
  qed
qed

text \<open>
  C18. \<open>AddTxWithMeta\<close> on a running pool with an open channel always returns. The checks before
  the capacity decide first and then leave the stored transactions, the removed-transaction
  cache and the nonces alone. Otherwise the transaction is either stored, the pool then being
  within both limits, or refused as \<open>ErrMempoolFull\<close> because nothing cheaper was left to
  evict; every evicted transaction (\<open>D\<close>) was strictly cheaper than the new one.
\<close>

theorem AddTxWithMeta_correct:
  assumes "mp_ok mp" and "env_ok E" and "mpIsRunning mp" and "\<not> mpChClosed mp"
  shows "\<exists>mp' r. AddTxWithMeta E d s n p g mp = Ret (mp', r) \<and> mp_ok mp' \<and>
    (case admission_error E d s n p g mp of
       Some e \<Rightarrow> r = Some e \<and> mpTxStore mp' = mpTxStore mp \<and>
         mpRecentlyRemoved mp' = mpRecentlyRemoved mp \<and> mpSenderNonce mp' = mpSenderNonce mp
     | None \<Rightarrow> \<exists>D. (\<forall>t \<in># D. tGasPrice t < p) \<and>
        (r = None \<and> new_tx E d s n p g mp \<in># stored mp' \<and>
           add_mset (new_tx E d s n p g mp) (stored mp) = D + stored mp' \<and>
           mp_Size mp' \<le> mcMaxTxs (mpConfig mp) \<and> SizeBytes mp' \<le> mcMaxBytes (mpConfig mp)
         \<or> r = Some ErrMempoolFull \<and> stored mp = D + stored mp' \<and>
           (\<forall>u \<in># stored mp'. p \<le> tGasPrice u) \<and>
           (mp_Size mp' \<ge> mcMaxTxs (mpConfig mp) \<or>
            SizeBytes mp' + int (length d) > mcMaxBytes (mpConfig mp))))"
  using assms
proof (cases rule: AddTx_cases [of mp E d s n p g])
  case (rejected e)
  then show ?thesis using assms(1) by simp
next
  case (full mp' D)
  then show ?thesis by (auto simp: mp_Size_def SizeBytes_def intro!: exI [of _ mp'] exI [of _ D])
next
  case (added mp' D)
  then show ?thesis by (auto simp: mp_Size_def SizeBytes_def intro!: exI [of _ mp'] exI [of _ D])
qed

definition test_env :: "gotime \<Rightarrow> mp_env" where
  "test_env now = \<lparr>env_now = now, env_range = rev, env_sort = (\<lambda>xs. xs), env_cache = rev\<rparr>"

lemma test_env_ok [simp]: "env_ok (test_env now)"
  by (simp add: test_env_def env_ok_def)

text \<open>A running pool for one transaction.\<close>

definition tiny_pool :: Mempool where
  "tiny_pool = mp_Start (NewMempool (Some (DefaultMempoolConfig\<lparr>mcMaxTxs := 1\<rparr>)))"

lemma tiny_pool_facts [simp]:
  "mp_ok tiny_pool" "mpIsRunning tiny_pool" "\<not> mpChClosed tiny_pool" "stored tiny_pool = {#}"
  "mpTxStore tiny_pool = []" "mpRecentlyRemoved tiny_pool = []" "mpCheckTxCallback tiny_pool = None"
  "mpSenderNonce tiny_pool = []" "mpConfig tiny_pool = DefaultMempoolConfig\<lparr>mcMaxTxs := 1\<rparr>"
  by (simp_all add: tiny_pool_def mp_Start_def) (simp_all add: NewMempool_def stored_def)

lemma mp_ok_empty: "mp_ok mp \<Longrightarrow> stored mp = {#} \<Longrightarrow> mpTxCount mp = 0 \<and> mpTxBytes mp = 0"
  by (simp add: mp_ok_def bytes_of_def)

theorem AddTxWithMeta_correct_witness:
  "\<exists>mp'. AddTxWithMeta (test_env 7) [1, 2] ''alice'' 1 5 0 tiny_pool = Ret (mp', None) \<and>
     mp_Size mp' \<le> 1 \<and> new_tx (test_env 7) [1, 2] ''alice'' 1 5 0 tiny_pool \<in># stored mp'"
proof -
  have "admission_error (test_env 7) [1, 2] ''alice'' 1 5 0 tiny_pool = None"
    by (simp add: admission_error_def HasTx_def checkNonce_def DefaultMempoolConfig_def)
  then show ?thesis
    using AddTxWithMeta_correct [of tiny_pool "test_env 7" "[1, 2]" "''alice''" 1 5 0]
    by (auto simp: DefaultMempoolConfig_def mp_Size_def SizeBytes_def dest: mp_ok_empty)
qed

section \<open>The invariant of reachable pools\<close>

inductive mp_step :: "Mempool \<Rightarrow> Mempool \<Rightarrow> bool" where
  mps_start: "mp_step mp (mp_Start mp)"
| mps_stop: "mp_Stop mp = Ret mp' \<Longrightarrow> mp_step mp mp'"
| mps_callback: "mp_step mp (SetCheckTxCallback cb mp)"
| mps_add: "env_ok E \<Longrightarrow> AddTxWithMeta E d s n p g mp = Ret (mp', r) \<Longrightarrow> mp_step mp mp'"
| mps_update: "env_ok E \<Longrightarrow> mp_step mp (Update E h txs mp)"
| mps_expire: "env_ok E \<Longrightarrow> mp_step mp (expireTxs E mp)"
| mps_cleanup: "env_ok E \<Longrightarrow> cleanupCache E mp = Ret mp' \<Longrightarrow> mp_step mp mp'"
| mps_flush: "mp_step mp (Flush mp)"
| mps_recv: "recv_new_tx mp = Some (tx, mp') \<Longrightarrow> mp_step mp mp'"

inductive mp_reachable :: "MempoolConfig \<Rightarrow> Mempool \<Rightarrow> bool" for c where
  mpr_init: "mp_reachable c (NewMempool (Some c))"
| mpr_step: "mp_reachable c mp \<Longrightarrow> mp_step mp mp' \<Longrightarrow> mp_reachable c mp'"

definition within_limits :: "MempoolConfig \<Rightarrow> Mempool \<Rightarrow> bool" where
  "within_limits c mp \<longleftrightarrow> mpConfig mp = c \<and> size (stored mp) \<le> nat (mcMaxTxs c) \<and>
     bytes_of (stored mp) \<le> max 0 (mcMaxBytes c)"

lemma tx_Size_nonneg [simp]: "0 \<le> tx_Size t"
  by (simp add: tx_Size_def)

lemma bytes_of_mono: "A \<subseteq># B \<Longrightarrow> bytes_of A \<le> bytes_of B"
proof -
  assume "A \<subseteq># B"
  then obtain C where "B = A + C" by (metis subset_mset.le_iff_add)
  moreover have "0 \<le> bytes_of C" by (induction C) (simp_all add: bytes_of_def)
  ultimately show ?thesis by (simp add: bytes_of_def)
qed

lemma within_limits_sub:
  "within_limits c mp \<Longrightarrow> mpConfig mp' = mpConfig mp \<Longrightarrow> stored mp' \<subseteq># stored mp \<Longrightarrow> within_limits c mp'"
  unfolding within_limits_def using bytes_of_mono size_mset_mono by (metis order_trans)

lemma recheckTxsLocked_ok:
  assumes "mp_ok mp"
  shows "mp_ok (recheckTxsLocked E mp)" and "stored (recheckTxsLocked E mp) \<subseteq># stored mp"
    and "mpConfig (recheckTxsLocked E mp) = mpConfig mp"
proof -
  have f: "removeTxLocked now i c mp = update_metrics (\<lambda>m. m) (removeTxLocked now i c mp)" for now i c mp
    by (simp add: update_metrics_def)
  note fr = fold_remove_ok [OF f, of "update_metrics (\<lambda>m. m\<lparr>mmRecheckCount := mmRecheckCount m + 1\<rparr>) mp"]
  show "mp_ok (recheckTxsLocked E mp)" "stored (recheckTxsLocked E mp) \<subseteq># stored mp"
    "mpConfig (recheckTxsLocked E mp) = mpConfig mp"
    using assms fr by (auto simp: recheckTxsLocked_def Let_def split: option.split)
qed

lemma commit_tx_ok:
  assumes "mp_ok mp"
  shows "mp_ok (commit_tx E d mp)"
    and "stored (commit_tx E d mp) = filter_mset (\<lambda>t. tID t \<noteq> hex_encode (sha256 d)) (stored mp)"
    and "mpConfig (commit_tx E d mp) = mpConfig mp"
    and "mpCheckTxCallback (commit_tx E d mp) = mpCheckTxCallback mp"
  using assms by (simp_all add: commit_tx_def removeTxLocked_ok NewTx_def Let_def)

lemma fold_commit_ok:
  assumes "mp_ok mp"
  shows "mp_ok (fold (commit_tx E) txs mp)"
    and "stored (fold (commit_tx E) txs mp) =
           filter_mset (\<lambda>t. tID t \<notin> (hex_encode \<circ> sha256) ` set txs) (stored mp)"
    and "mpConfig (fold (commit_tx E) txs mp) = mpConfig mp"
    and "mpCheckTxCallback (fold (commit_tx E) txs mp) = mpCheckTxCallback mp"
  using assms
proof (induction txs arbitrary: mp)
  case (Cons d txs)
  note c = commit_tx_ok [of _ E d]
  { case 1 then show ?case using Cons.IH(1) c by simp }
  { case 2 then show ?case using Cons.IH(2) c by (simp add: filter_filter_mset conj_commute) }
  { case 3 then show ?case using Cons.IH(3) c by simp }
  { case 4 then show ?case using Cons.IH(4) c by simp }
qed simp_all

lemma Update_ok:
  assumes "mp_ok mp"
  shows "mp_ok (Update E h txs mp)" and "mpConfig (Update E h txs mp) = mpConfig mp"
    and "stored (Update E h txs mp) \<subseteq># filter_mset (\<lambda>t. tID t \<notin> (hex_encode \<circ> sha256) ` set txs) (stored mp)"
proof -
  have ok: "mp_ok (update_metrics f (mp\<lparr>mpHeight := h\<rparr>))" for f using assms by simp
  note c = fold_commit_ok [OF ok, of E txs] and r = recheckTxsLocked_ok [OF fold_commit_ok(1) [OF ok, of E txs]]
  show "mp_ok (Update E h txs mp)" "mpConfig (Update E h txs mp) = mpConfig mp"
    "stored (Update E h txs mp) \<subseteq># filter_mset (\<lambda>t. tID t \<notin> (hex_encode \<circ> sha256) ` set txs) (stored mp)"
    using c r by (simp_all add: Update_def Let_def)
qed

lemma expireTxs_ok:
  assumes "mp_ok mp"
  shows "mp_ok (expireTxs E mp)" "mpConfig (expireTxs E mp) = mpConfig mp"
    "stored (expireTxs E mp) \<subseteq># stored mp"
  using fold_remove_ok [OF refl assms, of "\<lambda>_ m. m\<lparr>mmTxsExpired := mmTxsExpired m + 1\<rparr>" "env_now E" True]
  by (simp_all add: expireTxs_def Let_def)

lemma stored_cong: "mpTxStore mp' = mpTxStore mp \<Longrightarrow> stored mp' = stored mp"
  by (simp add: stored_def)

lemma cleanupCache_ok: "cleanupCache E mp = Ret mp' \<Longrightarrow> \<exists>r. mp' = mp\<lparr>mpRecentlyRemoved := r\<rparr>"
  by (auto simp: cleanupCache_def Let_def split: if_splits)

lemma add_limits:
  assumes "mp_ok mp'" and "mpTxCount mp' \<le> mcMaxTxs c" and "mpTxBytes mp' \<le> mcMaxBytes c" and "mpConfig mp' = c"
  shows "within_limits c mp'"
  using assms unfolding within_limits_def mp_ok_def by (simp add: le_nat_iff)

lemma mp_step_ok:
  assumes "mp_step mp mp'" and "mp_ok mp" and "within_limits c mp"
  shows "mp_ok mp' \<and> within_limits c mp'"
  using assms
proof (cases rule: mp_step.cases)
  case (mps_add E d s n p g r)
  show ?thesis
  proof (cases "mpIsRunning mp \<and> \<not> mpChClosed mp")
    case True
    then have run: "mpIsRunning mp" and ch: "\<not> mpChClosed mp" by simp_all
    from assms(2) mps_add(1) run ch show ?thesis
    proof (cases rule: AddTx_cases [of mp E d s n p g])
      case (rejected e)
      then show ?thesis using mps_add(2) assms(2,3) within_limits_sub [OF assms(3), of mp'] by simp
    next
      case (full mp1 D)
      then show ?thesis using mps_add(2) within_limits_sub [OF assms(3), of mp1] by simp
    next
      case (added mp1 D)
      moreover have "mpConfig mp = c" using assms(3) by (simp add: within_limits_def)
      ultimately show ?thesis using mps_add(2) add_limits [of mp1 c] by simp
    qed
  next
    case False
    show ?thesis
    proof (cases "mpIsRunning mp")
      case False
      then show ?thesis using mps_add(2) assms(2,3) by (simp add: AddTxWithMeta_def)
    next
      case run: True
      with False have ch: "mpChClosed mp" by simp
      show ?thesis
      proof (cases "admission_error E d s n p g mp")
        case (Some e)
        then have "mp' = rejectTx (received mp)"
          using mps_add(2) AddTx_unfold [OF run, of E d s n p g] by simp
        then show ?thesis using assms(2) within_limits_sub [OF assms(3), of mp'] by simp
      next
        case None
        from ensureCapacity_spec [of "received mp" E "new_tx E d s n p g mp"] assms(2) mps_add(1)
        obtain mp1 r1 D where
          1: "ensureCapacity E (new_tx E d s n p g mp) (received mp) = Ret (mp1, r1)" "mp_ok mp1"
            "same_frame (received mp) mp1" "stored mp = D + stored mp1"
          by auto
        have "mpChClosed mp1" "mpConfig mp1 = mpConfig mp" using 1(3) ch by (simp_all add: same_frame_def)
        then have "mp' = rejectTx mp1"
          using mps_add(2) AddTx_unfold [OF run, of E d s n p g] 1(1) None
          by (cases r1) (auto simp: notify_new_tx_def)
        then show ?thesis using 1 \<open>mpConfig mp1 = mpConfig mp\<close> within_limits_sub [OF assms(3), of mp'] by simp
      qed
    qed
  qed
next
  case (mps_update E h txs)
  have "stored mp' \<subseteq># stored mp"
    using Update_ok(3) [OF assms(2), of E h txs] mps_update(1)
    by (meson multiset_filter_subset subset_mset.order_trans)
  then show ?thesis using mps_update(1) Update_ok [OF assms(2)] within_limits_sub [OF assms(3), of mp'] by simp
next
  case (mps_expire E)
  then show ?thesis using expireTxs_ok [OF assms(2)] within_limits_sub [OF assms(3), of mp'] by simp
next
  case (mps_cleanup E)
  then obtain r where "mp' = mp\<lparr>mpRecentlyRemoved := r\<rparr>" using cleanupCache_ok by blast
  then show ?thesis using assms(2) within_limits_sub [OF assms(3), of mp'] by simp
next
  case mps_flush
  have "stored mp' = {#}" "mpConfig mp' = mpConfig mp"
    using mps_flush by (simp_all add: Flush_def updateMetrics_def stored_def)
  then show ?thesis using mps_flush within_limits_sub [OF assms(3), of mp']
    by (simp add: Flush_def updateMetrics_def mp_ok_def bytes_of_def index_ok_def)
qed (use assms(2,3) in \<open>auto simp: mp_Start_def mp_Stop_def SetCheckTxCallback_def recv_new_tx_def
      within_limits_def stored_def mp_ok_def split: if_splits list.splits\<close>)

lemma reachable_ok: "mp_reachable c mp \<Longrightarrow> mp_ok mp \<and> within_limits c mp"
proof (induction rule: mp_reachable.induct)
  case mpr_init
  show ?case by (simp add: within_limits_def) (simp add: NewMempool_def stored_def bytes_of_def)
qed (use mp_step_ok in blast)

text \<open>
  C19. Every pool reached from \<open>NewMempool\<close> by any sequence of its operations is consistent: the
  store is keyed by transaction id, \<open>Size\<close> and \<open>SizeBytes\<close> count exactly what is stored, the
  sender index holds the stored transactions of each sender in nonce order, and neither
  \<open>MaxTxs\<close> nor \<open>MaxBytes\<close> is exceeded.
\<close>

theorem mempool_invariant:
  assumes "mp_reachable c mp"
  shows "keyed tID (mpTxStore mp) \<and> mp_Size mp = int (size (stored mp)) \<and>
    SizeBytes mp = (\<Sum>t\<in>#stored mp. tx_Size t) \<and>
    (\<forall>s. s \<noteq> [] \<longrightarrow> sorted (map tNonce (GetTxsBySender s mp)) \<and>
       mset (GetTxsBySender s mp) = filter_mset (\<lambda>t. tSender t = s) (stored mp)) \<and>
    mp_Size mp \<le> max 0 (mcMaxTxs c) \<and> SizeBytes mp \<le> max 0 (mcMaxBytes c)"
proof -
  from reachable_ok [OF assms] have ok: "mp_ok mp" and lim: "within_limits c mp" by simp_all
  have ix: "sorted (map tNonce (GetTxsBySender s mp)) \<and>
       mset (GetTxsBySender s mp) = filter_mset (\<lambda>t. tSender t = s) (stored mp)" if "s \<noteq> []" for s
  proof
    show "mset (GetTxsBySender s mp) = filter_mset (\<lambda>t. tSender t = s) (stored mp)"
      using ok that unfolding mp_ok_def index_ok_def GetTxsBySender_def sender_txs_def by blast
    show "sorted (map tNonce (GetTxsBySender s mp))"
    proof (cases "go_get (mpSenderIndex mp) s")
      case (Some l)
      then show ?thesis
        using ok map_of_SomeD [OF Some] by (force simp: mp_ok_def index_ok_def GetTxsBySender_def sender_txs_def)
    qed (simp add: GetTxsBySender_def sender_txs_def)
  qed
  have "keyed tID (mpTxStore mp)" "mp_Size mp = int (size (stored mp))" "SizeBytes mp = bytes_of (stored mp)"
    using ok by (simp_all add: mp_ok_def mp_Size_def SizeBytes_def)
  moreover have "mp_Size mp \<le> max 0 (mcMaxTxs c)" "SizeBytes mp \<le> max 0 (mcMaxBytes c)"
    using lim ok by (auto simp: within_limits_def mp_ok_def mp_Size_def SizeBytes_def)
  ultimately show ?thesis using ix unfolding bytes_of_def by blast
qed

theorem mempool_invariant_witness:
  "\<exists>mp. mp_reachable DefaultMempoolConfig mp \<and> mp_Size mp \<le> 5000"
proof -
  have "mp_reachable DefaultMempoolConfig (NewMempool (Some DefaultMempoolConfig))" by (rule mpr_init)
  from mempool_invariant [OF this] this show ?thesis
    by (intro exI [of _ "NewMempool (Some DefaultMempoolConfig)"]) (simp add: DefaultMempoolConfig_def)
qed

section \<open>Reaping\<close>

lemma mset_reaped: "env_ok E \<Longrightarrow> mset (sort_key tTimestamp (map snd (env_range E (mpTxStore mp)))) = stored mp"
  by (simp add: env_ok_def go_order_def stored_def)

definition batch_limit :: "int \<Rightarrow> Mempool \<Rightarrow> nat" where
  "batch_limit mx mp = nat (if mx \<le> 0 \<or> mx > mcMaxBatchTxs (mpConfig mp) then mcMaxBatchTxs (mpConfig mp) else mx)"

lemma ReapMaxTxs_eq:
  assumes "mp_ok mp" and "0 \<le> mcMaxBatchTxs (mpConfig mp)"
  shows "ReapMaxTxs E mx mp = Ret (take (batch_limit mx mp) (sort_key tTimestamp (map snd (env_range E (mpTxStore mp)))))
    \<or> stored mp = {#} \<and> ReapMaxTxs E mx mp = Ret []"
proof (cases "mpTxCount mp = 0")
  case True
  then show ?thesis using assms(1) by (simp add: ReapMaxTxs_def mp_ok_def Let_def)
next
  case False
  then show ?thesis using assms(2) by (auto simp: ReapMaxTxs_def batch_limit_def Let_def)
qed

text \<open>
  \<open>ReapMaxTxs\<close> reaps first in, first out: as many stored transactions as the limit allows,
  in arrival order, and nothing left behind arrived before a reaped one. The pool is not
  changed. (A negative \<open>MaxBatchTxs\<close> would make the slice expression panic.)
\<close>

theorem ReapMaxTxs_fifo:
  assumes "mp_ok mp" and "env_ok E" and "0 \<le> mcMaxBatchTxs (mpConfig mp)"
  shows "\<exists>txs rest. ReapMaxTxs E mx mp = Ret txs \<and> stored mp = mset txs + rest \<and>
    length txs = min (batch_limit mx mp) (size (stored mp)) \<and> sorted (map tTimestamp txs) \<and>
    (\<forall>t \<in> set txs. \<forall>u \<in># rest. tTimestamp t \<le> tTimestamp u)"
proof -
  let ?l = "sort_key tTimestamp (map snd (env_range E (mpTxStore mp)))" and ?n = "batch_limit mx mp"
  note m = mset_reaped [OF assms(2), of mp]
  from ReapMaxTxs_eq [OF assms(1,3), of E mx] show ?thesis
  proof
    assume r: "ReapMaxTxs E mx mp = Ret (take ?n ?l)"
    have split: "stored mp = mset (take ?n ?l) + mset (drop ?n ?l)"
      unfolding m [symmetric] by (metis append_take_drop_id mset_append)
    have "sorted (map tTimestamp (take ?n ?l @ drop ?n ?l))" by simp
    then have "sorted (map tTimestamp (take ?n ?l))"
      and "\<forall>t \<in> set (take ?n ?l). \<forall>u \<in> set (drop ?n ?l). tTimestamp t \<le> tTimestamp u"
      unfolding map_append sorted_append by simp_all
    moreover have "length (take ?n ?l) = min ?n (size (stored mp))"
      using m by (metis length_take min.commute size_mset)
    ultimately show ?thesis using r split
      by (intro exI [of _ "take ?n ?l"] exI [of _ "mset (drop ?n ?l)"]) simp
  qed (auto intro: exI [of _ "{#}"])
qed

text \<open>Two transactions, with their ids abbreviated.\<close>

definition tx_a :: Tx where
  "tx_a = (NewTx 30 [1])\<lparr>tID := ''a''\<rparr>"

definition tx_b :: Tx where
  "tx_b = (NewTx 20 [2])\<lparr>tID := ''b''\<rparr>"

definition two_tx_pool :: Mempool where
  "two_tx_pool = addTxLocked (test_env 20) tx_b (addTxLocked (test_env 30) tx_a (NewMempool None))"

lemma two_tx_pool_facts:
  "mp_ok two_tx_pool" "mpConfig two_tx_pool = DefaultMempoolConfig"
  "stored two_tx_pool = {#tx_b, tx_a#}"
proof -
  have f: "go_get (mpTxStore (NewMempool None)) (tID tx_a) = None"
    by (simp add: NewMempool_def)
  note 1 = addTxLocked_ok [OF mp_ok_New f test_env_ok, of 30]
  have g: "go_get (mpTxStore (addTxLocked (test_env 30) tx_a (NewMempool None))) (tID tx_b) = None"
    by (simp add: NewMempool_def tx_a_def tx_b_def)
  note 2 = addTxLocked_ok [OF 1(1) g test_env_ok, of 20]
  show "mp_ok two_tx_pool" "stored two_tx_pool = {#tx_b, tx_a#}"
    using 2 1(2) unfolding two_tx_pool_def by (simp_all add: NewMempool_def stored_def)
  show "mpConfig two_tx_pool = DefaultMempoolConfig"
    by (simp add: two_tx_pool_def) (simp add: NewMempool_def)
qed

theorem ReapMaxTxs_fifo_witness:
  "\<exists>txs rest. ReapMaxTxs (test_env 40) 1 two_tx_pool = Ret txs \<and> stored two_tx_pool = mset txs + rest \<and>
     length txs = 1"
proof -
  have "0 \<le> mcMaxBatchTxs (mpConfig two_tx_pool)" "batch_limit 1 two_tx_pool = 1"
    by (simp_all add: two_tx_pool_facts batch_limit_def DefaultMempoolConfig_def)
  with ReapMaxTxs_fifo [OF two_tx_pool_facts(1) test_env_ok [of 40], of 1] show ?thesis
    by (auto simp: two_tx_pool_facts(3))
qed

lemma take_bytes_spec:
  "\<exists>rest. txs = take_bytes m u txs @ rest \<and>
     (u \<le> m \<longrightarrow> u + sum_list (map tx_Size (take_bytes m u txs)) \<le> m) \<and>
     (rest \<noteq> [] \<longrightarrow> u + sum_list (map tx_Size (take_bytes m u txs)) + tx_Size (hd rest) > m)"
proof (induction m u txs rule: take_bytes.induct)
  case (1 m u)
  then show ?case by simp
next
  case (2 m u tx txs)
  show ?case
  proof (cases "u + tx_Size tx > m")
    case True
    then show ?thesis by (intro exI [of _ "tx # txs"]) simp
  next
    case False
    then obtain rest where r: "txs = take_bytes m (u + tx_Size tx) txs @ rest"
      "u + tx_Size tx + sum_list (map tx_Size (take_bytes m (u + tx_Size tx) txs)) \<le> m"
      "rest \<noteq> [] \<longrightarrow> u + tx_Size tx + sum_list (map tx_Size (take_bytes m (u + tx_Size tx) txs)) + tx_Size (hd rest) > m"
      using 2 by fastforce
    show ?thesis
    proof (intro exI [of _ rest] conjI)
      show "tx # txs = take_bytes m u (tx # txs) @ rest" using False r(1) by simp
    qed (use False r(2,3) in \<open>simp_all add: add.assoc\<close>)
  qed
qed

text \<open>
  \<open>ReapMaxBytes\<close> returns the longest initial part of the first batch, in arrival order, that
  fits into the byte limit: what it returns never exceeds the limit, and the next transaction
  of the batch would.
\<close>

theorem ReapMaxBytes_correct:
  assumes "mp_ok mp" and "env_ok E" and "0 \<le> mcMaxBatchTxs (mpConfig mp)" and "0 \<le> maxBytes"
  shows "\<exists>batch txs rest. ReapMaxTxs E (mp_Size mp) mp = Ret batch \<and>
    ReapMaxBytes E maxBytes mp = Ret txs \<and> batch = txs @ rest \<and>
    sum_list (map tx_Size txs) \<le> maxBytes \<and>
    (rest \<noteq> [] \<longrightarrow> sum_list (map tx_Size txs) + tx_Size (hd rest) > maxBytes)"
proof (cases "mpTxCount mp = 0")
  case True
  then show ?thesis using assms(4) by (simp add: ReapMaxBytes_def ReapMaxTxs_def mp_Size_def Let_def)
next
  case False
  obtain batch where b: "ReapMaxTxs E (mp_Size mp) mp = Ret batch"
    using ReapMaxTxs_eq [OF assms(1,3)] by blast
  obtain rest where "batch = take_bytes maxBytes 0 batch @ rest"
     "sum_list (map tx_Size (take_bytes maxBytes 0 batch)) \<le> maxBytes"
     "rest \<noteq> [] \<longrightarrow> sum_list (map tx_Size (take_bytes maxBytes 0 batch)) + tx_Size (hd rest) > maxBytes"
    using take_bytes_spec [of batch maxBytes 0] assms(4) by auto
  moreover have "ReapMaxBytes E maxBytes mp = Ret (take_bytes maxBytes 0 batch)"
    using b False by (simp add: ReapMaxBytes_def mp_Size_def)
  ultimately show ?thesis using b by blast
qed

theorem ReapMaxBytes_correct_witness:
  "\<exists>txs. ReapMaxBytes (test_env 40) 1 two_tx_pool = Ret txs \<and> sum_list (map tx_Size txs) \<le> 1"
  using ReapMaxBytes_correct [OF two_tx_pool_facts(1) test_env_ok [of 40], of 1]
  by (auto simp: two_tx_pool_facts(2) DefaultMempoolConfig_def)

section \<open>Committing\<close>

lemma recheckTxsLocked_stored:
  assumes ok: "mp_ok mp" and E: "env_ok E"
  shows "stored (recheckTxsLocked E mp) =
    (case mpCheckTxCallback mp of None \<Rightarrow> stored mp | Some cb \<Rightarrow> filter_mset (\<lambda>t. cb t = None) (stored mp))"
proof (cases "mpCheckTxCallback mp")
  case None
  then show ?thesis by (simp add: recheckTxsLocked_def)
next
  case (Some cb)
  let ?is = "map fst (filter (\<lambda>(i, tx). cb tx \<noteq> None) (env_range E (mpTxStore mp)))"
  have f: "removeTxLocked now i c mp = update_metrics (\<lambda>m. m) (removeTxLocked now i c mp)" for now i c mp
    by (simp add: update_metrics_def)
  have "tID t \<notin> set ?is \<longleftrightarrow> cb t = None" if "t \<in># stored mp" for t
  proof -
    have "(tID t, u) \<in> set (mpTxStore mp) \<longleftrightarrow> u = t" for u
      using stored_unique [OF ok that] ok unfolding mp_ok_def by (metis go_get_Some_iff option.inject)
    then show ?thesis using range_stored [OF E, of mp] by force
  qed
  then have "filter_mset (\<lambda>t. tID t \<notin> set ?is) (stored mp) = filter_mset (\<lambda>t. cb t = None) (stored mp)"
    by (intro filter_mset_cong) simp_all
  then show ?thesis
    using fold_remove_ok(2) [OF f, of "update_metrics (\<lambda>m. m\<lparr>mmRecheckCount := mmRecheckCount m + 1\<rparr>) mp"
        "env_now E" False ?is] ok Some
    by (simp add: recheckTxsLocked_def Let_def)
qed

text \<open>
  C20. After \<open>Update\<close> the pool keeps exactly the transactions that were not committed and, with
  rechecking on, that still pass the callback; its height is the block's.
\<close>

theorem Update_keeps_valid_uncommitted:
  assumes "mp_ok mp" and "env_ok E"
  shows "mp_ok (Update E h txs mp) \<and> mpHeight (Update E h txs mp) = h \<and>
    stored (Update E h txs mp) = filter_mset (\<lambda>t. tID t \<notin> (\<lambda>d. tID (NewTx (env_now E) d)) ` set txs \<and>
       (mcRecheckEnabled (mpConfig mp) \<longrightarrow>
          (\<forall>cb. mpCheckTxCallback mp = Some cb \<longrightarrow> cb t = None))) (stored mp)"
proof -
  let ?f = "\<lambda>m. m\<lparr>mmLastBlockTime := env_now E\<rparr>"
  let ?mp = "fold (commit_tx E) txs (update_metrics ?f (mp\<lparr>mpHeight := h\<rparr>))"
  have ids: "tID (NewTx now d) = hex_encode (sha256 d)" for now d by (simp add: NewTx_def Let_def)
  have h: "mpHeight (fold (commit_tx E) txs m) = mpHeight m" for m
    by (induction txs arbitrary: m) (simp_all add: commit_tx_def)
  have hf: "mpHeight (fold (\<lambda>i mp. removeTxLocked now i False mp) js m) = mpHeight m" for js now m
    by (induction js arbitrary: m) simp_all
  have hr: "mpHeight (recheckTxsLocked E m) = mpHeight m" for m
    by (simp add: recheckTxsLocked_def Let_def hf split: option.split)
  have ok: "mp_ok (update_metrics ?f (mp\<lparr>mpHeight := h\<rparr>))" using assms(1) by simp
  note c = fold_commit_ok [OF ok, of E txs]
  note r = recheckTxsLocked_stored [OF c(1) assms(2)]
  have "stored (Update E h txs mp) = filter_mset (\<lambda>t. tID t \<notin> (hex_encode \<circ> sha256) ` set txs \<and>
       (mcRecheckEnabled (mpConfig mp) \<longrightarrow> (\<forall>cb. mpCheckTxCallback mp = Some cb \<longrightarrow> cb t = None))) (stored mp)"
    using r c by (auto simp: Update_def Let_def filter_filter_mset conj_commute split: option.split)
  moreover have "mpHeight (Update E h txs mp) = h" by (simp add: Update_def Let_def h hr)
  ultimately show ?thesis using Update_ok(1) [OF assms(1)] by (simp add: ids comp_def)
qed

theorem Update_keeps_valid_uncommitted_witness:
  "stored (Update (test_env 50) 1 [] two_tx_pool) = {#tx_b, tx_a#}"
proof -
  have "mpCheckTxCallback two_tx_pool = None" by (simp add: two_tx_pool_def) (simp add: NewMempool_def)
  then show ?thesis
    using Update_keeps_valid_uncommitted [OF two_tx_pool_facts(1) test_env_ok [of 50], of 1 "[]"]
    by (simp add: two_tx_pool_facts(3))
qed

section \<open>Where the pool does less than it means to\<close>

text \<open>
  A committed transaction is remembered, and refused when it arrives again, only if the
  pool held it when the block was committed: \<open>Update\<close> leaves a transaction it never had out of
  the cache, so a copy that arrives after the commit is admitted like a new one.
\<close>

theorem late_copy_of_committed_tx:
  assumes "mp_ok mp" and "\<not> mcRecheckEnabled (mpConfig mp)"
    and "go_get (mpRecentlyRemoved mp) (tID (NewTx (env_now E) d)) = None"
    and "int (length d) \<le> mcMaxTxBytes (mpConfig mp)"
  shows "admission_error E' d s n p g (Update E h [d] mp) = Some ErrTxAlreadyExists \<longleftrightarrow>
         HasTx (tID (NewTx (env_now E) d)) mp"
proof -
  let ?i = "hex_encode (sha256 d)"
  have id: "tID (NewTx now d) = ?i" for now by (simp add: NewTx_def Let_def)
  let ?m0 = "update_metrics (\<lambda>m. m\<lparr>mmLastBlockTime := env_now E\<rparr>) (mp\<lparr>mpHeight := h\<rparr>)"
  have u: "Update E h [d] mp = update_metrics (\<lambda>m. m\<lparr>mmTxsCommitted := mmTxsCommitted m + 1\<rparr>)
      (removeTxLocked (env_now E) ?i True ?m0)"
    using assms(2) by (simp add: Update_def Let_def commit_tx_def id)
  have gone: "\<not> HasTx ?i (Update E h [d] mp)"
  proof -
    have "mp_ok ?m0" using assms(1) by simp
    note r = removeTxLocked_ok [OF this, of "env_now E" ?i True]
    have "go_get (mpTxStore (removeTxLocked (env_now E) ?i True ?m0)) ?i \<noteq> Some t" for t
    proof
      assume g: "go_get (mpTxStore (removeTxLocked (env_now E) ?i True ?m0)) ?i = Some t"
      from stored_get [OF g] stored_id [OF r(1) g] show False unfolding r(2) by simp
    qed
    then show ?thesis unfolding u by (auto simp: HasTx_def)
  qed
  have cache: "go_get (mpRecentlyRemoved (Update E h [d] mp)) ?i \<noteq> None \<longleftrightarrow> HasTx ?i mp"
  proof (cases "go_get (mpTxStore mp) ?i")
    case None
    then show ?thesis using assms(3) unfolding u id by (simp add: HasTx_def)
  next
    case (Some t)
    then show ?thesis unfolding u using removeTxLocked_present(5) [of ?m0 ?i t] by (simp add: HasTx_def)
  qed
  have "mpConfig (Update E h [d] mp) = mpConfig mp" unfolding u by simp
  then show ?thesis
    using gone cache assms(4) checkNonce_range [of s n "Update E h [d] mp"]
    unfolding admission_error_def Let_def new_tx_simps id by (auto split: option.splits)
qed

definition no_recheck_pool :: Mempool where
  "no_recheck_pool = NewMempool (Some (DefaultMempoolConfig\<lparr>mcRecheckEnabled := False\<rparr>))"

theorem late_copy_of_committed_tx_witness:
  "admission_error (test_env 9) [1, 2] [] 0 0 0 (Update (test_env 8) 1 [[1, 2]] no_recheck_pool)
     \<noteq> Some ErrTxAlreadyExists"
proof -
  have h: "mp_ok no_recheck_pool" "\<not> mcRecheckEnabled (mpConfig no_recheck_pool)"
    "go_get (mpRecentlyRemoved no_recheck_pool) (tID (NewTx (env_now (test_env 8)) [1, 2])) = None"
    "int (length [1 :: byte, 2]) \<le> mcMaxTxBytes (mpConfig no_recheck_pool)"
    "\<not> HasTx (tID (NewTx (env_now (test_env 8)) [1, 2])) no_recheck_pool"
    by (simp_all add: no_recheck_pool_def) (simp_all add: NewMempool_def DefaultMempoolConfig_def HasTx_def)
  then show ?thesis using late_copy_of_committed_tx [OF h(1-4)] by simp
qed

text \<open>
  The nonce check refuses a nonce a sender has used, except nonce 0 of a new sender: the
  last nonce is recorded only when it is greater than the map's default 0, so a sender may have
  any number of transactions with nonce 0 in the pool.
\<close>

theorem nonce_zero_is_reusable:
  assumes "tSender tx \<noteq> []" and "go_get (mpSenderNonce mp) (tSender tx) = None"
  shows "checkNonce (tSender tx) (tNonce tx) (addTxLocked E tx mp) = None \<longleftrightarrow> tNonce tx = 0"
proof -
  have "sender_nonce (tSender tx) (mp\<lparr>mpTxStore := a, mpTxCount := b, mpTxBytes := c, mpSenderIndex := d\<rparr>) = 0"
    for a b c d using assms(2) by (simp add: sender_nonce_def)
  then show ?thesis
    using assms by (auto simp: addTxLocked_def Let_def updateMetrics_def checkNonce_def word_gt_0)
qed

theorem nonce_zero_is_reusable_witness:
  "checkNonce ''alice'' 0 (addTxLocked (test_env 1) (NewTxWithMeta 1 [1] ''alice'' 0 3 0) tiny_pool) = None"
proof -
  let ?tx = "NewTxWithMeta 1 [1] ''alice'' 0 3 0"
  have "tSender ?tx = ''alice''" "tNonce ?tx = 0" by (simp_all add: NewTxWithMeta_def)
  then show ?thesis using nonce_zero_is_reusable [of ?tx tiny_pool "test_env 1"] by simp
qed

text \<open>
  A pool that is stopped and started again is broken: \<open>Stop\<close> closes the notification
  channel and \<open>Start\<close> does not make a new one, so the first transaction that is admitted and
  fits panics (after it was stored), and so does the next \<open>Stop\<close>.
\<close>

theorem restarted_pool_panics:
  assumes "mp_ok mp" and "env_ok E" and "mpIsRunning mp" and "mp_Stop mp = Ret mp1"
    and "admission_error E d s n p g (mp_Start mp1) = None"
    and "mp_Size mp < mcMaxTxs (mpConfig mp)"
    and "SizeBytes mp + int (length d) \<le> mcMaxBytes (mpConfig mp)"
  shows "AddTxWithMeta E d s n p g (mp_Start mp1) = Panic Closed_Channel \<and>
         mp_Stop (mp_Start mp1) = Panic Closed_Channel"
proof -
  have m: "mp_Start mp1 = mp\<lparr>mpIsRunning := True, mpChClosed := True\<rparr>"
    using assms(3,4) by (auto simp: mp_Stop_def mp_Start_def split: if_splits)
  let ?mp = "mp\<lparr>mpIsRunning := True, mpChClosed := True\<rparr>"
  have "ensureCapacity E (new_tx E d s n p g ?mp) (received ?mp) = Ret (received ?mp, None)"
    using assms(6,7) by (simp add: ensureCapacity_def evict_while.simps mp_Size_def SizeBytes_def received_def)
  then have "AddTxWithMeta E d s n p g ?mp = Panic Closed_Channel"
    using AddTx_unfold [of ?mp E d s n p g] assms(5)[unfolded m] by (simp add: notify_new_tx_def)
  then show ?thesis unfolding m by (simp add: mp_Stop_def)
qed

theorem restarted_pool_panics_witness:
  "AddTx (test_env 2) [1, 2] (mp_Start (tiny_pool\<lparr>mpIsRunning := False, mpChClosed := True\<rparr>)) =
     Panic Closed_Channel"
proof -
  let ?mp1 = "tiny_pool\<lparr>mpIsRunning := False, mpChClosed := True\<rparr>"
  have "mp_Stop tiny_pool = Ret ?mp1" by (simp add: mp_Stop_def)
  moreover have "admission_error (test_env 2) [1, 2] [] 0 0 0 (mp_Start ?mp1) = None"
    by (simp add: admission_error_def mp_Start_def HasTx_def DefaultMempoolConfig_def)
  moreover have "mp_Size tiny_pool = 0" "SizeBytes tiny_pool = 0"
    using mp_ok_empty [of tiny_pool] by (simp_all add: mp_Size_def SizeBytes_def)
  ultimately show ?thesis
    using restarted_pool_panics [of tiny_pool "test_env 2" ?mp1 "[1, 2]" "[]" 0 0 0]
    by (simp add: AddTx_def DefaultMempoolConfig_def)
qed

text \<open>A pool of ten bytes that holds a cheap transaction and a dear one.\<close>

definition small_pool :: Mempool where
  "small_pool = addTxLocked (test_env 2) (tx_b\<lparr>tData := [1, 2, 3, 4, 5, 6], tGasPrice := 9\<rparr>)
     (addTxLocked (test_env 1) (tx_a\<lparr>tData := [1, 2, 3, 4], tGasPrice := 1\<rparr>)
       (mp_Start (NewMempool (Some (DefaultMempoolConfig\<lparr>mcMaxBytes := 10\<rparr>)))))"

text \<open>
  \<open>AddTxWithMeta\<close> may evict for nothing: a transaction that does not fit after the cheaper
  ones are gone is refused as \<open>ErrMempoolFull\<close>, but the evicted transactions stay out (and are
  in the cache that refuses their return).
\<close>

theorem eviction_without_admission:
  "\<exists>mp'. AddTxWithMeta (test_env 3) [1, 2, 3, 4, 5] [] 0 5 0 small_pool = Ret (mp', Some ErrMempoolFull) \<and>
     HasTx ''a'' small_pool \<and> \<not> HasTx ''a'' mp' \<and> go_get (mpRecentlyRemoved mp') ''a'' = Some 3 \<and>
     mp_Size mp' = 1"
proof -
  have ne: "hex_encode (sha256 d) \<noteq> s" if "length s < 64" for d s
    using that by (metis length_hex_encode length_sha256 less_irrefl mult_2_right numeral_Bit0 numeral_code(2) mult.commute num_double)
  have store: "mpTxStore small_pool = [(''a'', tx_a\<lparr>tData := [1, 2, 3, 4], tGasPrice := 1\<rparr>),
      (''b'', tx_b\<lparr>tData := [1, 2, 3, 4, 5, 6], tGasPrice := 9\<rparr>)]"
    "mpTxCount small_pool = 2" "mpTxBytes small_pool = 10" "mpIsRunning small_pool"
    "mpConfig small_pool = DefaultMempoolConfig\<lparr>mcMaxBytes := 10\<rparr>" "mpRecentlyRemoved small_pool = []"
    "mpCheckTxCallback small_pool = None"
    by (simp_all add: small_pool_def tx_a_def tx_b_def tx_Size_def)
      (simp_all add: mp_Start_def NewMempool_def)
  let ?tx = "new_tx (test_env 3) [1, 2, 3, 4, 5] [] 0 5 0 small_pool"
  have adm: "admission_error (test_env 3) [1, 2, 3, 4, 5] [] 0 5 0 small_pool = None"
    by (simp add: admission_error_def Let_def HasTx_def store ne DefaultMempoolConfig_def)
  let ?r = "received small_pool"
  let ?a = "tx_a\<lparr>tData := [1, 2, 3, 4], tGasPrice := 1\<rparr>"
  have low: "lowest_tx (test_env 3) ?r = (1, Some ?a)"
    by (simp add: lowest_tx_def store test_env_def)
  have id: "tID ?a = ''a''" and now: "env_now (test_env 3) = 3"
    by (simp_all add: tx_a_def test_env_def)
  obtain mp1 where mp1: "mp1 = update_metrics (\<lambda>m. m\<lparr>mmTxsEvicted := mmTxsEvicted m + 1\<rparr>)
      (removeTxLocked 3 ''a'' True ?r)" by blast
  have "\<not> (5 :: u64) \<le> 1" by (simp add: word_le_nat_alt)
  then have ev: "evictLowestPriority (test_env 3) 5 ?r = Some mp1"
    by (simp add: evictLowestPriority_def low id now mp1)
  have ga: "go_get (mpTxStore ?r) ''a'' = Some ?a" by (simp add: store)
  have f: "mpTxStore mp1 = [(''b'', tx_b\<lparr>tData := [1, 2, 3, 4, 5, 6], tGasPrice := 9\<rparr>)]"
      "mpTxBytes mp1 = 6" "mpTxCount mp1 = 1" "mpConfig mp1 = DefaultMempoolConfig\<lparr>mcMaxBytes := 10\<rparr>"
      "mpRecentlyRemoved mp1 = [(''a'', 3)]"
    using store by (simp_all add: mp1 removeTxLocked_present [OF ga] tx_Size_def)
      (simp_all add: received_def)
  have stuck: "evictLowestPriority (test_env 3) 5 mp1 = None"
    by (simp add: evictLowestPriority_def lowest_tx_def f test_env_def)
  have "ensureCapacity (test_env 3) ?tx ?r = Ret (mp1, Some ErrMempoolFull)"
    using ev stuck f by (simp add: ensureCapacity_def evict_while.simps store DefaultMempoolConfig_def)
      (simp add: received_def store)
  then have "AddTxWithMeta (test_env 3) [1, 2, 3, 4, 5] [] 0 5 0 small_pool = Ret (rejectTx mp1, Some ErrMempoolFull)"
    using AddTx_unfold [OF store(4)] adm by simp
  then show ?thesis by (simp add: HasTx_def f store mp_Size_def)
qed

end
