(* ===== verification/Reactor.thy ===== *)
theory Reactor
  imports Mempool_Props
begin

text \<open>
  \<open>mempool/reactor.go\<close>: the reactor that submits client transactions to the pool, queues them
  for gossip and takes in the transactions of peers. The two goroutines are the operations
  \<open>broadcast_dequeue\<close>, \<open>broadcast_tick\<close> and \<open>receive_new_tx\<close>, one per \<open>select\<close> case, and the loops
  over them; what is handed to \<open>Broadcaster.BroadcastTx\<close> is the returned list of payloads.
\<close>

record ReactorConfig =
  rcBroadcastEnabled :: bool
  rcBroadcastDelay :: int
  rcMaxBroadcastBatch :: int
  rcMaxPendingTxs :: int

definition DefaultReactorConfig :: ReactorConfig where
  "DefaultReactorConfig = \<lparr>rcBroadcastEnabled = True, rcBroadcastDelay = 10000000,
     rcMaxBroadcastBatch = 100, rcMaxPendingTxs = 10000\<rparr>"

text \<open>\<open>reBatch\<close> is the local variable \<open>batch\<close> of \<open>broadcastLoop\<close>.\<close>

record Reactor =
  reConfig :: ReactorConfig
  reMempool :: Mempool
  reBroadcasterSet :: bool
  reQueue :: "Tx list"
  reIsRunning :: bool
  reBatch :: "Tx list"

definition NewReactor :: "Mempool \<Rightarrow> ReactorConfig option \<Rightarrow> Reactor" where
  "NewReactor mp config =
     \<lparr>reConfig = (case config of None \<Rightarrow> DefaultReactorConfig | Some c \<Rightarrow> c), reMempool = mp,
      reBroadcasterSet = False, reQueue = [], reIsRunning = False, reBatch = []\<rparr>"

definition SetBroadcaster :: "Reactor \<Rightarrow> Reactor" where
  "SetBroadcaster r = r\<lparr>reBroadcasterSet := True\<rparr>"

definition re_Start :: "Reactor \<Rightarrow> Reactor" where
  "re_Start r = (if reIsRunning r then r else r\<lparr>reIsRunning := True\<rparr>)"

definition re_Stop :: "Reactor \<Rightarrow> Reactor" where
  "re_Stop r = (if \<not> reIsRunning r then r else r\<lparr>reIsRunning := False\<rparr>)"

definition SubmitTxWithMeta ::
  "mp_env \<Rightarrow> bytes \<Rightarrow> string \<Rightarrow> u64 \<Rightarrow> u64 \<Rightarrow> u64 \<Rightarrow> Reactor \<Rightarrow> (Reactor \<times> mempool_error option) go" where
  "SubmitTxWithMeta E txBytes sender nonce gasPrice gasLimit r =
     go_bind (AddTxWithMeta E txBytes sender nonce gasPrice gasLimit (reMempool r)) (\<lambda>(mp, err).
       let r = r\<lparr>reMempool := mp\<rparr> in
       case err of
         Some e \<Rightarrow> Ret (r, Some e)
       | None \<Rightarrow>
           if rcBroadcastEnabled (reConfig r)
           then
             let tx = NewTxWithMeta (env_now E) txBytes sender nonce gasPrice gasLimit
             in if int (length (reQueue r)) < rcMaxPendingTxs (reConfig r)
                then Ret (r\<lparr>reQueue := reQueue r @ [tx]\<rparr>, None)
                else Ret (r, None)
           else Ret (r, None))"

definition SubmitTx :: "mp_env \<Rightarrow> bytes \<Rightarrow> Reactor \<Rightarrow> (Reactor \<times> mempool_error option) go" where
  "SubmitTx E txBytes r = SubmitTxWithMeta E txBytes [] 0 0 0 r"

definition ReceiveTx :: "mp_env \<Rightarrow> string \<Rightarrow> bytes \<Rightarrow> Reactor \<Rightarrow> (Reactor \<times> mempool_error option) go" where
  "ReceiveTx E peerID txBytes r =
     go_bind (AddTx E txBytes (reMempool r)) (\<lambda>(mp, err).
       let r = r\<lparr>reMempool := mp\<rparr> in
       case err of
         Some e \<Rightarrow> (if e = ErrTxAlreadyExists then Ret (r, None) else Ret (r, Some e))
       | None \<Rightarrow> Ret (r, None))"

definition broadcastBatch :: "Tx list \<Rightarrow> Reactor \<Rightarrow> bytes list" where
  "broadcastBatch batch r = (if \<not> reBroadcasterSet r then [] else map tData batch)"

definition broadcast_dequeue :: "Reactor \<Rightarrow> (Reactor \<times> bytes list) option" where
  "broadcast_dequeue r =
     (case reQueue r of
        [] \<Rightarrow> None
      | tx # q \<Rightarrow>
          let batch = reBatch r @ [tx]; r = r\<lparr>reQueue := q, reBatch := batch\<rparr>
          in if int (length batch) \<ge> rcMaxBroadcastBatch (reConfig r)
             then Some (r\<lparr>reBatch := []\<rparr>, broadcastBatch batch r)
             else Some (r, []))"

definition broadcast_tick :: "Reactor \<Rightarrow> Reactor \<times> bytes list" where
  "broadcast_tick r =
     (if reBatch r \<noteq> [] then (r\<lparr>reBatch := []\<rparr>, broadcastBatch (reBatch r) r) else (r, []))"

definition receive_new_tx :: "Reactor \<Rightarrow> Reactor option" where
  "receive_new_tx r =
     (case recv_new_tx (reMempool r) of None \<Rightarrow> None | Some (tx, mp) \<Rightarrow> Some (r\<lparr>reMempool := mp\<rparr>))"

text \<open>
  The goroutine as a whole, given the cases its \<open>select\<close> takes; it returns what was handed to the
  broadcaster.
\<close>

datatype gossip_event = Gossip_Done | Gossip_Dequeue | Gossip_Tick

fun gossip_events :: "gossip_event list \<Rightarrow> Reactor \<Rightarrow> Reactor \<times> bytes list" where
  "gossip_events [] r = (r, [])"
| "gossip_events (Gossip_Done # evs) r = (r, [])"
| "gossip_events (Gossip_Dequeue # evs) r =
     (case broadcast_dequeue r of
        None \<Rightarrow> gossip_events evs r
      | Some (r, out) \<Rightarrow> let (r, rest) = gossip_events evs r in (r, out @ rest))"
| "gossip_events (Gossip_Tick # evs) r =
     (let (r, out) = broadcast_tick r; (r, rest) = gossip_events evs r in (r, out @ rest))"

definition broadcastLoop :: "gossip_event list \<Rightarrow> Reactor \<Rightarrow> (Reactor \<times> bytes list) go" where
  "broadcastLoop evs r =
     (if rcBroadcastDelay (reConfig r) \<le> 0 then Panic Explicit_Panic
      else Ret (gossip_events evs (r\<lparr>reBatch := []\<rparr>)))"

text \<open>The other goroutine takes every new transaction of the pool and drops it.\<close>

fun receiveNewTxLoop :: "nat \<Rightarrow> Reactor \<Rightarrow> Reactor" where
  "receiveNewTxLoop 0 r = r"
| "receiveNewTxLoop (Suc k) r = (case receive_new_tx r of None \<Rightarrow> r | Some r \<Rightarrow> receiveNewTxLoop k r)"

definition re_GetMempool :: "Reactor \<Rightarrow> Mempool" where
  "re_GetMempool r = reMempool r"

section \<open>Gossip\<close>

text \<open>The payloads still to be sent, in order.\<close>

definition pending :: "Reactor \<Rightarrow> bytes list" where
  "pending r = map tData (reBatch r @ reQueue r)"

text \<open>
  The gossip goroutine neither loses, duplicates nor reorders what \<open>SubmitTxWithMeta\<close>
  queued: a dequeue or a tick hands the broadcaster a first part of the pending payloads and
  keeps the rest, and a submission appends its bytes when it was accepted and the queue has
  room, and appends nothing when it was refused.
\<close>

theorem gossip_is_fifo:
  assumes "reBroadcasterSet r"
  shows "(broadcast_dequeue r = Some (r1, out) \<longrightarrow> pending r = out @ pending r1) \<and>
    (broadcast_tick r = (r2, out2) \<longrightarrow> pending r = out2 @ pending r2) \<and>
    (SubmitTxWithMeta E d s n p g r = Ret (r3, e) \<longrightarrow>
       pending r3 = pending r @ (if e = None \<and> rcBroadcastEnabled (reConfig r) \<and>
           int (length (reQueue r)) < rcMaxPendingTxs (reConfig r) then [d] else []))"
proof (intro conjI impI)
  assume "broadcast_dequeue r = Some (r1, out)"
  then show "pending r = out @ pending r1"
    using assms by (auto simp: broadcast_dequeue_def pending_def broadcastBatch_def Let_def
        split: list.splits if_splits)
next
  assume "broadcast_tick r = (r2, out2)"
  then show "pending r = out2 @ pending r2"
    using assms by (auto simp: broadcast_tick_def pending_def broadcastBatch_def split: if_splits)
next
  assume sub: "SubmitTxWithMeta E d s n p g r = Ret (r3, e)"
  show "pending r3 = pending r @ (if e = None \<and> rcBroadcastEnabled (reConfig r) \<and>
           int (length (reQueue r)) < rcMaxPendingTxs (reConfig r) then [d] else [])"
  proof (cases "AddTxWithMeta E d s n p g (reMempool r)")
    case (Ret x)
    obtain mp err where x: "x = (mp, err)" by (cases x)
    have d: "tData (NewTxWithMeta t d s n p g) = d" for t by (simp add: NewTxWithMeta_def NewTx_def Let_def)
    from sub show ?thesis
      unfolding SubmitTxWithMeta_def Ret x go_bind.simps prod.case Let_def
      by (cases err) (auto simp: pending_def d split: if_split_asm)
  qed (use sub in \<open>simp_all add: SubmitTxWithMeta_def\<close>)
qed

definition queued_reactor :: Reactor where
  "queued_reactor = (SetBroadcaster (NewReactor tiny_pool None))\<lparr>reQueue := [NewTx 1 [4], NewTx 2 [5]]\<rparr>"

theorem gossip_is_fifo_witness:
  "\<exists>r. broadcast_dequeue queued_reactor = Some (r, []) \<and> pending r = [[4], [5]]"
proof -
  let ?r = "queued_reactor\<lparr>reQueue := [NewTx 2 [5]], reBatch := [NewTx 1 [4]]\<rparr>"
  have b: "reBroadcasterSet queued_reactor" by (simp add: queued_reactor_def SetBroadcaster_def)
  have "broadcast_dequeue queued_reactor = Some (?r, [])"
    by (simp add: broadcast_dequeue_def queued_reactor_def SetBroadcaster_def NewReactor_def DefaultReactorConfig_def)
  moreover have "pending queued_reactor = [[4], [5]]"
    by (simp add: queued_reactor_def SetBroadcaster_def NewReactor_def pending_def NewTx_def Let_def)
  ultimately show ?thesis using gossip_is_fifo [OF b, of ?r "[]"] by simp
qed

text \<open>
  Gossip drops the fee, the sender and the nonce: whatever a client submitted, a peer that
  receives the gossiped bytes and admits them stores the transaction with gas price 0 and no
  sender, so the peer neither checks its nonce nor ranks it by its price.
\<close>

theorem gossip_drops_fee:
  assumes "mp_ok (reMempool r)" and "env_ok E" and "mpIsRunning (reMempool r)" and "\<not> mpChClosed (reMempool r)"
    and "\<not> HasTx (tID (NewTx 0 d)) (reMempool r)"
    and "ReceiveTx E peer d r = Ret (r', None)" and "GetTx (tID (NewTx 0 d)) (reMempool r') = Some tx"
  shows "tGasPrice tx = 0 \<and> tSender tx = [] \<and> tNonce tx = 0"
proof -
  have id: "tID (NewTx t d) = hex_encode (sha256 d)" for t by (simp add: NewTx_def Let_def)
  let ?mp = "reMempool r"
  from assms(1-4) show ?thesis
  proof (cases rule: AddTx_cases [of ?mp E d "[]" 0 0 0])
    case (rejected e)
    then have "mpTxStore (reMempool r') = mpTxStore ?mp"
      using assms(6) by (auto simp: ReceiveTx_def AddTx_def Let_def split: if_splits)
    then show ?thesis using assms(5,7) by (simp add: HasTx_def GetTx_def)
  next
    case (full mp' D)
    then show ?thesis using assms(6) by (auto simp: ReceiveTx_def AddTx_def Let_def split: if_splits)
  next
    case (added mp' D)
    then have "reMempool r' = mp'" using assms(6) by (auto simp: ReceiveTx_def AddTx_def Let_def)
    then have "GetTx (hex_encode (sha256 d)) (reMempool r') = Some (new_tx E d [] 0 0 0 ?mp)"
      using stored_unique [OF added(3) added(6)] by (simp add: GetTx_def)
    then have "tx = new_tx E d [] 0 0 0 ?mp" using assms(7) id by simp
    then show ?thesis by simp
  qed
qed

theorem gossip_drops_fee_witness:
  "\<exists>r' tx. ReceiveTx (test_env 5) ''peer'' [1, 2] (NewReactor tiny_pool None) = Ret (r', None) \<and>
     GetTx (tID (NewTx 0 [1, 2])) (reMempool r') = Some tx \<and> tGasPrice tx = 0"
proof -
  let ?r = "NewReactor tiny_pool None"
  have mp: "reMempool ?r = tiny_pool" by (simp add: NewReactor_def)
  have h: "mp_ok (reMempool ?r)" "env_ok (test_env 5)" "mpIsRunning (reMempool ?r)" "\<not> mpChClosed (reMempool ?r)"
    "\<not> HasTx (tID (NewTx 0 [1, 2])) (reMempool ?r)"
    unfolding mp by (simp_all add: HasTx_def)
  have adm: "admission_error (test_env 5) [1, 2] [] 0 0 0 tiny_pool = None"
    by (simp add: admission_error_def HasTx_def DefaultMempoolConfig_def)
  have "\<exists>mp'. AddTxWithMeta (test_env 5) [1, 2] [] 0 0 0 tiny_pool = Ret (mp', None) \<and>
      GetTx (tID (NewTx 0 [1, 2])) mp' = Some (new_tx (test_env 5) [1, 2] [] 0 0 0 tiny_pool)"
    using h(1-4)[unfolded mp]
  proof (cases rule: AddTx_cases [of tiny_pool "test_env 5" "[1, 2]" "[]" 0 0 0])
    case (full mp' D)
    then show ?thesis using mp_ok_empty [of mp'] by (auto simp: DefaultMempoolConfig_def)
  next
    case (added mp' D)
    then show ?thesis using stored_unique [OF added(3) added(6)]
      by (simp add: GetTx_def) (simp add: NewTx_def Let_def)
  qed (use adm in simp)
  then obtain mp' where "ReceiveTx (test_env 5) ''peer'' [1, 2] ?r = Ret (?r\<lparr>reMempool := mp'\<rparr>, None)"
    and "GetTx (tID (NewTx 0 [1, 2])) (reMempool (?r\<lparr>reMempool := mp'\<rparr>)) =
      Some (new_tx (test_env 5) [1, 2] [] 0 0 0 tiny_pool)"
    by (auto simp: ReceiveTx_def AddTx_def mp Let_def)
  from gossip_drops_fee [OF h this] this show ?thesis by blast
qed

end
