(* ===== verification/Store.thy ===== *)
theory Store
  imports Types
begin

text \<open>
  \<open>persistence/store.go\<close>: the \<open>Store\<close> interface as a record of operations (the method table a
  client is given) and as a locale with the laws a store owes its clients, and \<open>MemoryStore\<close>
  with its operations, for which the laws are proved. \<open>LoadBlocks\<close> counts a \<open>uint64\<close> up to its
  bound and may therefore not return.
\<close>

section \<open>The interface\<close>

record PCheckpoint =
  pcpSequenceNum :: u64
  pcpDigest :: bytes
  pcpNodeID :: string

record ConsensusState =
  csNodeID :: string
  csCurrentView :: u64
  csCurrentHeight :: u64
  csLastAppHash :: bytes
  csLastBlockHash :: bytes

datatype store_error = Nil_Argument | Io_Error | Decode_Error

text \<open>
  A method that changes the store returns it with the error, a query returns the error or the
  value. A pointer that may be \<open>nil\<close> is an option.
\<close>

record 's store_ops =
  st_SaveBlock :: "Block option \<Rightarrow> 's \<Rightarrow> 's \<times> store_error option"
  st_LoadBlock :: "u64 \<Rightarrow> 's \<Rightarrow> store_error + Block option"
  st_LoadBlocks :: "u64 \<Rightarrow> u64 \<Rightarrow> 's \<Rightarrow> (store_error + Block list) go"
  st_GetLatestBlockHeight :: "'s \<Rightarrow> store_error + u64"
  st_SaveState :: "ConsensusState option \<Rightarrow> 's \<Rightarrow> 's \<times> store_error option"
  st_LoadState :: "'s \<Rightarrow> store_error + ConsensusState option"
  st_SaveCheckpoint :: "PCheckpoint option \<Rightarrow> 's \<Rightarrow> 's \<times> store_error option"
  st_LoadCheckpoint :: "u64 \<Rightarrow> 's \<Rightarrow> store_error + PCheckpoint option"
  st_LoadCheckpoints :: "'s \<Rightarrow> store_error + PCheckpoint list"
  st_GetLatestCheckpoint :: "'s \<Rightarrow> store_error + PCheckpoint option"

text \<open>
  The laws, over what is stored: \<open>blocks\<close> by height, the last state, \<open>checkpoints\<close> by number.
\<close>

locale store_spec =
  fixes ops :: "'s store_ops" and inv :: "'s \<Rightarrow> bool"
    and blocks :: "'s \<Rightarrow> u64 \<Rightarrow> Block option"
    and checkpoints :: "'s \<Rightarrow> u64 \<Rightarrow> PCheckpoint option"
    and saved_state :: "'s \<Rightarrow> ConsensusState option"
  assumes save_block: "inv s \<Longrightarrow> st_SaveBlock ops (Some b) s = (s', None) \<Longrightarrow>
      inv s' \<and> blocks s' = (blocks s)(hHeight (bHeader b) \<mapsto> b) \<and>
      checkpoints s' = checkpoints s \<and> saved_state s' = saved_state s"
    and save_nil: "st_SaveBlock ops None s = (s, Some Nil_Argument)"
    and save_state: "inv s \<Longrightarrow> st_SaveState ops (Some c) s = (s', None) \<Longrightarrow>
      inv s' \<and> blocks s' = blocks s \<and> checkpoints s' = checkpoints s \<and> saved_state s' = Some c"
    and save_checkpoint: "inv s \<Longrightarrow> st_SaveCheckpoint ops (Some cp) s = (s', None) \<Longrightarrow>
      inv s' \<and> blocks s' = blocks s \<and> checkpoints s' = (checkpoints s)(pcpSequenceNum cp \<mapsto> cp) \<and>
      saved_state s' = saved_state s"
    and load_block: "inv s \<Longrightarrow> st_LoadBlock ops h s = Inr r \<Longrightarrow> r = blocks s h"
    and load_state: "inv s \<Longrightarrow> st_LoadState ops s = Inr st \<Longrightarrow> st = saved_state s"
    and load_checkpoints: "inv s \<Longrightarrow> st_LoadCheckpoints ops s = Inr cps \<Longrightarrow>
      set cps = ran (checkpoints s)"
    and latest_height: "inv s \<Longrightarrow> st_GetLatestBlockHeight ops s = Inr h \<Longrightarrow>
      (\<forall>k. blocks s k \<noteq> None \<longrightarrow> k \<le> h) \<and> (h \<noteq> 0 \<longrightarrow> blocks s h \<noteq> None)"
    and load_blocks: "inv s \<Longrightarrow> hi \<noteq> - 1 \<Longrightarrow> st_LoadBlocks ops lo hi s = Ret (Inr bs) \<Longrightarrow>
      bs = List.map_filter (blocks s) (u64_range lo hi)"
    and blocks_keyed: "inv s \<Longrightarrow> blocks s k = Some b \<Longrightarrow> hHeight (bHeader b) = k"
    and checkpoints_keyed: "inv s \<Longrightarrow> checkpoints s k = Some cp \<Longrightarrow> pcpSequenceNum cp = k"
begin

lemma load_saved_block:
  "inv s \<Longrightarrow> st_SaveBlock ops (Some b) s = (s', None) \<Longrightarrow>
   st_LoadBlock ops (hHeight (bHeader b)) s' = Inr r \<Longrightarrow> r = Some b"
  using save_block load_block by (metis fun_upd_same)

lemma load_blocks_in_order:
  assumes "inv s" and "hi \<noteq> - 1" and "st_LoadBlocks ops lo hi s = Ret (Inr bs)"
  shows "sorted_wrt (<) (map (\<lambda>b. hHeight (bHeader b)) bs)"
    and "b \<in> set bs \<longleftrightarrow> lo \<le> hHeight (bHeader b) \<and> hHeight (bHeader b) \<le> hi \<and>
           blocks s (hHeight (bHeader b)) = Some b"
proof -
  have bs: "bs = List.map_filter (blocks s) (u64_range lo hi)"
    using load_blocks [OF assms] .
  have key: "blocks s k = Some b \<Longrightarrow> hHeight (bHeader b) = k" for k b
    using blocks_keyed [OF assms(1)] .
  have mem: "b \<in> set (List.map_filter (blocks s) ns) \<longleftrightarrow>
      hHeight (bHeader b) \<in> set ns \<and> blocks s (hHeight (bHeader b)) = Some b" for ns b
    using key unfolding in_map_filter by metis
  show "sorted_wrt (<) (map (\<lambda>b. hHeight (bHeader b)) bs)"
    unfolding bs by (rule map_filter_sorted [OF key strict_u64_range])
  show "b \<in> set bs \<longleftrightarrow> lo \<le> hHeight (bHeader b) \<and> hHeight (bHeader b) \<le> hi \<and>
           blocks s (hHeight (bHeader b)) = Some b"
    unfolding bs mem set_u64_range atLeastAtMost_iff by blast
qed

end

section \<open>MemoryStore\<close>

record MemoryStore =
  msBlocks :: "(u64, Block) gomap"
  msState :: "ConsensusState option"
  msCheckpoints :: "(u64, PCheckpoint) gomap"

definition NewMemoryStore :: MemoryStore where
  "NewMemoryStore = \<lparr>msBlocks = [], msState = None, msCheckpoints = []\<rparr>"

definition ms_SaveBlock :: "Block option \<Rightarrow> MemoryStore \<Rightarrow> MemoryStore \<times> store_error option" where
  "ms_SaveBlock block ms =
     (case block of
        None \<Rightarrow> (ms, Some Nil_Argument)
      | Some b \<Rightarrow> (ms\<lparr>msBlocks := go_put (hHeight (bHeader b)) b (msBlocks ms)\<rparr>, None))"

definition ms_LoadBlock :: "u64 \<Rightarrow> MemoryStore \<Rightarrow> store_error + Block option" where
  "ms_LoadBlock height ms = Inr (go_get (msBlocks ms) height)"

definition load_step :: "(u64 \<Rightarrow> Block option) \<Rightarrow> u64 \<Rightarrow> Block list \<Rightarrow> unit + Block list" where
  "load_step get h blocks = Inr (case get h of Some block \<Rightarrow> blocks @ [block] | None \<Rightarrow> blocks)"

definition ms_LoadBlocks :: "u64 \<Rightarrow> u64 \<Rightarrow> MemoryStore \<Rightarrow> (store_error + Block list) go" where
  "ms_LoadBlocks fromHeight toHeight ms =
     go_bind (of_loop (u64_for (load_step (go_get (msBlocks ms))) fromHeight toHeight []))
       (\<lambda>r. case r of Inl _ \<Rightarrow> Ret (Inr []) | Inr blocks \<Rightarrow> Ret (Inr blocks))"

definition ms_GetLatestBlockHeight :: "MemoryStore \<Rightarrow> store_error + u64" where
  "ms_GetLatestBlockHeight ms = Inr (fold (\<lambda>e mx. if fst e > mx then fst e else mx) (msBlocks ms) 0)"

definition ms_SaveState :: "ConsensusState option \<Rightarrow> MemoryStore \<Rightarrow> MemoryStore \<times> store_error option" where
  "ms_SaveState state ms = (ms\<lparr>msState := state\<rparr>, None)"

definition ms_LoadState :: "MemoryStore \<Rightarrow> store_error + ConsensusState option" where
  "ms_LoadState ms = Inr (msState ms)"

definition ms_SaveCheckpoint ::
  "PCheckpoint option \<Rightarrow> MemoryStore \<Rightarrow> MemoryStore \<times> store_error option" where
  "ms_SaveCheckpoint checkpoint ms =
     (case checkpoint of
        None \<Rightarrow> (ms, Some Nil_Argument)
      | Some c \<Rightarrow> (ms\<lparr>msCheckpoints := go_put (pcpSequenceNum c) c (msCheckpoints ms)\<rparr>, None))"

definition ms_LoadCheckpoint :: "u64 \<Rightarrow> MemoryStore \<Rightarrow> store_error + PCheckpoint option" where
  "ms_LoadCheckpoint seqNum ms = Inr (go_get (msCheckpoints ms) seqNum)"

text \<open>\<open>ord\<close> is the order in which \<open>range\<close> visits the checkpoints.\<close>

definition ms_LoadCheckpoints ::
  "(PCheckpoint list \<Rightarrow> PCheckpoint list) \<Rightarrow> MemoryStore \<Rightarrow> store_error + PCheckpoint list" where
  "ms_LoadCheckpoints ord ms = Inr (ord (map snd (msCheckpoints ms)))"

definition latest_of :: "PCheckpoint list \<Rightarrow> PCheckpoint option" where
  "latest_of cps = fold (\<lambda>cp latest. case latest of None \<Rightarrow> Some cp
     | Some l \<Rightarrow> if pcpSequenceNum cp > pcpSequenceNum l then Some cp else latest) cps None"

definition ms_GetLatestCheckpoint ::
  "(PCheckpoint list \<Rightarrow> PCheckpoint list) \<Rightarrow> MemoryStore \<Rightarrow> store_error + PCheckpoint option" where
  "ms_GetLatestCheckpoint ord ms = Inr (latest_of (ord (map snd (msCheckpoints ms))))"

definition memory_store :: "(PCheckpoint list \<Rightarrow> PCheckpoint list) \<Rightarrow> MemoryStore store_ops" where
  "memory_store ord = \<lparr>st_SaveBlock = ms_SaveBlock, st_LoadBlock = ms_LoadBlock,
     st_LoadBlocks = ms_LoadBlocks, st_GetLatestBlockHeight = ms_GetLatestBlockHeight,
     st_SaveState = ms_SaveState, st_LoadState = ms_LoadState,
     st_SaveCheckpoint = ms_SaveCheckpoint, st_LoadCheckpoint = ms_LoadCheckpoint,
     st_LoadCheckpoints = ms_LoadCheckpoints ord, st_GetLatestCheckpoint = ms_GetLatestCheckpoint ord\<rparr>"

definition ms_ok :: "MemoryStore \<Rightarrow> bool" where
  "ms_ok ms \<longleftrightarrow> go_wf (msBlocks ms) \<and> keyed (\<lambda>b. hHeight (bHeader b)) (msBlocks ms) \<and>
     go_wf (msCheckpoints ms) \<and> keyed pcpSequenceNum (msCheckpoints ms)"

lemma ms_ok_New [simp]: "ms_ok NewMemoryStore"
  by (simp add: ms_ok_def NewMemoryStore_def)

lemma load_loop: "for_each (load_step get) hs acc = Inr (acc @ List.map_filter get hs)"
  by (induction hs arbitrary: acc) (auto simp: load_step_def List.map_filter_simps split: option.split)

lemma ms_LoadBlocks_eq:
  "hi \<noteq> - 1 \<Longrightarrow> ms_LoadBlocks lo hi ms = Ret (Inr (List.map_filter (go_get (msBlocks ms)) (u64_range lo hi)))"
  by (simp add: ms_LoadBlocks_def u64_for_terminates load_loop)

lemma ms_LoadBlocks_diverges: "ms_LoadBlocks lo (- 1) ms = Diverge"
proof -
  have "load_step get i s \<noteq> Inl r" for get i s r by (simp add: load_step_def)
  from u64_for_diverges [OF this] show ?thesis by (simp add: ms_LoadBlocks_def)
qed

text \<open>A \<open>range\<close> order of the checkpoints is a permutation; one is fixed for the interpretation.\<close>

typedef range_order = "{ord :: PCheckpoint list \<Rightarrow> PCheckpoint list. go_order ord}"
  by (rule exI [of _ "\<lambda>xs. xs"]) simp

interpretation mem: store_spec "memory_store (Rep_range_order o1)" ms_ok
    "\<lambda>ms. go_get (msBlocks ms)" "\<lambda>ms. go_get (msCheckpoints ms)" msState for o1
proof
  show "st_SaveBlock (memory_store (Rep_range_order o1)) None s = (s, Some Nil_Argument)" for s
    by (simp add: memory_store_def ms_SaveBlock_def)
next
  fix s s' :: MemoryStore
  assume ok: "ms_ok s"
  show "ms_ok s' \<and> go_get (msBlocks s') = (go_get (msBlocks s))(hHeight (bHeader b) \<mapsto> b) \<and>
      go_get (msCheckpoints s') = go_get (msCheckpoints s) \<and> msState s' = msState s"
    if "st_SaveBlock (memory_store (Rep_range_order o1)) (Some b) s = (s', None)" for b
    using that ok by (auto simp: memory_store_def ms_SaveBlock_def ms_ok_def)
  show "ms_ok s' \<and> go_get (msBlocks s') = go_get (msBlocks s) \<and>
      go_get (msCheckpoints s') = go_get (msCheckpoints s) \<and> msState s' = Some c"
    if "st_SaveState (memory_store (Rep_range_order o1)) (Some c) s = (s', None)" for c
    using that ok by (auto simp: memory_store_def ms_SaveState_def ms_ok_def)
  show "ms_ok s' \<and> go_get (msBlocks s') = go_get (msBlocks s) \<and>
      go_get (msCheckpoints s') = (go_get (msCheckpoints s))(pcpSequenceNum c \<mapsto> c) \<and> msState s' = msState s"
    if "st_SaveCheckpoint (memory_store (Rep_range_order o1)) (Some c) s = (s', None)" for c
    using that ok by (auto simp: memory_store_def ms_SaveCheckpoint_def ms_ok_def)
  show "r = go_get (msBlocks s) h"
    if "st_LoadBlock (memory_store (Rep_range_order o1)) h s = Inr r" for h r
    using that by (simp add: memory_store_def ms_LoadBlock_def)
  show "r = msState s" if "st_LoadState (memory_store (Rep_range_order o1)) s = Inr r" for r
    using that by (simp add: memory_store_def ms_LoadState_def)
  show "set cps = ran (go_get (msCheckpoints s))"
    if "st_LoadCheckpoints (memory_store (Rep_range_order o1)) s = Inr cps" for cps
  proof -
    have "set cps = snd ` set (msCheckpoints s)"
      using that Rep_range_order [of o1] by (force simp: memory_store_def ms_LoadCheckpoints_def go_order_set)
    then show ?thesis
      using ok by (simp add: ms_ok_def go_wf_def ran_distinct)
  qed
  show "(\<forall>k. go_get (msBlocks s) k \<noteq> None \<longrightarrow> k \<le> h) \<and> (h \<noteq> 0 \<longrightarrow> go_get (msBlocks s) h \<noteq> None)"
    if "st_GetLatestBlockHeight (memory_store (Rep_range_order o1)) s = Inr h" for h
  proof -
    have "h = Max (insert 0 (go_keys (msBlocks s)))"
      using that by (simp add: memory_store_def ms_GetLatestBlockHeight_def fold_max)
    then show ?thesis
      using Max_in [of "insert 0 (go_keys (msBlocks s))"] by (auto simp: go_get_None_iff)
  qed
  show "bs = List.map_filter (go_get (msBlocks s)) (u64_range lo hi)"
    if "hi \<noteq> - 1" "st_LoadBlocks (memory_store (Rep_range_order o1)) lo hi s = Ret (Inr bs)" for lo hi bs
    using that by (simp add: memory_store_def ms_LoadBlocks_eq)
  show "hHeight (bHeader b) = k" if "go_get (msBlocks s) k = Some b" for k b
    using ok that unfolding ms_ok_def using keyed_get by fast
  show "pcpSequenceNum c = k" if "go_get (msCheckpoints s) k = Some c" for k c
    using ok that unfolding ms_ok_def using keyed_get by fast
qed

section \<open>What a MemoryStore returns\<close>

definition save_all :: "Block list \<Rightarrow> MemoryStore" where
  "save_all bs = fold (\<lambda>b ms. fst (ms_SaveBlock (Some b) ms)) bs NewMemoryStore"

definition last_saved :: "Block list \<Rightarrow> u64 \<Rightarrow> Block option" where
  "last_saved bs h = find (\<lambda>b. hHeight (bHeader b) = h) (rev bs)"

lemma save_all_blocks: "ms_ok (save_all bs) \<and> go_get (msBlocks (save_all bs)) = last_saved bs"
proof (induction bs rule: rev_induct)
  case Nil
  show ?case by (simp add: save_all_def last_saved_def fun_eq_iff) (simp add: NewMemoryStore_def)
next
  case (snoc b bs)
  have st: "st_SaveBlock (memory_store (Rep_range_order o1)) (Some b) (save_all bs) = (save_all (bs @ [b]), None)" for o1
    by (simp add: memory_store_def save_all_def ms_SaveBlock_def)
  from mem.save_block [OF _ st] snoc
  show ?case by (auto simp: last_saved_def fun_eq_iff)
qed

text \<open>
  \<open>LoadBlocks\<close> of a memory store returns, in strictly increasing height order, exactly the
  blocks last saved under the heights of the range, provided the upper bound is not the
  largest \<open>uint64\<close>; with that bound it never returns.
\<close>

theorem LoadBlocks_returns_saved_blocks:
  "(hi \<noteq> - 1 \<longrightarrow> (\<exists>out. ms_LoadBlocks lo hi (save_all bs) = Ret (Inr out) \<and>
      sorted_wrt (<) (map (\<lambda>b. hHeight (bHeader b)) out) \<and>
      (\<forall>b. b \<in> set out \<longleftrightarrow> lo \<le> hHeight (bHeader b) \<and> hHeight (bHeader b) \<le> hi \<and>
             last_saved bs (hHeight (bHeader b)) = Some b))) \<and>
   ms_LoadBlocks lo (- 1) (save_all bs) = Diverge"
proof -
  have ok: "ms_ok (save_all bs)" and get: "go_get (msBlocks (save_all bs)) = last_saved bs"
    using save_all_blocks [of bs] by simp_all
  have "\<exists>out. ms_LoadBlocks lo hi (save_all bs) = Ret (Inr out) \<and>
      sorted_wrt (<) (map (\<lambda>b. hHeight (bHeader b)) out) \<and>
      (\<forall>b. b \<in> set out \<longleftrightarrow> lo \<le> hHeight (bHeader b) \<and> hHeight (bHeader b) \<le> hi \<and>
             last_saved bs (hHeight (bHeader b)) = Some b)" if hi: "hi \<noteq> - 1"
  proof -
    let ?out = "List.map_filter (last_saved bs) (u64_range lo hi)"
    have r: "ms_LoadBlocks lo hi (save_all bs) = Ret (Inr ?out)"
      using ms_LoadBlocks_eq [OF hi] get by simp
    have "st_LoadBlocks (memory_store (Rep_range_order o1)) lo hi (save_all bs) = Ret (Inr ?out)" for o1
      using r by (simp add: memory_store_def)
    from mem.load_blocks_in_order [OF ok hi this] r get show ?thesis by auto
  qed
  then show ?thesis using ms_LoadBlocks_diverges by blast
qed

definition sample_block :: "u64 \<Rightarrow> string \<Rightarrow> Block" where
  "sample_block h p = \<lparr>bHeader = \<lparr>hHeight = h, hPrevHash = [], hTimestamp = 0, hProposerID = p,
      hStateRoot = [], hTxRoot = [], hView = 0, hSequenceNum = h\<rparr>, bTransactions = [], bHash = []\<rparr>"

theorem LoadBlocks_returns_saved_blocks_witness:
  "\<exists>out. ms_LoadBlocks 1 2 (save_all [sample_block 1 ''a'', sample_block 3 ''a'', sample_block 1 ''b'']) = Ret (Inr out) \<and>
     sample_block 1 ''b'' \<in> set out \<and> sample_block 1 ''a'' \<notin> set out"
  using LoadBlocks_returns_saved_blocks [of 2 1 "[sample_block 1 ''a'', sample_block 3 ''a'', sample_block 1 ''b'']"]
  by (auto simp: last_saved_def sample_block_def)

end
