(* ===== verification/Sync.thy ===== *)
theory Sync
  imports Store
begin

text \<open>
  \<open>persistence/sync.go\<close>: state synchronisation from a \<open>BlockProvider\<close> (the other nodes, a
  parameter: it may answer anything) into a \<open>Store\<close>, and the recovery manager. The callback's
  calls are recorded in \<open>ssDelivered\<close>; \<open>ctx\<close> tells at which height the context is found
  cancelled. The batch loop counts heights in \<open>uint64\<close>, so it may not end.
\<close>

datatype sync_error =
  Sync_In_Progress | Sync_Cancelled | Sync_Store store_error | Sync_Provider | Sync_Callback

record block_provider =
  bp_GetBlocks :: "u64 \<Rightarrow> u64 \<Rightarrow> sync_error + Block option list"
  bp_GetLatestHeight :: "sync_error + u64"
  bp_GetCheckpoints :: "sync_error + PCheckpoint list"

record 's StateSyncer =
  ssStore :: 's
  ssSyncing :: bool
  ssTargetHeight :: u64
  ssCurrentHeight :: u64
  ssOnBlockReceived :: "(Block \<Rightarrow> bool) option"
  ssOnSyncComplete :: bool
  ssDelivered :: "Block list"
  ssCompleted :: nat

definition NewStateSyncer :: "'s \<Rightarrow> 's StateSyncer" where
  "NewStateSyncer st = \<lparr>ssStore = st, ssSyncing = False, ssTargetHeight = 0, ssCurrentHeight = 0,
     ssOnBlockReceived = None, ssOnSyncComplete = False, ssDelivered = [], ssCompleted = 0\<rparr>"

definition SetOnBlockReceived :: "(Block \<Rightarrow> bool) \<Rightarrow> 's StateSyncer \<Rightarrow> 's StateSyncer" where
  "SetOnBlockReceived cb ss = ss\<lparr>ssOnBlockReceived := Some cb\<rparr>"

definition SetOnSyncComplete :: "'s StateSyncer \<Rightarrow> 's StateSyncer" where
  "SetOnSyncComplete ss = ss\<lparr>ssOnSyncComplete := True\<rparr>"

text \<open>The callback gets the block and answers whether it succeeded.\<close>

definition processBlock ::
  "'s store_ops \<Rightarrow> Block option \<Rightarrow> 's StateSyncer \<Rightarrow> 's StateSyncer \<times> sync_error option" where
  "processBlock S block ss =
     (case st_SaveBlock S block (ssStore ss) of
        (st, Some e) \<Rightarrow> (ss\<lparr>ssStore := st\<rparr>, Some (Sync_Store e))
      | (st, None) \<Rightarrow>
          let ss = ss\<lparr>ssStore := st\<rparr>
          in case (ssOnBlockReceived ss, block) of
               (Some cb, Some b) \<Rightarrow>
                 (ss\<lparr>ssDelivered := ssDelivered ss @ [b]\<rparr>, if cb b then None else Some Sync_Callback)
             | _ \<Rightarrow> (ss, None))"

text \<open>
  The loop over a batch. \<open>Sync\<close> prints the height of the block that failed (\<open>named\<close>), which
  dereferences a \<open>nil\<close> block; \<open>SyncFromCheckpoint\<close> does not.
\<close>

fun process_blocks ::
  "'s store_ops \<Rightarrow> bool \<Rightarrow> Block option list \<Rightarrow> 's StateSyncer \<Rightarrow> ('s StateSyncer \<times> sync_error option) go" where
  "process_blocks S named [] ss = Ret (ss, None)"
| "process_blocks S named (block # blocks) ss =
     (case processBlock S block ss of
        (ss, Some e) \<Rightarrow> if named \<and> block = None then Panic Nil_Deref else Ret (ss, Some e)
      | (ss, None) \<Rightarrow> process_blocks S named blocks ss)"

definition batchSize :: u64 where
  "batchSize = 100"

definition batch_end :: "u64 \<Rightarrow> u64 \<Rightarrow> u64" where
  "batch_end height targetHeight =
     (let endHeight = height + batchSize - 1
      in if endHeight > targetHeight then targetHeight else endHeight)"

definition sync_batch ::
  "'s store_ops \<Rightarrow> block_provider \<Rightarrow> bool \<Rightarrow> u64 \<Rightarrow> u64 \<Rightarrow> 's StateSyncer \<Rightarrow> ('s StateSyncer \<times> sync_error option) go" where
  "sync_batch S P named height endHeight ss =
     (case bp_GetBlocks P height endHeight of
        Inl e \<Rightarrow> Ret (ss, Some e)
      | Inr blocks \<Rightarrow>
          go_bind (process_blocks S named blocks ss) (\<lambda>(ss, err).
            case err of
              Some e \<Rightarrow> Ret (ss, Some e)
            | None \<Rightarrow> Ret (ss\<lparr>ssCurrentHeight := endHeight\<rparr>, None)))"

partial_function (option) sync_loop ::
  "(u64 \<Rightarrow> u64 \<Rightarrow> 's StateSyncer \<Rightarrow> ('s StateSyncer \<times> sync_error option) go) \<Rightarrow> (u64 \<Rightarrow> bool) \<Rightarrow> u64 \<Rightarrow> u64
     \<Rightarrow> 's StateSyncer \<Rightarrow> ('s StateSyncer \<times> sync_error option) go option" where
  "sync_loop batch ctx height targetHeight ss =
     (if height \<le> targetHeight
      then
        if ctx height then Some (Ret (ss, Some Sync_Cancelled))
        else
          let endHeight = batch_end height targetHeight
          in case batch height endHeight ss of
               Ret (ss', None) \<Rightarrow> sync_loop batch ctx (endHeight + 1) targetHeight ss'
             | r \<Rightarrow> Some r
      else Some (Ret (ss, None)))"

definition run_loop ::
  "'s store_ops \<Rightarrow> block_provider \<Rightarrow> bool \<Rightarrow> (u64 \<Rightarrow> bool) \<Rightarrow> u64 \<Rightarrow> u64 \<Rightarrow> 's StateSyncer
     \<Rightarrow> ('s StateSyncer \<times> sync_error option) go" where
  "run_loop S P named ctx height targetHeight ss =
     (case sync_loop (sync_batch S P named) ctx height targetHeight ss of
        None \<Rightarrow> Diverge
      | Some (Ret (ss, None)) \<Rightarrow>
          Ret (if ssOnSyncComplete ss then ss\<lparr>ssCompleted := Suc (ssCompleted ss)\<rparr> else ss, None)
      | Some r \<Rightarrow> r)"

text \<open>The deferred reset of \<open>syncing\<close> on every return.\<close>

definition end_sync ::
  "('s StateSyncer \<times> sync_error option) go \<Rightarrow> ('s StateSyncer \<times> sync_error option) go" where
  "end_sync r = go_bind r (\<lambda>(ss, e). Ret (ss\<lparr>ssSyncing := False\<rparr>, e))"

definition Sync ::
  "'s store_ops \<Rightarrow> block_provider \<Rightarrow> (u64 \<Rightarrow> bool) \<Rightarrow> 's StateSyncer \<Rightarrow> ('s StateSyncer \<times> sync_error option) go" where
  "Sync S P ctx ss =
     (if ssSyncing ss then Ret (ss, Some Sync_In_Progress)
      else
        let ss = ss\<lparr>ssSyncing := True\<rparr> in end_sync
         (case st_GetLatestBlockHeight S (ssStore ss) of
            Inl e \<Rightarrow> Ret (ss, Some (Sync_Store e))
          | Inr localHeight \<Rightarrow>
              let ss = ss\<lparr>ssCurrentHeight := localHeight\<rparr> in
              (case bp_GetLatestHeight P of
                 Inl e \<Rightarrow> Ret (ss, Some e)
               | Inr targetHeight \<Rightarrow>
                   let ss = ss\<lparr>ssTargetHeight := targetHeight\<rparr>
                   in if localHeight \<ge> targetHeight then Ret (ss, None)
                      else run_loop S P True ctx (localHeight + 1) targetHeight ss)))"

text \<open>\<open>latestCheckpoint\<close>: the first of the checkpoints with the highest number.\<close>

definition SyncFromCheckpoint ::
  "'s store_ops \<Rightarrow> block_provider \<Rightarrow> (u64 \<Rightarrow> bool) \<Rightarrow> 's StateSyncer \<Rightarrow> ('s StateSyncer \<times> sync_error option) go" where
  "SyncFromCheckpoint S P ctx ss =
     (if ssSyncing ss then Ret (ss, Some Sync_In_Progress)
      else
        let ss = ss\<lparr>ssSyncing := True\<rparr> in end_sync
         (case bp_GetCheckpoints P of
            Inl e \<Rightarrow> Ret (ss, Some e)
          | Inr checkpoints \<Rightarrow>
              (case latest_of checkpoints of
                 None \<Rightarrow> Sync S P ctx ss
               | Some latestCheckpoint \<Rightarrow>
                   (case st_SaveCheckpoint S (Some latestCheckpoint) (ssStore ss) of
                      (st, Some e) \<Rightarrow> Ret (ss\<lparr>ssStore := st\<rparr>, Some (Sync_Store e))
                    | (st, None) \<Rightarrow>
                        let localHeight = pcpSequenceNum latestCheckpoint;
                            ss = ss\<lparr>ssStore := st, ssCurrentHeight := localHeight\<rparr>
                        in case bp_GetLatestHeight P of
                             Inl e \<Rightarrow> Ret (ss, Some e)
                           | Inr targetHeight \<Rightarrow>
                               if localHeight \<ge> targetHeight then Ret (ss, None)
                               else run_loop S P False ctx (localHeight + 1) targetHeight ss))))"

definition IsSyncing :: "'s StateSyncer \<Rightarrow> bool" where
  "IsSyncing ss = ssSyncing ss"

definition GetProgress :: "'s StateSyncer \<Rightarrow> u64 \<times> u64" where
  "GetProgress ss = (ssCurrentHeight ss, ssTargetHeight ss)"

section \<open>Recovery\<close>

record RecoveryResult =
  rrState :: "ConsensusState option"
  rrBlocks :: "Block list"
  rrCheckpoints :: "PCheckpoint list"
  rrLatestHeight :: u64

definition NewRecoveryManager :: "'s \<Rightarrow> 's" where
  "NewRecoveryManager store = store"

definition rm_Recover :: "'s store_ops \<Rightarrow> 's \<Rightarrow> (store_error + RecoveryResult) go" where
  "rm_Recover S st =
     (case st_LoadState S st of
        Inl e \<Rightarrow> Ret (Inl e)
      | Inr state \<Rightarrow>
          (case st_GetLatestBlockHeight S st of
             Inl e \<Rightarrow> Ret (Inl e)
           | Inr latestHeight \<Rightarrow>
               (case st_LoadCheckpoints S st of
                  Inl e \<Rightarrow> Ret (Inl e)
                | Inr checkpoints \<Rightarrow>
                    let result = \<lparr>rrState = state, rrBlocks = [], rrCheckpoints = checkpoints,
                                  rrLatestHeight = latestHeight\<rparr>
                    in if latestHeight > 0
                       then
                         let fromHeight = (if latestHeight > 10 then latestHeight - 9 else 1)
                         in go_bind (st_LoadBlocks S fromHeight latestHeight st) (\<lambda>r.
                              case r of Inl e \<Rightarrow> Ret (Inl e)
                              | Inr blocks \<Rightarrow> Ret (Inr (result\<lparr>rrBlocks := blocks\<rparr>)))
                       else Ret (Inr result))))"

definition SaveRecoveryPoint ::
  "'s store_ops \<Rightarrow> ConsensusState option \<Rightarrow> Block option \<Rightarrow> 's \<Rightarrow> 's \<times> store_error option" where
  "SaveRecoveryPoint S state block st =
     (case st_SaveState S state st of
        (st, Some e) \<Rightarrow> (st, Some e)
      | (st, None) \<Rightarrow> (case block of None \<Rightarrow> (st, None) | Some b \<Rightarrow> st_SaveBlock S (Some b) st))"

section \<open>Synchronising from honest peers\<close>

definition accepts_blocks :: "'s StateSyncer \<Rightarrow> bool" where
  "accepts_blocks ss \<longleftrightarrow> (case ssOnBlockReceived ss of None \<Rightarrow> True | Some cb \<Rightarrow> \<forall>b. cb b)"

definition serves_chain :: "block_provider \<Rightarrow> (u64 \<Rightarrow> Block) \<Rightarrow> bool" where
  "serves_chain P chain \<longleftrightarrow> (\<forall>h. hHeight (bHeader (chain h)) = h) \<and>
     (\<forall>lo hi. bp_GetBlocks P lo hi = Inr (map (\<lambda>h. Some (chain h)) (u64_range lo hi)))"

definition after_sync :: "(u64 \<Rightarrow> Block option) \<Rightarrow> (u64 \<Rightarrow> Block) \<Rightarrow> u64 set \<Rightarrow> u64 \<Rightarrow> Block option" where
  "after_sync before chain H = (\<lambda>k. if k \<in> H then Some (chain k) else before k)"

context store_spec
begin

lemma process_blocks_chain:
  assumes key: "\<And>h. hHeight (bHeader (chain h)) = h"
    and saves: "\<And>b s. inv s \<Longrightarrow> snd (st_SaveBlock ops (Some b) s) = None"
    and "inv (ssStore ss)" and "accepts_blocks ss"
  shows "\<exists>st dl. process_blocks ops named (map (\<lambda>h. Some (chain h)) hs) ss =
      Ret (ss\<lparr>ssStore := st, ssDelivered := dl\<rparr>, None) \<and> inv st \<and>
      blocks st = after_sync (blocks (ssStore ss)) chain (set hs)"
  using assms(3,4)
proof (induction hs arbitrary: ss)
  case Nil
  then show ?case
    by (intro exI [of _ "ssStore ss"] exI [of _ "ssDelivered ss"]) (simp add: after_sync_def)
next
  case (Cons h hs)
  obtain st where st: "st_SaveBlock ops (Some (chain h)) (ssStore ss) = (st, None)"
    using saves [OF Cons.prems(1)] by (metis prod.collapse)
  note l = save_block [OF Cons.prems(1) st]
  obtain dl where p: "processBlock ops (Some (chain h)) ss = (ss\<lparr>ssStore := st, ssDelivered := dl\<rparr>, None)"
    using Cons.prems(2)
    by (cases "ssOnBlockReceived ss")
      (auto simp: processBlock_def st Let_def accepts_blocks_def intro: that [of "ssDelivered ss"])
  let ?ss = "ss\<lparr>ssStore := st, ssDelivered := dl\<rparr>"
  have "inv (ssStore ?ss)" "accepts_blocks ?ss" using l Cons.prems(2) by (simp_all add: accepts_blocks_def)
  from Cons.IH [OF this] obtain st' dl' where
    IH: "process_blocks ops named (map (\<lambda>h. Some (chain h)) hs) ?ss = Ret (?ss\<lparr>ssStore := st', ssDelivered := dl'\<rparr>, None)"
      "inv st'" "blocks st' = after_sync (blocks st) chain (set hs)"
    by auto
  have "blocks st' = after_sync (blocks (ssStore ss)) chain (set (h # hs))"
    using IH(3) l key by (auto simp: after_sync_def fun_eq_iff)
  then show ?case using IH(1,2) p
    by (intro exI [of _ st'] exI [of _ dl']) simp
qed

lemma sync_batch_chain:
  assumes "serves_chain P chain"
    and "\<And>b s. inv s \<Longrightarrow> snd (st_SaveBlock ops (Some b) s) = None"
    and "inv (ssStore ss)" and "accepts_blocks ss"
  shows "\<exists>st dl. sync_batch ops P named lo hi ss =
      Ret (ss\<lparr>ssStore := st, ssDelivered := dl, ssCurrentHeight := hi\<rparr>, None) \<and> inv st \<and>
      blocks st = after_sync (blocks (ssStore ss)) chain {lo..hi}"
proof -
  from assms(1) have key: "\<And>h. hHeight (bHeader (chain h)) = h"
    and get: "bp_GetBlocks P lo hi = Inr (map (\<lambda>h. Some (chain h)) (u64_range lo hi))"
    by (simp_all add: serves_chain_def)
  from process_blocks_chain [OF key assms(2-4), of named "u64_range lo hi"]
  obtain st dl where p: "process_blocks ops named (map (\<lambda>h. Some (chain h)) (u64_range lo hi)) ss =
      Ret (ss\<lparr>ssStore := st, ssDelivered := dl\<rparr>, None)" "inv st"
    "blocks st = after_sync (blocks (ssStore ss)) chain {lo..hi}"
    unfolding set_u64_range by blast
  then show ?thesis using get
    by (intro exI [of _ st] exI [of _ dl]) (simp add: sync_batch_def)
qed

lemma batch_end_bounds:
  assumes "height \<le> target" and "unat target + 100 < 2 ^ 64"
  shows "height \<le> batch_end height target" "batch_end height target \<le> target"
    and "unat (batch_end height target + 1) = Suc (unat (batch_end height target))"
proof -
  have h: "unat height \<le> unat target" using assms(1) by (simp add: word_le_nat_alt)
  have "unat (height + 99) = unat height + 99"
    using h assms(2) by (subst unat_add_lem [THEN iffD1]) simp_all
  moreover have "height + batchSize - 1 = height + 99" by (simp add: batchSize_def)
  ultimately have b: "unat (height + batchSize - 1) = unat height + 99" by (simp only:)
  show 1: "height \<le> batch_end height target" "batch_end height target \<le> target"
    using assms(1) b by (simp_all add: batch_end_def Let_def word_le_nat_alt word_less_nat_alt)
  have "unat (batch_end height target) \<le> unat target" using 1(2) by (simp add: word_le_nat_alt)
  then have "batch_end height target \<noteq> - 1"
    using assms(2) by (auto simp: unsigned_minus_1_eq_mask mask_eq_exp_minus_1)
  then show "unat (batch_end height target + 1) = Suc (unat (batch_end height target))"
    by (rule unat_u64_Suc)
qed

lemma sync_loop_chain:
  assumes serve: "serves_chain P chain"
    and saves: "\<And>b s. inv s \<Longrightarrow> snd (st_SaveBlock ops (Some b) s) = None"
    and "inv (ssStore ss)" and "accepts_blocks ss" and lt: "unat target + 100 < 2 ^ 64"
  shows "\<exists>st dl c. sync_loop (sync_batch ops P named) (\<lambda>_. False) height target ss =
      Some (Ret (ss\<lparr>ssStore := st, ssDelivered := dl, ssCurrentHeight := c\<rparr>, None)) \<and> inv st \<and>
      blocks st = after_sync (blocks (ssStore ss)) chain {height..target}"
  using assms(3,4)
proof (induction "Suc (unat target) - unat height" arbitrary: height ss rule: less_induct)
  case less
  show ?case
  proof (cases "height \<le> target")
    case False
    then have "{height..target} = {}" by simp
    with False less.prems show ?thesis
      by (intro exI [of _ "ssStore ss"] exI [of _ "ssDelivered ss"] exI [of _ "ssCurrentHeight ss"])
        (simp add: sync_loop.simps after_sync_def)
  next
    case True
    let ?e = "batch_end height target"
    note e = batch_end_bounds [OF True lt]
    obtain st dl where b: "sync_batch ops P named height ?e ss =
        Ret (ss\<lparr>ssStore := st, ssDelivered := dl, ssCurrentHeight := ?e\<rparr>, None)" "inv st"
      "blocks st = after_sync (blocks (ssStore ss)) chain {height..?e}"
      using sync_batch_chain [OF serve saves less.prems] by blast
    let ?ss = "ss\<lparr>ssStore := st, ssDelivered := dl, ssCurrentHeight := ?e\<rparr>"
    have dec: "Suc (unat target) - unat (?e + 1) < Suc (unat target) - unat height"
      using e True by (simp add: word_le_nat_alt)
    have "inv (ssStore ?ss)" "accepts_blocks ?ss" using b(2) less.prems(2) by (simp_all add: accepts_blocks_def)
    from less.hyps [OF dec this] obtain st' dl' c where
      IH: "sync_loop (sync_batch ops P named) (\<lambda>_. False) (?e + 1) target ?ss =
        Some (Ret (?ss\<lparr>ssStore := st', ssDelivered := dl', ssCurrentHeight := c\<rparr>, None))" "inv st'"
        "blocks st' = after_sync (blocks st) chain {?e + 1..target}"
      by auto
    have "k \<in> {height..target} \<longleftrightarrow> k \<in> {height..?e} \<or> k \<in> {?e + 1..target}" for k
      using e True unfolding atLeastAtMost_iff word_le_nat_alt e(3) by linarith
    then have "blocks st' = after_sync (blocks (ssStore ss)) chain {height..target}"
      using IH(3) b(3) by (auto simp: after_sync_def fun_eq_iff)
    moreover have "sync_loop (sync_batch ops P named) (\<lambda>_. False) height target ss =
        Some (Ret (ss\<lparr>ssStore := st', ssDelivered := dl', ssCurrentHeight := c\<rparr>, None))"
      using True b(1) IH(1) by (simp add: sync_loop.simps [of _ _ height])
    ultimately show ?thesis using IH(2) by blast
  qed
qed

end

lemma memory_store_saves: "snd (st_SaveBlock (memory_store o1) (Some b) s) = None"
  by (simp add: memory_store_def ms_SaveBlock_def)

lemma memory_latest: "\<exists>h. st_GetLatestBlockHeight (memory_store o1) s = Inr h"
  by (simp add: memory_store_def ms_GetLatestBlockHeight_def)

text \<open>
  C22. Against honest peers \<open>Sync\<close> returns without error and brings a memory store up to date:
  afterwards it holds the network's block at every height above the old local height up to the
  target, and at the other heights what it held before; the syncer is idle again. (The bound on
  the target height keeps the \<open>uint64\<close> batch arithmetic from wrapping.)
\<close>

theorem Sync_completes_the_chain:
  assumes "ms_ok (ssStore ss)" and "accepts_blocks ss" and "\<not> ssSyncing ss"
    and "serves_chain P chain" and "bp_GetLatestHeight P = Inr T" and "unat T + 100 < 2 ^ 64"
  shows "\<exists>ss' L. Sync (memory_store (Rep_range_order o1)) P (\<lambda>_. False) ss = Ret (ss', None) \<and>
    \<not> IsSyncing ss' \<and> ms_GetLatestBlockHeight (ssStore ss) = Inr L \<and>
    (\<forall>k. ms_LoadBlock k (ssStore ss') =
          (if L < k \<and> k \<le> T then Inr (Some (chain k)) else ms_LoadBlock k (ssStore ss)))"
proof -
  let ?S = "memory_store (Rep_range_order o1)"
  obtain L where L: "st_GetLatestBlockHeight ?S (ssStore ss) = Inr L" using memory_latest by blast
  then have L': "ms_GetLatestBlockHeight (ssStore ss) = Inr L" by (simp add: memory_store_def)
  let ?ss = "ss\<lparr>ssSyncing := True, ssCurrentHeight := L, ssTargetHeight := T\<rparr>"
  show ?thesis
  proof (cases "L \<ge> T")
    case True
    then have "Sync ?S P (\<lambda>_. False) ss = Ret (?ss\<lparr>ssSyncing := False\<rparr>, None)"
      using assms(3,5) L by (simp add: Sync_def end_sync_def)
    moreover have "\<not> (L < k \<and> k \<le> T)" for k using True by (meson leD order_trans)
    ultimately show ?thesis using L' by (auto simp: IsSyncing_def)
  next
    case False
    then have "L \<noteq> - 1" by (metis word_n1_ge)
    then have suc: "unat (L + 1) = Suc (unat L)" by (rule unat_u64_Suc)
    then have range: "k \<in> {L + 1..T} \<longleftrightarrow> L < k \<and> k \<le> T" for k
      by (simp add: word_le_nat_alt word_less_nat_alt Suc_le_eq)
    have "ms_ok (ssStore ?ss)" "accepts_blocks ?ss" using assms(1,2) by (simp_all add: accepts_blocks_def)
    from mem.sync_loop_chain [OF assms(4) memory_store_saves this assms(6), of o1 True "L + 1"]
    obtain st dl c where loop: "sync_loop (sync_batch ?S P True) (\<lambda>_. False) (L + 1) T ?ss =
        Some (Ret (?ss\<lparr>ssStore := st, ssDelivered := dl, ssCurrentHeight := c\<rparr>, None))"
      and st: "go_get (msBlocks st) = after_sync (go_get (msBlocks (ssStore ?ss))) chain {L + 1..T}"
      by blast
    obtain ss' where r: "run_loop ?S P True (\<lambda>_. False) (L + 1) T ?ss = Ret (ss', None)" "ssStore ss' = st"
      by (simp add: run_loop_def loop)
    then have "Sync ?S P (\<lambda>_. False) ss = Ret (ss'\<lparr>ssSyncing := False\<rparr>, None)"
      using assms(3,5) L False by (simp add: Sync_def end_sync_def)
    moreover have "ms_LoadBlock k st = (if L < k \<and> k \<le> T then Inr (Some (chain k)) else ms_LoadBlock k (ssStore ss))" for k
      using st unfolding after_sync_def range by (simp add: ms_LoadBlock_def)
    ultimately show ?thesis using L' r(2)
      by (intro exI [of _ "ss'\<lparr>ssSyncing := False\<rparr>"] exI [of _ L]) (simp add: IsSyncing_def)
  qed
qed

definition honest_peer :: "u64 \<Rightarrow> block_provider" where
  "honest_peer T = \<lparr>bp_GetBlocks = (\<lambda>lo hi. Inr (map (\<lambda>h. Some (sample_block h ''p'')) (u64_range lo hi))),
     bp_GetLatestHeight = Inr T, bp_GetCheckpoints = Inr []\<rparr>"

lemma honest_peer_serves: "serves_chain (honest_peer T) (\<lambda>h. sample_block h ''p'')"
  by (simp add: serves_chain_def honest_peer_def sample_block_def)

theorem Sync_completes_the_chain_witness:
  "\<forall>o1. \<exists>ss'. Sync (memory_store (Rep_range_order o1)) (honest_peer 250) (\<lambda>_. False) (NewStateSyncer NewMemoryStore) =
       Ret (ss', None) \<and> ms_LoadBlock 7 (ssStore ss') = Inr (Some (sample_block 7 ''p''))"
proof (rule allI)
  fix o1
  let ?ss = "NewStateSyncer NewMemoryStore"
  have h: "ms_ok (ssStore ?ss)" "accepts_blocks ?ss" "\<not> ssSyncing ?ss"
    "bp_GetLatestHeight (honest_peer 250) = Inr 250" "unat (250 :: u64) + 100 < 2 ^ 64"
    by (simp_all add: NewStateSyncer_def accepts_blocks_def honest_peer_def)
  have "ms_GetLatestBlockHeight (ssStore ?ss) = Inr 0"
    by (simp add: NewStateSyncer_def NewMemoryStore_def ms_GetLatestBlockHeight_def)
  with Sync_completes_the_chain [OF h(1-3) honest_peer_serves h(4,5), of o1]
  show "\<exists>ss'. Sync (memory_store (Rep_range_order o1)) (honest_peer 250) (\<lambda>_. False) ?ss = Ret (ss', None) \<and>
      ms_LoadBlock 7 (ssStore ss') = Inr (Some (sample_block 7 ''p''))"
    by auto
qed

section \<open>Where synchronisation fails\<close>

text \<open>
  \<open>SyncFromCheckpoint\<close> cannot fall back to \<open>Sync\<close>: when the peers have no checkpoint it
  calls \<open>Sync\<close> with its own \<open>syncing\<close> flag set, so it always fails as already in progress and
  stores nothing.
\<close>

theorem SyncFromCheckpoint_never_falls_back:
  assumes "\<not> ssSyncing ss" and "bp_GetCheckpoints P = Inr []"
  shows "SyncFromCheckpoint S P ctx ss = Ret (ss, Some Sync_In_Progress)"
proof -
  have "ss\<lparr>ssSyncing := False\<rparr> = ss" using assms(1) by simp
  then show ?thesis
    using assms by (simp add: SyncFromCheckpoint_def latest_of_def Sync_def end_sync_def)
qed

theorem SyncFromCheckpoint_never_falls_back_witness:
  "SyncFromCheckpoint (memory_store rev) (honest_peer 250) (\<lambda>_. False) (NewStateSyncer NewMemoryStore) =
     Ret (NewStateSyncer NewMemoryStore, Some Sync_In_Progress)"
  by (rule SyncFromCheckpoint_never_falls_back) (simp_all add: NewStateSyncer_def honest_peer_def)

definition lying_peer :: "u64 \<Rightarrow> Block option list \<Rightarrow> block_provider" where
  "lying_peer T bs = \<lparr>bp_GetBlocks = (\<lambda>lo hi. Inr bs), bp_GetLatestHeight = Inr T, bp_GetCheckpoints = Inr []\<rparr>"

lemma sync_loop_at_max:
  assumes "batch = (\<lambda>lo hi ss. Ret (ss\<lparr>ssCurrentHeight := hi\<rparr>, None))"
    and "sync_loop batch ctx height target ss = Some r" and "ctx = (\<lambda>_. False)"
  shows "target \<noteq> - 1"
proof -
  let ?b = "\<lambda>lo hi ss. Ret (ss\<lparr>ssCurrentHeight := hi\<rparr>, None)"
  let ?P = "\<lambda>batch ctx height (target :: u64) ss r. batch = ?b \<longrightarrow> ctx = (\<lambda>_. False) \<longrightarrow> target \<noteq> - 1"
  have "?P batch ctx height target ss r"
  proof (rule sync_loop.raw_induct [where P = ?P, OF _ assms(2)])
    fix f batch ctx height target ss r
    assume IH: "\<And>batch ctx height target ss r. f batch ctx height target ss = Some r \<Longrightarrow> ?P batch ctx height target ss r"
      and eq: "(if height \<le> target
        then if ctx height then Some (Ret (ss, Some Sync_Cancelled))
             else let endHeight = batch_end height target
                  in case batch height endHeight ss of
                       Ret (ss', None) \<Rightarrow> f batch ctx (endHeight + 1) target ss'
                     | r \<Rightarrow> Some r
        else Some (Ret (ss, None))) = Some r"
    show "?P batch ctx height target ss r"
    proof (intro impI notI)
      assume "batch = ?b" "ctx = (\<lambda>_. False)" "target = - 1"
      then have "f batch ctx (batch_end height target + 1) target (ss\<lparr>ssCurrentHeight := batch_end height target\<rparr>) = Some r"
        using eq by (simp add: Let_def)
      from IH [OF this] show False using \<open>batch = ?b\<close> \<open>ctx = (\<lambda>_. False)\<close> \<open>target = - 1\<close> by blast
    qed
  qed
  then show ?thesis using assms(1,3) by blast
qed

text \<open>
  A peer that claims the largest height and serves no blocks makes \<open>Sync\<close> run forever: the
  height wraps to 0 after the last batch and the loop starts over.
\<close>

theorem Sync_never_ends:
  assumes "\<not> ssSyncing ss" and "st_GetLatestBlockHeight S (ssStore ss) = Inr L" and "L < - 1"
  shows "Sync S (lying_peer (- 1) []) (\<lambda>_. False) ss = Diverge"
proof -
  have batch: "sync_batch S (lying_peer (- 1) []) True = (\<lambda>lo hi ss. Ret (ss\<lparr>ssCurrentHeight := hi\<rparr>, None))"
    by (intro ext) (simp add: sync_batch_def lying_peer_def)
  have "sync_loop (sync_batch S (lying_peer (- 1) []) True) (\<lambda>_. False) (L + 1) (- 1) ss' = None" for ss'
    using sync_loop_at_max [OF batch] by (metis not_None_eq)
  then have "run_loop S (lying_peer (- 1) []) True (\<lambda>_. False) (L + 1) (- 1) ss' = Diverge" for ss'
    by (simp add: run_loop_def)
  then show ?thesis
    using assms by (simp add: Sync_def end_sync_def lying_peer_def not_le Let_def)
qed

theorem Sync_never_ends_witness:
  "Sync (memory_store rev) (lying_peer (- 1) []) (\<lambda>_. False) (NewStateSyncer NewMemoryStore) = Diverge"
  by (rule Sync_never_ends [of _ _ 0])
    (simp_all add: NewStateSyncer_def NewMemoryStore_def memory_store_def ms_GetLatestBlockHeight_def word_gt_0)

text \<open>
  A \<open>nil\<close> block from a peer panics the syncing node: the store refuses it, and the error
  message of \<open>Sync\<close> reads the height of the \<open>nil\<close> block.
\<close>

theorem Sync_panics_on_nil_block:
  assumes "\<not> ssSyncing ss" and "st_GetLatestBlockHeight S (ssStore ss) = Inr L" and "L < T"
    and "\<And>st. st_SaveBlock S None st = (st, Some Nil_Argument)"
  shows "Sync S (lying_peer T (None # bs)) (\<lambda>_. False) ss = Panic Nil_Deref"
proof -
  have "L \<noteq> - 1" using assms(3) by (metis word_n1_ge leD)
  then have "unat (L + 1) = Suc (unat L)" by (rule unat_u64_Suc)
  then have le: "L + 1 \<le> T" using assms(3) by (simp add: word_le_nat_alt word_less_nat_alt Suc_le_eq)
  have "sync_batch S (lying_peer T (None # bs)) True lo hi ss' = Panic Nil_Deref" for lo hi ss'
    by (simp add: sync_batch_def lying_peer_def processBlock_def assms(4))
  then have "run_loop S (lying_peer T (None # bs)) True (\<lambda>_. False) (L + 1) T ss' = Panic Nil_Deref" for ss'
    using le by (simp add: run_loop_def sync_loop.simps)
  then show ?thesis
    using assms(1-3) by (simp add: Sync_def end_sync_def lying_peer_def not_le Let_def)
qed

theorem Sync_panics_on_nil_block_witness:
  "Sync (memory_store rev) (lying_peer 3 [None]) (\<lambda>_. False) (NewStateSyncer NewMemoryStore) = Panic Nil_Deref"
  by (rule Sync_panics_on_nil_block [of _ _ 0])
    (simp_all add: NewStateSyncer_def NewMemoryStore_def memory_store_def ms_GetLatestBlockHeight_def ms_SaveBlock_def)

end
