(* ===== verification/Messages.thy ===== *)
theory Messages
  imports Types
begin

text \<open>
  \<open>consensus/pbft/messages.go\<close>: the message types and their constructors. The JSON encoding
  of the payloads (\<open>encoding/json\<close>) is the record \<open>codec\<close>: one pair of functions per payload
  type; decoding fails with \<open>None\<close>. What the code relies on, that a payload it encoded
  decodes to the same message, is stated where it is used.
\<close>

datatype MessageType =
  PrePrepare | Prepare | Commit | ViewChange | NewView | CheckpointMsgType | Request | Reply
  | OtherType int

fun MessageType_String :: "MessageType \<Rightarrow> string" where
  "MessageType_String PrePrepare = ''PRE-PREPARE''"
| "MessageType_String Prepare = ''PREPARE''"
| "MessageType_String Commit = ''COMMIT''"
| "MessageType_String ViewChange = ''VIEW-CHANGE''"
| "MessageType_String NewView = ''NEW-VIEW''"
| "MessageType_String CheckpointMsgType = ''CHECKPOINT''"
| "MessageType_String Request = ''REQUEST''"
| "MessageType_String Reply = ''REPLY''"
| "MessageType_String (OtherType _) = ''UNKNOWN''"

record Message =
  mType :: MessageType
  mView :: u64
  mSequenceNum :: u64
  mDigest :: bytes
  mNodeID :: string
  mTimestamp :: gotime
  mSignature :: bytes
  mPayload :: bytes

record PrePrepareMsg =
  ppView :: u64
  ppSequenceNum :: u64
  ppDigest :: bytes
  ppBlock :: "Block option"
  ppPrimaryID :: string

record PrepareMsg =
  pView :: u64
  pSequenceNum :: u64
  pDigest :: bytes
  pNodeID :: string

record CommitMsg =
  cView :: u64
  cSequenceNum :: u64
  cDigest :: bytes
  cNodeID :: string

record Checkpoint =
  cpSequenceNum :: u64
  cpDigest :: bytes
  cpNodeID :: string

record PreparedCert =
  pcPrePrepare :: PrePrepareMsg
  pcPrepares :: "PrepareMsg list"

record ViewChangeMsg =
  vcNewView :: u64
  vcLastSeqNum :: u64
  vcCheckpoints :: "Checkpoint list"
  vcPreparedSet :: "PreparedCert list"
  vcNodeID :: string

record NewViewMsg =
  nvView :: u64
  nvViewChangeMsgs :: "ViewChangeMsg list"
  nvPrePrepareMsgs :: "PrePrepareMsg list"
  nvNewPrimaryID :: string

record RequestMsg =
  rqOperation :: bytes
  rqTimestamp :: gotime
  rqClientID :: string

definition NewMessage ::
  "gotime \<Rightarrow> MessageType \<Rightarrow> u64 \<Rightarrow> u64 \<Rightarrow> bytes \<Rightarrow> string \<Rightarrow> Message" where
  "NewMessage now msgType view seqNum digest nodeID =
     \<lparr>mType = msgType, mView = view, mSequenceNum = seqNum, mDigest = digest, mNodeID = nodeID,
      mTimestamp = now, mSignature = [], mPayload = []\<rparr>"

definition NewPrePrepareMsg :: "u64 \<Rightarrow> u64 \<Rightarrow> Block \<Rightarrow> string \<Rightarrow> PrePrepareMsg" where
  "NewPrePrepareMsg view seqNum block primaryID =
     \<lparr>ppView = view, ppSequenceNum = seqNum, ppDigest = bHash block, ppBlock = Some block,
      ppPrimaryID = primaryID\<rparr>"

definition NewPrepareMsg :: "u64 \<Rightarrow> u64 \<Rightarrow> bytes \<Rightarrow> string \<Rightarrow> PrepareMsg" where
  "NewPrepareMsg view seqNum digest nodeID =
     \<lparr>pView = view, pSequenceNum = seqNum, pDigest = digest, pNodeID = nodeID\<rparr>"

definition NewCommitMsg :: "u64 \<Rightarrow> u64 \<Rightarrow> bytes \<Rightarrow> string \<Rightarrow> CommitMsg" where
  "NewCommitMsg view seqNum digest nodeID =
     \<lparr>cView = view, cSequenceNum = seqNum, cDigest = digest, cNodeID = nodeID\<rparr>"

record ReplyMsg =
  ryView :: u64
  ryTimestamp :: gotime
  ryClientID :: string
  ryNodeID :: string
  ryResult :: bytes

text \<open>
  A whole message as JSON; \<open>enc\<close> and \<open>dec\<close> are \<open>json.Marshal\<close> and \<open>json.Unmarshal\<close>. \<open>Hash\<close>
  ignores the error and then hashes nothing.
\<close>

definition Message_Encode :: "(Message \<Rightarrow> string + bytes) \<Rightarrow> Message \<Rightarrow> string + bytes" where
  "Message_Encode enc m = enc m"

definition Message_Hash :: "(Message \<Rightarrow> string + bytes) \<Rightarrow> Message \<Rightarrow> bytes" where
  "Message_Hash enc m = sha256 (case enc m of Inl err \<Rightarrow> [] | Inr dat \<Rightarrow> dat)"

definition DecodeMessage :: "(bytes \<Rightarrow> string + Message) \<Rightarrow> bytes \<Rightarrow> string + Message" where
  "DecodeMessage dec dat = (case dec dat of Inl err \<Rightarrow> Inl err | Inr msg \<Rightarrow> Inr msg)"

section \<open>The payload codec\<close>

record codec =
  enc_pre_prepare :: "PrePrepareMsg \<Rightarrow> bytes"
  dec_pre_prepare :: "bytes \<Rightarrow> PrePrepareMsg option"
  enc_prepare :: "PrepareMsg \<Rightarrow> bytes"
  dec_prepare :: "bytes \<Rightarrow> PrepareMsg option"
  enc_commit :: "CommitMsg \<Rightarrow> bytes"
  dec_commit :: "bytes \<Rightarrow> CommitMsg option"
  enc_view_change :: "ViewChangeMsg \<Rightarrow> bytes"
  dec_view_change :: "bytes \<Rightarrow> ViewChangeMsg option"
  enc_new_view :: "NewViewMsg \<Rightarrow> bytes"
  dec_new_view :: "bytes \<Rightarrow> NewViewMsg option"

lemma NewMessage_simps [simp]:
  "mType (NewMessage t ty v n d i) = ty" "mView (NewMessage t ty v n d i) = v"
  "mSequenceNum (NewMessage t ty v n d i) = n" "mDigest (NewMessage t ty v n d i) = d"
  "mNodeID (NewMessage t ty v n d i) = i"
  by (simp_all add: NewMessage_def)

lemma NewPrePrepareMsg_simps [simp]:
  "ppView (NewPrePrepareMsg v n b i) = v" "ppSequenceNum (NewPrePrepareMsg v n b i) = n"
  "ppDigest (NewPrePrepareMsg v n b i) = bHash b" "ppBlock (NewPrePrepareMsg v n b i) = Some b"
  "ppPrimaryID (NewPrePrepareMsg v n b i) = i"
  by (simp_all add: NewPrePrepareMsg_def)

lemma NewPrepareMsg_simps [simp]:
  "pView (NewPrepareMsg v n d i) = v" "pSequenceNum (NewPrepareMsg v n d i) = n"
  "pDigest (NewPrepareMsg v n d i) = d" "pNodeID (NewPrepareMsg v n d i) = i"
  by (simp_all add: NewPrepareMsg_def)

lemma NewCommitMsg_simps [simp]:
  "cView (NewCommitMsg v n d i) = v" "cSequenceNum (NewCommitMsg v n d i) = n"
  "cDigest (NewCommitMsg v n d i) = d" "cNodeID (NewCommitMsg v n d i) = i"
  by (simp_all add: NewCommitMsg_def)

end
