(* ===== verification/Consensus_State.thy ===== *)
theory Consensus_State
  imports Messages
begin

text \<open>
  \<open>consensus/pbft/state.go\<close>: the per-sequence consensus state (\<open>State\<close>) with its phase and its
  vote maps, and the log of states with its water marks (\<open>StateLog\<close>). The mutexes make each
  method atomic; a method is a function from the old value to the new one. A \<open>*State\<close> handed
  out by the log is read and written back under its sequence number.
\<close>

section \<open>Phases\<close>

datatype Phase = Idle | PrePrepared | Prepared | Committed

fun phase_rank :: "Phase \<Rightarrow> nat" where
  "phase_rank Idle = 0"
| "phase_rank PrePrepared = 1"
| "phase_rank Prepared = 2"
| "phase_rank Committed = 3"

lemma phase_rank_inj: "phase_rank p = phase_rank q \<longleftrightarrow> p = q"
  by (cases p; cases q) simp_all

text \<open>\<open>Phase\<close> is an \<open>int\<close> in the source; \<open>>=\<close> compares the \<open>iota\<close> values.\<close>

instantiation Phase :: linorder
begin

definition less_eq_Phase :: "Phase \<Rightarrow> Phase \<Rightarrow> bool" where
  "less_eq_Phase p q \<longleftrightarrow> phase_rank p \<le> phase_rank q"

definition less_Phase :: "Phase \<Rightarrow> Phase \<Rightarrow> bool" where
  "less_Phase p q \<longleftrightarrow> phase_rank p < phase_rank q"

instance
  by standard (auto simp: less_eq_Phase_def less_Phase_def phase_rank_inj)

end

fun Phase_String :: "Phase \<Rightarrow> string" where
  "Phase_String Idle = ''IDLE''"
| "Phase_String PrePrepared = ''PRE-PREPARED''"
| "Phase_String Prepared = ''PREPARED''"
| "Phase_String Committed = ''COMMITTED''"

section \<open>State\<close>

record State =
  sView :: u64
  sSequenceNum :: u64
  sPhase :: Phase
  sBlock :: "Block option"
  sPrePrepareMsg :: "PrePrepareMsg option"
  sPrepareMsgs :: "(string, PrepareMsg) gomap"
  sCommitMsgs :: "(string, CommitMsg) gomap"
  sExecuted :: bool

definition NewState :: "u64 \<Rightarrow> u64 \<Rightarrow> State" where
  "NewState view seqNum =
     \<lparr>sView = view, sSequenceNum = seqNum, sPhase = Idle, sBlock = None, sPrePrepareMsg = None,
      sPrepareMsgs = [], sCommitMsgs = [], sExecuted = False\<rparr>"

definition SetPrePrepare :: "PrePrepareMsg \<Rightarrow> Block option \<Rightarrow> State \<Rightarrow> State" where
  "SetPrePrepare msg block s = s\<lparr>sPrePrepareMsg := Some msg, sBlock := block, sPhase := PrePrepared\<rparr>"

definition AddPrepare :: "PrepareMsg \<Rightarrow> State \<Rightarrow> State" where
  "AddPrepare msg s = s\<lparr>sPrepareMsgs := go_put (pNodeID msg) msg (sPrepareMsgs s)\<rparr>"

definition AddCommit :: "CommitMsg \<Rightarrow> State \<Rightarrow> State" where
  "AddCommit msg s = s\<lparr>sCommitMsgs := go_put (cNodeID msg) msg (sCommitMsgs s)\<rparr>"

definition PrepareCount :: "State \<Rightarrow> int" where
  "PrepareCount s = int (length (sPrepareMsgs s))"

definition CommitCount :: "State \<Rightarrow> int" where
  "CommitCount s = int (length (sCommitMsgs s))"

definition IsPrepared :: "int \<Rightarrow> State \<Rightarrow> bool" where
  "IsPrepared quorum s \<longleftrightarrow> int (length (sPrepareMsgs s)) \<ge> quorum \<and> sPhase s \<ge> PrePrepared"

definition IsCommitted :: "int \<Rightarrow> State \<Rightarrow> bool" where
  "IsCommitted quorum s \<longleftrightarrow> int (length (sCommitMsgs s)) \<ge> quorum \<and> sPhase s \<ge> Prepared"

definition TransitionToPrepared :: "State \<Rightarrow> State" where
  "TransitionToPrepared s = (if sPhase s = PrePrepared then s\<lparr>sPhase := Prepared\<rparr> else s)"

definition TransitionToCommitted :: "State \<Rightarrow> State" where
  "TransitionToCommitted s = (if sPhase s = Prepared then s\<lparr>sPhase := Committed\<rparr> else s)"

definition MarkExecuted :: "State \<Rightarrow> State" where
  "MarkExecuted s = s\<lparr>sExecuted := True\<rparr>"

definition GetPhase :: "State \<Rightarrow> Phase" where
  "GetPhase s = sPhase s"

lemmas State_defs = NewState_def SetPrePrepare_def AddPrepare_def AddCommit_def
  TransitionToPrepared_def TransitionToCommitted_def MarkExecuted_def GetPhase_def

section \<open>StateLog\<close>

record StateLog =
  slStates :: "(u64, State) gomap"
  slLow :: u64
  slHigh :: u64
  slWindow :: u64

definition NewStateLog :: "u64 \<Rightarrow> StateLog" where
  "NewStateLog windowSize =
     \<lparr>slStates = [], slLow = 0, slHigh = windowSize, slWindow = windowSize\<rparr>"

definition GetState :: "u64 \<Rightarrow> u64 \<Rightarrow> StateLog \<Rightarrow> StateLog \<times> State" where
  "GetState view seqNum sl =
     (case go_get (slStates sl) seqNum of
        Some state \<Rightarrow> (sl, state)
      | None \<Rightarrow> (let state = NewState view seqNum
                 in (sl\<lparr>slStates := go_put seqNum state (slStates sl)\<rparr>, state)))"

definition GetExistingState :: "u64 \<Rightarrow> StateLog \<Rightarrow> State option" where
  "GetExistingState seqNum sl = go_get (slStates sl) seqNum"

text \<open>What a handler wrote through the pointer it got from the log under \<open>seqNum\<close>.\<close>

definition write_state :: "u64 \<Rightarrow> State \<Rightarrow> StateLog \<Rightarrow> StateLog" where
  "write_state seqNum s sl = sl\<lparr>slStates := go_put seqNum s (slStates sl)\<rparr>"

definition IsInWindow :: "u64 \<Rightarrow> StateLog \<Rightarrow> bool" where
  "IsInWindow seqNum sl \<longleftrightarrow> seqNum > slLow sl \<and> seqNum \<le> slHigh sl"

definition AdvanceWatermarks :: "u64 \<Rightarrow> StateLog \<Rightarrow> StateLog" where
  "AdvanceWatermarks checkpoint sl =
     (if checkpoint > slLow sl
      then (let low = checkpoint
            in sl\<lparr>slLow := low, slHigh := checkpoint + slWindow sl,
                  slStates := filter (\<lambda>(seqNum, s). \<not> seqNum \<le> low) (slStates sl)\<rparr>)
      else sl)"

definition GetPendingStates :: "(State list \<Rightarrow> State list) \<Rightarrow> int \<Rightarrow> StateLog \<Rightarrow> State list" where
  "GetPendingStates ord quorum sl =
     filter (\<lambda>s. IsCommitted quorum s \<and> \<not> sExecuted s) (ord (map snd (slStates sl)))"

section \<open>Well-formed states\<close>

text \<open>
  Votes are stored under their sender, a state is idle exactly until its first pre-prepare,
  and the block of a state is the block of its pre-prepare.
\<close>

definition votes_ok :: "State \<Rightarrow> bool" where
  "votes_ok s \<longleftrightarrow> go_wf (sPrepareMsgs s) \<and> go_wf (sCommitMsgs s) \<and>
     keyed pNodeID (sPrepareMsgs s) \<and> keyed cNodeID (sCommitMsgs s)"

definition state_ok :: "State \<Rightarrow> bool" where
  "state_ok s \<longleftrightarrow> votes_ok s \<and> (sPhase s = Idle \<longleftrightarrow> sPrePrepareMsg s = None) \<and>
     sBlock s = Option.bind (sPrePrepareMsg s) ppBlock"

text \<open>The transitions of a state object, as the engine makes them.\<close>

inductive state_step :: "State \<Rightarrow> State \<Rightarrow> bool" where
  pre_prepare: "state_step s (SetPrePrepare m (ppBlock m) s)"
| prepare: "state_step s (AddPrepare p s)"
| commit: "state_step s (AddCommit c s)"
| prepared: "state_step s (TransitionToPrepared s)"
| committed: "state_step s (TransitionToCommitted s)"
| executed: "state_step s (MarkExecuted s)"

lemma votes_ok_NewState: "state_ok (NewState v n)"
  by (simp add: state_ok_def votes_ok_def NewState_def)

lemma state_step_ok: "state_step s t \<Longrightarrow> state_ok s \<Longrightarrow> state_ok t"
  by (induction rule: state_step.induct) (auto simp: state_ok_def votes_ok_def State_defs)

lemma state_ok_ops [intro]:
  assumes "state_ok s"
  shows "state_ok (SetPrePrepare m (ppBlock m) s)" "state_ok (AddPrepare p s)"
    "state_ok (AddCommit c s)" "state_ok (TransitionToPrepared s)"
    "state_ok (TransitionToCommitted s)" "state_ok (MarkExecuted s)"
  by (rule state_step_ok [OF _ assms], rule state_step.intros)+

text \<open>With votes stored under their senders, the counts are numbers of distinct senders.\<close>

lemma votes_ok_counts:
  assumes "votes_ok s"
  shows "length (sPrepareMsgs s) = card (pNodeID ` snd ` set (sPrepareMsgs s))"
    and "length (sCommitMsgs s) = card (cNodeID ` snd ` set (sCommitMsgs s))"
proof -
  have "pNodeID ` snd ` set (sPrepareMsgs s) = go_keys (sPrepareMsgs s)"
    "cNodeID ` snd ` set (sCommitMsgs s) = go_keys (sCommitMsgs s)"
    using assms by (force simp: votes_ok_def keyed_def image_iff)+
  then show "length (sPrepareMsgs s) = card (pNodeID ` snd ` set (sPrepareMsgs s))"
    and "length (sCommitMsgs s) = card (cNodeID ` snd ` set (sCommitMsgs s))"
    using assms by (simp_all add: votes_ok_def card_go_keys)
qed


text \<open>Nothing recorded is lost.\<close>

definition keeps_votes :: "State \<Rightarrow> State \<Rightarrow> bool" where
  "keeps_votes s t \<longleftrightarrow> sSequenceNum t = sSequenceNum s \<and> sView t = sView s \<and>
     go_keys (sPrepareMsgs s) \<subseteq> go_keys (sPrepareMsgs t) \<and> go_keys (sCommitMsgs s) \<subseteq> go_keys (sCommitMsgs t) \<and>
     (sPrePrepareMsg s \<noteq> None \<longrightarrow> sPrePrepareMsg t \<noteq> None) \<and> (sExecuted s \<longrightarrow> sExecuted t)"

lemma state_step_keeps: "state_step s t \<Longrightarrow> keeps_votes s t"
  by (induction rule: state_step.induct) (auto simp: keeps_votes_def State_defs)

lemma state_run_keeps: "state_step\<^sup>*\<^sup>* s t \<Longrightarrow> keeps_votes s t"
proof (induction rule: rtranclp_induct)
  case (step t u)
  have u: "keeps_votes t u" using step(2) by (rule state_step_keeps)
  have p: "go_keys (sPrepareMsgs s) \<subseteq> go_keys (sPrepareMsgs t)" "go_keys (sPrepareMsgs t) \<subseteq> go_keys (sPrepareMsgs u)"
    and c: "go_keys (sCommitMsgs s) \<subseteq> go_keys (sCommitMsgs t)" "go_keys (sCommitMsgs t) \<subseteq> go_keys (sCommitMsgs u)"
    using step(3) u by (simp_all add: keeps_votes_def)
  note subset_trans [OF p] subset_trans [OF c]
  with step(3) u show ?case by (simp add: keeps_votes_def)
qed (simp add: keeps_votes_def)

lemma state_run_ok: "state_step\<^sup>*\<^sup>* s t \<Longrightarrow> state_ok s \<Longrightarrow> state_ok t"
  by (induction rule: rtranclp_induct) (auto intro: state_step_ok)

text \<open>
  C17. The life of a state object. However the engine drives a fresh object, to \<open>s\<close> and on to \<open>t\<close>:
  every vote is stored under its sender, so that \<open>PrepareCount\<close> and \<open>CommitCount\<close> are numbers of
  distinct senders (a node that votes twice counts once); there is a pre-prepare exactly when the
  object has left \<open>Idle\<close>, and its block is the pre-prepare's. From \<open>s\<close> to \<open>t\<close> the number and the
  view stay, no voter is lost, the mark that the block was executed is never taken back and
  \<open>Idle\<close> is never entered again. The next transition keeps the phase, raises it by exactly one
  (\<open>Prepared\<close> is not skipped), or is a new pre-prepare, which takes it back to \<open>PrePrepared\<close>
  with the old votes.
\<close>

theorem state_object_invariant:
  assumes "state_step\<^sup>*\<^sup>* (NewState v n) s" and "state_step\<^sup>*\<^sup>* s t"
  shows "sSequenceNum t = n \<and> sView t = v \<and>
         PrepareCount t = int (card (pNodeID ` snd ` set (sPrepareMsgs t))) \<and>
         CommitCount t = int (card (cNodeID ` snd ` set (sCommitMsgs t))) \<and>
         (sPhase t = Idle \<longleftrightarrow> sPrePrepareMsg t = None) \<and>
         sBlock t = Option.bind (sPrePrepareMsg t) ppBlock \<and>
         go_keys (sPrepareMsgs s) \<subseteq> go_keys (sPrepareMsgs t) \<and> go_keys (sCommitMsgs s) \<subseteq> go_keys (sCommitMsgs t) \<and>
         (sExecuted s \<longrightarrow> sExecuted t) \<and> (sPhase s \<noteq> Idle \<longrightarrow> sPhase t \<noteq> Idle) \<and>
         (\<forall>u. state_step t u \<longrightarrow> sPhase u = sPhase t \<or> phase_rank (sPhase u) = phase_rank (sPhase t) + 1 \<or>
            (sPhase u = PrePrepared \<and> sPrepareMsgs u = sPrepareMsgs t \<and> sCommitMsgs u = sCommitMsgs t \<and>
              (\<exists>m. sPrePrepareMsg u = Some m)))"
proof -
  have s: "state_ok s" by (rule state_run_ok [OF assms(1) votes_ok_NewState])
  have t: "state_ok t" by (rule state_run_ok [OF assms(2) s])
  have k: "keeps_votes (NewState v n) s" "keeps_votes s t" using assms by (simp_all add: state_run_keeps)
  have "sPhase u = sPhase t \<or> phase_rank (sPhase u) = phase_rank (sPhase t) + 1 \<or>
      (sPhase u = PrePrepared \<and> sPrepareMsgs u = sPrepareMsgs t \<and> sCommitMsgs u = sCommitMsgs t \<and>
        (\<exists>m. sPrePrepareMsg u = Some m))" if "state_step t u" for u
    using that by (cases rule: state_step.cases) (simp_all add: State_defs)
  moreover have "sSequenceNum t = n" "sView t = v" using k by (simp_all add: keeps_votes_def NewState_def)
  moreover have "PrepareCount t = int (card (pNodeID ` snd ` set (sPrepareMsgs t)))"
    "CommitCount t = int (card (cNodeID ` snd ` set (sCommitMsgs t)))"
    using t by (simp_all add: state_ok_def PrepareCount_def CommitCount_def votes_ok_counts)
  moreover have "sPhase t \<noteq> Idle" if "sPhase s \<noteq> Idle"
    using that s t k(2) by (simp add: state_ok_def keeps_votes_def)
  ultimately show ?thesis using t k(2) by (simp add: state_ok_def keeps_votes_def)
qed

theorem state_object_invariant_witness:
  "let s = AddPrepare (NewPrepareMsg 0 1 [7] ''a'') (NewState 0 1);
       m = \<lparr>ppView = 0, ppSequenceNum = 1, ppDigest = [], ppBlock = None, ppPrimaryID = ''p''\<rparr>;
       t = SetPrePrepare m None (AddPrepare (NewPrepareMsg 0 1 [] ''a'') s)
   in PrepareCount t = 1 \<and> sSequenceNum t = 1 \<and> sPhase t \<noteq> Idle \<and> go_keys (sPrepareMsgs s) \<subseteq> go_keys (sPrepareMsgs t)"
proof -
  let ?m = "\<lparr>ppView = 0, ppSequenceNum = 1, ppDigest = [], ppBlock = None, ppPrimaryID = ''p''\<rparr>"
  let ?s = "AddPrepare (NewPrepareMsg 0 1 [7] ''a'') (NewState 0 1)"
  let ?u = "AddPrepare (NewPrepareMsg 0 1 [] ''a'') ?s"
  let ?t = "SetPrePrepare ?m (ppBlock ?m) ?u"
  have s: "state_step\<^sup>*\<^sup>* (NewState 0 1) ?s" by (rule r_into_rtranclp) (rule state_step.prepare)
  have "state_step ?s ?u" "state_step ?u ?t" by (rule state_step.prepare, rule state_step.pre_prepare)
  then have t: "state_step\<^sup>*\<^sup>* ?s ?t" by simp
  have ph: "sPhase ?t \<noteq> Idle" by (simp add: SetPrePrepare_def)
  have c: "card (pNodeID ` snd ` set (sPrepareMsgs ?t)) = 1" by (simp add: State_defs NewPrepareMsg_def)
  from state_object_invariant [OF s t] ph c show ?thesis by (simp add: Let_def)
qed

section \<open>The log\<close>

definition log_ok :: "StateLog \<Rightarrow> bool" where
  "log_ok sl \<longleftrightarrow> go_wf (slStates sl) \<and> keyed sSequenceNum (slStates sl) \<and>
     (\<forall>e \<in> set (slStates sl). state_ok (snd e)) \<and> slHigh sl = slLow sl + slWindow sl"

lemma log_ok_New [simp]: "log_ok (NewStateLog w)"
  by (simp add: log_ok_def NewStateLog_def)

lemma ball_go_put: "\<forall>e \<in> set m. P e \<Longrightarrow> P (k, v) \<Longrightarrow> \<forall>e \<in> set (go_put k v m). P e"
  using set_go_put_subset [of k v m] by blast

lemma log_ok_write:
  assumes "log_ok sl" "state_ok s" "sSequenceNum s = n"
  shows "log_ok (write_state n s sl)"
  using assms ball_go_put [of "slStates sl" "\<lambda>e. state_ok (snd e)" n s]
  by (auto simp: log_ok_def write_state_def)

lemma log_ok_get: "log_ok sl \<Longrightarrow> GetExistingState n sl = Some s \<Longrightarrow> state_ok s \<and> sSequenceNum s = n"
  by (force simp: log_ok_def GetExistingState_def dest: keyed_get map_of_SomeD)

lemma GetState_ok:
  assumes "log_ok sl" and "GetState v n sl = (sl', s)"
  shows "log_ok sl'" and "state_ok s" and "sSequenceNum s = n"
    and "GetExistingState n sl' = Some s"
proof -
  have new: "state_ok (NewState v n)" "sSequenceNum (NewState v n) = n"
    by (rule votes_ok_NewState) (simp add: NewState_def)
  from assms show "log_ok sl'"
    using log_ok_write [OF assms(1) new]
    by (auto simp: GetState_def Let_def write_state_def split: option.splits)
  show "state_ok s" "sSequenceNum s = n"
    using assms new log_ok_get [OF assms(1), of n]
    by (auto simp: GetState_def Let_def GetExistingState_def split: option.splits)
  show "GetExistingState n sl' = Some s"
    using assms by (auto simp: GetState_def Let_def GetExistingState_def split: option.splits)
qed

lemma GetExisting_write [simp]:
  "GetExistingState m (write_state n s sl) = (if m = n then Some s else GetExistingState m sl)"
  by (simp add: GetExistingState_def write_state_def)

lemma GetState_other: "GetState v n sl = (sl', s) \<Longrightarrow> m \<noteq> n \<Longrightarrow> GetExistingState m sl' = GetExistingState m sl"
  by (auto simp: GetState_def GetExistingState_def Let_def split: option.splits)

lemma write_state_marks [simp]:
  "slLow (write_state n s sl) = slLow sl" "slHigh (write_state n s sl) = slHigh sl"
  "slWindow (write_state n s sl) = slWindow sl"
  by (simp_all add: write_state_def)

lemma GetState_marks:
  assumes "GetState v n sl = (sl', s)"
  shows "slLow sl' = slLow sl" "slHigh sl' = slHigh sl" "slWindow sl' = slWindow sl"
  using assms by (auto simp: GetState_def Let_def split: option.splits)

lemma log_ok_Advance: "log_ok sl \<Longrightarrow> log_ok (AdvanceWatermarks c sl)"
  by (auto simp: log_ok_def AdvanceWatermarks_def Let_def go_wf_def keyed_def distinct_map_filter)

lemma map_of_filter_key:
  "map_of (filter (\<lambda>(k, v). P k) m) k = (if P k then map_of m k else None)"
  by (induction m) auto

lemma Advance_get:
  "GetExistingState n (AdvanceWatermarks c sl) =
     (if c > slLow sl \<and> n \<le> c then None else GetExistingState n sl)"
  by (simp add: AdvanceWatermarks_def GetExistingState_def Let_def map_of_filter_key)

text \<open>
  \<open>AdvanceWatermarks\<close> at a checkpoint above the low mark drops exactly the states up to the
  checkpoint, keeps every other state as it was, and moves the window to the \<open>WindowSize\<close>
  numbers after the checkpoint; a stale checkpoint changes nothing. (The high mark is computed
  modulo \<open>2\<^sup>6\<^sup>4\<close>: the hypothesis is that it does not wrap.)
\<close>

theorem AdvanceWatermarks_correct:
  assumes "unat c + unat (slWindow sl) < 2 ^ 64"
  shows "(c > slLow sl \<longrightarrow>
            (\<forall>n. GetExistingState n (AdvanceWatermarks c sl) =
                   (if n \<le> c then None else GetExistingState n sl)) \<and>
            (\<forall>n. IsInWindow n (AdvanceWatermarks c sl) \<longleftrightarrow>
                   unat c < unat n \<and> unat n \<le> unat c + unat (slWindow sl))) \<and>
         (\<not> c > slLow sl \<longrightarrow> AdvanceWatermarks c sl = sl)"
proof -
  have "unat (c + slWindow sl) = unat c + unat (slWindow sl)"
    using assms by (subst unat_add_lem [THEN iffD1]) simp_all
  then have "IsInWindow n (AdvanceWatermarks c sl) \<longleftrightarrow>
      unat c < unat n \<and> unat n \<le> unat c + unat (slWindow sl)" if "c > slLow sl" for n
    using that by (simp add: IsInWindow_def AdvanceWatermarks_def Let_def
        word_less_nat_alt word_le_nat_alt)
  then show ?thesis
    by (simp add: Advance_get) (simp add: AdvanceWatermarks_def)
qed

theorem AdvanceWatermarks_correct_witness:
  "let sl = write_state 150 (NewState 0 150) (write_state 80 (NewState 0 80) (NewStateLog 200));
       sl' = AdvanceWatermarks 100 sl
   in GetExistingState 80 sl' = None \<and> GetExistingState 150 sl' = Some (NewState 0 150) \<and>
      \<not> IsInWindow 100 sl' \<and> IsInWindow 300 sl' \<and> \<not> IsInWindow 301 sl'"
proof -
  let ?sl = "write_state 150 (NewState 0 150) (write_state 80 (NewState 0 80) (NewStateLog 200))"
  have "unat (100 :: u64) + unat (slWindow ?sl) < 2 ^ 64"
    by (simp add: NewStateLog_def)
  from AdvanceWatermarks_correct [OF this] show ?thesis
    by (simp add: Let_def NewStateLog_def)
qed

end
