(* ===== verification/View_Change.thy ===== *)
theory View_Change
  imports Consensus_State
begin

text \<open>
  \<open>consensus/pbft/view_change.go\<close>: the view change manager. Its two callbacks appear as what
  they are given: \<open>StartViewChange\<close> returns the message handed to \<open>broadcastFunc\<close>,
  \<open>HandleNewView\<close> the view handed to \<open>onViewChangeComplete\<close>; the flags record whether the
  callbacks are set. \<open>ord\<close> is the order in which \<open>range\<close> visits the collected messages. The
  loops over \<open>uint64\<close> sequence numbers keep their wrap-around: they may not end.
\<close>

record ViewChangeManager =
  vmCurrentView :: u64
  vmViewChangeMsgs :: "(u64, (string, ViewChangeMsg) gomap) gomap"
  vmNewViewMsgs :: "(u64, NewViewMsg) gomap"
  vmInProgress :: bool
  vmQuorumSize :: int
  vmNodeID :: string
  vmBroadcastSet :: bool
  vmOnCompleteSet :: bool

definition NewViewChangeManager :: "string \<Rightarrow> int \<Rightarrow> ViewChangeManager" where
  "NewViewChangeManager nodeID quorumSize =
     \<lparr>vmCurrentView = 0, vmViewChangeMsgs = [], vmNewViewMsgs = [], vmInProgress = False,
      vmQuorumSize = quorumSize, vmNodeID = nodeID, vmBroadcastSet = False, vmOnCompleteSet = False\<rparr>"

definition SetBroadcastFunc :: "ViewChangeManager \<Rightarrow> ViewChangeManager" where
  "SetBroadcastFunc vcm = vcm\<lparr>vmBroadcastSet := True\<rparr>"

definition SetOnViewChangeComplete :: "ViewChangeManager \<Rightarrow> ViewChangeManager" where
  "SetOnViewChangeComplete vcm = vcm\<lparr>vmOnCompleteSet := True\<rparr>"

text \<open>The messages collected for a view; a missing inner map reads as empty.\<close>

definition votes_for :: "u64 \<Rightarrow> ViewChangeManager \<Rightarrow> (string, ViewChangeMsg) gomap" where
  "votes_for v vcm = (case go_get (vmViewChangeMsgs vcm) v of None \<Rightarrow> [] | Some m \<Rightarrow> m)"

definition store_vote :: "u64 \<Rightarrow> string \<Rightarrow> ViewChangeMsg \<Rightarrow> ViewChangeManager \<Rightarrow> ViewChangeManager" where
  "store_vote v i msg vcm =
     vcm\<lparr>vmViewChangeMsgs := go_put v (go_put i msg (votes_for v vcm)) (vmViewChangeMsgs vcm)\<rparr>"

definition StartViewChange ::
  "codec \<Rightarrow> gotime \<Rightarrow> u64 \<Rightarrow> u64 \<Rightarrow> Checkpoint list \<Rightarrow> PreparedCert list \<Rightarrow> ViewChangeManager
    \<Rightarrow> ViewChangeManager \<times> Message option" where
  "StartViewChange C now newView lastSeqNum checkpoints preparedSet vcm =
     (if newView \<le> vmCurrentView vcm then (vcm, None)
      else
        let vcm = vcm\<lparr>vmInProgress := True\<rparr>;
            viewChangeMsg = \<lparr>vcNewView = newView, vcLastSeqNum = lastSeqNum,
              vcCheckpoints = checkpoints, vcPreparedSet = preparedSet, vcNodeID = vmNodeID vcm\<rparr>;
            vcm = store_vote newView (vmNodeID vcm) viewChangeMsg vcm
        in (vcm,
            if vmBroadcastSet vcm
            then Some ((NewMessage now ViewChange newView lastSeqNum [] (vmNodeID vcm))
                         \<lparr>mPayload := enc_view_change C viewChangeMsg\<rparr>)
            else None))"

definition HandleViewChange :: "ViewChangeMsg \<Rightarrow> ViewChangeManager \<Rightarrow> ViewChangeManager \<times> bool" where
  "HandleViewChange msg vcm =
     (let vcm = store_vote (vcNewView msg) (vcNodeID msg) msg vcm
      in (vcm, int (length (votes_for (vcNewView msg) vcm)) \<ge> vmQuorumSize vcm))"

section \<open>The pre-prepares of the new view\<close>

definition max_checkpoint :: "ViewChangeMsg list \<Rightarrow> u64" where
  "max_checkpoint vcs =
     fold (\<lambda>vc mx. fold (\<lambda>cp mx. if cpSequenceNum cp > mx then cpSequenceNum cp else mx)
                         (vcCheckpoints vc) mx) vcs 0"

definition collect_prepared ::
  "ViewChangeMsg list \<Rightarrow> u64 \<times> (u64, PrePrepareMsg) gomap" where
  "collect_prepared vcs =
     fold (\<lambda>vc acc. fold (\<lambda>pc (mx, blocks).
             let pp = pcPrePrepare pc; n = ppSequenceNum pp;
                 mx = (if n > mx then n else mx)
             in (mx, if go_get blocks n = None then go_put n pp blocks else blocks))
           (vcPreparedSet vc) acc) vcs (0, [])"

definition reissue_step ::
  "(u64, PrePrepareMsg) gomap \<Rightarrow> u64 \<Rightarrow> PrePrepareMsg list \<Rightarrow> unit + PrePrepareMsg list" where
  "reissue_step preparedBlocks seqNum prePrepares =
     (case go_get preparedBlocks seqNum of
        Some pp \<Rightarrow> Inr (prePrepares @ [pp])
      | None \<Rightarrow> Inr prePrepares)"

definition computePrePrepareSet :: "ViewChangeMsg list \<Rightarrow> PrePrepareMsg list go" where
  "computePrePrepareSet vcs =
     (let maxCheckpoint = max_checkpoint vcs;
          (maxPrepared, preparedBlocks) = collect_prepared vcs
      in go_bind (of_loop (u64_for (reissue_step preparedBlocks) (maxCheckpoint + 1) maxPrepared []))
           (\<lambda>r. case r of Inr pps \<Rightarrow> Ret pps | Inl _ \<Rightarrow> Ret []))"

definition CreateNewViewMsg ::
  "(ViewChangeMsg list \<Rightarrow> ViewChangeMsg list) \<Rightarrow> u64 \<Rightarrow> ViewChangeManager \<Rightarrow> NewViewMsg option go" where
  "CreateNewViewMsg ord newView vcm =
     (let viewChangeMsgs = votes_for newView vcm
      in if int (length viewChangeMsgs) < vmQuorumSize vcm then Ret None
         else
           let vcMsgs = ord (map snd viewChangeMsgs)
           in go_bind (computePrePrepareSet vcMsgs) (\<lambda>prePrepares.
                Ret (Some \<lparr>nvView = newView, nvViewChangeMsgs = vcMsgs,
                           nvPrePrepareMsgs = prePrepares, nvNewPrimaryID = vmNodeID vcm\<rparr>)))"

section \<open>Checking a new view message\<close>

fun bytesEqual_from :: "nat \<Rightarrow> bytes \<Rightarrow> bytes \<Rightarrow> bool" where
  "bytesEqual_from i (x # a) (y # b) = (if x \<noteq> y then False else bytesEqual_from (Suc i) a b)"
| "bytesEqual_from _ _ _ = True"

definition bytesEqual :: "bytes \<Rightarrow> bytes \<Rightarrow> bool" where
  "bytesEqual a b = (if length a \<noteq> length b then False else bytesEqual_from 0 a b)"

text \<open>Step 2: collect the prepared digests, returning \<open>false\<close> on a conflict.\<close>

definition collect_digests ::
  "ViewChangeMsg list \<Rightarrow> bool + (u64 \<times> (u64, bytes) gomap)" where
  "collect_digests vcs =
     for_each (\<lambda>vc acc. for_each (\<lambda>pc (mx, blocks).
         let n = ppSequenceNum (pcPrePrepare pc);
             mx = (if n > mx then n else mx)
         in case go_get blocks n of
              Some existing \<Rightarrow>
                (if \<not> bytesEqual existing (ppDigest (pcPrePrepare pc)) then Inl False
                 else Inr (mx, blocks))
            | None \<Rightarrow> Inr (mx, go_put n (ppDigest (pcPrePrepare pc)) blocks))
       (vcPreparedSet vc) acc) vcs (0, [])"

text \<open>Step 3: no pre-prepare at or below the checkpoint, none against a prepared digest.\<close>

definition check_pre_prepares ::
  "u64 \<Rightarrow> (u64, bytes) gomap \<Rightarrow> PrePrepareMsg list \<Rightarrow> bool + unit" where
  "check_pre_prepares maxCheckpoint blocks pps =
     for_each (\<lambda>pp _.
         if ppSequenceNum pp \<le> maxCheckpoint then Inl False
         else case go_get blocks (ppSequenceNum pp) of
                Some expected \<Rightarrow> (if \<not> bytesEqual expected (ppDigest pp) then Inl False else Inr ())
              | None \<Rightarrow> Inr ()) pps ()"

text \<open>Step 4: a prepared sequence number needs a pre-prepare.\<close>

definition covered_step :: "(u64, bytes) gomap \<Rightarrow> PrePrepareMsg list \<Rightarrow> u64 \<Rightarrow> unit \<Rightarrow> bool + unit" where
  "covered_step blocks pps = (\<lambda>seqNum _.
     if go_get blocks seqNum \<noteq> None \<and> \<not> (\<exists>pp \<in> set pps. ppSequenceNum pp = seqNum)
     then Inl False else Inr ())"

definition verifyNewViewMsg :: "NewViewMsg \<Rightarrow> ViewChangeManager \<Rightarrow> bool go" where
  "verifyNewViewMsg msg vcm =
     (if int (length (nvViewChangeMsgs msg)) < vmQuorumSize vcm then Ret False
      else if \<exists>vc \<in> set (nvViewChangeMsgs msg). vcNewView vc \<noteq> nvView msg then Ret False
      else
        let maxCheckpoint = max_checkpoint (nvViewChangeMsgs msg)
        in case collect_digests (nvViewChangeMsgs msg) of
             Inl r \<Rightarrow> Ret r
           | Inr (maxPrepared, blocks) \<Rightarrow>
               (case check_pre_prepares maxCheckpoint blocks (nvPrePrepareMsgs msg) of
                  Inl r \<Rightarrow> Ret r
                | Inr _ \<Rightarrow>
                    go_bind (of_loop (u64_for (covered_step blocks (nvPrePrepareMsgs msg))
                        (maxCheckpoint + 1) maxPrepared ()))
                      (\<lambda>r. case r of Inl b \<Rightarrow> Ret b | Inr _ \<Rightarrow> Ret True)))"

definition HandleNewView ::
  "NewViewMsg \<Rightarrow> ViewChangeManager \<Rightarrow> (ViewChangeManager \<times> bool \<times> u64 option) go" where
  "HandleNewView msg vcm =
     go_bind (verifyNewViewMsg msg vcm) (\<lambda>ok.
       if \<not> ok then Ret (vcm, False, None)
       else
         let vcm = vcm\<lparr>vmNewViewMsgs := go_put (nvView msg) msg (vmNewViewMsgs vcm),
                       vmCurrentView := nvView msg, vmInProgress := False,
                       vmViewChangeMsgs := filter (\<lambda>(v, m). \<not> v \<le> nvView msg) (vmViewChangeMsgs vcm)\<rparr>
         in Ret (vcm, True, if vmOnCompleteSet vcm then Some (nvView msg) else None))"

definition vm_IsInProgress :: "ViewChangeManager \<Rightarrow> bool" where
  "vm_IsInProgress vcm = vmInProgress vcm"

definition vm_GetCurrentView :: "ViewChangeManager \<Rightarrow> u64" where
  "vm_GetCurrentView vcm = vmCurrentView vcm"

section \<open>What the loops compute\<close>

definition all_checkpoints :: "ViewChangeMsg list \<Rightarrow> Checkpoint list" where
  "all_checkpoints vcs = concat (map vcCheckpoints vcs)"

definition all_prepared :: "ViewChangeMsg list \<Rightarrow> PrePrepareMsg list" where
  "all_prepared vcs = map pcPrePrepare (concat (map vcPreparedSet vcs))"

definition max_prepared :: "ViewChangeMsg list \<Rightarrow> u64" where
  "max_prepared vcs = fst (collect_prepared vcs)"

lemma fold_nested: "fold (\<lambda>x acc. fold f (g x) acc) xs s = fold f (concat (map g xs)) s"
  by (induction xs arbitrary: s) auto

lemma for_each_append: "for_each f (xs @ ys) s =
    (case for_each f xs s of Inl r \<Rightarrow> Inl r | Inr s' \<Rightarrow> for_each f ys s')"
  by (induction xs arbitrary: s) (auto split: sum.split)

lemma for_each_nested:
  "for_each (\<lambda>x acc. for_each f (g x) acc) xs s = for_each f (concat (map g xs)) s"
  by (induction xs arbitrary: s) (auto simp: for_each_append split: sum.split)

lemma max_checkpoint_eq: "max_checkpoint vcs = Max (insert 0 (cpSequenceNum ` set (all_checkpoints vcs)))"
  unfolding max_checkpoint_def fold_nested fold_max all_checkpoints_def ..

text \<open>The entry kept for a sequence number is the first one met.\<close>

definition first_for :: "('a \<Rightarrow> 'k) \<Rightarrow> 'k \<Rightarrow> 'a list \<Rightarrow> 'a option" where
  "first_for f k xs = find (\<lambda>x. f x = k) xs"

lemma first_for_simps [simp]:
  "first_for f k [] = None"
  "first_for f k (x # xs) = (if f x = k then Some x else first_for f k xs)"
  by (simp_all add: first_for_def)

lemma first_for_SomeD: "first_for f k xs = Some x \<Longrightarrow> x \<in> set xs \<and> f x = k"
  by (induction xs) (auto split: if_splits)

lemma first_for_None_iff: "first_for f k xs = None \<longleftrightarrow> k \<notin> f ` set xs"
  by (induction xs) auto

lemma collect_prepared_fold:
  "fold (\<lambda>pc (mx, blocks).
             let pp = pcPrePrepare pc; n = ppSequenceNum pp; mx = (if n > mx then n else mx)
             in (mx, if go_get blocks n = None then go_put n pp blocks else blocks)) pcs (m, bl) =
     (mx, bl') \<Longrightarrow>
   mx = Max (insert m ((ppSequenceNum \<circ> pcPrePrepare) ` set pcs)) \<and>
   (\<forall>k. go_get bl' k = (case go_get bl k of Some p \<Rightarrow> Some p
                        | None \<Rightarrow> first_for ppSequenceNum k (map pcPrePrepare pcs)))"
proof (induction pcs arbitrary: m bl)
  case Nil
  then show ?case by (auto split: option.split)
next
  case (Cons pc pcs)
  let ?n = "ppSequenceNum (pcPrePrepare pc)"
  let ?m = "if ?n > m then ?n else m"
  let ?bl = "if go_get bl ?n = None then go_put ?n (pcPrePrepare pc) bl else bl"
  from Cons.prems have "fold (\<lambda>pc (mx, blocks).
             let pp = pcPrePrepare pc; n = ppSequenceNum pp; mx = (if n > mx then n else mx)
             in (mx, if go_get blocks n = None then go_put n pp blocks else blocks)) pcs (?m, ?bl) = (mx, bl')"
    by (simp add: Let_def)
  note IH = Cons.IH [OF this]
  have "Max (insert ?m ((ppSequenceNum \<circ> pcPrePrepare) ` set pcs)) =
      Max (insert m ((ppSequenceNum \<circ> pcPrePrepare) ` set (pc # pcs)))"
    by (cases "(ppSequenceNum \<circ> pcPrePrepare) ` set pcs = {}") (auto simp: max_def max.assoc)
  with IH show ?case by (auto split: option.splits)
qed

lemma collect_prepared_spec:
  assumes "collect_prepared vcs = (mx, bl)"
  shows "mx = Max (insert 0 (ppSequenceNum ` set (all_prepared vcs)))"
    and "go_get bl k = first_for ppSequenceNum k (all_prepared vcs)"
  using collect_prepared_fold [OF assms [unfolded collect_prepared_def fold_nested]]
  by (simp_all add: all_prepared_def image_comp)

lemma max_prepared_eq: "max_prepared vcs = Max (insert 0 (ppSequenceNum ` set (all_prepared vcs)))"
  using collect_prepared_spec(1) [of vcs] by (cases "collect_prepared vcs") (simp add: max_prepared_def)

section \<open>The invariant of the collected messages\<close>

text \<open>Every message is stored under the view it asks for and the node it names.\<close>

definition votes_wf :: "u64 \<Rightarrow> (string, ViewChangeMsg) gomap \<Rightarrow> bool" where
  "votes_wf v m \<longleftrightarrow> go_wf m \<and> keyed vcNodeID m \<and> (\<forall>e \<in> set m. vcNewView (snd e) = v)"

definition vm_ok :: "ViewChangeManager \<Rightarrow> bool" where
  "vm_ok vcm \<longleftrightarrow> go_wf (vmViewChangeMsgs vcm) \<and> (\<forall>e \<in> set (vmViewChangeMsgs vcm). votes_wf (fst e) (snd e))"

lemma votes_wf_Nil [simp]: "votes_wf v []"
  by (simp add: votes_wf_def)

lemma votes_wf_put: "votes_wf v m \<Longrightarrow> vcNewView msg = v \<Longrightarrow> votes_wf v (go_put (vcNodeID msg) msg m)"
  unfolding votes_wf_def using set_go_put_subset [of "vcNodeID msg" msg m] by fastforce

lemma votes_wf_votes_for: "vm_ok vcm \<Longrightarrow> votes_wf v (votes_for v vcm)"
  unfolding vm_ok_def votes_for_def by (auto split: option.split dest!: map_of_SomeD)

lemma vm_ok_store_vote:
  assumes "vm_ok vcm" and "vcNewView msg = v" and "vcNodeID msg = i"
  shows "vm_ok (store_vote v i msg vcm)"
proof -
  have "votes_wf v (go_put i msg (votes_for v vcm))"
    using votes_wf_put [OF votes_wf_votes_for [OF assms(1)] assms(2)] assms(3) by simp
  then show ?thesis
    using assms(1) set_go_put_subset [of v "go_put i msg (votes_for v vcm)" "vmViewChangeMsgs vcm"]
    unfolding vm_ok_def store_vote_def by fastforce
qed

lemma vm_ok_simps [simp]:
  "vm_ok (NewViewChangeManager i q)"
  "vm_ok (vcm\<lparr>vmInProgress := p\<rparr>) = vm_ok vcm"
  "vm_ok (vcm\<lparr>vmQuorumSize := q\<rparr>) = vm_ok vcm"
  "vm_ok (vcm\<lparr>vmCurrentView := v\<rparr>) = vm_ok vcm"
  "vm_ok (vcm\<lparr>vmNewViewMsgs := n\<rparr>) = vm_ok vcm"
  "vm_ok (SetBroadcastFunc vcm) = vm_ok vcm"
  "vm_ok (SetOnViewChangeComplete vcm) = vm_ok vcm"
  by (simp_all add: vm_ok_def NewViewChangeManager_def SetBroadcastFunc_def SetOnViewChangeComplete_def)

lemma vm_ok_StartViewChange: "vm_ok vcm \<Longrightarrow> vm_ok (fst (StartViewChange C now v n cps ps vcm))"
  unfolding StartViewChange_def Let_def
  by (simp add: vm_ok_store_vote)

lemma vm_ok_HandleViewChange: "vm_ok vcm \<Longrightarrow> vm_ok (fst (HandleViewChange msg vcm))"
  by (simp add: HandleViewChange_def Let_def vm_ok_store_vote)

lemma vm_ok_HandleNewView:
  assumes "vm_ok vcm" and "HandleNewView msg vcm = Ret (vcm', b, cb)"
  shows "vm_ok vcm'"
proof -
  have filter: "vm_ok (vcm\<lparr>vmNewViewMsgs := n, vmCurrentView := v, vmInProgress := p,
      vmViewChangeMsgs := filter P (vmViewChangeMsgs vcm)\<rparr>)" for n v p P
    using assms(1) by (simp add: vm_ok_def go_wf_def distinct_map_filter)
  from assms(2) obtain ok where ok: "(if \<not> ok then Ret (vcm, False, None)
       else let vcm = vcm\<lparr>vmNewViewMsgs := go_put (nvView msg) msg (vmNewViewMsgs vcm),
                       vmCurrentView := nvView msg, vmInProgress := False,
                       vmViewChangeMsgs := filter (\<lambda>(v, m). \<not> v \<le> nvView msg) (vmViewChangeMsgs vcm)\<rparr>
         in Ret (vcm, True, if vmOnCompleteSet vcm then Some (nvView msg) else None)) = Ret (vcm', b, cb)"
    unfolding HandleNewView_def go_bind_Ret_iff by blast
  show ?thesis
    by (cases ok) (use ok assms(1) filter in \<open>simp_all add: Let_def\<close>, blast)
qed

lemma votes_for_store_vote [simp]:
  "votes_for v (store_vote v' i msg vcm) =
     (if v = v' then go_put i msg (votes_for v vcm) else votes_for v vcm)"
  by (simp add: votes_for_def store_vote_def)

lemma NewViewChangeManager_simps [simp]:
  "votes_for v (NewViewChangeManager i q) = []"
  "vmQuorumSize (NewViewChangeManager i q) = q"
  "vmCurrentView (NewViewChangeManager i q) = 0"
  "vmNodeID (NewViewChangeManager i q) = i"
  by (simp_all add: votes_for_def NewViewChangeManager_def)

lemma store_vote_fields [simp]:
  "vmQuorumSize (store_vote v i msg vcm) = vmQuorumSize vcm"
  "vmCurrentView (store_vote v i msg vcm) = vmCurrentView vcm"
  "vmNodeID (store_vote v i msg vcm) = vmNodeID vcm"
  "vmInProgress (store_vote v i msg vcm) = vmInProgress vcm"
  "vmBroadcastSet (store_vote v i msg vcm) = vmBroadcastSet vcm"
  "vmOnCompleteSet (store_vote v i msg vcm) = vmOnCompleteSet vcm"
  by (simp_all add: store_vote_def)

end
