(* ===== verification/New_View.thy ===== *)
theory New_View
  imports View_Change
begin

text \<open>
  What the view change manager's loops compute, the declarative meaning of
  \<open>verifyNewViewMsg\<close> (\<open>new_view_valid\<close>), that a new primary's own message passes it, and the
  two ways the check is too weak or does not end.
\<close>

section \<open>Collecting and checking\<close>

lemma bytesEqual_from_iff: "length a = length b \<Longrightarrow> bytesEqual_from i a b \<longleftrightarrow> a = b"
  by (induction i a b rule: bytesEqual_from.induct) auto

lemma bytesEqual_iff [simp]: "bytesEqual a b \<longleftrightarrow> a = b"
  by (auto simp: bytesEqual_def bytesEqual_from_iff)

definition consistent :: "PrePrepareMsg list \<Rightarrow> bool" where
  "consistent ps \<longleftrightarrow> (\<forall>p \<in> set ps. \<forall>q \<in> set ps. ppSequenceNum p = ppSequenceNum q \<longrightarrow> ppDigest p = ppDigest q)"

definition digest_step :: "PreparedCert \<Rightarrow> u64 \<times> (u64, bytes) gomap \<Rightarrow> bool + (u64 \<times> (u64, bytes) gomap)" where
  "digest_step = (\<lambda>pc (mx, blocks).
         let n = ppSequenceNum (pcPrePrepare pc);
             mx = (if n > mx then n else mx)
         in case go_get blocks n of
              Some existing \<Rightarrow>
                (if \<not> bytesEqual existing (ppDigest (pcPrePrepare pc)) then Inl False
                 else Inr (mx, blocks))
            | None \<Rightarrow> Inr (mx, go_put n (ppDigest (pcPrePrepare pc)) blocks))"

lemma collect_digests_eq: "collect_digests vcs = for_each digest_step (concat (map vcPreparedSet vcs)) (0, [])"
  unfolding collect_digests_def digest_step_def for_each_nested ..

lemma for_each_digest_Inr:
  "for_each digest_step pcs (m, bl) = Inr (mx, bl') \<Longrightarrow>
   mx = Max (insert m ((ppSequenceNum \<circ> pcPrePrepare) ` set pcs)) \<and>
   (\<forall>k d. go_get bl k = Some d \<longrightarrow> go_get bl' k = Some d) \<and>
   (\<forall>k. go_get bl k = None \<longrightarrow> k \<notin> (ppSequenceNum \<circ> pcPrePrepare) ` set pcs \<longrightarrow> go_get bl' k = None) \<and>
   (\<forall>pc \<in> set pcs. go_get bl' (ppSequenceNum (pcPrePrepare pc)) = Some (ppDigest (pcPrePrepare pc)))"
proof (induction pcs arbitrary: m bl)
  case Nil
  then show ?case by simp
next
  case (Cons pc pcs)
  let ?n = "ppSequenceNum (pcPrePrepare pc)" and ?d = "ppDigest (pcPrePrepare pc)"
  let ?m = "if ?n > m then ?n else m"
  have mx: "Max (insert ?m ((ppSequenceNum \<circ> pcPrePrepare) ` set pcs)) =
      Max (insert m ((ppSequenceNum \<circ> pcPrePrepare) ` set (pc # pcs)))"
    by (cases "(ppSequenceNum \<circ> pcPrePrepare) ` set pcs = {}") (auto simp: max_def max.assoc)
  show ?case
  proof (cases "go_get bl ?n")
    case None
    with Cons.prems have "for_each digest_step pcs (?m, go_put ?n ?d bl) = Inr (mx, bl')"
      by (simp add: digest_step_def Let_def split: if_splits)
    note IH = Cons.IH [OF this]
    have "go_get bl' k = Some d" if "go_get bl k = Some d" for k d
    proof -
      from that None have "go_get (go_put ?n ?d bl) k = Some d" by auto
      with IH show ?thesis by blast
    qed
    moreover have "go_get bl' ?n = Some ?d" using IH by simp
    moreover have "go_get bl' k = None"
      if "go_get bl k = None" "k \<notin> (ppSequenceNum \<circ> pcPrePrepare) ` set (pc # pcs)" for k
    proof -
      from that have "go_get (go_put ?n ?d bl) k = None" by simp
      with IH that(2) show ?thesis by simp
    qed
    ultimately show ?thesis using IH mx by simp
  next
    case (Some d)
    with Cons.prems have d: "d = ?d" and "for_each digest_step pcs (?m, bl) = Inr (mx, bl')"
      by (simp_all add: digest_step_def Let_def split: if_splits)
    from Cons.IH [OF this(2)] have IH: "mx = Max (insert ?m ((ppSequenceNum \<circ> pcPrePrepare) ` set pcs))"
      "\<forall>k d. go_get bl k = Some d \<longrightarrow> go_get bl' k = Some d"
      "\<forall>k. go_get bl k = None \<longrightarrow> k \<notin> (ppSequenceNum \<circ> pcPrePrepare) ` set pcs \<longrightarrow> go_get bl' k = None"
      "\<forall>pc \<in> set pcs. go_get bl' (ppSequenceNum (pcPrePrepare pc)) = Some (ppDigest (pcPrePrepare pc))"
      by simp_all
    moreover have "go_get bl' ?n = Some ?d" using IH(2) Some d by blast
    ultimately show ?thesis using mx by simp
  qed
qed

lemma for_each_digest_Inl:
  "for_each digest_step pcs (m, bl) = Inl r \<Longrightarrow>
   \<not> r \<and> (\<exists>pc \<in> set pcs. (\<exists>d. go_get bl (ppSequenceNum (pcPrePrepare pc)) = Some d \<and> d \<noteq> ppDigest (pcPrePrepare pc))
      \<or> (\<exists>pc' \<in> set pcs. ppSequenceNum (pcPrePrepare pc') = ppSequenceNum (pcPrePrepare pc) \<and>
            ppDigest (pcPrePrepare pc') \<noteq> ppDigest (pcPrePrepare pc)))"
proof (induction pcs arbitrary: m bl)
  case Nil
  then show ?case by simp
next
  case (Cons pc pcs)
  let ?n = "ppSequenceNum (pcPrePrepare pc)" and ?d = "ppDigest (pcPrePrepare pc)"
  let ?m = "if ?n > m then ?n else m"
  show ?case
  proof (cases "go_get bl ?n")
    case None
    with Cons.prems have "for_each digest_step pcs (?m, go_put ?n ?d bl) = Inl r"
      by (simp add: digest_step_def Let_def split: if_splits)
    from Cons.IH [OF this] obtain pc' where r: "\<not> r" and pc': "pc' \<in> set pcs"
      and alt: "(\<exists>d. go_get (go_put ?n ?d bl) (ppSequenceNum (pcPrePrepare pc')) = Some d \<and> d \<noteq> ppDigest (pcPrePrepare pc'))
        \<or> (\<exists>pc'' \<in> set pcs. ppSequenceNum (pcPrePrepare pc'') = ppSequenceNum (pcPrePrepare pc') \<and>
            ppDigest (pcPrePrepare pc'') \<noteq> ppDigest (pcPrePrepare pc'))"
      by blast
    show ?thesis
    proof (cases "ppSequenceNum (pcPrePrepare pc') = ?n \<and> ?d \<noteq> ppDigest (pcPrePrepare pc')")
      case True
      then show ?thesis using r pc' by (metis list.set_intros)
    next
      case False
      then have "(\<exists>d. go_get bl (ppSequenceNum (pcPrePrepare pc')) = Some d \<and> d \<noteq> ppDigest (pcPrePrepare pc'))
        \<or> (\<exists>pc'' \<in> set pcs. ppSequenceNum (pcPrePrepare pc'') = ppSequenceNum (pcPrePrepare pc') \<and>
            ppDigest (pcPrePrepare pc'') \<noteq> ppDigest (pcPrePrepare pc'))"
        using alt by (auto simp only: go_get_put fun_upd_apply split: if_splits)
      then show ?thesis using r pc' by (meson list.set_intros(2))
    qed
  next
    case (Some d)
    show ?thesis
    proof (cases "d = ?d")
      case True
      with Cons.prems Some have "for_each digest_step pcs (?m, bl) = Inl r"
        by (simp add: digest_step_def Let_def split: if_splits)
      from Cons.IH [OF this] show ?thesis by (meson list.set_intros(2))
    next
      case False
      with Cons.prems Some show ?thesis by (auto simp: digest_step_def Let_def split: if_splits)
    qed
  qed
qed

lemma collect_digests_spec:
  "case collect_digests vcs of
     Inl r \<Rightarrow> \<not> r \<and> \<not> consistent (all_prepared vcs)
   | Inr (mx, bl) \<Rightarrow> consistent (all_prepared vcs) \<and> mx = max_prepared vcs \<and>
       (\<forall>p \<in> set (all_prepared vcs). go_get bl (ppSequenceNum p) = Some (ppDigest p)) \<and>
       (\<forall>k. k \<notin> ppSequenceNum ` set (all_prepared vcs) \<longrightarrow> go_get bl k = None)"
proof (cases "collect_digests vcs")
  case (Inl r)
  then have "for_each digest_step (concat (map vcPreparedSet vcs)) (0, []) = Inl r"
    by (simp add: collect_digests_eq)
  from for_each_digest_Inl [OF this] obtain pc pc' where "\<not> r"
    "pc \<in> set (concat (map vcPreparedSet vcs))" "pc' \<in> set (concat (map vcPreparedSet vcs))"
    "ppSequenceNum (pcPrePrepare pc') = ppSequenceNum (pcPrePrepare pc)"
    "ppDigest (pcPrePrepare pc') \<noteq> ppDigest (pcPrePrepare pc)"
    by (auto simp del: set_concat)
  then have "\<not> consistent (all_prepared vcs)"
    unfolding consistent_def all_prepared_def set_map by blast
  with \<open>\<not> r\<close> Inl show ?thesis by simp
next
  case (Inr res)
  obtain mx bl where res: "res = (mx, bl)" by (cases res)
  with Inr have "for_each digest_step (concat (map vcPreparedSet vcs)) (0, []) = Inr (mx, bl)"
    by (simp add: collect_digests_eq)
  from for_each_digest_Inr [OF this]
  have *: "mx = max_prepared vcs"
    "\<forall>p \<in> set (all_prepared vcs). go_get bl (ppSequenceNum p) = Some (ppDigest p)"
    "\<forall>k. k \<notin> ppSequenceNum ` set (all_prepared vcs) \<longrightarrow> go_get bl k = None"
    unfolding max_prepared_eq all_prepared_def by (simp_all add: image_comp)
  then have "consistent (all_prepared vcs)"
    unfolding consistent_def by (metis option.inject)
  with * Inr res show ?thesis by simp
qed

lemma for_each_guard:
  "for_each (\<lambda>x _. if \<not> P x then Inl False else Inr ()) xs () =
     (if \<forall>x \<in> set xs. P x then Inr () else Inl False)"
  by (induction xs) auto

definition pre_prepares_ok :: "u64 \<Rightarrow> (u64, bytes) gomap \<Rightarrow> PrePrepareMsg list \<Rightarrow> bool" where
  "pre_prepares_ok mc bl pps \<longleftrightarrow> (\<forall>pp \<in> set pps. mc < ppSequenceNum pp \<and>
     (\<forall>d. go_get bl (ppSequenceNum pp) = Some d \<longrightarrow> d = ppDigest pp))"

lemma check_pre_prepares_eq:
  "check_pre_prepares mc bl pps = (if pre_prepares_ok mc bl pps then Inr () else Inl False)"
proof -
  have "check_pre_prepares mc bl pps = for_each (\<lambda>pp _. if \<not> (mc < ppSequenceNum pp \<and>
      (\<forall>d. go_get bl (ppSequenceNum pp) = Some d \<longrightarrow> d = ppDigest pp)) then Inl False else Inr ()) pps ()"
    unfolding check_pre_prepares_def
    by (rule arg_cong [where f = "\<lambda>b. for_each b pps ()"], intro ext) (simp add: not_less split: option.split)
  then show ?thesis unfolding for_each_guard pre_prepares_ok_def .
qed

definition numbers_covered :: "(u64, bytes) gomap \<Rightarrow> PrePrepareMsg list \<Rightarrow> u64 list \<Rightarrow> bool" where
  "numbers_covered bl pps ns \<longleftrightarrow>
     (\<forall>n \<in> set ns. go_get bl n \<noteq> None \<longrightarrow> (\<exists>pp \<in> set pps. ppSequenceNum pp = n))"

lemma coverage_loop:
  "for_each (covered_step bl pps) ns () = (if numbers_covered bl pps ns then Inr () else Inl False)"
proof -
  have "covered_step bl pps =
      (\<lambda>n _. if \<not> (go_get bl n \<noteq> None \<longrightarrow> (\<exists>pp \<in> set pps. ppSequenceNum pp = n))
                    then Inl False else Inr ())"
    unfolding covered_step_def by (intro ext if_cong) blast+
  then show ?thesis unfolding numbers_covered_def by (simp only: for_each_guard)
qed

section \<open>The meaning of \<open>verifyNewViewMsg\<close>\<close>

definition new_view_valid :: "int \<Rightarrow> NewViewMsg \<Rightarrow> bool" where
  "new_view_valid q msg \<longleftrightarrow>
     (let vcs = nvViewChangeMsgs msg; pps = nvPrePrepareMsgs msg; mc = max_checkpoint vcs in
      q \<le> int (length vcs) \<and>
      (\<forall>vc \<in> set vcs. vcNewView vc = nvView msg) \<and>
      consistent (all_prepared vcs) \<and>
      (\<forall>pp \<in> set pps. mc < ppSequenceNum pp \<and>
         (\<forall>p \<in> set (all_prepared vcs). ppSequenceNum p = ppSequenceNum pp \<longrightarrow> ppDigest p = ppDigest pp)) \<and>
      (\<forall>p \<in> set (all_prepared vcs). mc + 1 \<le> ppSequenceNum p \<longrightarrow>
         ppSequenceNum p \<in> ppSequenceNum ` set pps))"

lemma max_prepared_ge: "p \<in> set (all_prepared vcs) \<Longrightarrow> ppSequenceNum p \<le> max_prepared vcs"
  by (simp add: max_prepared_eq)

text \<open>
  The digest table against the list of prepared pre-prepares it was made from.
\<close>

lemma digest_table:
  assumes "\<forall>p \<in> set ps. go_get bl (ppSequenceNum p) = Some (ppDigest p)"
    and "\<forall>k. k \<notin> ppSequenceNum ` set ps \<longrightarrow> go_get bl k = None"
  shows "(\<forall>d. go_get bl n = Some d \<longrightarrow> d = e) \<longleftrightarrow> (\<forall>p \<in> set ps. ppSequenceNum p = n \<longrightarrow> ppDigest p = e)"
    and "go_get bl n \<noteq> None \<longleftrightarrow> n \<in> ppSequenceNum ` set ps"
proof -
  show 1: "go_get bl n \<noteq> None \<longleftrightarrow> n \<in> ppSequenceNum ` set ps"
    using assms by fastforce
  show "(\<forall>d. go_get bl n = Some d \<longrightarrow> d = e) \<longleftrightarrow> (\<forall>p \<in> set ps. ppSequenceNum p = n \<longrightarrow> ppDigest p = e)"
    using assms by (cases "n \<in> ppSequenceNum ` set ps") auto
qed

text \<open>The branch structure of \<open>verifyNewViewMsg\<close> once its loops are evaluated.\<close>

lemma verify_shape:
  "(if a then Ret False else if \<not> b then Ret False
    else case (if c then Inr () else Inl False) of Inl r \<Rightarrow> Ret r
         | Inr _ \<Rightarrow> go_bind (of_loop (Some (if d then Inr () else Inl False)))
                     (\<lambda>r. case r of Inl b \<Rightarrow> Ret b | Inr _ \<Rightarrow> Ret True)) = Ret (\<not> a \<and> b \<and> c \<and> d)"
  by simp

lemma verify_eq:
  assumes "max_prepared (nvViewChangeMsgs msg) \<noteq> - 1"
  shows "verifyNewViewMsg msg vcm = Ret (new_view_valid (vmQuorumSize vcm) msg)"
proof -
  let ?vcs = "nvViewChangeMsgs msg" and ?pps = "nvPrePrepareMsgs msg"
  let ?mc = "max_checkpoint ?vcs" and ?ps = "all_prepared ?vcs"
  note cd = collect_digests_spec [of ?vcs]
  show ?thesis
  proof (cases "collect_digests ?vcs")
    case (Inl r)
    with cd show ?thesis by (auto simp: verifyNewViewMsg_def new_view_valid_def Let_def)
  next
    case (Inr res)
    then obtain bl where bl: "collect_digests ?vcs = Inr (max_prepared ?vcs, bl)" "consistent ?ps"
      "\<forall>p \<in> set ?ps. go_get bl (ppSequenceNum p) = Some (ppDigest p)"
      "\<forall>k. k \<notin> ppSequenceNum ` set ?ps \<longrightarrow> go_get bl k = None"
      using cd by (cases res) auto
    note table = digest_table [OF bl(3,4)]
    have W: "pre_prepares_ok ?mc bl ?pps \<longleftrightarrow> (\<forall>pp \<in> set ?pps. ?mc < ppSequenceNum pp \<and>
         (\<forall>p \<in> set ?ps. ppSequenceNum p = ppSequenceNum pp \<longrightarrow> ppDigest p = ppDigest pp))"
      unfolding pre_prepares_ok_def table(1) ..
    have V: "numbers_covered bl ?pps (u64_range (?mc + 1) (max_prepared ?vcs)) \<longleftrightarrow>
        (\<forall>p \<in> set ?ps. ?mc + 1 \<le> ppSequenceNum p \<longrightarrow> ppSequenceNum p \<in> ppSequenceNum ` set ?pps)"
      unfolding numbers_covered_def table(2) set_u64_range Ball_def Bex_def atLeastAtMost_iff image_iff
      by (metis max_prepared_ge)
    have same: "(\<exists>vc \<in> set ?vcs. vcNewView vc \<noteq> nvView msg) \<longleftrightarrow> \<not> (\<forall>vc \<in> set ?vcs. vcNewView vc = nvView msg)"
      by blast
    note loop = trans [OF u64_for_terminates [OF assms] arg_cong [where f = Some, OF coverage_loop]]
    have val: "new_view_valid (vmQuorumSize vcm) msg \<longleftrightarrow> \<not> int (length ?vcs) < vmQuorumSize vcm \<and>
        (\<forall>vc \<in> set ?vcs. vcNewView vc = nvView msg) \<and> pre_prepares_ok ?mc bl ?pps \<and>
        numbers_covered bl ?pps (u64_range (?mc + 1) (max_prepared ?vcs))"
      unfolding new_view_valid_def Let_def W V not_less using bl(2) by simp
    show ?thesis
      unfolding val verifyNewViewMsg_def Let_def bl(1) sum.case prod.case check_pre_prepares_eq same loop
      by (rule verify_shape)
  qed
qed

text \<open>
  C12. \<open>verifyNewViewMsg\<close> decides the declarative check: enough view-change messages, all for
  the view, no two prepared certificates of one sequence number with different digests, every
  pre-prepare above the highest checkpoint and with the prepared digest where there is one,
  and a pre-prepare for every prepared number above the checkpoint. (The hypothesis excludes
  the one prepared number for which its last loop does not end.)
\<close>

theorem verifyNewViewMsg_correct:
  assumes "max_prepared (nvViewChangeMsgs msg) \<noteq> - 1"
  shows "verifyNewViewMsg msg vcm = Ret (new_view_valid (vmQuorumSize vcm) msg)"
  by (rule verify_eq [OF assms])

definition sample_pre_prepare :: "u64 \<Rightarrow> bytes \<Rightarrow> PrePrepareMsg" where
  "sample_pre_prepare n d = \<lparr>ppView = 0, ppSequenceNum = n, ppDigest = d, ppBlock = None, ppPrimaryID = ''node0''\<rparr>"

definition sample_cert :: "u64 \<Rightarrow> bytes \<Rightarrow> PreparedCert" where
  "sample_cert n d = \<lparr>pcPrePrepare = sample_pre_prepare n d, pcPrepares = []\<rparr>"

definition sample_vote :: "string \<Rightarrow> u64 \<Rightarrow> PreparedCert list \<Rightarrow> ViewChangeMsg" where
  "sample_vote i v certs =
     \<lparr>vcNewView = v, vcLastSeqNum = 0, vcCheckpoints = [], vcPreparedSet = certs, vcNodeID = i\<rparr>"

definition sample_manager :: ViewChangeManager where
  "sample_manager = NewViewChangeManager ''node1'' 3"

lemmas sample_defs = sample_pre_prepare_def sample_cert_def sample_vote_def sample_manager_def

definition sample_new_view :: NewViewMsg where
  "sample_new_view = \<lparr>nvView = 1,
     nvViewChangeMsgs = [sample_vote ''node1'' 1 [sample_cert 5 [7]], sample_vote ''node2'' 1 [],
                         sample_vote ''node3'' 1 []],
     nvPrePrepareMsgs = [sample_pre_prepare 5 [7]], nvNewPrimaryID = ''node1''\<rparr>"

lemma max_checkpoint_sample [simp]: "max_checkpoint (nvViewChangeMsgs sample_new_view) = 0"
  by (simp add: sample_new_view_def sample_defs max_checkpoint_def)

lemma max_prepared_sample [simp]: "max_prepared (nvViewChangeMsgs sample_new_view) = 5"
  by (simp add: sample_new_view_def sample_defs max_prepared_def collect_prepared_def Let_def)

theorem verifyNewViewMsg_correct_witness:
  "verifyNewViewMsg sample_new_view sample_manager = Ret True"
proof -
  have "new_view_valid 3 sample_new_view"
    unfolding new_view_valid_def Let_def max_checkpoint_sample
    by (simp add: sample_new_view_def sample_defs all_prepared_def consistent_def)
  then show ?thesis
    using verifyNewViewMsg_correct [of sample_new_view sample_manager]
    by (simp add: sample_manager_def NewViewChangeManager_def)
qed

section \<open>The new primary's message\<close>

lemma reissue_loop: "for_each (reissue_step bl) ns acc = Inr (acc @ List.map_filter (go_get bl) ns)"
  by (induction ns arbitrary: acc) (auto simp: reissue_step_def List.map_filter_simps split: option.split)

definition reissued :: "ViewChangeMsg list \<Rightarrow> PrePrepareMsg list" where
  "reissued vcs = List.map_filter (\<lambda>n. first_for ppSequenceNum n (all_prepared vcs))
                    (u64_range (max_checkpoint vcs + 1) (max_prepared vcs))"

lemma computePrePrepareSet_eq:
  assumes "max_prepared vcs \<noteq> - 1"
  shows "computePrePrepareSet vcs = Ret (reissued vcs)"
proof -
  obtain mx bl where c: "collect_prepared vcs = (mx, bl)" by (cases "collect_prepared vcs")
  have mx: "mx = max_prepared vcs" using c by (simp add: max_prepared_def)
  have bl: "go_get bl = (\<lambda>n. first_for ppSequenceNum n (all_prepared vcs))"
    using collect_prepared_spec(2) [OF c] by (intro ext)
  show ?thesis
    unfolding computePrePrepareSet_def Let_def c prod.case mx u64_for_terminates [OF assms]
      reissue_loop bl reissued_def by simp
qed

lemma computePrePrepareSet_diverges:
  assumes "max_prepared vcs = - 1"
  shows "computePrePrepareSet vcs = Diverge"
proof -
  obtain mx bl where c: "collect_prepared vcs = (mx, bl)" by (cases "collect_prepared vcs")
  have mx: "mx = - 1" using c assms by (simp add: max_prepared_def)
  have "reissue_step bl i s \<noteq> Inl r" for i s r
    by (simp add: reissue_step_def split: option.split)
  from u64_for_diverges [OF this] show ?thesis
    unfolding computePrePrepareSet_def Let_def c prod.case mx by simp
qed

lemma set_map_filter_first_for:
  "set (map f (List.map_filter (\<lambda>n. first_for f n ps) ns)) = f ` set ps \<inter> set ns"
proof (induction ns)
  case Nil
  show ?case by (simp add: List.map_filter_simps)
next
  case (Cons n ns)
  show ?case
  proof (cases "first_for f n ps")
    case None
    then have "n \<notin> f ` set ps" by (simp add: first_for_None_iff)
    with None Cons show ?thesis by (simp add: List.map_filter_simps)
  next
    case (Some p)
    then have p: "f p = n" and n: "n \<in> f ` set ps" using first_for_SomeD by fast+
    have "set (map f (List.map_filter (\<lambda>n. first_for f n ps) (n # ns))) =
        insert n (f ` set ps \<inter> set ns)"
      by (simp add: List.map_filter_simps Some p Cons.IH [simplified])
    then show ?thesis using n by (simp only: list.set Int_insert_right_if1)
  qed
qed

lemma reissued_props:
  shows "set (reissued vcs) \<subseteq> set (all_prepared vcs)"
    and "sorted_wrt (<) (map ppSequenceNum (reissued vcs))"
    and "set (map ppSequenceNum (reissued vcs)) =
           {n \<in> ppSequenceNum ` set (all_prepared vcs). max_checkpoint vcs + 1 \<le> n}"
proof -
  show "set (reissued vcs) \<subseteq> set (all_prepared vcs)"
  proof (rule subsetI)
    fix p assume "p \<in> set (reissued vcs)"
    from this [unfolded reissued_def in_map_filter] show "p \<in> set (all_prepared vcs)"
      using first_for_SomeD by fast
  qed
  show "sorted_wrt (<) (map ppSequenceNum (reissued vcs))"
    unfolding reissued_def
    by (rule map_filter_sorted [OF _ strict_u64_range]) (rule first_for_SomeD [THEN conjunct2])
  have "n \<le> max_prepared vcs" if "n \<in> ppSequenceNum ` set (all_prepared vcs)" for n
    using that by (auto simp: max_prepared_ge)
  then have "ppSequenceNum ` set (all_prepared vcs) \<inter> {max_checkpoint vcs + 1..max_prepared vcs} =
      {n \<in> ppSequenceNum ` set (all_prepared vcs). max_checkpoint vcs + 1 \<le> n}"
    by (intro set_eqI) (simp only: Int_iff atLeastAtMost_iff mem_Collect_eq; blast)
  then show "set (map ppSequenceNum (reissued vcs)) =
           {n \<in> ppSequenceNum ` set (all_prepared vcs). max_checkpoint vcs + 1 \<le> n}"
    unfolding reissued_def set_map_filter_first_for set_u64_range .
qed

text \<open>
  C13. \<open>computePrePrepareSet\<close> reissues the prepared requests above the checkpoint: in strictly
  increasing sequence order, one for each prepared number above the highest checkpoint, each
  the pre-prepare of a certificate it was given. It returns unless some certificate names the
  last sequence number. (The other bound is the checkpoint whose successor wraps to 0.)
\<close>

theorem computePrePrepareSet_correct:
  assumes "max_prepared vcs \<noteq> - 1" and "max_checkpoint vcs \<noteq> - 1"
  shows "\<exists>pps. computePrePrepareSet vcs = Ret pps \<and>
    set pps \<subseteq> set (all_prepared vcs) \<and> sorted_wrt (<) (map ppSequenceNum pps) \<and>
    ppSequenceNum ` set pps = {n \<in> ppSequenceNum ` set (all_prepared vcs). n > max_checkpoint vcs}"
proof -
  have "max_checkpoint vcs + 1 \<le> n \<longleftrightarrow> max_checkpoint vcs < n" for n
    unfolding word_le_nat_alt word_less_nat_alt unat_u64_Suc [OF assms(2)] by (rule Suc_le_eq)
  then have "ppSequenceNum ` set (reissued vcs) =
      {n \<in> ppSequenceNum ` set (all_prepared vcs). n > max_checkpoint vcs}"
    using reissued_props(3) [of vcs] by simp
  then show ?thesis
    using computePrePrepareSet_eq [OF assms(1)] reissued_props(1,2) by blast
qed

lemma max_of_sample:
  "max_prepared (nvViewChangeMsgs sample_new_view) \<noteq> - 1"
  "max_checkpoint (nvViewChangeMsgs sample_new_view) \<noteq> - 1"
  by simp_all

theorem computePrePrepareSet_correct_witness:
  "\<exists>pps. computePrePrepareSet (nvViewChangeMsgs sample_new_view) = Ret pps \<and>
     ppSequenceNum ` set pps = {5}"
proof -
  have "{n \<in> ppSequenceNum ` set (all_prepared (nvViewChangeMsgs sample_new_view)). n > 0} = {5 :: u64}"
    by (auto simp: sample_new_view_def sample_defs all_prepared_def)
  then show ?thesis
    using computePrePrepareSet_correct [OF max_of_sample] by (simp only: max_checkpoint_sample) blast
qed

text \<open>
  C16. A collected view-change message with a prepared certificate for the last sequence number
  makes the new primary's \<open>CreateNewViewMsg\<close> loop forever (while it holds the manager's lock):
  the \<open>uint64\<close> loop variable wraps to 0 before it exceeds its bound.
\<close>

theorem CreateNewViewMsg_diverges:
  assumes "go_order ord" and "vmQuorumSize vcm \<le> int (length (votes_for v vcm))"
    and "(i, vc) \<in> set (votes_for v vcm)" and "pc \<in> set (vcPreparedSet vc)"
    and "ppSequenceNum (pcPrePrepare pc) = - 1"
  shows "CreateNewViewMsg ord v vcm = Diverge"
proof -
  let ?vcs = "ord (map snd (votes_for v vcm))"
  have "vc \<in> set ?vcs" using assms(1,3) by (force simp: go_order_set)
  then have "pcPrePrepare pc \<in> set (all_prepared ?vcs)"
    using assms(4) by (auto simp: all_prepared_def)
  from max_prepared_ge [OF this] have "max_prepared ?vcs = - 1"
    using assms(5) by (simp add: word_order.extremum_uniqueI)
  from computePrePrepareSet_diverges [OF this] show ?thesis
    using assms(2) by (simp add: CreateNewViewMsg_def)
qed

definition flooded_manager :: ViewChangeManager where
  "flooded_manager = fold (\<lambda>vc m. fst (HandleViewChange vc m))
     [sample_vote ''node1'' 1 [], sample_vote ''node2'' 1 [],
      sample_vote ''node3'' 1 [sample_cert (- 1) [7]]] sample_manager"

theorem CreateNewViewMsg_diverges_witness:
  "CreateNewViewMsg rev 1 flooded_manager = Diverge"
proof -
  have v: "votes_for 1 flooded_manager = [(''node1'', sample_vote ''node1'' 1 []),
      (''node2'', sample_vote ''node2'' 1 []),
      (''node3'', sample_vote ''node3'' 1 [sample_cert (- 1) [7]])]" and q: "vmQuorumSize flooded_manager = 3"
    by (simp_all add: flooded_manager_def HandleViewChange_def Let_def sample_defs)
  show ?thesis
    by (rule CreateNewViewMsg_diverges [of rev _ _ "''node3''" "sample_vote ''node3'' 1 [sample_cert (- 1) [7]]"
          "sample_cert (- 1) [7]"]) (simp_all add: v q sample_defs)
qed

text \<open>
  C14. The message a new primary builds with \<open>CreateNewViewMsg\<close> passes \<open>verifyNewViewMsg\<close> at
  every node with the same quorum size exactly when the certificates it collected do not
  contradict each other, so one forged certificate makes an honest new primary fail.
\<close>

theorem created_new_view_accepted:
  assumes "vm_ok vcm" and "go_order ord" and "CreateNewViewMsg ord v vcm = Ret (Some m)"
    and "max_checkpoint (nvViewChangeMsgs m) \<noteq> - 1" and "vmQuorumSize w = vmQuorumSize vcm"
  shows "verifyNewViewMsg m w = Ret (consistent (all_prepared (nvViewChangeMsgs m)))"
proof -
  let ?vcs = "ord (map snd (votes_for v vcm))"
  from assms(3) have q: "vmQuorumSize vcm \<le> int (length (votes_for v vcm))"
    and c: "go_bind (computePrePrepareSet ?vcs) (\<lambda>pps. Ret (Some \<lparr>nvView = v, nvViewChangeMsgs = ?vcs,
              nvPrePrepareMsgs = pps, nvNewPrimaryID = vmNodeID vcm\<rparr>)) = Ret (Some m)"
    by (auto simp: CreateNewViewMsg_def Let_def split: if_splits)
  from c have fin: "max_prepared ?vcs \<noteq> - 1" using computePrePrepareSet_diverges [of ?vcs] by fastforce
  from c have m: "m = \<lparr>nvView = v, nvViewChangeMsgs = ?vcs, nvPrePrepareMsgs = reissued ?vcs,
      nvNewPrimaryID = vmNodeID vcm\<rparr>"
    by (simp add: computePrePrepareSet_eq [OF fin])
  have views: "\<forall>vc \<in> set ?vcs. vcNewView vc = v"
    using votes_wf_votes_for [OF assms(1), of v] by (simp add: votes_wf_def go_order_set [OF assms(2)])
  have mc: "max_checkpoint ?vcs \<noteq> - 1" using assms(4) m by simp
  have "max_checkpoint ?vcs + 1 \<le> n \<longleftrightarrow> max_checkpoint ?vcs < n" for n
    unfolding word_le_nat_alt word_less_nat_alt unat_u64_Suc [OF mc] by (rule Suc_le_eq)
  then have above: "max_checkpoint ?vcs < ppSequenceNum pp" if "pp \<in> set (reissued ?vcs)" for pp
    using that reissued_props(3) [of ?vcs] by auto
  have same: "ppDigest p = ppDigest pp" if "consistent (all_prepared ?vcs)" "pp \<in> set (reissued ?vcs)"
    "p \<in> set (all_prepared ?vcs)" "ppSequenceNum p = ppSequenceNum pp" for p pp
    using that reissued_props(1) [of ?vcs] unfolding consistent_def by blast
  have cover: "\<forall>p \<in> set (all_prepared ?vcs). max_checkpoint ?vcs + 1 \<le> ppSequenceNum p \<longrightarrow>
      ppSequenceNum p \<in> ppSequenceNum ` set (reissued ?vcs)"
    using reissued_props(3) [of ?vcs] by (metis (mono_tags, lifting) image_eqI list.set_map mem_Collect_eq)
  have valid: "new_view_valid (vmQuorumSize w) m \<longleftrightarrow> consistent (all_prepared ?vcs)"
    unfolding new_view_valid_def Let_def m NewViewMsg.simps
    using q assms(5) views above same cover by (metis go_order_length [OF assms(2)] length_map)
  have fin': "max_prepared (nvViewChangeMsgs m) \<noteq> - 1" using fin m by simp
  show ?thesis
    unfolding verify_eq [OF fin'] valid by (simp add: m)
qed

definition voted_manager :: ViewChangeManager where
  "voted_manager = fold (\<lambda>vc m. fst (HandleViewChange vc m))
     (nvViewChangeMsgs sample_new_view) sample_manager"

lemma voted_manager_facts:
  "vm_ok voted_manager"
  "votes_for 1 voted_manager = map (\<lambda>vc. (vcNodeID vc, vc)) (nvViewChangeMsgs sample_new_view)"
  "vmQuorumSize voted_manager = 3"
  by (simp_all add: voted_manager_def vm_ok_HandleViewChange sample_new_view_def sample_manager_def)
    (simp_all add: HandleViewChange_def Let_def sample_vote_def)

theorem created_new_view_accepted_witness:
  "\<exists>m. CreateNewViewMsg (\<lambda>xs. xs) 1 voted_manager = Ret (Some m) \<and>
       verifyNewViewMsg m sample_manager = Ret True"
proof -
  let ?vcs = "nvViewChangeMsgs sample_new_view"
  have l: "length ?vcs = 3" by (simp add: sample_new_view_def)
  have "map snd (votes_for 1 voted_manager) = ?vcs"
    by (simp add: voted_manager_facts comp_def)
  then obtain m where m: "CreateNewViewMsg (\<lambda>xs. xs) 1 voted_manager = Ret (Some m)"
    and vcs: "nvViewChangeMsgs m = ?vcs"
    using computePrePrepareSet_eq [OF max_of_sample(1)]
    by (simp add: CreateNewViewMsg_def Let_def voted_manager_facts l)
  have "consistent (all_prepared ?vcs)"
    by (simp add: sample_new_view_def sample_defs all_prepared_def consistent_def)
  then have "verifyNewViewMsg m sample_manager = Ret True"
    using created_new_view_accepted [OF voted_manager_facts(1) go_order_id m, of sample_manager]
      voted_manager_facts(3)
    unfolding vcs by (simp add: sample_manager_def)
  with m show ?thesis by blast
qed

section \<open>Counting votes\<close>

text \<open>
  C15. \<open>HandleViewChange\<close> keeps the manager's invariant, keeps the latest message of each
  sender, and answers \<open>true\<close> exactly when that many distinct nodes have asked for the view as
  the quorum needs: repeating a message never helps.
\<close>

theorem HandleViewChange_counts_senders:
  assumes "vm_ok vcm" and "HandleViewChange msg vcm = (vcm', b)"
  shows "vm_ok vcm' \<and>
    go_get (votes_for v vcm') = (if v = vcNewView msg
           then (go_get (votes_for v vcm))(vcNodeID msg \<mapsto> msg) else go_get (votes_for v vcm)) \<and>
    (b \<longleftrightarrow> int (card (go_keys (votes_for (vcNewView msg) vcm'))) \<ge> vmQuorumSize vcm)"
proof (intro conjI)
  from assms(2) have v: "vcm' = store_vote (vcNewView msg) (vcNodeID msg) msg vcm"
    and b: "b \<longleftrightarrow> int (length (votes_for (vcNewView msg) vcm')) \<ge> vmQuorumSize vcm"
    by (auto simp: HandleViewChange_def Let_def)
  show ok: "vm_ok vcm'" using assms(1) unfolding v by (simp add: vm_ok_store_vote)
  show "go_get (votes_for v vcm') = (if v = vcNewView msg
           then (go_get (votes_for v vcm))(vcNodeID msg \<mapsto> msg) else go_get (votes_for v vcm))"
    by (simp add: v)
  show "b \<longleftrightarrow> int (card (go_keys (votes_for (vcNewView msg) vcm'))) \<ge> vmQuorumSize vcm"
    using votes_wf_votes_for [OF ok, of "vcNewView msg"] b by (simp add: votes_wf_def card_go_keys)
qed

theorem HandleViewChange_counts_senders_witness:
  "vm_ok (fst (HandleViewChange (sample_vote ''node9'' 1 []) sample_manager)) \<and>
   \<not> snd (HandleViewChange (sample_vote ''node9'' 1 []) sample_manager)"
  using HandleViewChange_counts_senders [of sample_manager "sample_vote ''node9'' 1 []"]
  by (simp add: sample_manager_def HandleViewChange_def Let_def vm_ok_store_vote)

text \<open>
  \<open>verifyNewViewMsg\<close> counts the messages, not their senders, and looks at no signature: one
  node that repeats its own view-change message makes a message that installs any view, with
  any pre-prepares it likes above sequence number 0.
\<close>

theorem one_sender_forges_new_view:
  assumes "\<forall>pp \<in> set pps. ppSequenceNum pp > 0"
  shows "verifyNewViewMsg \<lparr>nvView = v,
      nvViewChangeMsgs = replicate (nat (vmQuorumSize vcm)) (sample_vote i v []),
      nvPrePrepareMsgs = pps, nvNewPrimaryID = p\<rparr> vcm = Ret True"
proof -
  have "\<forall>p \<in> set (all_prepared (replicate n (sample_vote i v []))). False" for n
    by (auto simp: all_prepared_def sample_vote_def)
  then have p: "all_prepared (replicate n (sample_vote i v [])) = []" for n
    by (metis list.set_intros(1) neq_Nil_conv)
  have "\<forall>p \<in> set (all_checkpoints (replicate n (sample_vote i v []))). False" for n
    by (auto simp: all_checkpoints_def sample_vote_def)
  then have "all_checkpoints (replicate n (sample_vote i v [])) = []" for n
    by (metis list.set_intros(1) neq_Nil_conv)
  then have mc: "max_checkpoint (replicate n (sample_vote i v [])) = 0" for n
    by (simp add: max_checkpoint_eq)
  have mp: "max_prepared (replicate n (sample_vote i v [])) = 0" for n
    by (simp add: max_prepared_eq p)
  have q: "vmQuorumSize vcm \<le> int (nat (vmQuorumSize vcm))" by simp
  show ?thesis
    using assms q by (subst verify_eq)
      (simp_all add: mp mc p new_view_valid_def consistent_def Let_def, simp add: sample_vote_def)
qed

theorem one_sender_forges_new_view_witness:
  "verifyNewViewMsg \<lparr>nvView = 9, nvViewChangeMsgs = replicate 3 (sample_vote ''evil'' 9 []),
      nvPrePrepareMsgs = [sample_pre_prepare 1 [6, 6, 6]], nvNewPrimaryID = ''evil''\<rparr> sample_manager = Ret True"
  using one_sender_forges_new_view [of "[sample_pre_prepare 1 [6, 6, 6]]" 9 sample_manager "''evil''" "''evil''"]
  by (simp add: sample_manager_def sample_pre_prepare_def)

end
