(* ===== verification/Adapter.thy ===== *)
theory Adapter
  imports Types
begin

text \<open>
  The application interface of the engine (\<open>ABCIAdapterInterface\<close> in
  \<open>consensus/pbft/engine_v2.go\<close>) as a record of operations on the adapter's state \<open>'a\<close>, with
  the result types of \<open>consensus/pbft/abci_adapter.go\<close>. An error is a string. The key of a
  validator update is the protobuf \<open>oneof\<close> of the ABCI types, whose byte slice may be nil
  (\<open>None\<close>), which reads as absent, or empty, which does not.
\<close>

datatype abci_key = Ed25519 "bytes option" | Secp256K1 "bytes option" | No_Key

fun GetEd25519 :: "abci_key \<Rightarrow> bytes option" where
  "GetEd25519 (Ed25519 k) = k"
| "GetEd25519 _ = None"

fun GetSecp256K1 :: "abci_key \<Rightarrow> bytes option" where
  "GetSecp256K1 (Secp256K1 k) = k"
| "GetSecp256K1 _ = None"

record ValidatorUpdate =
  vuPubKey :: abci_key
  vuPower :: int

record ABCITxResult =
  trCode :: "32 word"
  trData :: bytes
  trLog :: string
  trInfo :: string
  trGasWanted :: int
  trGasUsed :: int

record ABCIExecutionResult =
  erTxResults :: "ABCITxResult list"
  erValidatorUpdates :: "ValidatorUpdate list"
  erAppHash :: bytes

record 'a adapter_ops =
  ad_InitChain :: "string \<Rightarrow> Validator list \<Rightarrow> bytes \<Rightarrow> 'a \<Rightarrow> 'a \<times> string option"
  ad_PrepareProposal :: "int \<Rightarrow> bytes \<Rightarrow> bytes list \<Rightarrow> 'a \<Rightarrow> 'a \<times> (string + bytes list)"
  ad_ProcessProposal :: "int \<Rightarrow> bytes \<Rightarrow> bytes list \<Rightarrow> bytes \<Rightarrow> 'a \<Rightarrow> 'a \<times> (string + bool)"
  ad_FinalizeBlock :: "Block \<Rightarrow> 'a \<Rightarrow> 'a \<times> (string + ABCIExecutionResult)"
  ad_Commit :: "'a \<Rightarrow> 'a \<times> (string + bytes \<times> int)"
  ad_CheckTx :: "bytes \<Rightarrow> 'a \<Rightarrow> string option"
  ad_GetLastAppHash :: "'a \<Rightarrow> bytes"
  ad_GetLastHeight :: "'a \<Rightarrow> int"
  ad_SetLastAppHash :: "bytes \<Rightarrow> 'a \<Rightarrow> 'a"

end
