(* ===== verification/Engine.thy ===== *)
theory Engine
  imports New_View Mempool_Props Store Adapter
begin

text \<open>
  \<open>consensus/pbft/engine_v2.go\<close>: the PBFT engine. A handler is a function of the engine state
  that returns the new state, panics, or does not return (\<open>go\<close>). The engine is generic in the
  application adapter \<open>'a\<close> and the store \<open>'s\<close>, whose operations are the arguments \<open>A\<close> and \<open>S\<close>;
  \<open>V\<close> holds what the environment decides: the clock, the JSON codec, and the orders in which
  \<open>range\<close> visits maps. Messages handed to \<open>Transport.Broadcast\<close> are appended to \<open>eOut\<close>.
  The metrics the handlers report are in \<open>Metrics\<close>; logging has no effect on the state and is
  left out.
\<close>

section \<open>State\<close>

record EngineConfig =
  cfNodeID :: string
  cfRequestTimeout :: int
  cfViewChangeTimeout :: int
  cfCheckpointInterval :: u64
  cfWindowSize :: u64

definition DefaultConfig :: "string \<Rightarrow> EngineConfig" where
  "DefaultConfig nodeID = \<lparr>cfNodeID = nodeID, cfRequestTimeout = 5000000000,
     cfViewChangeTimeout = 10000000000, cfCheckpointInterval = 100, cfWindowSize = 200\<rparr>"

text \<open>The view change timer: the duration it was armed with, if it is running.\<close>

record ('a, 's) Engine =
  eConfig :: EngineConfig
  eView :: u64
  eSequenceNum :: u64
  eValidatorSet :: ValidatorSet
  eStateLog :: StateLog
  eTransportSet :: bool
  eOut :: "Message list"
  eAdapter :: 'a
  eMempool :: "Mempool option"
  eMsgChan :: "Message list"
  eRequestChan :: "RequestMsg list"
  eTimer :: "int option"
  eVcm :: ViewChangeManager
  eCheckpoints :: "(u64, bytes) gomap"
  eStopped :: bool
  eCommittedBlocks :: "Block list"
  eLastAppHash :: bytes
  eChainID :: string
  eStore :: "'s option"

record engine_env =
  ve_now :: gotime
  ve_codec :: codec
  ve_mp :: mp_env
  ve_votes :: "ViewChangeMsg list \<Rightarrow> ViewChangeMsg list"
  ve_prepares :: "PrepareMsg list \<Rightarrow> PrepareMsg list"
  ve_checkpoints :: "(u64 \<times> bytes) list \<Rightarrow> (u64 \<times> bytes) list"

definition chan_cap :: nat where
  "chan_cap = 1000"

definition NewEngineV2 :: "EngineConfig \<Rightarrow> ValidatorSet \<Rightarrow> bool \<Rightarrow> 'a \<Rightarrow> ('a, 's) Engine" where
  "NewEngineV2 config validatorSet transport abciAdapter =
     \<lparr>eConfig = config, eView = 0, eSequenceNum = 0, eValidatorSet = validatorSet,
      eStateLog = NewStateLog (cfWindowSize config), eTransportSet = transport, eOut = [],
      eAdapter = abciAdapter, eMempool = None, eMsgChan = [], eRequestChan = [], eTimer = None,
      eVcm = SetOnViewChangeComplete (SetBroadcastFunc
               (NewViewChangeManager (cfNodeID config) (QuorumSize validatorSet))),
      eCheckpoints = [], eStopped = False, eCommittedBlocks = [], eLastAppHash = [],
      eChainID = [], eStore = None\<rparr>"

definition engine_InitChain ::
  "'a adapter_ops \<Rightarrow> string \<Rightarrow> bytes \<Rightarrow> ('a, 's) Engine \<Rightarrow> ('a, 's) Engine \<times> string option" where
  "engine_InitChain A chainID appState e =
     (let (a, err) = ad_InitChain A chainID (vsValidators (eValidatorSet e)) appState (eAdapter e)
      in (e\<lparr>eChainID := chainID, eAdapter := a\<rparr>, err))"

section \<open>Small helpers\<close>

text \<open>Go's \<open>int(view) % len\<close>: the sign follows the dividend.\<close>

definition primary_at :: "u64 \<Rightarrow> ValidatorSet \<Rightarrow> string go" where
  "primary_at view vs =
     (let n = length (vsValidators vs) in
      if n = 0 then Panic Divide_By_Zero
      else let primaryIdx = sint view smod int n
           in if primaryIdx < 0 then Panic Index_Out_Of_Range
              else Ret (vID (vsValidators vs ! nat primaryIdx)))"

definition getPrimaryID :: "('a, 's) Engine \<Rightarrow> string go" where
  "getPrimaryID e = primary_at (eView e) (eValidatorSet e)"

definition isPrimary :: "('a, 's) Engine \<Rightarrow> bool go" where
  "isPrimary e = go_bind (primary_at (eView e) (eValidatorSet e)) (\<lambda>i. Ret (i = cfNodeID (eConfig e)))"

definition resetViewChangeTimer :: "('a, 's) Engine \<Rightarrow> ('a, 's) Engine" where
  "resetViewChangeTimer e = e\<lparr>eTimer := Some (cfViewChangeTimeout (eConfig e))\<rparr>"

definition broadcast :: "Message \<Rightarrow> ('a, 's) Engine \<Rightarrow> ('a, 's) Engine" where
  "broadcast msg e = (if eTransportSet e then e\<lparr>eOut := eOut e @ [msg]\<rparr> else e)"

definition put_state :: "u64 \<Rightarrow> State \<Rightarrow> ('a, 's) Engine \<Rightarrow> ('a, 's) Engine" where
  "put_state seqNum state e = e\<lparr>eStateLog := write_state seqNum state (eStateLog e)\<rparr>"

definition engine_Start :: "('a, 's) Engine \<Rightarrow> ('a, 's) Engine" where
  "engine_Start e = resetViewChangeTimer e"

definition engine_Stop :: "('a, 's) Engine \<Rightarrow> ('a, 's) Engine" where
  "engine_Stop e = e\<lparr>eStopped := True\<rparr>"

section \<open>Proposing\<close>

definition make_transactions :: "gotime \<Rightarrow> u64 \<Rightarrow> bytes list \<Rightarrow> Transaction list" where
  "make_transactions now seqNum preparedTxs =
     map (\<lambda>(i, txBytes). \<lparr>txID = ''tx-'' @ show_nat (unat seqNum) @ ''-'' @ show_nat i,
            txData = txBytes, txTimestamp = now, txSignature = [], txFrom = []\<rparr>)
       (enumerate 0 preparedTxs)"

text \<open>The block the primary builds, and the second half of \<open>proposeBlock\<close>, which issues it.\<close>

definition proposed_block ::
  "engine_env \<Rightarrow> u64 \<Rightarrow> u64 \<Rightarrow> bytes list \<Rightarrow> ('a, 's) Engine \<Rightarrow> Block" where
  "proposed_block V seqNum view preparedTxs e =
     (let prevHash = (if eCommittedBlocks e \<noteq> [] then bHash (last (eCommittedBlocks e)) else []);
          transactions = make_transactions (ve_now V) seqNum preparedTxs
      in NewBlock (ve_now V) seqNum prevHash (cfNodeID (eConfig e)) view transactions)"

definition issue_proposal ::
  "engine_env \<Rightarrow> u64 \<Rightarrow> u64 \<Rightarrow> bytes list \<Rightarrow> ('a, 's) Engine \<Rightarrow> ('a, 's) Engine" where
  "issue_proposal V seqNum view preparedTxs e =
     (let block = proposed_block V seqNum view preparedTxs e;
          prePrepareMsg = NewPrePrepareMsg view seqNum block (cfNodeID (eConfig e));
          (sl, state) = GetState view seqNum (eStateLog e);
          state = SetPrePrepare prePrepareMsg (Some block) state;
          prepareMsg = NewPrepareMsg view seqNum (bHash block) (cfNodeID (eConfig e));
          state = AddPrepare prepareMsg state;
          e = put_state seqNum state (e\<lparr>eStateLog := sl\<rparr>);
          msg = (NewMessage (ve_now V) PrePrepare view seqNum (bHash block) (cfNodeID (eConfig e)))
                  \<lparr>mPayload := enc_pre_prepare (ve_codec V) prePrepareMsg\<rparr>
      in broadcast msg e)"

text \<open>The transactions of the next block: up to 500 from the pool, else the request itself.\<close>

definition collect_txs :: "engine_env \<Rightarrow> RequestMsg option \<Rightarrow> ('a, 's) Engine \<Rightarrow> bytes list go" where
  "collect_txs V req e =
     go_bind (case eMempool e of
                Some mp \<Rightarrow> go_bind (ReapMaxTxs (ve_mp V) 500 mp) (\<lambda>txs. Ret (map tData txs))
              | None \<Rightarrow> Ret [])
       (\<lambda>txs. Ret (if txs = [] then (case req of Some r \<Rightarrow> [rqOperation r] | None \<Rightarrow> []) else txs))"

definition propose_txs ::
  "'a adapter_ops \<Rightarrow> engine_env \<Rightarrow> u64 \<Rightarrow> u64 \<Rightarrow> bytes list \<Rightarrow> ('a, 's) Engine \<Rightarrow> ('a, 's) Engine" where
  "propose_txs A V seqNum view txs e =
     (case ad_PrepareProposal A (sint seqNum) (bytes_of_string (cfNodeID (eConfig e))) txs (eAdapter e) of
        (a, Inl err) \<Rightarrow> e\<lparr>eAdapter := a\<rparr>
      | (a, Inr preparedTxs) \<Rightarrow> issue_proposal V seqNum view preparedTxs (e\<lparr>eAdapter := a\<rparr>))"

definition proposeBlock ::
  "'a adapter_ops \<Rightarrow> engine_env \<Rightarrow> RequestMsg option \<Rightarrow> ('a, 's) Engine \<Rightarrow> ('a, 's) Engine go" where
  "proposeBlock A V req e =
     (let e = e\<lparr>eSequenceNum := eSequenceNum e + 1\<rparr>;
          seqNum = eSequenceNum e; view = eView e
      in if \<not> IsInWindow seqNum (eStateLog e) then Ret e
         else go_bind (collect_txs V req e) (\<lambda>txs.
                if txs = [] then Ret (e\<lparr>eSequenceNum := eSequenceNum e - 1\<rparr>)
                else Ret (propose_txs A V seqNum view txs e)))"

section \<open>The three phases\<close>

text \<open>The second half of \<open>handlePrePrepare\<close>: record the proposal and vote for it.\<close>

definition accept_proposal ::
  "engine_env \<Rightarrow> Message \<Rightarrow> PrePrepareMsg \<Rightarrow> ('a, 's) Engine \<Rightarrow> ('a, 's) Engine" where
  "accept_proposal V msg prePrepareMsg e =
     (let (sl, state) = GetState (mView msg) (mSequenceNum msg) (eStateLog e);
          state = SetPrePrepare prePrepareMsg (ppBlock prePrepareMsg) state;
          prepareMsg = NewPrepareMsg (mView msg) (mSequenceNum msg) (mDigest msg) (cfNodeID (eConfig e));
          prepareNetMsg = (NewMessage (ve_now V) Prepare (mView msg) (mSequenceNum msg)
              (mDigest msg) (cfNodeID (eConfig e)))
              \<lparr>mPayload := enc_prepare (ve_codec V) prepareMsg\<rparr>;
          state = AddPrepare prepareMsg state;
          e = put_state (mSequenceNum msg) state (e\<lparr>eStateLog := sl\<rparr>)
      in resetViewChangeTimer (broadcast prepareNetMsg e))"

definition handlePrePrepare ::
  "'a adapter_ops \<Rightarrow> engine_env \<Rightarrow> Message \<Rightarrow> ('a, 's) Engine \<Rightarrow> ('a, 's) Engine go" where
  "handlePrePrepare A V msg e =
     go_bind (getPrimaryID e) (\<lambda>primary.
       if mNodeID msg \<noteq> primary then Ret e
       else if mView msg \<noteq> eView e then Ret e
       else if \<not> IsInWindow (mSequenceNum msg) (eStateLog e) then Ret e
       else case dec_pre_prepare (ve_codec V) (mPayload msg) of
         None \<Rightarrow> Ret e
       | Some prePrepareMsg \<Rightarrow>
           (case ppBlock prePrepareMsg of
              None \<Rightarrow> Panic Nil_Deref
            | Some block \<Rightarrow>
                let txs = map txData (bTransactions block);
                    proposer = bytes_of_string (ppPrimaryID prePrepareMsg);
                    (a, res) = ad_ProcessProposal A (sint (mSequenceNum msg)) proposer txs (mDigest msg) (eAdapter e);
                    e = e\<lparr>eAdapter := a\<rparr>
                in case res of
                     Inl err \<Rightarrow> Ret e
                   | Inr accepted \<Rightarrow>
                       if \<not> accepted then Ret e
                       else Ret (accept_proposal V msg prePrepareMsg e)))"

definition handlePrepare :: "engine_env \<Rightarrow> Message \<Rightarrow> ('a, 's) Engine \<Rightarrow> ('a, 's) Engine" where
  "handlePrepare V msg e =
     (if mView msg \<noteq> eView e then e
      else case dec_prepare (ve_codec V) (mPayload msg) of
        None \<Rightarrow> e
      | Some prepareMsg \<Rightarrow>
          (case GetExistingState (mSequenceNum msg) (eStateLog e) of
             None \<Rightarrow> e
           | Some state \<Rightarrow>
               let state = AddPrepare prepareMsg state;
                   quorum = QuorumSize (eValidatorSet e)
               in if IsPrepared quorum state \<and> GetPhase state = PrePrepared
                  then
                    let state = TransitionToPrepared state;
                        commitMsg = NewCommitMsg (mView msg) (mSequenceNum msg) (mDigest msg) (cfNodeID (eConfig e));
                        commitNetMsg = (NewMessage (ve_now V) Commit (mView msg) (mSequenceNum msg)
                            (mDigest msg) (cfNodeID (eConfig e)))
                            \<lparr>mPayload := enc_commit (ve_codec V) commitMsg\<rparr>;
                        state = AddCommit commitMsg state
                    in broadcast commitNetMsg (put_state (mSequenceNum msg) state e)
                  else put_state (mSequenceNum msg) state e))"

section \<open>Persistence\<close>

definition SaveState :: "'s store_ops \<Rightarrow> ('a, 's) Engine \<Rightarrow> ('a, 's) Engine \<times> store_error option" where
  "SaveState S e =
     (case eStore e of
        None \<Rightarrow> (e, None)
      | Some store \<Rightarrow>
          let state = \<lparr>csNodeID = cfNodeID (eConfig e), csCurrentView = eView e,
                csCurrentHeight = of_nat (length (eCommittedBlocks e)), csLastAppHash = eLastAppHash e,
                csLastBlockHash = (if eCommittedBlocks e \<noteq> [] then bHash (last (eCommittedBlocks e)) else [])\<rparr>;
              (store, err) = st_SaveState S (Some state) store
          in (e\<lparr>eStore := Some store\<rparr>, err))"

definition LoadState :: "'s store_ops \<Rightarrow> ('a, 's) Engine \<Rightarrow> ('a, 's) Engine \<times> store_error option" where
  "LoadState S e =
     (case eStore e of
        None \<Rightarrow> (e, None)
      | Some store \<Rightarrow>
          (case st_LoadState S store of
             Inl err \<Rightarrow> (e, Some err)
           | Inr None \<Rightarrow> (e, None)
           | Inr (Some state) \<Rightarrow>
               (e\<lparr>eView := csCurrentView state, eLastAppHash := csLastAppHash state\<rparr>, None)))"

definition saveBlockToStore ::
  "'s store_ops \<Rightarrow> Block \<Rightarrow> ('a, 's) Engine \<Rightarrow> ('a, 's) Engine \<times> store_error option" where
  "saveBlockToStore S block e =
     (case eStore e of
        None \<Rightarrow> (e, None)
      | Some store \<Rightarrow>
          let (store, err) = st_SaveBlock S (Some block) store in (e\<lparr>eStore := Some store\<rparr>, err))"

definition LoadBlocks ::
  "'s store_ops \<Rightarrow> ('a, 's) Engine \<Rightarrow> (('a, 's) Engine \<times> store_error option) go" where
  "LoadBlocks S e =
     (case eStore e of
        None \<Rightarrow> Ret (e, None)
      | Some store \<Rightarrow>
          (case st_GetLatestBlockHeight S store of
             Inl err \<Rightarrow> Ret (e, Some err)
           | Inr latestHeight \<Rightarrow>
               if latestHeight = 0 then Ret (e, None)
               else go_bind (st_LoadBlocks S 1 latestHeight store) (\<lambda>r.
                 case r of Inl err \<Rightarrow> Ret (e, Some err)
                 | Inr blocks \<Rightarrow> Ret (e\<lparr>eCommittedBlocks := blocks\<rparr>, None))))"

definition Recover ::
  "'s store_ops \<Rightarrow> ('a, 's) Engine \<Rightarrow> (('a, 's) Engine \<times> store_error option) go" where
  "Recover S e =
     (case eStore e of
        None \<Rightarrow> Ret (e, None)
      | Some _ \<Rightarrow>
          (case LoadState S e of
             (e, Some err) \<Rightarrow> Ret (e, Some err)
           | (e, None) \<Rightarrow>
               go_bind (LoadBlocks S e) (\<lambda>(e, err).
                 case err of
                   Some err \<Rightarrow> Ret (e, Some err)
                 | None \<Rightarrow>
                     (case eStore e of
                        None \<Rightarrow> Panic Nil_Deref
                      | Some store \<Rightarrow>
                          (case st_LoadCheckpoints S store of
                             Inl err \<Rightarrow> Ret (e, Some err)
                           | Inr checkpoints \<Rightarrow>
                               Ret (e\<lparr>eCheckpoints := fold (\<lambda>cp m. go_put (pcpSequenceNum cp) (pcpDigest cp) m)
                                      checkpoints (eCheckpoints e)\<rparr>, None))))))"

definition saveCheckpointToStore ::
  "'s store_ops \<Rightarrow> Checkpoint \<Rightarrow> ('a, 's) Engine \<Rightarrow> ('a, 's) Engine \<times> store_error option" where
  "saveCheckpointToStore S checkpoint e =
     (case eStore e of
        None \<Rightarrow> (e, None)
      | Some store \<Rightarrow>
          let pcp = \<lparr>pcpSequenceNum = cpSequenceNum checkpoint, pcpDigest = cpDigest checkpoint,
                     pcpNodeID = cpNodeID checkpoint\<rparr>;
              (store, err) = st_SaveCheckpoint S (Some pcp) store
          in (e\<lparr>eStore := Some store\<rparr>, err))"

section \<open>Executing a committed block\<close>

definition removeValidatorByPubKey :: "bytes \<Rightarrow> ('a, 's) Engine \<Rightarrow> ('a, 's) Engine" where
  "removeValidatorByPubKey pubKey e =
     e\<lparr>eValidatorSet := (eValidatorSet e)
         \<lparr>vsValidators := filter (\<lambda>v. vPublicKey v \<noteq> pubKey) (vsValidators (eValidatorSet e))\<rparr>\<rparr>"

fun replace_or_append :: "Validator \<Rightarrow> Validator list \<Rightarrow> Validator list" where
  "replace_or_append v [] = [v]"
| "replace_or_append v (existing # vs) =
     (if vID existing = vID v then v # vs else existing # replace_or_append v vs)"

definition updateOrAddValidator :: "Validator \<Rightarrow> ('a, 's) Engine \<Rightarrow> ('a, 's) Engine" where
  "updateOrAddValidator v e =
     e\<lparr>eValidatorSet := (eValidatorSet e)
         \<lparr>vsValidators := replace_or_append v (vsValidators (eValidatorSet e))\<rparr>\<rparr>"

definition updateViewChangeQuorum :: "('a, 's) Engine \<Rightarrow> ('a, 's) Engine" where
  "updateViewChangeQuorum e = e\<lparr>eVcm := (eVcm e)\<lparr>vmQuorumSize := QuorumSize (eValidatorSet e)\<rparr>\<rparr>"

definition update_key :: "ValidatorUpdate \<Rightarrow> bytes option" where
  "update_key u = (case GetEd25519 (vuPubKey u) of Some k \<Rightarrow> Some k | None \<Rightarrow> GetSecp256K1 (vuPubKey u))"

definition apply_update :: "ValidatorUpdate \<Rightarrow> ('a, 's) Engine \<Rightarrow> ('a, 's) Engine" where
  "apply_update u e =
     (case update_key u of
        None \<Rightarrow> e
      | Some pubKey \<Rightarrow>
          if vuPower u = 0 then removeValidatorByPubKey pubKey e
          else updateOrAddValidator \<lparr>vID = string_of_bytes pubKey, vAddress = [], vPublicKey = pubKey,
                                      vPower = vuPower u\<rparr> e)"

definition handleValidatorUpdates :: "ValidatorUpdate list \<Rightarrow> ('a, 's) Engine \<Rightarrow> ('a, 's) Engine" where
  "handleValidatorUpdates updates e = updateViewChangeQuorum (fold apply_update updates e)"

definition createCheckpoint :: "'s store_ops \<Rightarrow> engine_env \<Rightarrow> u64 \<Rightarrow> ('a, 's) Engine \<Rightarrow> ('a, 's) Engine" where
  "createCheckpoint S V seqNum e =
     (let digest = (if eCommittedBlocks e \<noteq> [] then bHash (last (eCommittedBlocks e)) else []);
          e = (if eCommittedBlocks e \<noteq> []
               then e\<lparr>eCheckpoints := go_put seqNum digest (eCheckpoints e)\<rparr> else e);
          e = (if length (eCheckpoints e) > 3
               then let oldestSeq = fold (\<lambda>(s, d) oldest. if s < oldest then s else oldest)
                                      (ve_checkpoints V (eCheckpoints e)) seqNum
                    in e\<lparr>eCheckpoints := go_del oldestSeq (eCheckpoints e)\<rparr>
               else e);
          checkpoint = \<lparr>cpSequenceNum = seqNum, cpDigest = digest, cpNodeID = cfNodeID (eConfig e)\<rparr>;
          (e, _) = saveCheckpointToStore S checkpoint e;
          (e, _) = SaveState S e
      in e\<lparr>eStateLog := AdvanceWatermarks seqNum (eStateLog e)\<rparr>)"

text \<open>
  The second half of \<open>executeBlock\<close>, after the application has committed: \<open>record_commit\<close>
  records the block and informs the pool and the validator set, then the checkpoint follows.
\<close>

definition record_commit ::
  "'a adapter_ops \<Rightarrow> 's store_ops \<Rightarrow> engine_env \<Rightarrow> u64 \<Rightarrow> State \<Rightarrow> Block \<Rightarrow> ABCIExecutionResult
     \<Rightarrow> ('a, 's) Engine \<Rightarrow> ('a, 's) Engine" where
  "record_commit A S V seqNum state block result e =
     (let e = e\<lparr>eLastAppHash := erAppHash result,
                eAdapter := ad_SetLastAppHash A (erAppHash result) (eAdapter e)\<rparr>;
          state = MarkExecuted state;
          e = put_state seqNum state e;
          e = e\<lparr>eCommittedBlocks := eCommittedBlocks e @ [block]\<rparr>;
          (e, _) = saveBlockToStore S block e;
          e = (case eMempool e of
                 Some mp \<Rightarrow>
                   if bTransactions block \<noteq> []
                   then e\<lparr>eMempool := Some (Update (ve_mp V) (sint (sSequenceNum state))
                            (map txData (bTransactions block)) mp)\<rparr>
                   else e
               | None \<Rightarrow> e)
      in if erValidatorUpdates result \<noteq> []
         then handleValidatorUpdates (erValidatorUpdates result) e else e)"

definition after_commit ::
  "'a adapter_ops \<Rightarrow> 's store_ops \<Rightarrow> engine_env \<Rightarrow> u64 \<Rightarrow> State \<Rightarrow> Block \<Rightarrow> ABCIExecutionResult
     \<Rightarrow> ('a, 's) Engine \<Rightarrow> ('a, 's) Engine go" where
  "after_commit A S V seqNum state block result e =
     (let e = record_commit A S V seqNum state block result e
      in if cfCheckpointInterval (eConfig e) = 0 then Panic Divide_By_Zero
         else if sSequenceNum state mod cfCheckpointInterval (eConfig e) = 0
         then Ret (createCheckpoint S V (sSequenceNum state) e)
         else Ret e)"

text \<open>The block of \<open>state\<close>, which the log holds under \<open>seqNum\<close>.\<close>

definition executeBlock ::
  "'a adapter_ops \<Rightarrow> 's store_ops \<Rightarrow> engine_env \<Rightarrow> u64 \<Rightarrow> State \<Rightarrow> ('a, 's) Engine \<Rightarrow> ('a, 's) Engine go" where
  "executeBlock A S V seqNum state e =
     (if sExecuted state then Ret e
      else case sBlock state of
        None \<Rightarrow> Ret e
      | Some block \<Rightarrow>
          (case ad_FinalizeBlock A block (eAdapter e) of
             (a, Inl err) \<Rightarrow> Ret (e\<lparr>eAdapter := a\<rparr>)
           | (a, Inr result) \<Rightarrow>
               (case ad_Commit A a of
                  (a, Inl err) \<Rightarrow> Ret (e\<lparr>eAdapter := a\<rparr>)
                | (a, Inr (appHash, retainHeight)) \<Rightarrow>
                    after_commit A S V seqNum state block result (e\<lparr>eAdapter := a\<rparr>))))"

definition handleCommit ::
  "'a adapter_ops \<Rightarrow> 's store_ops \<Rightarrow> engine_env \<Rightarrow> Message \<Rightarrow> ('a, 's) Engine \<Rightarrow> ('a, 's) Engine go" where
  "handleCommit A S V msg e =
     (if mView msg \<noteq> eView e then Ret e
      else case dec_commit (ve_codec V) (mPayload msg) of
        None \<Rightarrow> Ret e
      | Some commitMsg \<Rightarrow>
          (case GetExistingState (mSequenceNum msg) (eStateLog e) of
             None \<Rightarrow> Ret e
           | Some state \<Rightarrow>
               let state = AddCommit commitMsg state;
                   quorum = QuorumSize (eValidatorSet e)
               in if IsCommitted quorum state \<and> GetPhase state = Prepared
                  then
                    let state = TransitionToCommitted state
                    in executeBlock A S V (mSequenceNum msg) state (put_state (mSequenceNum msg) state e)
                  else Ret (put_state (mSequenceNum msg) state e)))"

section \<open>View changes\<close>

definition onViewChangeComplete :: "u64 \<Rightarrow> ('a, 's) Engine \<Rightarrow> ('a, 's) Engine go" where
  "onViewChangeComplete newView e =
     (let e = resetViewChangeTimer (e\<lparr>eView := newView\<rparr>)
      in go_bind (isPrimary e) (\<lambda>_. Ret e))"

text \<open>\<open>vcm.HandleNewView\<close> with the engine's completion callback.\<close>

definition vcm_HandleNewView :: "NewViewMsg \<Rightarrow> ('a, 's) Engine \<Rightarrow> (('a, 's) Engine \<times> bool) go" where
  "vcm_HandleNewView msg e =
     go_bind (HandleNewView msg (eVcm e)) (\<lambda>(vcm, ok, completed).
       let e = e\<lparr>eVcm := vcm\<rparr>
       in case completed of
            None \<Rightarrow> Ret (e, ok)
          | Some newView \<Rightarrow> go_bind (onViewChangeComplete newView e) (\<lambda>e. Ret (e, ok)))"

definition broadcastNewView :: "engine_env \<Rightarrow> u64 \<Rightarrow> ('a, 's) Engine \<Rightarrow> ('a, 's) Engine go" where
  "broadcastNewView V newView e =
     go_bind (CreateNewViewMsg (ve_votes V) newView (eVcm e)) (\<lambda>created.
       case created of
         None \<Rightarrow> Ret e
       | Some newViewMsg \<Rightarrow>
           let msg = (NewMessage (ve_now V) NewView newView (eSequenceNum e) [] (cfNodeID (eConfig e)))
                       \<lparr>mPayload := enc_new_view (ve_codec V) newViewMsg\<rparr>
           in go_bind (vcm_HandleNewView newViewMsg (broadcast msg e)) (\<lambda>(e, ok). Ret e))"

definition handleViewChange :: "engine_env \<Rightarrow> Message \<Rightarrow> ('a, 's) Engine \<Rightarrow> ('a, 's) Engine go" where
  "handleViewChange V msg e =
     (case dec_view_change (ve_codec V) (mPayload msg) of
        None \<Rightarrow> Ret e
      | Some viewChangeMsg \<Rightarrow>
          if vcNewView viewChangeMsg \<le> eView e then Ret e
          else
            let (vcm, hasQuorum) = HandleViewChange viewChangeMsg (eVcm e);
                e = e\<lparr>eVcm := vcm\<rparr>
            in if hasQuorum
               then go_bind (primary_at (vcNewView viewChangeMsg) (eValidatorSet e)) (\<lambda>newPrimaryID.
                      if newPrimaryID = cfNodeID (eConfig e)
                      then broadcastNewView V (vcNewView viewChangeMsg) e
                      else Ret e)
               else Ret e)"

definition reprocessPrePrepare :: "engine_env \<Rightarrow> u64 \<Rightarrow> PrePrepareMsg \<Rightarrow> ('a, 's) Engine \<Rightarrow> ('a, 's) Engine" where
  "reprocessPrePrepare V newView prePrepare e =
     (let prePrepare = prePrepare\<lparr>ppView := newView\<rparr>;
          seqNum = ppSequenceNum prePrepare;
          (sl, state) = GetState newView seqNum (eStateLog e);
          state = SetPrePrepare prePrepare (ppBlock prePrepare) state;
          prepareMsg = NewPrepareMsg newView seqNum (ppDigest prePrepare) (cfNodeID (eConfig e));
          prepareNetMsg = (NewMessage (ve_now V) Prepare newView seqNum (ppDigest prePrepare) (cfNodeID (eConfig e)))
                            \<lparr>mPayload := enc_prepare (ve_codec V) prepareMsg\<rparr>
      in broadcast prepareNetMsg (put_state seqNum state (e\<lparr>eStateLog := sl\<rparr>)))"

definition handleNewView :: "engine_env \<Rightarrow> Message \<Rightarrow> ('a, 's) Engine \<Rightarrow> ('a, 's) Engine go" where
  "handleNewView V msg e =
     (case dec_new_view (ve_codec V) (mPayload msg) of
        None \<Rightarrow> Ret e
      | Some newViewMsg \<Rightarrow>
          if nvView newViewMsg \<le> eView e then Ret e
          else go_bind (primary_at (nvView newViewMsg) (eValidatorSet e)) (\<lambda>expectedPrimaryID.
            if nvNewPrimaryID newViewMsg \<noteq> expectedPrimaryID then Ret e
            else go_bind (vcm_HandleNewView newViewMsg e) (\<lambda>(e, ok).
              if ok then Ret (fold (reprocessPrePrepare V (nvView newViewMsg)) (nvPrePrepareMsgs newViewMsg) e)
              else Ret e)))"

definition collectCheckpoints :: "engine_env \<Rightarrow> ('a, 's) Engine \<Rightarrow> Checkpoint list" where
  "collectCheckpoints V e =
     map (\<lambda>(seqNum, digest). \<lparr>cpSequenceNum = seqNum, cpDigest = digest, cpNodeID = cfNodeID (eConfig e)\<rparr>)
       (ve_checkpoints V (eCheckpoints e))"

definition prepared_cert :: "engine_env \<Rightarrow> int \<Rightarrow> u64 \<Rightarrow> StateLog \<Rightarrow> u64 \<Rightarrow> PreparedCert option" where
  "prepared_cert V quorum view sl seqNum =
     (case GetExistingState seqNum sl of
        None \<Rightarrow> None
      | Some state \<Rightarrow>
          (case sPrePrepareMsg state of
             None \<Rightarrow> None
           | Some pp \<Rightarrow>
               if IsPrepared quorum state \<and> \<not> sExecuted state
               then Some \<lparr>pcPrePrepare = \<lparr>ppView = view, ppSequenceNum = seqNum, ppDigest = ppDigest pp,
                              ppBlock = sBlock state, ppPrimaryID = ppPrimaryID pp\<rparr>,
                          pcPrepares = ve_prepares V (map snd (sPrepareMsgs state))\<rparr>
               else None))"

definition cert_step ::
  "engine_env \<Rightarrow> int \<Rightarrow> u64 \<Rightarrow> StateLog \<Rightarrow> u64 \<Rightarrow> PreparedCert list \<Rightarrow> unit + PreparedCert list" where
  "cert_step V quorum view sl seqNum certs =
     Inr (case prepared_cert V quorum view sl seqNum of Some c \<Rightarrow> certs @ [c] | None \<Rightarrow> certs)"

definition collectPreparedCertificates :: "engine_env \<Rightarrow> ('a, 's) Engine \<Rightarrow> PreparedCert list go" where
  "collectPreparedCertificates V e =
     (let quorum = QuorumSize (eValidatorSet e); sl = eStateLog e
      in go_bind (of_loop (u64_for (cert_step V quorum (eView e) sl) (slLow sl + 1) (slHigh sl) []))
           (\<lambda>r. case r of Inl _ \<Rightarrow> Ret [] | Inr certs \<Rightarrow> Ret certs))"

definition startViewChange :: "engine_env \<Rightarrow> ('a, 's) Engine \<Rightarrow> ('a, 's) Engine go" where
  "startViewChange V e =
     (let newView = eView e + 1; lastSeqNum = eSequenceNum e;
          checkpoints = collectCheckpoints V e
      in go_bind (collectPreparedCertificates V e) (\<lambda>preparedSet.
           let (vcm, out) = StartViewChange (ve_codec V) (ve_now V) newView lastSeqNum checkpoints preparedSet (eVcm e);
               e = e\<lparr>eVcm := vcm\<rparr>;
               e = (case out of Some msg \<Rightarrow> broadcast msg e | None \<Rightarrow> e)
           in Ret (e\<lparr>eTimer := Some (cfViewChangeTimeout (eConfig e) * 2)\<rparr>)))"

section \<open>The main loop\<close>

definition handleIncomingMessage :: "Message \<Rightarrow> ('a, 's) Engine \<Rightarrow> ('a, 's) Engine" where
  "handleIncomingMessage msg e =
     (if length (eMsgChan e) < chan_cap then e\<lparr>eMsgChan := eMsgChan e @ [msg]\<rparr> else e)"

definition handleMessage ::
  "'a adapter_ops \<Rightarrow> 's store_ops \<Rightarrow> engine_env \<Rightarrow> Message \<Rightarrow> ('a, 's) Engine \<Rightarrow> ('a, 's) Engine go" where
  "handleMessage A S V msg e =
     (case mType msg of
        PrePrepare \<Rightarrow> handlePrePrepare A V msg e
      | Prepare \<Rightarrow> Ret (handlePrepare V msg e)
      | Commit \<Rightarrow> handleCommit A S V msg e
      | ViewChange \<Rightarrow> handleViewChange V msg e
      | NewView \<Rightarrow> handleNewView V msg e
      | _ \<Rightarrow> Ret e)"

text \<open>The two receiving cases of the \<open>select\<close> in \<open>run\<close>; \<open>None\<close> when the channel is empty.\<close>

definition run_msg ::
  "'a adapter_ops \<Rightarrow> 's store_ops \<Rightarrow> engine_env \<Rightarrow> ('a, 's) Engine \<Rightarrow> ('a, 's) Engine go option" where
  "run_msg A S V e =
     (case eMsgChan e of
        [] \<Rightarrow> None
      | msg # q \<Rightarrow> Some (handleMessage A S V msg (e\<lparr>eMsgChan := q\<rparr>)))"

definition run_request ::
  "'a adapter_ops \<Rightarrow> engine_env \<Rightarrow> ('a, 's) Engine \<Rightarrow> ('a, 's) Engine go option" where
  "run_request A V e =
     (case eRequestChan e of
        [] \<Rightarrow> None
      | req # q \<Rightarrow>
          Some (let e = e\<lparr>eRequestChan := q\<rparr>
                in go_bind (isPrimary e) (\<lambda>primary.
                     if primary then proposeBlock A V (Some req) e else Ret e)))"

text \<open>
  The loop \<open>run\<close>, given the cases its \<open>select\<close> takes; a case that is not ready is not taken. The
  second result tells whether the loop has ended.
\<close>

datatype run_event = Run_Done | Run_Message | Run_Request

fun engine_run ::
  "'a adapter_ops \<Rightarrow> 's store_ops \<Rightarrow> engine_env \<Rightarrow> run_event list \<Rightarrow> ('a, 's) Engine \<Rightarrow> (('a, 's) Engine \<times> bool) go" where
  "engine_run A S V [] e = Ret (e, False)"
| "engine_run A S V (Run_Done # evs) e = (if eStopped e then Ret (e, True) else engine_run A S V evs e)"
| "engine_run A S V (Run_Message # evs) e =
     (case run_msg A S V e of None \<Rightarrow> engine_run A S V evs e | Some r \<Rightarrow> go_bind r (engine_run A S V evs))"
| "engine_run A S V (Run_Request # evs) e =
     (case run_request A V e of None \<Rightarrow> engine_run A S V evs e | Some r \<Rightarrow> go_bind r (engine_run A S V evs))"

definition SubmitRequest ::
  "engine_env \<Rightarrow> bytes \<Rightarrow> string \<Rightarrow> ('a, 's) Engine \<Rightarrow> ('a, 's) Engine \<times> bool" where
  "SubmitRequest V operation clientID e =
     (let req = \<lparr>rqOperation = operation, rqTimestamp = ve_now V, rqClientID = clientID\<rparr>
      in if length (eRequestChan e) < chan_cap then (e\<lparr>eRequestChan := eRequestChan e @ [req]\<rparr>, True)
         else (e, False))"

section \<open>Queries\<close>

definition SetMempool :: "Mempool \<Rightarrow> ('a, 's) Engine \<Rightarrow> ('a, 's) Engine" where
  "SetMempool mp e = e\<lparr>eMempool := Some mp\<rparr>"

definition SetStore :: "'s \<Rightarrow> ('a, 's) Engine \<Rightarrow> ('a, 's) Engine" where
  "SetStore store e = e\<lparr>eStore := Some store\<rparr>"

definition GetCurrentView :: "('a, 's) Engine \<Rightarrow> u64" where
  "GetCurrentView e = eView e"

definition GetCurrentHeight :: "('a, 's) Engine \<Rightarrow> u64" where
  "GetCurrentHeight e = of_nat (length (eCommittedBlocks e))"

definition GetCommittedBlocks :: "('a, 's) Engine \<Rightarrow> Block list" where
  "GetCommittedBlocks e = eCommittedBlocks e"

definition GetBlocksFromHeight :: "u64 \<Rightarrow> ('a, 's) Engine \<Rightarrow> Block list" where
  "GetBlocksFromHeight fromHeight e = filter (\<lambda>b. hHeight (bHeader b) \<ge> fromHeight) (eCommittedBlocks e)"

definition GetCheckpoints :: "engine_env \<Rightarrow> ('a, 's) Engine \<Rightarrow> Checkpoint list" where
  "GetCheckpoints V e =
     map (\<lambda>(seqNum, digest). \<lparr>cpSequenceNum = seqNum, cpDigest = digest, cpNodeID = cfNodeID (eConfig e)\<rparr>)
       (ve_checkpoints V (eCheckpoints e))"

definition GetCheckpoint :: "u64 \<Rightarrow> ('a, 's) Engine \<Rightarrow> Checkpoint option" where
  "GetCheckpoint seqNum e =
     map_option (\<lambda>digest. \<lparr>cpSequenceNum = seqNum, cpDigest = digest, cpNodeID = cfNodeID (eConfig e)\<rparr>)
       (go_get (eCheckpoints e) seqNum)"

definition GetMempool :: "('a, 's) Engine \<Rightarrow> Mempool option" where
  "GetMempool e = eMempool e"

definition GetLastAppHash :: "('a, 's) Engine \<Rightarrow> bytes" where
  "GetLastAppHash e = eLastAppHash e"

definition engine_IsPrimary :: "('a, 's) Engine \<Rightarrow> bool go" where
  "engine_IsPrimary e = isPrimary e"

definition engine_GetPrimaryID :: "('a, 's) Engine \<Rightarrow> string go" where
  "engine_GetPrimaryID e = getPrimaryID e"

definition GetStore :: "('a, 's) Engine \<Rightarrow> 's option" where
  "GetStore e = eStore e"

definition go_min :: "int \<Rightarrow> int \<Rightarrow> int" where
  "go_min a b = (if a < b then a else b)"

text \<open>\<open>Close\<close> stops the engine and closes the adapter.\<close>

definition engine_Close ::
  "('a \<Rightarrow> 'a \<times> string option) \<Rightarrow> ('a, 's) Engine \<Rightarrow> ('a, 's) Engine \<times> string option" where
  "engine_Close close e =
     (let e = engine_Stop e; (a, err) = close (eAdapter e) in (e\<lparr>eAdapter := a\<rparr>, err))"

end
