(* ===== verification/Engine_Inv.thy ===== *)
theory Engine_Inv
  imports Engine
begin

text \<open>
  The engine's invariant and its preservation by every handler: the state log is well formed,
  the view change manager agrees with the engine on the view and on the quorum size, there are
  at most three checkpoints, and the pool is well formed. Also here: which parts of the state a
  handler leaves alone.
\<close>

section \<open>Small helpers\<close>

lemma helper_fields [simp]:
  "eConfig (broadcast m e) = eConfig e" "eView (broadcast m e) = eView e"
  "eSequenceNum (broadcast m e) = eSequenceNum e" "eValidatorSet (broadcast m e) = eValidatorSet e"
  "eStateLog (broadcast m e) = eStateLog e" "eAdapter (broadcast m e) = eAdapter e"
  "eMempool (broadcast m e) = eMempool e" "eVcm (broadcast m e) = eVcm e"
  "eCheckpoints (broadcast m e) = eCheckpoints e" "eCommittedBlocks (broadcast m e) = eCommittedBlocks e"
  "eLastAppHash (broadcast m e) = eLastAppHash e" "eStore (broadcast m e) = eStore e"
  "eTransportSet (broadcast m e) = eTransportSet e"
  by (simp_all add: broadcast_def)

lemma put_state_fields [simp]:
  "eConfig (put_state n s e) = eConfig e" "eView (put_state n s e) = eView e"
  "eSequenceNum (put_state n s e) = eSequenceNum e" "eValidatorSet (put_state n s e) = eValidatorSet e"
  "eStateLog (put_state n s e) = write_state n s (eStateLog e)" "eAdapter (put_state n s e) = eAdapter e"
  "eMempool (put_state n s e) = eMempool e" "eVcm (put_state n s e) = eVcm e"
  "eCheckpoints (put_state n s e) = eCheckpoints e" "eCommittedBlocks (put_state n s e) = eCommittedBlocks e"
  "eLastAppHash (put_state n s e) = eLastAppHash e" "eStore (put_state n s e) = eStore e"
  "eTransportSet (put_state n s e) = eTransportSet e" "eOut (put_state n s e) = eOut e"
  by (simp_all add: put_state_def)

lemma timer_fields [simp]:
  "eConfig (resetViewChangeTimer e) = eConfig e" "eView (resetViewChangeTimer e) = eView e"
  "eSequenceNum (resetViewChangeTimer e) = eSequenceNum e"
  "eValidatorSet (resetViewChangeTimer e) = eValidatorSet e"
  "eStateLog (resetViewChangeTimer e) = eStateLog e" "eAdapter (resetViewChangeTimer e) = eAdapter e"
  "eMempool (resetViewChangeTimer e) = eMempool e" "eVcm (resetViewChangeTimer e) = eVcm e"
  "eCheckpoints (resetViewChangeTimer e) = eCheckpoints e"
  "eCommittedBlocks (resetViewChangeTimer e) = eCommittedBlocks e"
  "eLastAppHash (resetViewChangeTimer e) = eLastAppHash e" "eStore (resetViewChangeTimer e) = eStore e"
  "eOut (resetViewChangeTimer e) = eOut e" "eTransportSet (resetViewChangeTimer e) = eTransportSet e"
  by (simp_all add: resetViewChangeTimer_def)

lemma engine_self [simp]: "\<exists>x. e = e\<lparr>eStore := x\<rparr>" "\<exists>y. e = e\<lparr>eValidatorSet := y\<rparr>"
  by (rule exI [of _ "eStore e"], simp) (rule exI [of _ "eValidatorSet e"], simp)

lemma vm_ok_flags [simp]:
  "vm_ok (vcm\<lparr>vmBroadcastSet := b\<rparr>) = vm_ok vcm" "vm_ok (vcm\<lparr>vmOnCompleteSet := c\<rparr>) = vm_ok vcm"
  by (simp_all add: vm_ok_def)

lemma store_fields:
  assumes "saveBlockToStore S b e = (e', err) \<or> saveCheckpointToStore S c e = (e', err) \<or> SaveState S e = (e', err)"
  shows "\<exists>st. e' = e\<lparr>eStore := st\<rparr>"
  using assms by (auto simp: saveBlockToStore_def saveCheckpointToStore_def SaveState_def Let_def
      split: option.splits prod.splits)

lemma updates_fields:
  "\<exists>vs. handleValidatorUpdates us e = e\<lparr>eValidatorSet := vs, eVcm := (eVcm e)\<lparr>vmQuorumSize := QuorumSize vs\<rparr>\<rparr>"
proof -
  have one: "\<exists>vs. apply_update u e = e\<lparr>eValidatorSet := vs\<rparr>" for u e
    by (auto simp: apply_update_def removeValidatorByPubKey_def updateOrAddValidator_def split: option.split)
  have "\<exists>vs. fold apply_update us e = e\<lparr>eValidatorSet := vs\<rparr>" for e
  proof (induction us arbitrary: e)
    case Nil
    show ?case by simp
  next
    case (Cons u us)
    obtain vs where "apply_update u e = e\<lparr>eValidatorSet := vs\<rparr>" using one by blast
    moreover obtain vs' where "fold apply_update us (e\<lparr>eValidatorSet := vs\<rparr>) =
        (e\<lparr>eValidatorSet := vs\<rparr>)\<lparr>eValidatorSet := vs'\<rparr>" using Cons by blast
    ultimately show ?case by auto
  qed
  then obtain vs where "fold apply_update us e = e\<lparr>eValidatorSet := vs\<rparr>" by blast
  then show ?thesis
    by (intro exI [of _ vs]) (simp add: handleValidatorUpdates_def updateViewChangeQuorum_def)
qed

section \<open>The invariant\<close>

definition view_ok :: "('a, 's) Engine \<Rightarrow> bool" where
  "view_ok e \<longleftrightarrow> vm_ok (eVcm e) \<and> vmQuorumSize (eVcm e) = QuorumSize (eValidatorSet e) \<and>
     vmCurrentView (eVcm e) = eView e \<and> vmBroadcastSet (eVcm e) \<and> vmOnCompleteSet (eVcm e)"

definition good_pool :: "Mempool \<Rightarrow> bool" where
  "good_pool mp \<longleftrightarrow> mp_ok mp \<and> within_limits (mpConfig mp) mp"

lemma good_pool_step: "mp_step mp mp' \<Longrightarrow> good_pool mp \<Longrightarrow> good_pool mp'"
  using mp_step_ok [of mp mp' "mpConfig mp"] by (auto simp: good_pool_def within_limits_def)

definition pool_ok :: "('a, 's) Engine \<Rightarrow> bool" where
  "pool_ok e \<longleftrightarrow> (\<forall>mp. eMempool e = Some mp \<longrightarrow> good_pool mp)"

definition checkpoints_ok :: "('a, 's) Engine \<Rightarrow> bool" where
  "checkpoints_ok e \<longleftrightarrow> go_wf (eCheckpoints e) \<and> length (eCheckpoints e) \<le> 3"

definition engine_ok :: "('a, 's) Engine \<Rightarrow> bool" where
  "engine_ok e \<longleftrightarrow> log_ok (eStateLog e) \<and> view_ok e \<and> pool_ok e \<and> checkpoints_ok e"

definition ve_ok :: "engine_env \<Rightarrow> bool" where
  "ve_ok V \<longleftrightarrow> env_ok (ve_mp V) \<and> go_order (ve_votes V) \<and> go_order (ve_prepares V) \<and> go_order (ve_checkpoints V)"

lemma engine_ok_cong:
  assumes "engine_ok e" and "log_ok (eStateLog e')"
    and "eVcm e' = eVcm e" "eValidatorSet e' = eValidatorSet e" "eView e' = eView e"
    and "eMempool e' = eMempool e" "eCheckpoints e' = eCheckpoints e"
  shows "engine_ok e'"
  using assms by (simp add: engine_ok_def view_ok_def pool_ok_def checkpoints_ok_def)

lemma engine_ok_New: "engine_ok (NewEngineV2 c vs t a)"
  by (simp add: engine_ok_def view_ok_def pool_ok_def checkpoints_ok_def NewEngineV2_def
      SetOnViewChangeComplete_def SetBroadcastFunc_def)

lemma log_ok_state_op:
  assumes "log_ok sl" and "GetState v n sl = (sl', s)" and "state_ok s \<Longrightarrow> sSequenceNum s = n \<Longrightarrow> state_ok s' \<and> sSequenceNum s' = n"
  shows "log_ok (write_state n s' sl')"
  using log_ok_write GetState_ok [OF assms(1,2)] assms(3) by blast

lemma seq_ops [simp]:
  "sSequenceNum (SetPrePrepare m b s) = sSequenceNum s" "sSequenceNum (AddPrepare p s) = sSequenceNum s"
  "sSequenceNum (AddCommit c s) = sSequenceNum s" "sSequenceNum (TransitionToPrepared s) = sSequenceNum s"
  "sSequenceNum (TransitionToCommitted s) = sSequenceNum s" "sSequenceNum (MarkExecuted s) = sSequenceNum s"
  by (simp_all add: State_defs)

section \<open>Proposing and pre-preparing\<close>

text \<open>What a handler outside the view change and the execution may touch.\<close>

definition consensus_frame :: "('a, 's) Engine \<Rightarrow> ('a, 's) Engine \<Rightarrow> bool" where
  "consensus_frame e e' \<longleftrightarrow> eConfig e' = eConfig e \<and> eView e' = eView e \<and> eValidatorSet e' = eValidatorSet e \<and>
     eMempool e' = eMempool e \<and> eVcm e' = eVcm e \<and> eCheckpoints e' = eCheckpoints e \<and>
     eCommittedBlocks e' = eCommittedBlocks e \<and> eLastAppHash e' = eLastAppHash e \<and> eStore e' = eStore e \<and>
     slLow (eStateLog e') = slLow (eStateLog e)"

lemma consensus_frame_refl [simp]: "consensus_frame e e"
  by (simp add: consensus_frame_def)

lemma consensus_frame_ok:
  "engine_ok e \<Longrightarrow> consensus_frame e e' \<Longrightarrow> log_ok (eStateLog e') \<Longrightarrow> engine_ok e'"
  unfolding consensus_frame_def by (rule engine_ok_cong) simp_all

lemma state_ok_pp: "state_ok s \<Longrightarrow> ppBlock m = b \<Longrightarrow> state_ok (AddPrepare p (SetPrePrepare m b s))"
  by auto

lemma issue_proposal_frame:
  "consensus_frame e (issue_proposal V n v txs e)"
  "log_ok (eStateLog e) \<Longrightarrow> log_ok (eStateLog (issue_proposal V n v txs e))"
  "eSequenceNum (issue_proposal V n v txs e) = eSequenceNum e"
  "eAdapter (issue_proposal V n v txs e) = eAdapter e"
proof -
  obtain sl s where g: "GetState v n (eStateLog e) = (sl, s)" by (cases "GetState v n (eStateLog e)")
  show "consensus_frame e (issue_proposal V n v txs e)"
    "eSequenceNum (issue_proposal V n v txs e) = eSequenceNum e"
    "eAdapter (issue_proposal V n v txs e) = eAdapter e"
    by (simp_all add: issue_proposal_def Let_def g consensus_frame_def GetState_marks [OF g])
  let ?pp = "NewPrePrepareMsg v n (proposed_block V n v txs e) (cfNodeID (eConfig e))"
  have "eStateLog (issue_proposal V n v txs e) = write_state n
      (AddPrepare (NewPrepareMsg v n (ppDigest ?pp) (cfNodeID (eConfig e)))
        (SetPrePrepare ?pp (Some (proposed_block V n v txs e)) s)) sl"
    by (simp add: issue_proposal_def Let_def g)
  then show "log_ok (eStateLog e) \<Longrightarrow> log_ok (eStateLog (issue_proposal V n v txs e))"
    by (simp only:) (rule log_ok_state_op [OF _ g], auto simp: state_ok_pp)
qed

text \<open>What \<open>proposeBlock\<close> can end with.\<close>

lemma proposeBlock_cases:
  assumes "proposeBlock A V req e = Ret e'"
  obtains (window) "\<not> IsInWindow (eSequenceNum e + 1) (eStateLog e)" "e' = e\<lparr>eSequenceNum := eSequenceNum e + 1\<rparr>"
  | (empty) "e' = e"
  | (failed) a err txs where
      "ad_PrepareProposal A (sint (eSequenceNum e + 1)) (bytes_of_string (cfNodeID (eConfig e))) txs (eAdapter e) = (a, Inl err)"
      "e' = e\<lparr>eSequenceNum := eSequenceNum e + 1, eAdapter := a\<rparr>"
  | (issued) a txs txs' where "IsInWindow (eSequenceNum e + 1) (eStateLog e)" "txs \<noteq> []"
      "ad_PrepareProposal A (sint (eSequenceNum e + 1)) (bytes_of_string (cfNodeID (eConfig e))) txs (eAdapter e) = (a, Inr txs')"
      "e' = issue_proposal V (eSequenceNum e + 1) (eView e) txs' (e\<lparr>eSequenceNum := eSequenceNum e + 1, eAdapter := a\<rparr>)"
proof (cases "IsInWindow (eSequenceNum e + 1) (eStateLog e)")
  case False
  then show thesis using assms window by (simp add: proposeBlock_def Let_def)
next
  case True
  let ?e = "e\<lparr>eSequenceNum := eSequenceNum e + 1\<rparr>"
  from assms True obtain txs where c: "collect_txs V req ?e = Ret txs"
    by (auto simp: proposeBlock_def Let_def go_bind_Ret_iff)
  show thesis
  proof (cases "txs = []")
    case True
    with assms \<open>IsInWindow _ _\<close> c show thesis by (intro empty) (simp add: proposeBlock_def Let_def)
  next
    case ne: False
    with assms True c have r: "e' = propose_txs A V (eSequenceNum e + 1) (eView e) txs ?e"
      by (simp add: proposeBlock_def Let_def)
    obtain a res where p: "ad_PrepareProposal A (sint (eSequenceNum e + 1))
        (bytes_of_string (cfNodeID (eConfig e))) txs (eAdapter e) = (a, res)" by fastforce
    show thesis
    proof (cases res)
      case (Inl err)
      with p r show thesis by (intro failed [of txs a err]) (simp_all add: propose_txs_def)
    next
      case (Inr txs')
      with p ne r True show thesis by (intro issued [of txs a txs']) (simp_all add: propose_txs_def)
    qed
  qed
qed

lemma proposeBlock_frame:
  assumes "proposeBlock A V req e = Ret e'"
  shows "consensus_frame e e'" and "log_ok (eStateLog e) \<Longrightarrow> log_ok (eStateLog e')"
proof -
  have fr: "consensus_frame (e\<lparr>eSequenceNum := n, eAdapter := a\<rparr>) e1 \<Longrightarrow> consensus_frame e e1" for n a e1
    by (simp add: consensus_frame_def)
  from assms have "consensus_frame e e' \<and> (log_ok (eStateLog e) \<longrightarrow> log_ok (eStateLog e'))"
  proof (cases rule: proposeBlock_cases)
    case (issued a txs txs')
    then show ?thesis
      using fr [OF issue_proposal_frame(1) [where e = "e\<lparr>eSequenceNum := eSequenceNum e + 1, eAdapter := a\<rparr>"]]
        issue_proposal_frame(2) [where e = "e\<lparr>eSequenceNum := eSequenceNum e + 1, eAdapter := a\<rparr>"] by simp
  qed (simp_all add: consensus_frame_def)
  then show "consensus_frame e e'" and "log_ok (eStateLog e) \<Longrightarrow> log_ok (eStateLog e')" by blast+
qed

lemma accept_proposal_frame:
  "consensus_frame e (accept_proposal V msg pp e)"
  "log_ok (eStateLog e) \<Longrightarrow> log_ok (eStateLog (accept_proposal V msg pp e))"
  "eSequenceNum (accept_proposal V msg pp e) = eSequenceNum e"
  "eAdapter (accept_proposal V msg pp e) = eAdapter e"
proof -
  let ?n = "mSequenceNum msg"
  obtain sl s where g: "GetState (mView msg) ?n (eStateLog e) = (sl, s)"
    by (cases "GetState (mView msg) ?n (eStateLog e)")
  show "consensus_frame e (accept_proposal V msg pp e)"
    "eSequenceNum (accept_proposal V msg pp e) = eSequenceNum e"
    "eAdapter (accept_proposal V msg pp e) = eAdapter e"
    by (simp_all add: accept_proposal_def Let_def g consensus_frame_def GetState_marks [OF g])
  have "eStateLog (accept_proposal V msg pp e) = write_state ?n
      (AddPrepare (NewPrepareMsg (mView msg) ?n (mDigest msg) (cfNodeID (eConfig e))) (SetPrePrepare pp (ppBlock pp) s)) sl"
    by (simp add: accept_proposal_def Let_def g)
  then show "log_ok (eStateLog e) \<Longrightarrow> log_ok (eStateLog (accept_proposal V msg pp e))"
    by (simp only:) (rule log_ok_state_op [OF _ g], auto simp: state_ok_pp)
qed

lemma handlePrePrepare_cases:
  assumes "handlePrePrepare A V msg e = Ret e'"
  obtains (ignored) "e' = e"
  | (refused) a where "e' = e\<lparr>eAdapter := a\<rparr>"
  | (accepted) pp b a where "getPrimaryID e = Ret (mNodeID msg)" "mView msg = eView e"
      "IsInWindow (mSequenceNum msg) (eStateLog e)" "dec_pre_prepare (ve_codec V) (mPayload msg) = Some pp"
      "ppBlock pp = Some b"
      "ad_ProcessProposal A (sint (mSequenceNum msg)) (bytes_of_string (ppPrimaryID pp))
         (map txData (bTransactions b)) (mDigest msg) (eAdapter e) = (a, Inr True)"
      "e' = accept_proposal V msg pp (e\<lparr>eAdapter := a\<rparr>)"
  using assms
  by (auto simp: handlePrePrepare_def Let_def go_bind_Ret_iff split: if_splits option.splits prod.splits sum.splits)

lemma handlePrePrepare_frame:
  assumes "handlePrePrepare A V msg e = Ret e'"
  shows "consensus_frame e e'" and "log_ok (eStateLog e) \<Longrightarrow> log_ok (eStateLog e')"
    and "eSequenceNum e' = eSequenceNum e"
proof -
  have fr: "consensus_frame (e\<lparr>eAdapter := a\<rparr>) e1 \<Longrightarrow> consensus_frame e e1" for a e1
    by (simp add: consensus_frame_def)
  from assms have "consensus_frame e e' \<and> (log_ok (eStateLog e) \<longrightarrow> log_ok (eStateLog e')) \<and> eSequenceNum e' = eSequenceNum e"
  proof (cases rule: handlePrePrepare_cases)
    case (accepted pp b a)
    then show ?thesis
      using fr [OF accept_proposal_frame(1) [where e = "e\<lparr>eAdapter := a\<rparr>"]]
        accept_proposal_frame(2,3) [where e = "e\<lparr>eAdapter := a\<rparr>"] by simp
  qed (simp_all add: consensus_frame_def)
  then show "consensus_frame e e'" and "log_ok (eStateLog e) \<Longrightarrow> log_ok (eStateLog e')"
    and "eSequenceNum e' = eSequenceNum e" by blast+
qed

text \<open>The state a \<open>PREPARE\<close> leaves behind, and the \<open>COMMIT\<close> it may cause.\<close>

lemma handlePrepare_cases:
  obtains (ignored) "mView msg \<noteq> eView e \<or> dec_prepare (ve_codec V) (mPayload msg) = None \<or>
        GetExistingState (mSequenceNum msg) (eStateLog e) = None" "handlePrepare V msg e = e"
  | (counted) p s where "mView msg = eView e" "dec_prepare (ve_codec V) (mPayload msg) = Some p"
      "GetExistingState (mSequenceNum msg) (eStateLog e) = Some s"
      "\<not> (IsPrepared (QuorumSize (eValidatorSet e)) (AddPrepare p s) \<and> sPhase s = PrePrepared)"
      "handlePrepare V msg e = put_state (mSequenceNum msg) (AddPrepare p s) e"
  | (prepared) p s c m where "mView msg = eView e" "dec_prepare (ve_codec V) (mPayload msg) = Some p"
      "GetExistingState (mSequenceNum msg) (eStateLog e) = Some s"
      "IsPrepared (QuorumSize (eValidatorSet e)) (AddPrepare p s)" "sPhase s = PrePrepared"
      "c = NewCommitMsg (mView msg) (mSequenceNum msg) (mDigest msg) (cfNodeID (eConfig e))"
      "mType m = Commit" "mPayload m = enc_commit (ve_codec V) c" "mNodeID m = cfNodeID (eConfig e)"
      "handlePrepare V msg e = broadcast m
         (put_state (mSequenceNum msg) (AddCommit c (TransitionToPrepared (AddPrepare p s))) e)"
proof (cases "mView msg = eView e")
  case view: True
  show thesis
  proof (cases "dec_prepare (ve_codec V) (mPayload msg)")
    case None
    then show thesis by (intro ignored) (simp_all add: handlePrepare_def)
  next
    case dec: (Some p)
    show thesis
    proof (cases "GetExistingState (mSequenceNum msg) (eStateLog e)")
      case None
      with dec show thesis by (intro ignored) (simp_all add: handlePrepare_def)
    next
      case (Some s)
      have ph: "GetPhase (AddPrepare p s) = sPhase s" by (simp add: GetPhase_def AddPrepare_def)
      show thesis
      proof (cases "IsPrepared (QuorumSize (eValidatorSet e)) (AddPrepare p s) \<and> sPhase s = PrePrepared")
        case False
        with view dec Some ph show thesis by (intro counted) (auto simp: handlePrepare_def Let_def)
      next
        case True
        with view dec Some ph show thesis
          by (intro prepared [of p s _ "(NewMessage (ve_now V) Commit (mView msg) (mSequenceNum msg)
                 (mDigest msg) (cfNodeID (eConfig e)))\<lparr>mPayload := enc_commit (ve_codec V)
                   (NewCommitMsg (mView msg) (mSequenceNum msg) (mDigest msg) (cfNodeID (eConfig e)))\<rparr>"])
            (simp_all add: handlePrepare_def Let_def)
      qed
    qed
  qed
next
  case False
  then show thesis by (intro ignored) (simp_all add: handlePrepare_def)
qed

lemma handlePrepare_frame:
  "consensus_frame e (handlePrepare V msg e)"
  "log_ok (eStateLog e) \<Longrightarrow> log_ok (eStateLog (handlePrepare V msg e))"
  "eSequenceNum (handlePrepare V msg e) = eSequenceNum e"
proof -
  have "consensus_frame e (handlePrepare V msg e) \<and>
      (log_ok (eStateLog e) \<longrightarrow> log_ok (eStateLog (handlePrepare V msg e))) \<and>
      eSequenceNum (handlePrepare V msg e) = eSequenceNum e"
  proof (cases rule: handlePrepare_cases [of msg e V])
    case (counted p s)
    then show ?thesis using log_ok_get [of "eStateLog e" "mSequenceNum msg" s]
      by (auto simp: consensus_frame_def intro!: log_ok_write)
  next
    case (prepared p s c m)
    then show ?thesis using log_ok_get [of "eStateLog e" "mSequenceNum msg" s]
      by (auto simp: consensus_frame_def intro!: log_ok_write)
  qed simp
  then show "consensus_frame e (handlePrepare V msg e)"
    "log_ok (eStateLog e) \<Longrightarrow> log_ok (eStateLog (handlePrepare V msg e))"
    "eSequenceNum (handlePrepare V msg e) = eSequenceNum e" by blast+
qed

section \<open>Executing\<close>

lemma record_commit_fields:
  "eConfig (record_commit A S V n s b r e) = eConfig e"
  "eView (record_commit A S V n s b r e) = eView e"
  "eSequenceNum (record_commit A S V n s b r e) = eSequenceNum e"
  "eStateLog (record_commit A S V n s b r e) = write_state n (MarkExecuted s) (eStateLog e)"
  "eCommittedBlocks (record_commit A S V n s b r e) = eCommittedBlocks e @ [b]"
  "eLastAppHash (record_commit A S V n s b r e) = erAppHash r"
  "eCheckpoints (record_commit A S V n s b r e) = eCheckpoints e"
  "eOut (record_commit A S V n s b r e) = eOut e"
  "eVcm (record_commit A S V n s b r e) =
     (if erValidatorUpdates r = [] then eVcm e
      else (eVcm e)\<lparr>vmQuorumSize := QuorumSize (eValidatorSet (record_commit A S V n s b r e))\<rparr>)"
  "erValidatorUpdates r = [] \<Longrightarrow> eValidatorSet (record_commit A S V n s b r e) = eValidatorSet e"
  "eMempool (record_commit A S V n s b r e) =
     (case eMempool e of None \<Rightarrow> None
      | Some mp \<Rightarrow> Some (if bTransactions b = [] then mp
          else Update (ve_mp V) (sint (sSequenceNum s)) (map txData (bTransactions b)) mp))"
proof -
  let ?e1 = "(put_state n (MarkExecuted s) (e\<lparr>eLastAppHash := erAppHash r,
                eAdapter := ad_SetLastAppHash A (erAppHash r) (eAdapter e)\<rparr>))"
  let ?e2 = "?e1\<lparr>eCommittedBlocks := eCommittedBlocks ?e1 @ [b]\<rparr>"
  obtain e3 err where sb: "saveBlockToStore S b ?e2 = (e3, err)" by fastforce
  from store_fields [of S b ?e2 e3 err] sb obtain st where e3: "e3 = ?e2\<lparr>eStore := st\<rparr>" by blast
  let ?m = "case eMempool e of None \<Rightarrow> None
      | Some mp \<Rightarrow> Some (if bTransactions b = [] then mp
          else Update (ve_mp V) (sint (sSequenceNum s)) (map txData (bTransactions b)) mp)"
  have m: "(case eMempool e3 of
                 Some mp \<Rightarrow>
                   if bTransactions b \<noteq> []
                   then e3\<lparr>eMempool := Some (Update (ve_mp V) (sint (sSequenceNum (MarkExecuted s)))
                            (map txData (bTransactions b)) mp)\<rparr>
                   else e3
               | None \<Rightarrow> e3) = e3\<lparr>eMempool := ?m\<rparr>" (is "?e4 = _")
    by (simp add: e3 put_state_def split: option.split)
  have r: "record_commit A S V n s b r e =
      (if erValidatorUpdates r \<noteq> [] then handleValidatorUpdates (erValidatorUpdates r) ?e4 else ?e4)"
    unfolding record_commit_def Let_def sb prod.case ..
  obtain vs where u: "handleValidatorUpdates (erValidatorUpdates r) ?e4 =
      ?e4\<lparr>eValidatorSet := vs, eVcm := (eVcm ?e4)\<lparr>vmQuorumSize := QuorumSize vs\<rparr>\<rparr>"
    using updates_fields by blast
  show "eConfig (record_commit A S V n s b r e) = eConfig e"
    "eView (record_commit A S V n s b r e) = eView e"
    "eSequenceNum (record_commit A S V n s b r e) = eSequenceNum e"
    "eStateLog (record_commit A S V n s b r e) = write_state n (MarkExecuted s) (eStateLog e)"
    "eCommittedBlocks (record_commit A S V n s b r e) = eCommittedBlocks e @ [b]"
    "eLastAppHash (record_commit A S V n s b r e) = erAppHash r"
    "eCheckpoints (record_commit A S V n s b r e) = eCheckpoints e"
    "eOut (record_commit A S V n s b r e) = eOut e"
    "eVcm (record_commit A S V n s b r e) =
       (if erValidatorUpdates r = [] then eVcm e
        else (eVcm e)\<lparr>vmQuorumSize := QuorumSize (eValidatorSet (record_commit A S V n s b r e))\<rparr>)"
    "erValidatorUpdates r = [] \<Longrightarrow> eValidatorSet (record_commit A S V n s b r e) = eValidatorSet e"
    "eMempool (record_commit A S V n s b r e) = ?m"
    unfolding r u unfolding m by (simp_all add: e3)
qed

lemma createCheckpoint_fields:
  "eConfig (createCheckpoint S V n e) = eConfig e" "eView (createCheckpoint S V n e) = eView e"
  "eSequenceNum (createCheckpoint S V n e) = eSequenceNum e"
  "eValidatorSet (createCheckpoint S V n e) = eValidatorSet e"
  "eVcm (createCheckpoint S V n e) = eVcm e" "eMempool (createCheckpoint S V n e) = eMempool e"
  "eCommittedBlocks (createCheckpoint S V n e) = eCommittedBlocks e"
  "eLastAppHash (createCheckpoint S V n e) = eLastAppHash e"
  "eAdapter (createCheckpoint S V n e) = eAdapter e" "eOut (createCheckpoint S V n e) = eOut e"
  "eStateLog (createCheckpoint S V n e) = AdvanceWatermarks n (eStateLog e)"
  "eCheckpoints (createCheckpoint S V n e) =
     (let cps = (if eCommittedBlocks e \<noteq> [] then go_put n (bHash (last (eCommittedBlocks e))) (eCheckpoints e)
                 else eCheckpoints e)
      in if length cps > 3
         then go_del (fold (\<lambda>(s, d) oldest. if s < oldest then s else oldest) (ve_checkpoints V cps) n) cps
         else cps)" (is "_ = ?cps")
proof -
  let ?d = "if eCommittedBlocks e \<noteq> [] then bHash (last (eCommittedBlocks e)) else []"
  let ?c = "\<lparr>cpSequenceNum = n, cpDigest = ?d, cpNodeID = cfNodeID (eConfig e)\<rparr>"
  let ?e1 = "e\<lparr>eCheckpoints := ?cps\<rparr>"
  obtain e2 r2 where 2: "saveCheckpointToStore S ?c ?e1 = (e2, r2)" by fastforce
  obtain e3 r3 where 3: "SaveState S e2 = (e3, r3)" by fastforce
  obtain st where e2: "e2 = ?e1\<lparr>eStore := st\<rparr>" using store_fields 2 by blast
  obtain st' where e3: "e3 = e2\<lparr>eStore := st'\<rparr>" using store_fields 3 by blast
  have "createCheckpoint S V n e = e3\<lparr>eStateLog := AdvanceWatermarks n (eStateLog e3)\<rparr>"
  proof -
    have "(let e' = (if eCommittedBlocks e \<noteq> []
               then e\<lparr>eCheckpoints := go_put n ?d (eCheckpoints e)\<rparr> else e)
           in if length (eCheckpoints e') > 3
               then let oldestSeq = fold (\<lambda>(s, d) oldest. if s < oldest then s else oldest)
                                      (ve_checkpoints V (eCheckpoints e')) n
                    in e'\<lparr>eCheckpoints := go_del oldestSeq (eCheckpoints e')\<rparr>
               else e') = ?e1"
      by (simp add: Let_def)
    then show ?thesis using 2 3
      unfolding createCheckpoint_def Let_def by (simp add: Let_def split: if_splits)
  qed
  then show "eConfig (createCheckpoint S V n e) = eConfig e" "eView (createCheckpoint S V n e) = eView e"
    "eSequenceNum (createCheckpoint S V n e) = eSequenceNum e"
    "eValidatorSet (createCheckpoint S V n e) = eValidatorSet e"
    "eVcm (createCheckpoint S V n e) = eVcm e" "eMempool (createCheckpoint S V n e) = eMempool e"
    "eCommittedBlocks (createCheckpoint S V n e) = eCommittedBlocks e"
    "eLastAppHash (createCheckpoint S V n e) = eLastAppHash e"
    "eAdapter (createCheckpoint S V n e) = eAdapter e" "eOut (createCheckpoint S V n e) = eOut e"
    "eStateLog (createCheckpoint S V n e) = AdvanceWatermarks n (eStateLog e)"
    "eCheckpoints (createCheckpoint S V n e) = ?cps"
    by (simp_all add: e3 e2)
qed

lemma executeBlock_cases:
  assumes "executeBlock A S V n s e = Ret e'"
  obtains (skipped) "sExecuted s \<or> sBlock s = None" "e' = e"
  | (failed) a where "\<not> sExecuted s" "sBlock s \<noteq> None" "e' = e\<lparr>eAdapter := a\<rparr>"
  | (recorded) b r a1 h a2 where "\<not> sExecuted s" "sBlock s = Some b"
      "ad_FinalizeBlock A b (eAdapter e) = (a1, Inr r)" "ad_Commit A a1 = (a2, Inr h)"
      "e' = record_commit A S V n s b r (e\<lparr>eAdapter := a2\<rparr>)"
      "sSequenceNum s mod cfCheckpointInterval (eConfig e) \<noteq> 0"
  | (checkpointed) b r a1 h a2 where "\<not> sExecuted s" "sBlock s = Some b"
      "ad_FinalizeBlock A b (eAdapter e) = (a1, Inr r)" "ad_Commit A a1 = (a2, Inr h)"
      "e' = createCheckpoint S V (sSequenceNum s) (record_commit A S V n s b r (e\<lparr>eAdapter := a2\<rparr>))"
      "sSequenceNum s mod cfCheckpointInterval (eConfig e) = 0"
proof (cases "sExecuted s \<or> sBlock s = None")
  case True
  then show thesis using assms skipped by (auto simp: executeBlock_def split: if_splits)
next
  case False
  then obtain b where b: "\<not> sExecuted s" "sBlock s = Some b" by auto
  obtain a1 fr where f: "ad_FinalizeBlock A b (eAdapter e) = (a1, fr)" by fastforce
  show thesis
  proof (cases fr)
    case (Inl err)
    with assms b f show thesis by (intro failed [of a1]) (simp_all add: executeBlock_def)
  next
    case (Inr r)
    obtain a2 c where c: "ad_Commit A a1 = (a2, c)" by fastforce
    show thesis
    proof (cases c)
      case (Inl err)
      with assms b f c Inr show thesis by (intro failed [of a2]) (simp_all add: executeBlock_def)
    next
      case cr: (Inr h)
      have ac: "after_commit A S V n s b r (e\<lparr>eAdapter := a2\<rparr>) = Ret e'"
        using assms b f c Inr cr by (cases h) (simp add: executeBlock_def)
      show thesis
      proof (cases "sSequenceNum s mod cfCheckpointInterval (eConfig e) = 0")
        case True
        with ac b f c Inr cr show thesis
          by (intro checkpointed [of b a1 r a2 h])
            (auto simp: after_commit_def Let_def record_commit_fields split: if_splits)
      next
        case False
        with ac b f c Inr cr show thesis
          by (intro recorded [of b a1 r a2 h])
            (auto simp: after_commit_def Let_def record_commit_fields split: if_splits)
      qed
    qed
  qed
qed

lemma fold_min: "fold (\<lambda>(s, d) oldest. if s < oldest then s else oldest) xs m = Min (insert m (fst ` set xs))"
  for m :: u64
proof (induction xs arbitrary: m)
  case Nil
  show ?case by simp
next
  case (Cons x xs)
  obtain s d where x: "x = (s, d)" by (cases x)
  have "Min (insert (if s < m then s else m) (fst ` set xs)) = Min (insert m (insert s (fst ` set xs)))"
    by (cases "fst ` set xs = {}") (auto simp: min_def min.assoc)
  then show ?case by (simp add: Cons.IH x)
qed

lemma checkpoints_ok_create:
  assumes V: "ve_ok V" and "checkpoints_ok e"
  shows "checkpoints_ok (createCheckpoint S V n e)"
proof (cases "eCommittedBlocks e = []")
  case True
  then show ?thesis using assms(2) by (simp add: checkpoints_ok_def createCheckpoint_fields Let_def)
next
  case False
  let ?cps = "go_put n (bHash (last (eCommittedBlocks e))) (eCheckpoints e)"
  have wf: "go_wf ?cps" and len: "length ?cps \<le> 4"
    using assms(2) by (auto simp: checkpoints_ok_def length_go_put)
  let ?o = "fold (\<lambda>(s, d) oldest. if s < oldest then s else oldest) (ve_checkpoints V ?cps) n"
  have "go_get ?cps n \<noteq> None" by simp
  then have n: "n \<in> go_keys ?cps" by (simp only: go_get_None_iff not_not)
  have "?o = Min (insert n (go_keys ?cps))"
    using V by (simp add: fold_min ve_ok_def go_order_set)
  also have "insert n (go_keys ?cps) = go_keys ?cps" using n by (rule insert_absorb)
  finally have o: "?o = Min (go_keys ?cps)" .
  have "Min (go_keys ?cps) \<in> go_keys ?cps" by (rule Min_in) (use n in auto)
  then have "?o \<in> go_keys ?cps" by (simp only: o)
  then have "go_get ?cps ?o \<noteq> None" by (simp only: go_get_None_iff not_not)
  then obtain d where "go_get ?cps ?o = Some d" by (elim exE [OF not_None_eq [THEN iffD1]])
  from length_go_del [OF wf this] have "length (go_del ?o ?cps) \<le> 3" using len by simp
  with False wf show ?thesis by (auto simp: checkpoints_ok_def createCheckpoint_fields Let_def)
qed

lemma record_commit_ok:
  assumes ok: "engine_ok e" and s: "state_ok s" "sSequenceNum s = n" and V: "ve_ok V"
  shows "engine_ok (record_commit A S V n s b r e)"
proof -
  have "log_ok (eStateLog (record_commit A S V n s b r e))"
    using ok s by (simp add: engine_ok_def record_commit_fields log_ok_write state_ok_ops)
  moreover have "view_ok (record_commit A S V n s b r e)"
    using ok by (simp add: engine_ok_def view_ok_def record_commit_fields)
  moreover have "pool_ok (record_commit A S V n s b r e)"
    using ok V good_pool_step [OF mps_update]
    by (auto simp: engine_ok_def pool_ok_def record_commit_fields ve_ok_def split: option.splits)
  moreover have "checkpoints_ok (record_commit A S V n s b r e)"
    using ok by (simp add: engine_ok_def checkpoints_ok_def record_commit_fields)
  ultimately show ?thesis by (simp add: engine_ok_def)
qed

lemma createCheckpoint_ok:
  assumes "engine_ok e" and "ve_ok V"
  shows "engine_ok (createCheckpoint S V n e)"
  using assms checkpoints_ok_create [OF assms(2), of e S n]
  by (simp add: engine_ok_def view_ok_def pool_ok_def createCheckpoint_fields log_ok_Advance)

lemma executeBlock_ok:
  assumes "executeBlock A S V n s e = Ret e'" and ok: "engine_ok e" and "state_ok s" "sSequenceNum s = n" and "ve_ok V"
  shows "engine_ok e'"
proof -
  have ad: "engine_ok (e\<lparr>eAdapter := a\<rparr>)" for a
    using ok by (simp add: engine_ok_def view_ok_def pool_ok_def checkpoints_ok_def)
  from assms(1) show ?thesis
  proof (cases rule: executeBlock_cases)
    case (recorded b r a1 h a2)
    then show ?thesis using record_commit_ok [OF ad assms(3-5)] by simp
  next
    case (checkpointed b r a1 h a2)
    then show ?thesis using record_commit_ok [OF ad assms(3-5)] createCheckpoint_ok assms(5) by blast
  qed (use ok ad in simp_all)
qed

lemma handleCommit_cases:
  assumes "handleCommit A S V msg e = Ret e'"
  obtains (ignored) "mView msg \<noteq> eView e \<or> dec_commit (ve_codec V) (mPayload msg) = None \<or>
        GetExistingState (mSequenceNum msg) (eStateLog e) = None" "e' = e"
  | (counted) c s where "mView msg = eView e" "dec_commit (ve_codec V) (mPayload msg) = Some c"
      "GetExistingState (mSequenceNum msg) (eStateLog e) = Some s"
      "\<not> (IsCommitted (QuorumSize (eValidatorSet e)) (AddCommit c s) \<and> sPhase s = Prepared)"
      "e' = put_state (mSequenceNum msg) (AddCommit c s) e"
  | (committed) c s t where "mView msg = eView e" "dec_commit (ve_codec V) (mPayload msg) = Some c"
      "GetExistingState (mSequenceNum msg) (eStateLog e) = Some s"
      "IsCommitted (QuorumSize (eValidatorSet e)) (AddCommit c s)" "sPhase s = Prepared"
      "t = TransitionToCommitted (AddCommit c s)"
      "executeBlock A S V (mSequenceNum msg) t (put_state (mSequenceNum msg) t e) = Ret e'"
proof (cases "mView msg = eView e")
  case view: True
  show thesis
  proof (cases "dec_commit (ve_codec V) (mPayload msg)")
    case None
    with assms view show thesis by (intro ignored) (simp_all add: handleCommit_def)
  next
    case dec: (Some c)
    show thesis
    proof (cases "GetExistingState (mSequenceNum msg) (eStateLog e)")
      case None
      with assms view dec show thesis by (intro ignored) (simp_all add: handleCommit_def)
    next
      case (Some s)
      have ph: "GetPhase (AddCommit c s) = sPhase s" by (simp add: GetPhase_def AddCommit_def)
      show thesis
      proof (cases "IsCommitted (QuorumSize (eValidatorSet e)) (AddCommit c s) \<and> sPhase s = Prepared")
        case False
        with assms view dec Some ph show thesis by (intro counted) (auto simp: handleCommit_def Let_def split: if_splits)
      next
        case True
        with assms view dec Some ph show thesis
          by (intro committed [of c s "TransitionToCommitted (AddCommit c s)"]) (simp_all add: handleCommit_def Let_def)
      qed
    qed
  qed
next
  case False
  with assms show thesis by (intro ignored) (simp_all add: handleCommit_def)
qed

lemma handleCommit_ok:
  assumes "handleCommit A S V msg e = Ret e'" and ok: "engine_ok e" and "ve_ok V"
  shows "engine_ok e'"
proof -
  have log: "log_ok (eStateLog e)" using ok by (simp add: engine_ok_def)
  have put: "engine_ok (put_state (mSequenceNum msg) t e)" if "state_ok t" "sSequenceNum t = mSequenceNum msg" for t
    using that log by (intro engine_ok_cong [OF ok]) (simp_all add: log_ok_write)
  from assms(1) show ?thesis
  proof (cases rule: handleCommit_cases)
    case (counted c s)
    then have "state_ok (AddCommit c s)" "sSequenceNum (AddCommit c s) = mSequenceNum msg"
      using log_ok_get [OF log, of "mSequenceNum msg" s] by auto
    then show ?thesis using put counted(5) by simp
  next
    case (committed c s t)
    then have t: "state_ok t" "sSequenceNum t = mSequenceNum msg"
      using log_ok_get [OF log, of "mSequenceNum msg" s] by auto
    show ?thesis by (rule executeBlock_ok [OF committed(7) put [OF t] t assms(3)])
  qed (use ok in simp)
qed

section \<open>View changes\<close>

text \<open>What a new view message does to the manager and to the engine.\<close>

definition install_view :: "NewViewMsg \<Rightarrow> ViewChangeManager \<Rightarrow> ViewChangeManager" where
  "install_view msg vcm = vcm\<lparr>vmNewViewMsgs := go_put (nvView msg) msg (vmNewViewMsgs vcm),
     vmCurrentView := nvView msg, vmInProgress := False,
     vmViewChangeMsgs := filter (\<lambda>(v, m). \<not> v \<le> nvView msg) (vmViewChangeMsgs vcm)\<rparr>"

lemma install_view_fields [simp]:
  "vmCurrentView (install_view msg vcm) = nvView msg" "vmQuorumSize (install_view msg vcm) = vmQuorumSize vcm"
  "vmBroadcastSet (install_view msg vcm) = vmBroadcastSet vcm" "vmNodeID (install_view msg vcm) = vmNodeID vcm"
  "vmOnCompleteSet (install_view msg vcm) = vmOnCompleteSet vcm"
  by (simp_all add: install_view_def)

lemma vm_ok_install [simp]: "vm_ok vcm \<Longrightarrow> vm_ok (install_view msg vcm)"
  by (simp add: vm_ok_def install_view_def go_wf_def distinct_map_filter)

lemma HandleNewView_cases:
  assumes "HandleNewView msg vcm = Ret (vcm', ok, completed)"
  obtains (rejected) "vcm' = vcm" "\<not> ok" "completed = None"
  | (installed) "verifyNewViewMsg msg vcm = Ret True" "ok" "vcm' = install_view msg vcm"
      "completed = (if vmOnCompleteSet vcm then Some (nvView msg) else None)"
proof -
  from assms obtain b where b: "verifyNewViewMsg msg vcm = Ret b"
    by (auto simp: HandleNewView_def go_bind_Ret_iff)
  show thesis
  proof (cases b)
    case True
    with assms b show thesis by (intro installed) (simp_all add: HandleNewView_def Let_def install_view_def)
  next
    case False
    with assms b show thesis by (intro rejected) (simp_all add: HandleNewView_def)
  qed
qed

lemma vcm_HandleNewView_cases:
  assumes "vcm_HandleNewView msg e = Ret (e', ok)" and "vmOnCompleteSet (eVcm e)"
  obtains (rejected) "e' = e" "\<not> ok"
  | (installed) "verifyNewViewMsg msg (eVcm e) = Ret True" "ok"
      "e' = resetViewChangeTimer (e\<lparr>eVcm := install_view msg (eVcm e), eView := nvView msg\<rparr>)"
proof -
  from assms(1) obtain vcm b c where h: "HandleNewView msg (eVcm e) = Ret (vcm, b, c)"
    by (auto simp: vcm_HandleNewView_def go_bind_Ret_iff)
  from h show thesis
  proof (cases rule: HandleNewView_cases)
    case 1: rejected
    show thesis by (rule rejected) (use assms(1) h 1 in \<open>simp_all add: vcm_HandleNewView_def Let_def\<close>)
  next
    case 1: installed
    from assms(1) h 1 assms(2) have
      "e' = resetViewChangeTimer (e\<lparr>eVcm := install_view msg (eVcm e), eView := nvView msg\<rparr>) \<and> ok"
      by (auto simp: vcm_HandleNewView_def Let_def onViewChangeComplete_def go_bind_Ret_iff)
    with 1 installed show thesis by blast
  qed
qed

lemma vcm_HandleNewView_ok:
  assumes "vcm_HandleNewView msg e = Ret (e', ok)" and ok: "engine_ok e"
  shows "engine_ok e'"
proof -
  have v: "view_ok e" "vmOnCompleteSet (eVcm e)" using ok by (auto simp: engine_ok_def view_ok_def)
  from assms(1) v(2) show ?thesis
  proof (cases rule: vcm_HandleNewView_cases)
    case installed
    then show ?thesis using ok by (auto simp: engine_ok_def view_ok_def pool_ok_def checkpoints_ok_def)
  qed (use ok in simp)
qed

lemma engine_ok_broadcast [simp]: "engine_ok (broadcast m e) = engine_ok e"
  by (simp add: engine_ok_def view_ok_def pool_ok_def checkpoints_ok_def)

lemma engine_ok_timer [simp]: "engine_ok (e\<lparr>eTimer := t\<rparr>) = engine_ok e"
  by (simp add: engine_ok_def view_ok_def pool_ok_def checkpoints_ok_def)

lemma engine_ok_vcm:
  assumes "engine_ok e" and "vm_ok vcm" "vmQuorumSize vcm = vmQuorumSize (eVcm e)"
    "vmCurrentView vcm = vmCurrentView (eVcm e)" "vmBroadcastSet vcm = vmBroadcastSet (eVcm e)"
    "vmOnCompleteSet vcm = vmOnCompleteSet (eVcm e)"
  shows "engine_ok (e\<lparr>eVcm := vcm\<rparr>)"
  using assms by (simp add: engine_ok_def view_ok_def pool_ok_def checkpoints_ok_def)

lemma broadcastNewView_cases:
  assumes "broadcastNewView V v e = Ret e'"
  obtains (none) "e' = e"
  | (sent) nv m ok where "CreateNewViewMsg (ve_votes V) v (eVcm e) = Ret (Some nv)" "mType m = NewView"
      "mPayload m = enc_new_view (ve_codec V) nv" "vcm_HandleNewView nv (broadcast m e) = Ret (e', ok)"
proof -
  from assms obtain c where c: "CreateNewViewMsg (ve_votes V) v (eVcm e) = Ret c"
    by (auto simp: broadcastNewView_def go_bind_Ret_iff)
  show thesis
  proof (cases c)
    case None
    with assms c show thesis by (intro none) (simp add: broadcastNewView_def)
  next
    case (Some nv)
    let ?m = "(NewMessage (ve_now V) NewView v (eSequenceNum e) [] (cfNodeID (eConfig e)))
                       \<lparr>mPayload := enc_new_view (ve_codec V) nv\<rparr>"
    from assms c Some obtain ok where "vcm_HandleNewView nv (broadcast ?m e) = Ret (e', ok)"
      by (auto simp: broadcastNewView_def go_bind_Ret_iff Let_def)
    with c Some show thesis by (intro sent [of nv ?m ok]) simp_all
  qed
qed

lemma handleViewChange_cases:
  assumes "handleViewChange V msg e = Ret e'"
  obtains (ignored) "e' = e"
  | (stored) vc where "dec_view_change (ve_codec V) (mPayload msg) = Some vc" "vcNewView vc > eView e"
      "e' = e\<lparr>eVcm := fst (HandleViewChange vc (eVcm e))\<rparr>"
  | (quorum) vc where "dec_view_change (ve_codec V) (mPayload msg) = Some vc" "vcNewView vc > eView e"
      "snd (HandleViewChange vc (eVcm e))"
      "primary_at (vcNewView vc) (eValidatorSet e) = Ret (cfNodeID (eConfig e))"
      "broadcastNewView V (vcNewView vc) (e\<lparr>eVcm := fst (HandleViewChange vc (eVcm e))\<rparr>) = Ret e'"
proof (cases "dec_view_change (ve_codec V) (mPayload msg)")
  case None
  with assms ignored show thesis by (simp add: handleViewChange_def)
next
  case (Some vc)
  obtain vcm q where h: "HandleViewChange vc (eVcm e) = (vcm, q)" by fastforce
  consider "vcNewView vc \<le> eView e" | "\<not> vcNewView vc \<le> eView e" "\<not> q" | "\<not> vcNewView vc \<le> eView e" q by blast
  then show thesis
  proof cases
    case 1
    with assms Some ignored show thesis by (simp add: handleViewChange_def)
  next
    case 2
    with assms Some h show thesis by (intro stored [of vc]) (simp_all add: handleViewChange_def not_le)
  next
    case 3
    with assms Some h obtain p where p: "primary_at (vcNewView vc) (eValidatorSet e) = Ret p"
      by (auto simp: handleViewChange_def Let_def go_bind_Ret_iff)
    show thesis
    proof (cases "p = cfNodeID (eConfig e)")
      case True
      with assms Some h 3 p show thesis by (intro quorum [of vc]) (simp_all add: handleViewChange_def not_le)
    next
      case False
      with assms Some h 3 p show thesis by (intro stored [of vc]) (simp_all add: handleViewChange_def not_le)
    qed
  qed
qed

lemma HandleViewChange_fields:
  "vmQuorumSize (fst (HandleViewChange vc vcm)) = vmQuorumSize vcm"
  "vmCurrentView (fst (HandleViewChange vc vcm)) = vmCurrentView vcm"
  "vmBroadcastSet (fst (HandleViewChange vc vcm)) = vmBroadcastSet vcm"
  "vmOnCompleteSet (fst (HandleViewChange vc vcm)) = vmOnCompleteSet vcm"
  "vmNodeID (fst (HandleViewChange vc vcm)) = vmNodeID vcm"
  by (simp_all add: HandleViewChange_def Let_def)

lemma engine_ok_HandleViewChange: "engine_ok e \<Longrightarrow> engine_ok (e\<lparr>eVcm := fst (HandleViewChange vc (eVcm e))\<rparr>)"
  by (rule engine_ok_vcm)
    (simp_all add: HandleViewChange_fields vm_ok_HandleViewChange engine_ok_def view_ok_def)

lemma broadcastNewView_ok: "broadcastNewView V v e = Ret e' \<Longrightarrow> engine_ok e \<Longrightarrow> engine_ok e'"
  by (erule broadcastNewView_cases) (use vcm_HandleNewView_ok engine_ok_broadcast in blast)+

lemma handleViewChange_ok: "handleViewChange V msg e = Ret e' \<Longrightarrow> engine_ok e \<Longrightarrow> engine_ok e'"
  by (erule handleViewChange_cases) (use broadcastNewView_ok engine_ok_HandleViewChange in blast)+

lemma reprocess_frame:
  "consensus_frame e (reprocessPrePrepare V v pp e)"
  "log_ok (eStateLog e) \<Longrightarrow> log_ok (eStateLog (reprocessPrePrepare V v pp e))"
  "eSequenceNum (reprocessPrePrepare V v pp e) = eSequenceNum e"
  "eAdapter (reprocessPrePrepare V v pp e) = eAdapter e"
proof -
  let ?n = "ppSequenceNum pp"
  obtain sl s where g: "GetState v ?n (eStateLog e) = (sl, s)" by (cases "GetState v ?n (eStateLog e)")
  show "consensus_frame e (reprocessPrePrepare V v pp e)"
    "eSequenceNum (reprocessPrePrepare V v pp e) = eSequenceNum e"
    "eAdapter (reprocessPrePrepare V v pp e) = eAdapter e"
    by (simp_all add: reprocessPrePrepare_def Let_def g consensus_frame_def GetState_marks [OF g])
  have "eStateLog (reprocessPrePrepare V v pp e) =
      write_state ?n (SetPrePrepare (pp\<lparr>ppView := v\<rparr>) (ppBlock (pp\<lparr>ppView := v\<rparr>)) s) sl"
    by (simp add: reprocessPrePrepare_def Let_def g)
  then show "log_ok (eStateLog e) \<Longrightarrow> log_ok (eStateLog (reprocessPrePrepare V v pp e))"
    using log_ok_state_op [OF _ g] state_ok_ops(1) [of s "pp\<lparr>ppView := v\<rparr>"] by simp
qed

lemma reprocess_all_frame:
  "consensus_frame e (fold (reprocessPrePrepare V v) pps e) \<and>
   (log_ok (eStateLog e) \<longrightarrow> log_ok (eStateLog (fold (reprocessPrePrepare V v) pps e))) \<and>
   eSequenceNum (fold (reprocessPrePrepare V v) pps e) = eSequenceNum e"
proof (induction pps arbitrary: e)
  case Nil
  show ?case by simp
next
  case (Cons pp pps)
  have tr: "consensus_frame a b \<Longrightarrow> consensus_frame b c \<Longrightarrow> consensus_frame a c" for a b c :: "('a, 'b) Engine"
    by (simp add: consensus_frame_def)
  show ?case
    using Cons.IH [of "reprocessPrePrepare V v pp e"] tr [OF reprocess_frame(1) [of e V v pp]]
      reprocess_frame(2,3) [where e = e and V = V and v = v and pp = pp] by simp
qed

lemma handleNewView_cases:
  assumes "handleNewView V msg e = Ret e'" and "vmOnCompleteSet (eVcm e)"
  obtains (ignored) "e' = e"
  | (installed) nv where "dec_new_view (ve_codec V) (mPayload msg) = Some nv" "nvView nv > eView e"
      "primary_at (nvView nv) (eValidatorSet e) = Ret (nvNewPrimaryID nv)"
      "verifyNewViewMsg nv (eVcm e) = Ret True"
      "e' = fold (reprocessPrePrepare V (nvView nv)) (nvPrePrepareMsgs nv)
         (resetViewChangeTimer (e\<lparr>eVcm := install_view nv (eVcm e), eView := nvView nv\<rparr>))"
proof (cases "dec_new_view (ve_codec V) (mPayload msg)")
  case None
  with assms ignored show thesis by (simp add: handleNewView_def)
next
  case (Some nv)
  show thesis
  proof (cases "nvView nv \<le> eView e")
    case True
    with assms Some ignored show thesis by (simp add: handleNewView_def)
  next
    case False
    with assms(1) Some obtain p where p: "primary_at (nvView nv) (eValidatorSet e) = Ret p"
      by (auto simp: handleNewView_def go_bind_Ret_iff)
    show thesis
    proof (cases "nvNewPrimaryID nv = p")
      case ne: False
      with assms(1) Some False p ignored show thesis by (simp add: handleNewView_def)
    next
      case True
      with assms(1) Some False p obtain e1 ok where h: "vcm_HandleNewView nv e = Ret (e1, ok)"
        and r: "(if ok then Ret (fold (reprocessPrePrepare V (nvView nv)) (nvPrePrepareMsgs nv) e1) else Ret e1) = Ret e'"
        by (auto simp: handleNewView_def go_bind_Ret_iff)
      from h assms(2) show thesis
      proof (cases rule: vcm_HandleNewView_cases)
        case rejected
        with r ignored show thesis by simp
      next
        case 1: installed
        with r Some False p True show thesis by (intro installed [of nv]) (simp_all add: not_le)
      qed
    qed
  qed
qed

lemma engine_ok_install:
  "engine_ok e \<Longrightarrow> engine_ok (resetViewChangeTimer (e\<lparr>eVcm := install_view nv (eVcm e), eView := nvView nv\<rparr>))"
  by (auto simp: engine_ok_def view_ok_def pool_ok_def checkpoints_ok_def)

lemma handleNewView_ok:
  assumes "handleNewView V msg e = Ret e'" and ok: "engine_ok e"
  shows "engine_ok e'"
proof -
  have "vmOnCompleteSet (eVcm e)" using ok by (simp add: engine_ok_def view_ok_def)
  with assms(1) show ?thesis
  proof (cases rule: handleNewView_cases)
    case (installed nv)
    let ?e = "resetViewChangeTimer (e\<lparr>eVcm := install_view nv (eVcm e), eView := nvView nv\<rparr>)"
    have ok': "engine_ok ?e" by (rule engine_ok_install [OF ok])
    have "log_ok (eStateLog ?e)" using ok by (simp add: engine_ok_def)
    with reprocess_all_frame [of ?e V "nvView nv" "nvPrePrepareMsgs nv"] ok' installed(5) show ?thesis
      using consensus_frame_ok [of ?e e'] by simp
  qed (use ok in simp)
qed

lemma startViewChange_fields:
  assumes "startViewChange V e = Ret e'"
  obtains vcm out ps where "collectPreparedCertificates V e = Ret ps"
    "StartViewChange (ve_codec V) (ve_now V) (eView e + 1) (eSequenceNum e) (collectCheckpoints V e) ps (eVcm e) = (vcm, out)"
    "e' = (case out of Some m \<Rightarrow> broadcast m (e\<lparr>eVcm := vcm\<rparr>) | None \<Rightarrow> e\<lparr>eVcm := vcm\<rparr>)
            \<lparr>eTimer := Some (cfViewChangeTimeout (eConfig e) * 2)\<rparr>"
proof -
  from assms obtain ps where c: "collectPreparedCertificates V e = Ret ps"
    by (auto simp: startViewChange_def Let_def go_bind_Ret_iff)
  obtain vcm out where s: "StartViewChange (ve_codec V) (ve_now V) (eView e + 1) (eSequenceNum e)
      (collectCheckpoints V e) ps (eVcm e) = (vcm, out)" by fastforce
  show thesis
    by (rule that [OF c s]) (use assms c s in \<open>auto simp: startViewChange_def Let_def split: option.splits\<close>)
qed

lemma StartViewChange_same:
  "vmQuorumSize (fst (StartViewChange C now v n cps ps vcm)) = vmQuorumSize vcm"
  "vmCurrentView (fst (StartViewChange C now v n cps ps vcm)) = vmCurrentView vcm"
  "vmBroadcastSet (fst (StartViewChange C now v n cps ps vcm)) = vmBroadcastSet vcm"
  "vmOnCompleteSet (fst (StartViewChange C now v n cps ps vcm)) = vmOnCompleteSet vcm"
  by (simp_all add: StartViewChange_def Let_def)

lemma startViewChange_ok:
  assumes "startViewChange V e = Ret e'" and ok: "engine_ok e"
  shows "engine_ok e'"
proof -
  from assms(1) obtain vcm out ps where
    s: "StartViewChange (ve_codec V) (ve_now V) (eView e + 1) (eSequenceNum e) (collectCheckpoints V e) ps (eVcm e) = (vcm, out)"
    and e': "e' = (case out of Some m \<Rightarrow> broadcast m (e\<lparr>eVcm := vcm\<rparr>) | None \<Rightarrow> e\<lparr>eVcm := vcm\<rparr>)
            \<lparr>eTimer := Some (cfViewChangeTimeout (eConfig e) * 2)\<rparr>" by (rule startViewChange_fields)
  have v: "vcm = fst (StartViewChange (ve_codec V) (ve_now V) (eView e + 1) (eSequenceNum e) (collectCheckpoints V e) ps (eVcm e))"
    by (simp add: s)
  have "vm_ok (eVcm e)" using ok by (simp add: engine_ok_def view_ok_def)
  then have "engine_ok (e\<lparr>eVcm := vcm\<rparr>)"
    by (intro engine_ok_vcm [OF ok]) (simp_all add: v vm_ok_StartViewChange StartViewChange_same)
  then show ?thesis by (simp add: e' split: option.split)
qed

section \<open>Runs\<close>

text \<open>
  One step of a running engine: a message or a request taken from its channel, the view change
  timer firing, an arrival, a submission, a start or stop, and whatever the pool's other users
  do to it. \<open>Recover\<close> and \<open>SetStore\<close> belong to the start-up.
\<close>

inductive engine_step ::
  "'a adapter_ops \<Rightarrow> 's store_ops \<Rightarrow> ('a, 's) Engine \<Rightarrow> ('a, 's) Engine \<Rightarrow> bool" for A S where
  es_message: "ve_ok V \<Longrightarrow> run_msg A S V e = Some (Ret e') \<Longrightarrow> engine_step A S e e'"
| es_request: "run_request A V e = Some (Ret e') \<Longrightarrow> engine_step A S e e'"
| es_timeout: "eTimer e \<noteq> None \<Longrightarrow> startViewChange V e = Ret e' \<Longrightarrow> engine_step A S e e'"
| es_incoming: "engine_step A S e (handleIncomingMessage m e)"
| es_submit: "engine_step A S e (fst (SubmitRequest V op cl e))"
| es_start: "engine_step A S e (engine_Start e)"
| es_stop: "engine_step A S e (engine_Stop e)"
| es_pool: "eMempool e = Some mp \<Longrightarrow> mp_step mp mp' \<Longrightarrow> engine_step A S e (e\<lparr>eMempool := Some mp'\<rparr>)"

inductive engine_reachable ::
  "'a adapter_ops \<Rightarrow> 's store_ops \<Rightarrow> ('a, 's) Engine \<Rightarrow> ('a, 's) Engine \<Rightarrow> bool" for A S e0 where
  er_init: "engine_reachable A S e0 e0"
| er_step: "engine_reachable A S e0 e \<Longrightarrow> engine_step A S e e' \<Longrightarrow> engine_reachable A S e0 e'"

lemma engine_ok_queues [simp]:
  "engine_ok (e\<lparr>eMsgChan := q\<rparr>) = engine_ok e" "engine_ok (e\<lparr>eRequestChan := r\<rparr>) = engine_ok e"
  "engine_ok (e\<lparr>eStopped := b\<rparr>) = engine_ok e"
  by (simp_all add: engine_ok_def view_ok_def pool_ok_def checkpoints_ok_def)

lemma handleMessage_cases:
  assumes "handleMessage A S V msg e = Ret e'"
  obtains (pre_prepare) "handlePrePrepare A V msg e = Ret e'" | (prepare) "e' = handlePrepare V msg e"
  | (commit) "handleCommit A S V msg e = Ret e'" | (view_change) "handleViewChange V msg e = Ret e'"
  | (new_view) "handleNewView V msg e = Ret e'" | (other) "e' = e"
  using assms by (cases "mType msg") (simp_all add: handleMessage_def)

lemma handleMessage_ok:
  assumes "handleMessage A S V msg e = Ret e'" and ok: "engine_ok e" and V: "ve_ok V"
  shows "engine_ok e'"
proof -
  have log: "log_ok (eStateLog e)" using ok by (simp add: engine_ok_def)
  from assms(1) show ?thesis
  proof (cases rule: handleMessage_cases)
    case pre_prepare
    from consensus_frame_ok [OF ok handlePrePrepare_frame(1,2) [OF this]] log show ?thesis by blast
  next
    case prepare
    with consensus_frame_ok [OF ok handlePrepare_frame(1,2) [of e V msg]] log show ?thesis by simp
  qed (use handleCommit_ok handleViewChange_ok handleNewView_ok ok V in blast)+
qed

lemma run_request_cases:
  assumes "run_request A V e = Some (Ret e')"
  obtains (skip) r q where "eRequestChan e = r # q" "e' = e\<lparr>eRequestChan := q\<rparr>"
  | (propose) r q where "eRequestChan e = r # q" "isPrimary (e\<lparr>eRequestChan := q\<rparr>) = Ret True"
      "proposeBlock A V (Some r) (e\<lparr>eRequestChan := q\<rparr>) = Ret e'"
proof (cases "eRequestChan e")
  case Nil
  with assms show thesis by (simp add: run_request_def)
next
  case (Cons r q)
  with assms obtain b where b: "isPrimary (e\<lparr>eRequestChan := q\<rparr>) = Ret b"
    and c: "(if b then proposeBlock A V (Some r) (e\<lparr>eRequestChan := q\<rparr>) else Ret (e\<lparr>eRequestChan := q\<rparr>)) = Ret e'"
    by (auto simp: run_request_def Let_def go_bind_Ret_iff)
  show thesis
  proof (cases b)
    case True
    with Cons b c show thesis by (intro propose) simp_all
  next
    case False
    with Cons c show thesis by (intro skip) auto
  qed
qed

lemma run_msg_cases:
  assumes "run_msg A S V e = Some r"
  obtains m q where "eMsgChan e = m # q" "r = handleMessage A S V m (e\<lparr>eMsgChan := q\<rparr>)"
  using assms that by (auto simp: run_msg_def split: list.splits)

lemma engine_step_ok:
  assumes "engine_step A S e e'" and ok: "engine_ok e"
  shows "engine_ok e'"
  using assms(1)
proof (cases rule: engine_step.cases)
  case (es_message V)
  then obtain m q where "handleMessage A S V m (e\<lparr>eMsgChan := q\<rparr>) = Ret e'" by (metis run_msg_cases)
  then show ?thesis by (rule handleMessage_ok) (use ok es_message in simp_all)
next
  case (es_request V)
  then show ?thesis
  proof (cases rule: run_request_cases)
    case (propose r q)
    have "log_ok (eStateLog (e\<lparr>eRequestChan := q\<rparr>))" using ok by (simp add: engine_ok_def)
    with proposeBlock_frame [OF propose(3)] ok show ?thesis
      using consensus_frame_ok [of "e\<lparr>eRequestChan := q\<rparr>" e'] by simp
  qed (use ok in simp)
next
  case (es_timeout V)
  then show ?thesis using startViewChange_ok ok by blast
next
  case (es_pool mp mp')
  then have "good_pool mp'" using good_pool_step ok by (auto simp: engine_ok_def pool_ok_def)
  then show ?thesis using ok es_pool(1) by (simp add: engine_ok_def view_ok_def pool_ok_def checkpoints_ok_def)
qed (use ok in \<open>simp_all add: handleIncomingMessage_def SubmitRequest_def Let_def engine_Start_def
      engine_Stop_def resetViewChangeTimer_def\<close>)

lemma engine_reachable_ok: "engine_reachable A S e0 e \<Longrightarrow> engine_ok e0 \<Longrightarrow> engine_ok e"
  by (induction rule: engine_reachable.induct) (auto intro: engine_step_ok)

section \<open>What a run cannot undo\<close>

text \<open>Views only grow, the committed chain is only extended, the configuration stays.\<close>

definition progress :: "('a, 's) Engine \<Rightarrow> ('a, 's) Engine \<Rightarrow> bool" where
  "progress e e' \<longleftrightarrow> eConfig e' = eConfig e \<and> eView e \<le> eView e' \<and>
     (\<exists>bs. eCommittedBlocks e' = eCommittedBlocks e @ bs \<and> length bs \<le> 1) \<and>
     slLow (eStateLog e) \<le> slLow (eStateLog e')"

lemma progress_refl [simp]: "progress e e"
  by (simp add: progress_def)

lemma consensus_frame_progress: "consensus_frame e e' \<Longrightarrow> progress e e'"
  by (simp add: consensus_frame_def progress_def)

lemma Advance_low: "slLow sl \<le> slLow (AdvanceWatermarks c sl)"
  by (auto simp: AdvanceWatermarks_def Let_def)

lemma handleCommit_progress:
  assumes "handleCommit A S V msg e = Ret e'"
  shows "progress e e'"
  using assms
proof (cases rule: handleCommit_cases)
  case (committed c s t)
  from committed(7) show ?thesis
    by (cases rule: executeBlock_cases)
      (simp_all add: progress_def record_commit_fields createCheckpoint_fields
        order_trans [OF _ Advance_low])
qed (simp_all add: progress_def)

lemma CreateNewViewMsg_view: "CreateNewViewMsg ord v vcm = Ret (Some nv) \<Longrightarrow> nvView nv = v"
  by (auto simp: CreateNewViewMsg_def Let_def go_bind_Ret_iff split: if_splits)

lemma handleViewChange_progress:
  assumes "handleViewChange V msg e = Ret e'" and cb: "vmOnCompleteSet (eVcm e)"
  shows "progress e e'"
  using assms(1)
proof (cases rule: handleViewChange_cases)
  case (quorum vc)
  let ?e = "e\<lparr>eVcm := fst (HandleViewChange vc (eVcm e))\<rparr>"
  from quorum(5) show ?thesis
  proof (cases rule: broadcastNewView_cases)
    case (sent nv m ok)
    have "vmOnCompleteSet (eVcm (broadcast m ?e))" using cb by (simp add: HandleViewChange_fields)
    with sent(4) show ?thesis
    proof (cases rule: vcm_HandleNewView_cases)
      case installed
      with CreateNewViewMsg_view [OF sent(1)] quorum(2) show ?thesis by (simp add: progress_def)
    qed (simp add: progress_def)
  qed (simp add: progress_def)
qed (simp_all add: progress_def)

lemma handleNewView_progress:
  assumes "handleNewView V msg e = Ret e'" and cb: "vmOnCompleteSet (eVcm e)"
  shows "progress e e'"
  using assms
proof (cases rule: handleNewView_cases)
  case (installed nv)
  let ?e = "resetViewChangeTimer (e\<lparr>eVcm := install_view nv (eVcm e), eView := nvView nv\<rparr>)"
  have "consensus_frame ?e e'"
    using reprocess_all_frame [of ?e V "nvView nv" "nvPrePrepareMsgs nv"] installed(5) by simp
  with installed(2) show ?thesis by (simp add: progress_def consensus_frame_def)
qed simp

lemma startViewChange_progress:
  assumes "startViewChange V e = Ret e'"
  shows "progress e e'"
  using assms by (rule startViewChange_fields) (auto simp: progress_def split: option.splits)

lemma handleMessage_progress:
  assumes "handleMessage A S V msg e = Ret e'" and "vmOnCompleteSet (eVcm e)"
  shows "progress e e'"
  using assms(1)
proof (cases rule: handleMessage_cases)
  case pre_prepare
  then show ?thesis by (rule consensus_frame_progress [OF handlePrePrepare_frame(1)])
next
  case prepare
  then show ?thesis using consensus_frame_progress [OF handlePrepare_frame(1)] by simp
next
  case commit
  then show ?thesis by (rule handleCommit_progress)
next
  case view_change
  then show ?thesis by (rule handleViewChange_progress [OF _ assms(2)])
next
  case new_view
  then show ?thesis by (rule handleNewView_progress [OF _ assms(2)])
qed simp

lemma progress_queue:
  "progress (e\<lparr>eMsgChan := q\<rparr>) e' = progress e e'" "progress (e\<lparr>eRequestChan := r\<rparr>) e' = progress e e'"
  by (simp_all add: progress_def)

lemma engine_step_progress:
  assumes "engine_step A S e e'" and ok: "engine_ok e"
  shows "progress e e'"
  using assms(1)
proof (cases rule: engine_step.cases)
  case (es_message V)
  then obtain m q where h: "handleMessage A S V m (e\<lparr>eMsgChan := q\<rparr>) = Ret e'" by (metis run_msg_cases)
  have "vmOnCompleteSet (eVcm (e\<lparr>eMsgChan := q\<rparr>))" using ok by (simp add: engine_ok_def view_ok_def)
  from handleMessage_progress [OF h this] show ?thesis by (simp add: progress_queue)
next
  case (es_request V)
  then show ?thesis
  proof (cases rule: run_request_cases)
    case (propose r q)
    from consensus_frame_progress [OF proposeBlock_frame(1) [OF propose(3)]] show ?thesis
      by (simp add: progress_queue)
  qed (simp add: progress_def)
next
  case (es_timeout V)
  then show ?thesis using startViewChange_progress by blast
qed (simp_all add: progress_def handleIncomingMessage_def SubmitRequest_def Let_def engine_Start_def engine_Stop_def)

lemma engine_reachable_progress:
  assumes "engine_reachable A S e0 e" and "engine_ok e0"
  shows "eConfig e = eConfig e0 \<and> eView e0 \<le> eView e \<and>
    (\<exists>bs. eCommittedBlocks e = eCommittedBlocks e0 @ bs) \<and> slLow (eStateLog e0) \<le> slLow (eStateLog e)"
  using assms
proof (induction rule: engine_reachable.induct)
  case (er_step e e')
  then have "progress e e'" using engine_step_progress engine_reachable_ok by blast
  with er_step.IH [OF er_step.prems] show ?case
    unfolding progress_def by (metis append.assoc order_trans)
qed simp

end
