(* ===== verification/Sample_Codec.thy ===== *)
theory Sample_Codec
  imports Messages
begin

text \<open>
  A concrete codec for the message payloads, with the laws the code relies on of
  \<open>encoding/json\<close>: every payload decodes to the message it was made from. It is not JSON (a
  number is written in unary, a sequence after its length); it shows that the hypotheses on the
  codec parameter can hold, and the witnesses run on it.
\<close>

section \<open>Writers and readers\<close>

definition reads :: "('a \<Rightarrow> bytes) \<Rightarrow> (bytes \<Rightarrow> 'a \<times> bytes) \<Rightarrow> bool" where
  "reads wr rd \<longleftrightarrow> (\<forall>x r. rd (wr x @ r) = (x, r))"

lemma readsD: "reads wr rd \<Longrightarrow> rd (wr x @ r) = (x, r)"
  by (simp add: reads_def)

definition wr_nat :: "nat \<Rightarrow> bytes" where
  "wr_nat n = replicate n 1 @ [0]"

fun rd_nat :: "bytes \<Rightarrow> nat \<times> bytes" where
  "rd_nat [] = (0, [])"
| "rd_nat (b # bs) = (if b = 0 then (0, bs) else let (n, r) = rd_nat bs in (Suc n, r))"

lemma reads_nat: "reads wr_nat rd_nat"
proof -
  have "rd_nat (wr_nat n @ r) = (n, r)" for n r
    by (induction n) (simp_all add: wr_nat_def)
  then show ?thesis by (simp add: reads_def)
qed

definition wr_map :: "('b \<Rightarrow> 'a) \<Rightarrow> ('a \<Rightarrow> bytes) \<Rightarrow> 'b \<Rightarrow> bytes" where
  "wr_map f wr x = wr (f x)"

definition rd_map :: "('a \<Rightarrow> 'b) \<Rightarrow> (bytes \<Rightarrow> 'a \<times> bytes) \<Rightarrow> bytes \<Rightarrow> 'b \<times> bytes" where
  "rd_map g rd bs = (let (x, r) = rd bs in (g x, r))"

lemma reads_map: "reads wr rd \<Longrightarrow> (\<And>x. g (f x) = x) \<Longrightarrow> reads (wr_map f wr) (rd_map g rd)"
  by (simp add: reads_def wr_map_def rd_map_def)

definition wr_pair :: "('a \<Rightarrow> bytes) \<Rightarrow> ('b \<Rightarrow> bytes) \<Rightarrow> 'a \<times> 'b \<Rightarrow> bytes" where
  "wr_pair wa wb p = wa (fst p) @ wb (snd p)"

definition rd_pair :: "(bytes \<Rightarrow> 'a \<times> bytes) \<Rightarrow> (bytes \<Rightarrow> 'b \<times> bytes) \<Rightarrow> bytes \<Rightarrow> ('a \<times> 'b) \<times> bytes" where
  "rd_pair ra rb bs = (let (x, r) = ra bs; (y, r') = rb r in ((x, y), r'))"

lemma reads_pair: "reads wa ra \<Longrightarrow> reads wb rb \<Longrightarrow> reads (wr_pair wa wb) (rd_pair ra rb)"
  by (simp add: reads_def wr_pair_def rd_pair_def)

fun rd_times :: "(bytes \<Rightarrow> 'a \<times> bytes) \<Rightarrow> nat \<Rightarrow> bytes \<Rightarrow> 'a list \<times> bytes" where
  "rd_times rd 0 bs = ([], bs)"
| "rd_times rd (Suc n) bs = (let (x, r) = rd bs; (xs, r') = rd_times rd n r in (x # xs, r'))"

definition wr_list :: "('a \<Rightarrow> bytes) \<Rightarrow> 'a list \<Rightarrow> bytes" where
  "wr_list wr xs = wr_nat (length xs) @ concat (map wr xs)"

definition rd_list :: "(bytes \<Rightarrow> 'a \<times> bytes) \<Rightarrow> bytes \<Rightarrow> 'a list \<times> bytes" where
  "rd_list rd bs = (let (n, r) = rd_nat bs in rd_times rd n r)"

lemma reads_list:
  assumes "reads wr rd"
  shows "reads (wr_list wr) (rd_list rd)"
proof -
  have "rd_times rd (length xs) (concat (map wr xs) @ r) = (xs, r)" for xs r
    by (induction xs) (simp_all add: readsD [OF assms])
  then show ?thesis by (simp add: reads_def wr_list_def rd_list_def readsD [OF reads_nat])
qed

lemma decode_whole: "reads wr rd \<Longrightarrow> fst (rd (wr x)) = x"
  using readsD [of wr rd x "[]"] by simp

section \<open>The payload types\<close>

definition wr_int :: "int \<Rightarrow> bytes" where
  "wr_int = wr_map (\<lambda>i. (nat i, nat (- i))) (wr_pair wr_nat wr_nat)"
definition rd_int :: "bytes \<Rightarrow> int \<times> bytes" where
  "rd_int = rd_map (\<lambda>(a, b). int a - int b) (rd_pair rd_nat rd_nat)"
definition wr_u64 :: "u64 \<Rightarrow> bytes" where
  "wr_u64 = wr_map unat wr_nat"
definition rd_u64 :: "bytes \<Rightarrow> u64 \<times> bytes" where
  "rd_u64 = rd_map of_nat rd_nat"
definition wr_bytes :: "bytes \<Rightarrow> bytes" where
  "wr_bytes = wr_list (\<lambda>b. [b])"
definition rd_bytes :: "bytes \<Rightarrow> bytes \<times> bytes" where
  "rd_bytes = rd_list (\<lambda>bs. (hd bs, tl bs))"
definition wr_string :: "string \<Rightarrow> bytes" where
  "wr_string = wr_map bytes_of_string wr_bytes"
definition rd_string :: "bytes \<Rightarrow> string \<times> bytes" where
  "rd_string = rd_map string_of_bytes rd_bytes"

lemma reads_basic: "reads wr_int rd_int" "reads wr_u64 rd_u64" "reads wr_bytes rd_bytes" "reads wr_string rd_string"
proof -
  show "reads wr_int rd_int" unfolding wr_int_def rd_int_def
    by (rule reads_map) (auto intro: reads_pair reads_nat)
  show "reads wr_u64 rd_u64" unfolding wr_u64_def rd_u64_def
    by (rule reads_map) (auto intro: reads_nat)
  show b: "reads wr_bytes rd_bytes" unfolding wr_bytes_def rd_bytes_def
    by (rule reads_list) (simp add: reads_def)
  show "reads wr_string rd_string" unfolding wr_string_def rd_string_def
    by (rule reads_map [OF b]) simp
qed

lemmas reads_rules = reads_basic reads_pair reads_list

definition wr_vote :: "u64 \<times> u64 \<times> bytes \<times> string \<Rightarrow> bytes" where
  "wr_vote = wr_pair wr_u64 (wr_pair wr_u64 (wr_pair wr_bytes wr_string))"
definition rd_vote :: "bytes \<Rightarrow> (u64 \<times> u64 \<times> bytes \<times> string) \<times> bytes" where
  "rd_vote = rd_pair rd_u64 (rd_pair rd_u64 (rd_pair rd_bytes rd_string))"

lemma reads_vote: "reads wr_vote rd_vote"
  unfolding wr_vote_def rd_vote_def by (intro reads_rules)

definition wr_prepare :: "PrepareMsg \<Rightarrow> bytes" where
  "wr_prepare = wr_map (\<lambda>p. (pView p, pSequenceNum p, pDigest p, pNodeID p)) wr_vote"
definition rd_prepare :: "bytes \<Rightarrow> PrepareMsg \<times> bytes" where
  "rd_prepare = rd_map (\<lambda>(v, n, d, i). NewPrepareMsg v n d i) rd_vote"

definition wr_commit :: "CommitMsg \<Rightarrow> bytes" where
  "wr_commit = wr_map (\<lambda>p. (cView p, cSequenceNum p, cDigest p, cNodeID p)) wr_vote"
definition rd_commit :: "bytes \<Rightarrow> CommitMsg \<times> bytes" where
  "rd_commit = rd_map (\<lambda>(v, n, d, i). NewCommitMsg v n d i) rd_vote"

lemma reads_votes: "reads wr_prepare rd_prepare" "reads wr_commit rd_commit"
  unfolding wr_prepare_def rd_prepare_def wr_commit_def rd_commit_def
  by (rule reads_map [OF reads_vote], simp add: NewPrepareMsg_def NewCommitMsg_def)+

definition wr_header :: "BlockHeader \<Rightarrow> bytes" where
  "wr_header = wr_map (\<lambda>h. (hHeight h, hPrevHash h, hTimestamp h, hProposerID h, hStateRoot h, hTxRoot h, hView h, hSequenceNum h))
     (wr_pair wr_u64 (wr_pair wr_bytes (wr_pair wr_int (wr_pair wr_string
       (wr_pair wr_bytes (wr_pair wr_bytes (wr_pair wr_u64 wr_u64)))))))"
definition rd_header :: "bytes \<Rightarrow> BlockHeader \<times> bytes" where
  "rd_header = rd_map (\<lambda>(a, b, c, d, e, f, g, h). \<lparr>hHeight = a, hPrevHash = b, hTimestamp = c, hProposerID = d,
       hStateRoot = e, hTxRoot = f, hView = g, hSequenceNum = h\<rparr>)
     (rd_pair rd_u64 (rd_pair rd_bytes (rd_pair rd_int (rd_pair rd_string
       (rd_pair rd_bytes (rd_pair rd_bytes (rd_pair rd_u64 rd_u64)))))))"

definition wr_tx :: "Transaction \<Rightarrow> bytes" where
  "wr_tx = wr_map (\<lambda>t. (txID t, txData t, txTimestamp t, txSignature t, txFrom t))
     (wr_pair wr_string (wr_pair wr_bytes (wr_pair wr_int (wr_pair wr_bytes wr_string))))"
definition rd_tx :: "bytes \<Rightarrow> Transaction \<times> bytes" where
  "rd_tx = rd_map (\<lambda>(a, b, c, d, e). \<lparr>txID = a, txData = b, txTimestamp = c, txSignature = d, txFrom = e\<rparr>)
     (rd_pair rd_string (rd_pair rd_bytes (rd_pair rd_int (rd_pair rd_bytes rd_string))))"

definition wr_block :: "Block \<Rightarrow> bytes" where
  "wr_block = wr_map (\<lambda>b. (bHeader b, bTransactions b, bHash b)) (wr_pair wr_header (wr_pair (wr_list wr_tx) wr_bytes))"
definition rd_block :: "bytes \<Rightarrow> Block \<times> bytes" where
  "rd_block = rd_map (\<lambda>(h, t, x). \<lparr>bHeader = h, bTransactions = t, bHash = x\<rparr>)
     (rd_pair rd_header (rd_pair (rd_list rd_tx) rd_bytes))"

lemma reads_block: "reads wr_header rd_header" "reads wr_tx rd_tx" "reads wr_block rd_block"
proof -
  show h: "reads wr_header rd_header" unfolding wr_header_def rd_header_def
    by (rule reads_map) (intro reads_rules, simp)
  show t: "reads wr_tx rd_tx" unfolding wr_tx_def rd_tx_def
    by (rule reads_map) (intro reads_rules, simp)
  show "reads wr_block rd_block" unfolding wr_block_def rd_block_def
    by (rule reads_map) (intro reads_rules h t, simp)
qed

definition wr_opt :: "('a \<Rightarrow> bytes) \<Rightarrow> 'a option \<Rightarrow> bytes" where
  "wr_opt wr = wr_map (\<lambda>x. case x of None \<Rightarrow> [] | Some y \<Rightarrow> [y]) (wr_list wr)"
definition rd_opt :: "(bytes \<Rightarrow> 'a \<times> bytes) \<Rightarrow> bytes \<Rightarrow> 'a option \<times> bytes" where
  "rd_opt rd = rd_map (\<lambda>xs. case xs of [] \<Rightarrow> None | y # _ \<Rightarrow> Some y) (rd_list rd)"

lemma reads_opt: "reads wr rd \<Longrightarrow> reads (wr_opt wr) (rd_opt rd)"
  unfolding wr_opt_def rd_opt_def by (rule reads_map [OF reads_list]) (simp_all split: option.split)

definition wr_pre_prepare :: "PrePrepareMsg \<Rightarrow> bytes" where
  "wr_pre_prepare = wr_map (\<lambda>p. (ppView p, ppSequenceNum p, ppDigest p, ppBlock p, ppPrimaryID p))
     (wr_pair wr_u64 (wr_pair wr_u64 (wr_pair wr_bytes (wr_pair (wr_opt wr_block) wr_string))))"
definition rd_pre_prepare :: "bytes \<Rightarrow> PrePrepareMsg \<times> bytes" where
  "rd_pre_prepare = rd_map (\<lambda>(v, n, d, b, i). \<lparr>ppView = v, ppSequenceNum = n, ppDigest = d, ppBlock = b, ppPrimaryID = i\<rparr>)
     (rd_pair rd_u64 (rd_pair rd_u64 (rd_pair rd_bytes (rd_pair (rd_opt rd_block) rd_string))))"

lemma reads_pre_prepare: "reads wr_pre_prepare rd_pre_prepare"
  unfolding wr_pre_prepare_def rd_pre_prepare_def
  by (rule reads_map) (intro reads_rules reads_opt reads_block, simp)

definition wr_checkpoint :: "Checkpoint \<Rightarrow> bytes" where
  "wr_checkpoint = wr_map (\<lambda>c. (cpSequenceNum c, cpDigest c, cpNodeID c)) (wr_pair wr_u64 (wr_pair wr_bytes wr_string))"
definition rd_checkpoint :: "bytes \<Rightarrow> Checkpoint \<times> bytes" where
  "rd_checkpoint = rd_map (\<lambda>(n, d, i). \<lparr>cpSequenceNum = n, cpDigest = d, cpNodeID = i\<rparr>)
     (rd_pair rd_u64 (rd_pair rd_bytes rd_string))"
definition wr_cert :: "PreparedCert \<Rightarrow> bytes" where
  "wr_cert = wr_map (\<lambda>c. (pcPrePrepare c, pcPrepares c)) (wr_pair wr_pre_prepare (wr_list wr_prepare))"
definition rd_cert :: "bytes \<Rightarrow> PreparedCert \<times> bytes" where
  "rd_cert = rd_map (\<lambda>(p, ps). \<lparr>pcPrePrepare = p, pcPrepares = ps\<rparr>) (rd_pair rd_pre_prepare (rd_list rd_prepare))"
definition wr_view_change :: "ViewChangeMsg \<Rightarrow> bytes" where
  "wr_view_change = wr_map (\<lambda>m. (vcNewView m, vcLastSeqNum m, vcCheckpoints m, vcPreparedSet m, vcNodeID m))
     (wr_pair wr_u64 (wr_pair wr_u64 (wr_pair (wr_list wr_checkpoint) (wr_pair (wr_list wr_cert) wr_string))))"
definition rd_view_change :: "bytes \<Rightarrow> ViewChangeMsg \<times> bytes" where
  "rd_view_change = rd_map (\<lambda>(v, n, c, p, i). \<lparr>vcNewView = v, vcLastSeqNum = n, vcCheckpoints = c, vcPreparedSet = p, vcNodeID = i\<rparr>)
     (rd_pair rd_u64 (rd_pair rd_u64 (rd_pair (rd_list rd_checkpoint) (rd_pair (rd_list rd_cert) rd_string))))"
definition wr_new_view :: "NewViewMsg \<Rightarrow> bytes" where
  "wr_new_view = wr_map (\<lambda>m. (nvView m, nvViewChangeMsgs m, nvPrePrepareMsgs m, nvNewPrimaryID m))
     (wr_pair wr_u64 (wr_pair (wr_list wr_view_change) (wr_pair (wr_list wr_pre_prepare) wr_string)))"
definition rd_new_view :: "bytes \<Rightarrow> NewViewMsg \<times> bytes" where
  "rd_new_view = rd_map (\<lambda>(v, c, p, i). \<lparr>nvView = v, nvViewChangeMsgs = c, nvPrePrepareMsgs = p, nvNewPrimaryID = i\<rparr>)
     (rd_pair rd_u64 (rd_pair (rd_list rd_view_change) (rd_pair (rd_list rd_pre_prepare) rd_string)))"

lemma reads_view_change: "reads wr_checkpoint rd_checkpoint" "reads wr_cert rd_cert"
  "reads wr_view_change rd_view_change" "reads wr_new_view rd_new_view"
proof -
  show c: "reads wr_checkpoint rd_checkpoint" unfolding wr_checkpoint_def rd_checkpoint_def
    by (rule reads_map) (intro reads_rules, simp)
  show p: "reads wr_cert rd_cert" unfolding wr_cert_def rd_cert_def
    by (rule reads_map) (intro reads_rules reads_pre_prepare reads_votes, simp)
  show v: "reads wr_view_change rd_view_change" unfolding wr_view_change_def rd_view_change_def
    by (rule reads_map) (intro reads_rules c p, simp)
  show "reads wr_new_view rd_new_view" unfolding wr_new_view_def rd_new_view_def
    by (rule reads_map) (intro reads_rules v reads_pre_prepare, simp)
qed

section \<open>The codec\<close>

definition sample_codec :: codec where
  "sample_codec = \<lparr>
     enc_pre_prepare = wr_pre_prepare, dec_pre_prepare = (\<lambda>bs. Some (fst (rd_pre_prepare bs))),
     enc_prepare = wr_prepare, dec_prepare = (\<lambda>bs. Some (fst (rd_prepare bs))),
     enc_commit = wr_commit, dec_commit = (\<lambda>bs. Some (fst (rd_commit bs))),
     enc_view_change = wr_view_change, dec_view_change = (\<lambda>bs. Some (fst (rd_view_change bs))),
     enc_new_view = wr_new_view, dec_new_view = (\<lambda>bs. Some (fst (rd_new_view bs)))\<rparr>"

text \<open>What the code relies on of \<open>encoding/json\<close>: a payload it encodes decodes to itself.\<close>

definition codec_ok :: "codec \<Rightarrow> bool" where
  "codec_ok C \<longleftrightarrow> (\<forall>p. dec_pre_prepare C (enc_pre_prepare C p) = Some p) \<and>
     (\<forall>p. dec_prepare C (enc_prepare C p) = Some p) \<and> (\<forall>c. dec_commit C (enc_commit C c) = Some c) \<and>
     (\<forall>m. dec_view_change C (enc_view_change C m) = Some m) \<and> (\<forall>m. dec_new_view C (enc_new_view C m) = Some m)"

lemma codec_okD [simp]:
  assumes "codec_ok C"
  shows "dec_pre_prepare C (enc_pre_prepare C p) = Some p" "dec_prepare C (enc_prepare C q) = Some q"
    "dec_commit C (enc_commit C c) = Some c" "dec_view_change C (enc_view_change C vc) = Some vc"
    "dec_new_view C (enc_new_view C nv) = Some nv"
  using assms by (simp_all add: codec_ok_def)

lemma codec_ok_sample [simp]: "codec_ok sample_codec"
  by (simp add: codec_ok_def sample_codec_def decode_whole reads_pre_prepare reads_votes reads_view_change)

end
