(* ===== verification/Kv_App.thy ===== *)
theory Kv_App
  imports Sample_Codec
begin

text \<open>
  \<open>abci/app.go\<close>: the built-in key-value application. Blocks are executed on the working state,
  \<open>Commit\<close> copies it to the committed state that \<open>Query\<close> reads. The JSON forms of an operation
  and of the state (\<open>encoding/json\<close>) are the record \<open>app_codec\<close>; \<open>ord\<close> is the order in which
  \<open>range\<close> visits the state while it is copied.
\<close>

section \<open>State\<close>

record Operation =
  opType :: string
  opKey :: string
  opValue :: string

type_synonym kv = "(string, bytes) gomap"

record app_codec =
  json_op :: "bytes \<Rightarrow> Operation option"
  json_state :: "kv \<Rightarrow> bytes"
  unjson_state :: "bytes \<Rightarrow> kv option"

record Application =
  apState :: kv
  apCommitted :: kv
  apPending :: "Transaction list"
  apHistory :: "Block list"
  apHeight :: u64
  apHash :: bytes

datatype app_error =
  Unknown_Operation string | Tx_Failed string app_error | Block_Is_Nil | Invalid_Tx string app_error
  | Tx_ID_Empty | Tx_Data_Empty | Key_Not_Found string | Bad_Snapshot

definition NewApplication :: Application where
  "NewApplication = \<lparr>apState = [], apCommitted = [], apPending = [], apHistory = [], apHeight = 0, apHash = []\<rparr>"

section \<open>Executing\<close>

definition executeTx :: "app_codec \<Rightarrow> Transaction \<Rightarrow> Application \<Rightarrow> Application \<times> app_error option" where
  "executeTx C tx app =
     (case json_op C (txData tx) of
        None \<Rightarrow> (app\<lparr>apState := go_put (txID tx) (txData tx) (apState app)\<rparr>, None)
      | Some op \<Rightarrow>
          if opType op = ''set'' then
            (app\<lparr>apState := go_put (opKey op) (bytes_of_string (opValue op)) (apState app)\<rparr>, None)
          else if opType op = ''delete'' then
            (app\<lparr>apState := go_del (opKey op) (apState app)\<rparr>, None)
          else (app, Some (Unknown_Operation (opType op))))"

text \<open>The loop of \<open>ExecuteBlock\<close>: it stops at the first transaction that fails.\<close>

fun execute_txs :: "app_codec \<Rightarrow> Transaction list \<Rightarrow> Application \<Rightarrow> Application \<times> app_error option" where
  "execute_txs C [] app = (app, None)"
| "execute_txs C (tx # txs) app =
     (case executeTx C tx app of
        (app, Some err) \<Rightarrow> (app, Some (Tx_Failed (txID tx) err))
      | (app, None) \<Rightarrow> execute_txs C txs app)"

definition computeAppHash :: "app_codec \<Rightarrow> Application \<Rightarrow> bytes" where
  "computeAppHash C app =
     (let data = json_state C (apState app)
      in fold (\<lambda>(i, b) hash. hash[i mod 32 := xor (hash ! (i mod 32)) b]) (enumerate 0 data) (replicate 32 0))"

definition ExecuteBlock :: "app_codec \<Rightarrow> Block \<Rightarrow> Application \<Rightarrow> Application \<times> (app_error + bytes)" where
  "ExecuteBlock C block app =
     (case execute_txs C (bTransactions block) app of
        (app, Some err) \<Rightarrow> (app, Inl err)
      | (app, None) \<Rightarrow>
          let app = app\<lparr>apHash := computeAppHash C app\<rparr> in (app, Inr (apHash app)))"

section \<open>Validating\<close>

definition validateTx :: "Transaction \<Rightarrow> app_error option" where
  "validateTx tx =
     (if txID tx = [] then Some Tx_ID_Empty else if length (txData tx) = 0 then Some Tx_Data_Empty else None)"

fun validate_txs :: "Transaction list \<Rightarrow> app_error option" where
  "validate_txs [] = None"
| "validate_txs (tx # txs) =
     (case validateTx tx of Some err \<Rightarrow> Some (Invalid_Tx (txID tx) err) | None \<Rightarrow> validate_txs txs)"

definition ValidateBlock :: "Block option \<Rightarrow> app_error option" where
  "ValidateBlock block = (case block of None \<Rightarrow> Some Block_Is_Nil | Some b \<Rightarrow> validate_txs (bTransactions b))"

definition GetPendingTransactions :: "Application \<Rightarrow> Application \<times> Transaction list" where
  "GetPendingTransactions app = (app\<lparr>apPending := []\<rparr>, apPending app)"

definition AddPendingTransaction :: "Transaction \<Rightarrow> Application \<Rightarrow> Application \<times> app_error option" where
  "AddPendingTransaction tx app =
     (case validateTx tx of
        Some err \<Rightarrow> (app, Some err)
      | None \<Rightarrow> (app\<lparr>apPending := apPending app @ [tx]\<rparr>, None))"

definition app_CheckTx :: "Transaction \<Rightarrow> app_error option" where
  "app_CheckTx tx = validateTx tx"

section \<open>Committing and reading\<close>

definition copy_map :: "(('k \<times> 'v) list \<Rightarrow> ('k \<times> 'v) list) \<Rightarrow> ('k, 'v) gomap \<Rightarrow> ('k, 'v) gomap" where
  "copy_map ord m = fold (\<lambda>(k, v) c. go_put k v c) (ord m) []"

definition app_Commit :: "((string \<times> bytes) list \<Rightarrow> (string \<times> bytes) list) \<Rightarrow> Block \<Rightarrow> Application \<Rightarrow> Application" where
  "app_Commit ord block app =
     app\<lparr>apCommitted := copy_map ord (apState app), apHeight := hHeight (bHeader block),
         apHistory := apHistory app @ [block]\<rparr>"

definition Query :: "string \<Rightarrow> Application \<Rightarrow> app_error + bytes" where
  "Query key app = (case go_get (apCommitted app) key of None \<Rightarrow> Inl (Key_Not_Found key) | Some v \<Rightarrow> Inr v)"

definition app_GetHeight :: "Application \<Rightarrow> u64" where
  "app_GetHeight app = apHeight app"

definition GetAppHash :: "Application \<Rightarrow> bytes" where
  "GetAppHash app = apHash app"

definition GetBlockHistory :: "Application \<Rightarrow> Block list" where
  "GetBlockHistory app = apHistory app"

record AppInfo =
  inVersion :: string
  inAppVersion :: u64
  inLastBlockHeight :: u64
  inLastBlockAppHash :: bytes

definition GetInfo :: "Application \<Rightarrow> AppInfo" where
  "GetInfo app = \<lparr>inVersion = ''1.0.0'', inAppVersion = 1, inLastBlockHeight = apHeight app,
     inLastBlockAppHash = apHash app\<rparr>"

definition app_InitChain :: "app_codec \<Rightarrow> Validator list \<Rightarrow> Application \<Rightarrow> Application" where
  "app_InitChain C validators app =
     (let app = app\<lparr>apState := [], apCommitted := [], apHeight := 0\<rparr>
      in app\<lparr>apHash := computeAppHash C app\<rparr>)"

definition BeginBlock :: "u64 \<Rightarrow> string \<Rightarrow> Application \<Rightarrow> string option" where
  "BeginBlock height proposer app = None"

definition EndBlock :: "u64 \<Rightarrow> Application \<Rightarrow> Validator list option" where
  "EndBlock height app = None"

record DeliverTxResponse =
  dtCode :: "32 word"
  dtLog :: "app_error option"

definition DeliverTx :: "app_codec \<Rightarrow> Transaction \<Rightarrow> Application \<Rightarrow> Application \<times> DeliverTxResponse \<times> app_error option" where
  "DeliverTx C tx app =
     (case executeTx C tx app of
        (app, Some err) \<Rightarrow> (app, \<lparr>dtCode = 1, dtLog = Some err\<rparr>, Some err)
      | (app, None) \<Rightarrow> (app, \<lparr>dtCode = 0, dtLog = None\<rparr>, None))"

definition Snapshot :: "app_codec \<Rightarrow> Application \<Rightarrow> bytes" where
  "Snapshot C app = json_state C (apCommitted app)"

definition RestoreSnapshot ::
  "app_codec \<Rightarrow> ((string \<times> bytes) list \<Rightarrow> (string \<times> bytes) list) \<Rightarrow> bytes \<Rightarrow> Application \<Rightarrow> Application \<times> app_error option" where
  "RestoreSnapshot C ord data app =
     (case unjson_state C data of
        None \<Rightarrow> (app, Some Bad_Snapshot)
      | Some state \<Rightarrow> (app\<lparr>apState := state, apCommitted := copy_map ord state\<rparr>, None))"

section \<open>Lemmas\<close>

definition app_ok :: "Application \<Rightarrow> bool" where
  "app_ok app \<longleftrightarrow> go_wf (apState app) \<and> go_wf (apCommitted app)"

lemma fold_put_get:
  "go_get (fold (\<lambda>(k, v) c. go_put k v c) xs m) = go_get m ++ go_get (rev xs)"
proof (induction xs arbitrary: m)
  case (Cons x xs)
  obtain k v where x: "x = (k, v)" by (cases x)
  show ?case by (rule ext) (simp add: x Cons.IH map_add_def split: option.split)
qed simp

lemma fold_put_wf: "go_wf m \<Longrightarrow> go_wf (fold (\<lambda>(k, v) c. go_put k v c) xs m)"
  by (induction xs arbitrary: m) auto

lemma copy_map_get:
  assumes "go_wf m" and "go_order ord"
  shows "go_get (copy_map ord m) = go_get m" and "go_wf (copy_map ord m)"
proof -
  have "mset (ord m) = mset m" using assms(2) by (simp add: go_order_def)
  then have "distinct (map fst (rev (ord m)))" "set (rev (ord m)) = set m"
    using assms(1) unfolding go_wf_def
    by (metis distinct_rev mset_eq_imp_distinct_iff mset_map rev_map) (metis \<open>mset (ord m) = mset m\<close> set_mset_mset set_rev)
  then have "map_of (rev (ord m)) = map_of m"
    using assms(1) by (intro map_of_inject_set [THEN iffD2]) (simp_all add: go_wf_def)
  then show "go_get (copy_map ord m) = go_get m"
    by (simp add: copy_map_def fold_put_get)
  show "go_wf (copy_map ord m)" unfolding copy_map_def by (rule fold_put_wf) simp
qed

section \<open>What a block does to the state\<close>

text \<open>
  What a transaction writes under a key: nothing (\<open>None\<close>), a deletion, or a value. A
  transaction is bad when its operation is neither \<open>set\<close> nor \<open>delete\<close>.
\<close>

definition tx_bad :: "app_codec \<Rightarrow> Transaction \<Rightarrow> bool" where
  "tx_bad C tx = (case json_op C (txData tx) of None \<Rightarrow> False
     | Some op \<Rightarrow> opType op \<noteq> ''set'' \<and> opType op \<noteq> ''delete'')"

definition tx_write :: "app_codec \<Rightarrow> string \<Rightarrow> Transaction \<Rightarrow> bytes option option" where
  "tx_write C k tx =
     (case json_op C (txData tx) of
        None \<Rightarrow> if txID tx = k then Some (Some (txData tx)) else None
      | Some op \<Rightarrow> if opKey op \<noteq> k then None
          else if opType op = ''set'' then Some (Some (bytes_of_string (opValue op))) else Some None)"

text \<open>The value of a key after some transactions: the last one that writes it decides.\<close>

definition last_write :: "app_codec \<Rightarrow> string \<Rightarrow> Transaction list \<Rightarrow> bytes option \<Rightarrow> bytes option" where
  "last_write C k txs old = (case List.map_filter (tx_write C k) (rev txs) of [] \<Rightarrow> old | w # _ \<Rightarrow> w)"

lemma last_write_simps:
  "last_write C k [] old = old"
  "last_write C k (tx # txs) old = last_write C k txs (case tx_write C k tx of None \<Rightarrow> old | Some w \<Rightarrow> w)"
  by (simp_all add: last_write_def map_filter_def split: option.split list.split)

lemma executeTx_spec:
  "tx_bad C tx \<Longrightarrow> executeTx C tx app = (app, Some (Unknown_Operation (opType (the (json_op C (txData tx))))))"
  "\<not> tx_bad C tx \<Longrightarrow> snd (executeTx C tx app) = None"
  "\<not> tx_bad C tx \<Longrightarrow> go_get (apState (fst (executeTx C tx app))) k =
     (case tx_write C k tx of None \<Rightarrow> go_get (apState app) k | Some w \<Rightarrow> w)"
  "\<exists>m. fst (executeTx C tx app) = app\<lparr>apState := m\<rparr> \<and> (go_wf (apState app) \<longrightarrow> go_wf m)"
proof -
  show "executeTx C tx app = (app, Some (Unknown_Operation (opType (the (json_op C (txData tx))))))" if "tx_bad C tx"
    using that by (auto simp: executeTx_def tx_bad_def split: option.splits)
  show "snd (executeTx C tx app) = None" if "\<not> tx_bad C tx"
    using that by (auto simp: executeTx_def tx_bad_def split: option.splits)
  show "go_get (apState (fst (executeTx C tx app))) k =
     (case tx_write C k tx of None \<Rightarrow> go_get (apState app) k | Some w \<Rightarrow> w)" if "\<not> tx_bad C tx"
    using that by (auto simp: executeTx_def tx_bad_def tx_write_def split: option.splits)
  show "\<exists>m. fst (executeTx C tx app) = app\<lparr>apState := m\<rparr> \<and> (go_wf (apState app) \<longrightarrow> go_wf m)"
    by (rule exI [of _ "apState (fst (executeTx C tx app))"]) (auto simp: executeTx_def split: option.split)
qed

text \<open>What executing a list of transactions does: the good ones before the first bad one count.\<close>

definition executed_part :: "app_codec \<Rightarrow> Transaction list \<Rightarrow> Transaction list" where
  "executed_part C txs = takeWhile (\<lambda>tx. \<not> tx_bad C tx) txs"

lemma execute_txs_spec:
  assumes "execute_txs C txs app = (app', err)"
  shows "err = None \<longleftrightarrow> executed_part C txs = txs"
    and "go_get (apState app') k = last_write C k (executed_part C txs) (go_get (apState app) k)"
    and "\<exists>m. app' = app\<lparr>apState := m\<rparr> \<and> (go_wf (apState app) \<longrightarrow> go_wf m)"
proof -
  have self: "\<exists>m. app = app\<lparr>apState := m\<rparr> \<and> (go_wf (apState app) \<longrightarrow> go_wf m)" for app
    by (rule exI [of _ "apState app"]) simp
  have "(err = None \<longleftrightarrow> executed_part C txs = txs) \<and>
    go_get (apState app') k = last_write C k (executed_part C txs) (go_get (apState app) k) \<and>
    (\<exists>m. app' = app\<lparr>apState := m\<rparr> \<and> (go_wf (apState app) \<longrightarrow> go_wf m))"
    using assms
  proof (induction txs arbitrary: app)
    case Nil
    then show ?case using self [of app] by (simp add: executed_part_def last_write_simps)
  next
    case (Cons tx txs)
    show ?case
    proof (cases "tx_bad C tx")
      case True
      note executeTx_spec(1) [OF True, of app]
      with Cons.prems True show ?thesis using self [of app]
        by (auto simp: executed_part_def last_write_simps)
    next
      case False
      let ?a = "fst (executeTx C tx app)"
      obtain a where a: "executeTx C tx app = (a, None)"
        using executeTx_spec(2) [OF False, of app] by (cases "executeTx C tx app") simp
      with Cons.prems have "execute_txs C txs ?a = (app', err)" by simp
      note IH = Cons.IH [OF this]
      obtain m where m: "?a = app\<lparr>apState := m\<rparr>" "go_wf (apState app) \<longrightarrow> go_wf m"
        using executeTx_spec(4) by blast
      with IH have "\<exists>m'. app' = app\<lparr>apState := m'\<rparr> \<and> (go_wf (apState app) \<longrightarrow> go_wf m')" by auto
      with IH False executeTx_spec(3) [OF False, of app k] show ?thesis
        by (simp add: executed_part_def last_write_simps)
    qed
  qed
  then show "err = None \<longleftrightarrow> executed_part C txs = txs"
    and "go_get (apState app') k = last_write C k (executed_part C txs) (go_get (apState app) k)"
    and "\<exists>m. app' = app\<lparr>apState := m\<rparr> \<and> (go_wf (apState app) \<longrightarrow> go_wf m)" by blast+
qed

text \<open>
  C29. \<open>ExecuteBlock\<close> on every block and state. It succeeds exactly when no transaction is bad, and
  then returns the hash of the new state. In either case the working state is the old one with
  the transactions before the first bad one applied, the last write of a key winning: a failed
  block is not rolled back, although the hash keeps its old value. The committed state, and with
  it every \<open>Query\<close>, the height and the history do not change.
\<close>

theorem ExecuteBlock_correct:
  "case ExecuteBlock C b app of (app', r) \<Rightarrow>
     (\<exists>h. r = Inr h) = (executed_part C (bTransactions b) = bTransactions b) \<and>
     go_get (apState app') k = last_write C k (executed_part C (bTransactions b)) (go_get (apState app) k) \<and>
     (r = Inr (computeAppHash C app') \<and> GetAppHash app' = computeAppHash C app' \<or>
      isl r \<and> GetAppHash app' = GetAppHash app) \<and>
     Query k app' = Query k app \<and> app_GetHeight app' = app_GetHeight app \<and>
     GetBlockHistory app' = GetBlockHistory app"
proof -
  obtain a err where e: "execute_txs C (bTransactions b) app = (a, err)" by fastforce
  obtain m where m: "a = app\<lparr>apState := m\<rparr>" using execute_txs_spec(3) [OF e] by blast
  have h: "computeAppHash C (a\<lparr>apHash := x\<rparr>) = computeAppHash C a" for x
    by (simp add: computeAppHash_def)
  show ?thesis
  proof (cases err)
    case None
    then show ?thesis using e h execute_txs_spec(1,2) [OF e]
      by (simp add: ExecuteBlock_def Let_def Query_def GetAppHash_def app_GetHeight_def GetBlockHistory_def m)
  next
    case (Some x)
    then show ?thesis using e execute_txs_spec(1,2) [OF e]
      by (simp add: ExecuteBlock_def Query_def GetAppHash_def app_GetHeight_def GetBlockHistory_def m)
  qed
qed

text \<open>What the code relies on of \<open>encoding/json\<close> for the state: a map reads back with the same entries.\<close>

definition state_codec_ok :: "app_codec \<Rightarrow> bool" where
  "state_codec_ok C \<longleftrightarrow> (\<forall>m. go_wf m \<longrightarrow>
     (\<exists>m'. unjson_state C (json_state C m) = Some m' \<and> go_wf m' \<and> go_get m' = go_get m))"

text \<open>
  A snapshot taken after a commit restores what was committed: every \<open>Query\<close> of the restored
  application answers as the committed one did, and its working state is the one that was
  committed. The height and the application hash are not part of the snapshot: the restored
  application keeps its own.
\<close>

theorem snapshot_restores_committed_state:
  assumes "state_codec_ok C" and "go_order ord" "go_order ord'" and "go_wf (apState app)"
  shows "let app1 = app_Commit ord b app; (app2', err) = RestoreSnapshot C ord' (Snapshot C app1) app2 in
    err = None \<and> Query k app2' = Query k app1 \<and> go_get (apState app2') k = go_get (apState app) k \<and>
    app_GetHeight app1 = hHeight (bHeader b) \<and> app_GetHeight app2' = app_GetHeight app2 \<and>
    GetAppHash app2' = GetAppHash app2"
proof -
  note c = copy_map_get [OF assms(4,2)]
  obtain m' where m': "unjson_state C (json_state C (copy_map ord (apState app))) = Some m'"
    "go_wf m'" "go_get m' = go_get (apState app)"
    using assms(1) c unfolding state_codec_ok_def by metis
  with c copy_map_get(1) [OF m'(2) assms(3)] show ?thesis
    by (simp add: RestoreSnapshot_def Snapshot_def app_Commit_def Let_def Query_def app_GetHeight_def GetAppHash_def)
qed

definition sample_app_codec :: app_codec where
  "sample_app_codec = \<lparr>json_op = (\<lambda>d. None), json_state = wr_list (wr_pair wr_string wr_bytes),
     unjson_state = (\<lambda>bs. Some (fst (rd_list (rd_pair rd_string rd_bytes) bs)))\<rparr>"

lemma state_codec_ok_sample: "state_codec_ok sample_app_codec"
proof -
  have "reads (wr_list (wr_pair wr_string wr_bytes)) (rd_list (rd_pair rd_string rd_bytes))"
    by (intro reads_rules)
  then show ?thesis by (simp add: state_codec_ok_def sample_app_codec_def decode_whole)
qed

theorem snapshot_restores_committed_state_witness:
  "\<exists>app2'. RestoreSnapshot sample_app_codec rev
       (Snapshot sample_app_codec (app_Commit rev (NewBlock 0 7 [] ''node0'' 0 [])
          (NewApplication\<lparr>apState := [(''a'', [1])]\<rparr>))) NewApplication = (app2', None) \<and>
     Query ''a'' app2' = Inr [1] \<and> app_GetHeight app2' = 0"
proof -
  let ?app = "NewApplication\<lparr>apState := [(''a'', [1 :: byte])]\<rparr>"
  obtain app2' err where r: "RestoreSnapshot sample_app_codec rev
       (Snapshot sample_app_codec (app_Commit rev (NewBlock 0 7 [] ''node0'' 0 []) ?app)) NewApplication = (app2', err)"
    by fastforce
  have "go_wf (apState ?app)" by (simp add: go_wf_def)
  from snapshot_restores_committed_state [OF state_codec_ok_sample go_order_rev go_order_rev this,
      of "NewBlock 0 7 [] ''node0'' 0 []" NewApplication "''a''"] r
  show ?thesis
    by (simp add: Let_def Query_def app_Commit_def copy_map_def app_GetHeight_def NewApplication_def)
qed

end
