(* ===== verification/Adapters.thy ===== *)
theory Adapters
  imports Adapter Kv_App
begin

text \<open>
  The application adapters that run in the process: \<open>consensus/pbft/abci_noop.go\<close>,
  \<open>MockABCIAdapter\<close> of \<open>consensus/pbft/abci_adapter.go\<close>, and \<open>consensus/pbft/abci_local.go\<close>,
  which drives the key-value application. Each is an \<open>adapter_ops\<close> on its own state; the laws an
  engine relies on are a locale, interpreted on all three.
\<close>

section \<open>The no-op adapter\<close>

record NoopABCIAdapter =
  noLastAppHash :: bytes
  noLastHeight :: int

definition NewNoopABCIAdapter :: NoopABCIAdapter where
  "NewNoopABCIAdapter = \<lparr>noLastAppHash = replicate 32 0, noLastHeight = 0\<rparr>"

definition success_result :: ABCITxResult where
  "success_result = \<lparr>trCode = 0, trData = [], trLog = ''success'', trInfo = [], trGasWanted = 0, trGasUsed = 0\<rparr>"

definition no_FinalizeBlock :: "Block \<Rightarrow> NoopABCIAdapter \<Rightarrow> NoopABCIAdapter \<times> (string + ABCIExecutionResult)" where
  "no_FinalizeBlock block a =
     (let txResults = map (\<lambda>_. success_result) (bTransactions block);
          a = a\<lparr>noLastHeight := sint (hHeight (bHeader block))\<rparr>
      in (a, Inr \<lparr>erTxResults = txResults, erValidatorUpdates = [], erAppHash = noLastAppHash a\<rparr>))"

definition no_Commit :: "NoopABCIAdapter \<Rightarrow> NoopABCIAdapter \<times> (string + bytes \<times> int)" where
  "no_Commit a = (a, Inr (noLastAppHash a, 0))"

definition noop_adapter :: "NoopABCIAdapter adapter_ops" where
  "noop_adapter = \<lparr>
     ad_InitChain = (\<lambda>chainID validators appState a. (a, None)),
     ad_PrepareProposal = (\<lambda>height proposer txs a. (a, Inr txs)),
     ad_ProcessProposal = (\<lambda>height proposer txs hash a. (a, Inr True)),
     ad_FinalizeBlock = no_FinalizeBlock, ad_Commit = no_Commit,
     ad_CheckTx = (\<lambda>tx a. None),
     ad_GetLastAppHash = noLastAppHash, ad_GetLastHeight = noLastHeight,
     ad_SetLastAppHash = (\<lambda>hash a. a\<lparr>noLastAppHash := hash\<rparr>)\<rparr>"

section \<open>The mock adapter\<close>

record MockABCIAdapter =
  moLastHeight :: int
  moLastAppHash :: bytes
  moState :: "(string, bytes) gomap"

definition NewMockABCIAdapter :: MockABCIAdapter where
  "NewMockABCIAdapter = \<lparr>moLastHeight = 0, moLastAppHash = [], moState = []\<rparr>"

definition mo_InitChain :: "string \<Rightarrow> Validator list \<Rightarrow> bytes \<Rightarrow> MockABCIAdapter \<Rightarrow> MockABCIAdapter \<times> string option" where
  "mo_InitChain chainID validators appState m = (m\<lparr>moLastHeight := 0, moLastAppHash := replicate 32 0\<rparr>, None)"

definition mo_FinalizeBlock :: "Block \<Rightarrow> MockABCIAdapter \<Rightarrow> MockABCIAdapter \<times> (string + ABCIExecutionResult)" where
  "mo_FinalizeBlock block m =
     (let txResults = map (\<lambda>_. success_result) (bTransactions block);
          m = m\<lparr>moLastAppHash := bHash block\<rparr>
      in (m, Inr \<lparr>erTxResults = txResults, erValidatorUpdates = [], erAppHash = moLastAppHash m\<rparr>))"

text \<open>\<open>lastHeight++\<close> on an \<open>int64\<close>.\<close>

definition mo_Commit :: "MockABCIAdapter \<Rightarrow> MockABCIAdapter \<times> (string + bytes \<times> int)" where
  "mo_Commit m =
     (let m = m\<lparr>moLastHeight := sint (word_of_int (moLastHeight m) + 1 :: u64)\<rparr> in (m, Inr (moLastAppHash m, 0)))"

definition mock_adapter :: "MockABCIAdapter adapter_ops" where
  "mock_adapter = \<lparr>
     ad_InitChain = mo_InitChain,
     ad_PrepareProposal = (\<lambda>height proposer txs m. (m, Inr txs)),
     ad_ProcessProposal = (\<lambda>height proposer txs hash m. (m, Inr True)),
     ad_FinalizeBlock = mo_FinalizeBlock, ad_Commit = mo_Commit,
     ad_CheckTx = (\<lambda>tx m. None),
     ad_GetLastAppHash = moLastAppHash, ad_GetLastHeight = moLastHeight,
     ad_SetLastAppHash = (\<lambda>hash m. m\<lparr>moLastAppHash := hash\<rparr>)\<rparr>"

section \<open>The local adapter\<close>

record LocalABCIAdapter =
  loApp :: Application
  loLastAppHash :: bytes
  loLastHeight :: int
  loPendingBlock :: "Block option"

definition NewLocalABCIAdapter :: "Application \<Rightarrow> LocalABCIAdapter" where
  "NewLocalABCIAdapter app = \<lparr>loApp = app, loLastAppHash = [], loLastHeight = 0, loPendingBlock = None\<rparr>"

fun app_error_String :: "app_error \<Rightarrow> string" where
  "app_error_String (Unknown_Operation ty) = ''unknown operation type: '' @ ty"
| "app_error_String (Tx_Failed i e) = ''failed to execute tx '' @ i @ '': '' @ app_error_String e"
| "app_error_String Block_Is_Nil = ''block is nil''"
| "app_error_String (Invalid_Tx i e) = ''invalid tx '' @ i @ '': '' @ app_error_String e"
| "app_error_String Tx_ID_Empty = ''transaction ID is empty''"
| "app_error_String Tx_Data_Empty = ''transaction data is empty''"
| "app_error_String (Key_Not_Found k) = ''key not found: '' @ k"
| "app_error_String Bad_Snapshot = ''bad snapshot''"

definition lo_InitChain ::
  "app_codec \<Rightarrow> string \<Rightarrow> Validator list \<Rightarrow> bytes \<Rightarrow> LocalABCIAdapter \<Rightarrow> LocalABCIAdapter \<times> string option" where
  "lo_InitChain C chainID validators appState a =
     (let a = a\<lparr>loApp := app_InitChain C validators (loApp a)\<rparr>
      in (a\<lparr>loLastAppHash := GetAppHash (loApp a), loLastHeight := 0\<rparr>, None))"

text \<open>\<open>BeginBlock\<close> does nothing; \<open>EndBlock\<close> returns the validators to update, always none.\<close>

definition lo_FinalizeBlock ::
  "app_codec \<Rightarrow> Block \<Rightarrow> LocalABCIAdapter \<Rightarrow> LocalABCIAdapter \<times> (string + ABCIExecutionResult)" where
  "lo_FinalizeBlock C block a =
     (case ExecuteBlock C block (loApp a) of
        (app, Inl err) \<Rightarrow> (a\<lparr>loApp := app\<rparr>, Inl (app_error_String err))
      | (app, Inr appHash) \<Rightarrow>
          let a = a\<lparr>loApp := app\<rparr>;
              endResp = EndBlock (hHeight (bHeader block)) app;
              txResults = map (\<lambda>_. success_result) (bTransactions block);
              a = a\<lparr>loLastAppHash := appHash, loPendingBlock := Some block\<rparr>;
              validatorUpdates = (case endResp of None \<Rightarrow> []
                | Some vs \<Rightarrow> map (\<lambda>v. \<lparr>vuPubKey = No_Key, vuPower = vPower v\<rparr>) vs)
          in (a, Inr \<lparr>erTxResults = txResults, erValidatorUpdates = validatorUpdates, erAppHash = appHash\<rparr>))"

definition lo_Commit ::
  "((string \<times> bytes) list \<Rightarrow> (string \<times> bytes) list) \<Rightarrow> LocalABCIAdapter \<Rightarrow> LocalABCIAdapter \<times> (string + bytes \<times> int)" where
  "lo_Commit ord a =
     (let block = loPendingBlock a;
          a = a\<lparr>loPendingBlock := None\<rparr>;
          a = (case block of Some b \<Rightarrow> a\<lparr>loApp := app_Commit ord b (loApp a)\<rparr> | None \<Rightarrow> a);
          a = a\<lparr>loLastHeight := sint (app_GetHeight (loApp a)), loLastAppHash := GetAppHash (loApp a)\<rparr>
      in (a, Inr (loLastAppHash a, 0)))"

definition local_adapter ::
  "app_codec \<Rightarrow> ((string \<times> bytes) list \<Rightarrow> (string \<times> bytes) list) \<Rightarrow> LocalABCIAdapter adapter_ops" where
  "local_adapter C ord = \<lparr>
     ad_InitChain = lo_InitChain C,
     ad_PrepareProposal = (\<lambda>height proposer txs a. (a, Inr txs)),
     ad_ProcessProposal = (\<lambda>height proposer txs hash a. (a, Inr True)),
     ad_FinalizeBlock = lo_FinalizeBlock C, ad_Commit = lo_Commit ord,
     ad_CheckTx = (\<lambda>tx a. if length tx = 0 then Some ''transaction is empty'' else None),
     ad_GetLastAppHash = loLastAppHash, ad_GetLastHeight = loLastHeight,
     ad_SetLastAppHash = (\<lambda>hash a. a\<lparr>loLastAppHash := hash\<rparr>)\<rparr>"

section \<open>The laws\<close>

text \<open>
  Every built-in adapter takes proposals as they are and always commits; \<open>healthy a b\<close> are the
  states in which it also finalizes the block. An \<open>accepting_adapter\<close> is always healthy.
\<close>

locale builtin_adapter =
  fixes A :: "'a adapter_ops" and healthy :: "'a \<Rightarrow> Block \<Rightarrow> bool"
  assumes prepare_as_is: "ad_PrepareProposal A h p txs a = (a, Inr txs)"
    and process_accepts: "ad_ProcessProposal A h p txs d a = (a, Inr True)"
    and finalize_iff: "(\<exists>r. snd (ad_FinalizeBlock A b a) = Inr r) \<longleftrightarrow> healthy a b"
    and commit_total: "\<exists>r. snd (ad_Commit A a) = Inr r"
    and hash_set: "ad_GetLastAppHash A (ad_SetLastAppHash A d a) = d"
begin

lemma executes:
  assumes "healthy a b"
  obtains a1 r a2 h where "ad_FinalizeBlock A b a = (a1, Inr r)" "ad_Commit A a1 = (a2, Inr h)"
proof -
  obtain r where r: "snd (ad_FinalizeBlock A b a) = Inr r" using assms finalize_iff by blast
  obtain h where h: "snd (ad_Commit A (fst (ad_FinalizeBlock A b a))) = Inr h" using commit_total by blast
  show thesis
    by (rule that [of "fst (ad_FinalizeBlock A b a)" r "fst (ad_Commit A (fst (ad_FinalizeBlock A b a)))" h])
      (simp_all add: prod_eq_iff r h)
qed

lemma refuses:
  assumes "\<not> healthy a b"
  obtains a1 err where "ad_FinalizeBlock A b a = (a1, Inl err)"
  using assms finalize_iff [of b a] by (cases "ad_FinalizeBlock A b a"; cases "snd (ad_FinalizeBlock A b a)") auto

end

locale accepting_adapter = builtin_adapter A "\<lambda>a b. True" for A :: "'a adapter_ops"

interpretation noop: accepting_adapter noop_adapter
  by unfold_locales (simp_all add: noop_adapter_def no_FinalizeBlock_def no_Commit_def Let_def)

interpretation mock: accepting_adapter mock_adapter
  by unfold_locales (simp_all add: mock_adapter_def mo_FinalizeBlock_def mo_Commit_def Let_def)

text \<open>The local adapter fails on a block with an unknown operation.\<close>

definition local_healthy :: "app_codec \<Rightarrow> LocalABCIAdapter \<Rightarrow> Block \<Rightarrow> bool" where
  "local_healthy C a b = (executed_part C (bTransactions b) = bTransactions b)"

lemma lo_FinalizeBlock_iff: "(\<exists>r. snd (lo_FinalizeBlock C b a) = Inr r) \<longleftrightarrow> local_healthy C a b"
proof -
  obtain app err where e: "execute_txs C (bTransactions b) (loApp a) = (app, err)" by fastforce
  show ?thesis using execute_txs_spec(1) [OF e] e
    by (cases err) (simp_all add: lo_FinalizeBlock_def local_healthy_def ExecuteBlock_def Let_def)
qed

interpretation local_ad: builtin_adapter "local_adapter C ord" "local_healthy C"
  by unfold_locales (simp_all add: local_adapter_def lo_FinalizeBlock_iff lo_Commit_def Let_def)

section \<open>A failed block\<close>

lemma lo_FinalizeBlock_state:
  assumes "lo_FinalizeBlock C b a = (a', r)"
  shows "go_get (apState (loApp a')) k =
      last_write C k (executed_part C (bTransactions b)) (go_get (apState (loApp a)) k)"
    and "go_wf (apState (loApp a)) \<Longrightarrow> go_wf (apState (loApp a'))"
    and "\<exists>r'. r = Inr r' \<Longrightarrow> loPendingBlock a' = Some b"
    and "\<exists>r'. r = Inr r' \<Longrightarrow> executed_part C (bTransactions b) = bTransactions b"
proof -
  obtain app err where e: "execute_txs C (bTransactions b) (loApp a) = (app, err)" by fastforce
  note x = execute_txs_spec [OF e]
  obtain m where m: "app = (loApp a)\<lparr>apState := m\<rparr>" "go_wf (apState (loApp a)) \<longrightarrow> go_wf m" using x(3) by blast
  have s: "apState (loApp a') = apState app" and
    p: "(\<exists>r'. r = Inr r') \<longrightarrow> err = None \<and> loPendingBlock a' = Some b"
    using assms e by (cases err; auto simp: lo_FinalizeBlock_def ExecuteBlock_def Let_def)+
  show "go_get (apState (loApp a')) k =
      last_write C k (executed_part C (bTransactions b)) (go_get (apState (loApp a)) k)"
    using x(2) s by simp
  show "go_wf (apState (loApp a)) \<Longrightarrow> go_wf (apState (loApp a'))" using m s by simp
  show "\<exists>r'. r = Inr r' \<Longrightarrow> loPendingBlock a' = Some b"
    "\<exists>r'. r = Inr r' \<Longrightarrow> executed_part C (bTransactions b) = bTransactions b" using p x(1) by simp_all
qed

text \<open>
  The built-in application publishes writes of blocks that failed. If finalizing \<open>b1\<close> fails,
  and the next block \<open>b2\<close> is finalized and committed, then a \<open>Query\<close> sees the transactions of
  \<open>b1\<close> up to its bad one, overwritten by those of \<open>b2\<close>: the failed block's writes are committed
  although its execution returned an error. For the transactions of \<open>b2\<close> alone the answer is the
  value its last write gives (take \<open>b1\<close> without transactions before the bad one).
\<close>

theorem failed_block_leaks:
  assumes "lo_FinalizeBlock C b1 a = (a1, Inl err)" and "lo_FinalizeBlock C b2 a1 = (a2, Inr r)"
    and "lo_Commit ord a2 = (a3, Inr (h, ret))"
    and "go_order ord" and "go_wf (apState (loApp a))"
  shows "Query k (loApp a3) =
    (case last_write C k (bTransactions b2)
            (last_write C k (executed_part C (bTransactions b1)) (go_get (apState (loApp a)) k)) of
       None \<Rightarrow> Inl (Key_Not_Found k) | Some v \<Rightarrow> Inr v) \<and>
    loLastHeight a3 = sint (hHeight (bHeader b2)) \<and> h = GetAppHash (loApp a3)"
proof -
  note 1 = lo_FinalizeBlock_state [OF assms(1)] and 2 = lo_FinalizeBlock_state [OF assms(2)]
  have wf: "go_wf (apState (loApp a2))" using 1(2) 2(2) assms(5) by blast
  have ex: "executed_part C (bTransactions b2) = bTransactions b2" and pb: "loPendingBlock a2 = Some b2"
    using 2(3,4) by simp_all
  have "apCommitted (loApp a3) = copy_map ord (apState (loApp a2))" "loLastHeight a3 = sint (hHeight (bHeader b2))"
    "h = GetAppHash (loApp a3)"
    using assms(3) pb by (auto simp: lo_Commit_def Let_def app_Commit_def app_GetHeight_def)
  with copy_map_get(1) [OF wf assms(4)] show ?thesis
    by (simp add: Query_def 2(1) [of k] 1(1) [of k] ex)
qed

definition picky_codec :: app_codec where
  "picky_codec = sample_app_codec\<lparr>json_op :=
     (\<lambda>d. if d = [9] then Some \<lparr>opType = ''mint'', opKey = [], opValue = []\<rparr> else None)\<rparr>"

definition raw_tx :: "string \<Rightarrow> bytes \<Rightarrow> Transaction" where
  "raw_tx i d = \<lparr>txID = i, txData = d, txTimestamp = 0, txSignature = [], txFrom = []\<rparr>"

definition raw_block :: "u64 \<Rightarrow> Transaction list \<Rightarrow> Block" where
  "raw_block n txs = \<lparr>bHeader = \<lparr>hHeight = n, hPrevHash = [], hTimestamp = 0, hProposerID = ''node0'',
      hStateRoot = [], hTxRoot = [], hView = 0, hSequenceNum = n\<rparr>, bTransactions = txs, bHash = [of_nat (unat n)]\<rparr>"

theorem failed_block_leaks_witness:
  "\<exists>a1 err a2 r a3 h. lo_FinalizeBlock picky_codec (raw_block 1 [raw_tx ''a'' [5], raw_tx ''b'' [9]])
       (NewLocalABCIAdapter NewApplication) = (a1, Inl err) \<and>
     lo_FinalizeBlock picky_codec (raw_block 2 [raw_tx ''c'' [6]]) a1 = (a2, Inr r) \<and>
     lo_Commit rev a2 = (a3, Inr (h, 0)) \<and> Query ''a'' (loApp a3) = Inr [5]"
proof -
  let ?b1 = "raw_block 1 [raw_tx ''a'' [5], raw_tx ''b'' [9]]" and ?b2 = "raw_block 2 [raw_tx ''c'' [6]]"
  let ?a = "NewLocalABCIAdapter NewApplication"
  have part: "executed_part picky_codec (bTransactions ?b1) = [raw_tx ''a'' [5]]"
    "executed_part picky_codec (bTransactions ?b2) = bTransactions ?b2"
    by (simp_all add: executed_part_def tx_bad_def picky_codec_def raw_block_def raw_tx_def)
  have "\<not> local_healthy picky_codec ?a ?b1" using part(1) by (simp add: local_healthy_def raw_block_def)
  from local_ad.refuses [OF this, of rev] obtain a1 err where 1: "lo_FinalizeBlock picky_codec ?b1 ?a = (a1, Inl err)"
    by (auto simp: local_adapter_def)
  have "local_healthy picky_codec a1 ?b2" using part(2) by (simp add: local_healthy_def)
  from local_ad.executes [OF this, of rev] obtain a2 r a3 c where
    2: "lo_FinalizeBlock picky_codec ?b2 a1 = (a2, Inr r)" and c: "lo_Commit rev a2 = (a3, Inr c)"
    by (simp only: local_adapter_def adapter_ops.simps) blast
  obtain h ret where 3: "lo_Commit rev a2 = (a3, Inr (h, ret))" using c by (cases c) simp
  have ret: "ret = 0" using 3 by (simp add: lo_Commit_def Let_def)
  have wf: "go_wf (apState (loApp ?a))" by (simp add: NewLocalABCIAdapter_def NewApplication_def)
  from failed_block_leaks [OF 1 2 3 go_order_rev wf, of "''a''"]
  have "Query ''a'' (loApp a3) = Inr [5]"
    unfolding part by (simp add: last_write_def map_filter_def tx_write_def raw_block_def raw_tx_def picky_codec_def sample_app_codec_def)
  with 1 2 3 ret show ?thesis by blast
qed

section \<open>Closing\<close>

text \<open>The adapters without a connection have nothing to close.\<close>

definition no_Close :: "NoopABCIAdapter \<Rightarrow> NoopABCIAdapter \<times> string option" where
  "no_Close n = (n, None)"

definition mo_Close :: "MockABCIAdapter \<Rightarrow> MockABCIAdapter \<times> string option" where
  "mo_Close m = (m, None)"

definition lo_Close :: "LocalABCIAdapter \<Rightarrow> LocalABCIAdapter \<times> string option" where
  "lo_Close a = (a, None)"

end
