(* ===== verification/Engine_Votes.thy ===== *)
theory Engine_Votes
  imports Quorum Engine_Inv Adapters
begin

text \<open>
  What the votes of the three phases make an engine do: a quorum of claimed senders in
  \<open>PREPARE\<close> and \<open>COMMIT\<close> messages takes a pre-prepared block to its execution. The handlers
  read the voter's name from the payload and look neither at the sender of the message nor at
  the digest voted for.
\<close>

section \<open>Delivering messages\<close>

fun deliver ::
  "'a adapter_ops \<Rightarrow> 's store_ops \<Rightarrow> engine_env \<Rightarrow> Message list \<Rightarrow> ('a, 's) Engine \<Rightarrow> ('a, 's) Engine go" where
  "deliver A S V [] e = Ret e"
| "deliver A S V (m # ms) e = go_bind (handleMessage A S V m e) (deliver A S V ms)"

lemma deliver_append: "deliver A S V (xs @ ys) e = go_bind (deliver A S V xs e) (deliver A S V ys)"
proof (induction xs arbitrary: e)
  case (Cons m xs)
  have "deliver A S V (xs @ ys) = (\<lambda>e. go_bind (deliver A S V xs e) (deliver A S V ys))"
    by (rule ext) (rule Cons.IH)
  then show ?case by (simp add: go_bind_assoc)
qed simp

text \<open>A vote as it reaches a node: the sender of the message, the digest, the voter it names.\<close>

type_synonym vote = "string \<times> bytes \<times> string"

definition prepare_vote :: "engine_env \<Rightarrow> u64 \<Rightarrow> u64 \<Rightarrow> vote \<Rightarrow> Message" where
  "prepare_vote V v n = (\<lambda>(sender, digest, voter).
     (NewMessage (ve_now V) Prepare v n digest sender)
       \<lparr>mPayload := enc_prepare (ve_codec V) (NewPrepareMsg v n digest voter)\<rparr>)"

definition commit_vote :: "engine_env \<Rightarrow> u64 \<Rightarrow> u64 \<Rightarrow> vote \<Rightarrow> Message" where
  "commit_vote V v n = (\<lambda>(sender, digest, voter).
     (NewMessage (ve_now V) Commit v n digest sender)
       \<lparr>mPayload := enc_commit (ve_codec V) (NewCommitMsg v n digest voter)\<rparr>)"

abbreviation voter :: "vote \<Rightarrow> string" where
  "voter w \<equiv> snd (snd w)"

section \<open>Preparing\<close>

lemma handlePrepare_adapter: "eAdapter (handlePrepare V msg e) = eAdapter e"
  by (cases rule: handlePrepare_cases [of msg e V]) simp_all

text \<open>A state after it has taken a number of \<open>PREPARE\<close>s.\<close>

lemma prepare_step:
  assumes "codec_ok (ve_codec V)" and g: "GetExistingState n (eStateLog e) = Some s"
    and ph: "sPhase s = PrePrepared \<or> sPhase s = Prepared" and log: "log_ok (eStateLog e)"
  obtains s' where "GetExistingState n (eStateLog (handlePrepare V (prepare_vote V (eView e) n w) e)) = Some s'"
    "sPhase s' = PrePrepared \<or> sPhase s' = Prepared"
    "sPhase s = Prepared \<or> QuorumSize (eValidatorSet e) \<le> int (card (go_keys (sPrepareMsgs s'))) \<Longrightarrow> sPhase s' = Prepared"
    "go_keys (sPrepareMsgs s') = insert (voter w) (go_keys (sPrepareMsgs s))"
    "sBlock s' = sBlock s" "sExecuted s' = sExecuted s"
proof -
  obtain sd d i where w: "w = (sd, d, i)" by (cases w)
  let ?m = "prepare_vote V (eView e) n w"
  let ?p = "NewPrepareMsg (eView e) n d i"
  let ?a = "AddPrepare ?p s"
  have m: "mView ?m = eView e" "mSequenceNum ?m = n" "dec_prepare (ve_codec V) (mPayload ?m) = Some ?p"
    using assms(1) by (simp_all add: prepare_vote_def w)
  have keys: "go_keys (sPrepareMsgs ?a) = insert (voter w) (go_keys (sPrepareMsgs s))"
    by (simp add: AddPrepare_def w)
  have "state_ok s" using log_ok_get [OF log g] by simp
  then have "go_wf (sPrepareMsgs ?a)" by (simp add: state_ok_def votes_ok_def AddPrepare_def)
  then have card: "card (go_keys (sPrepareMsgs ?a)) = length (sPrepareMsgs ?a)" by (rule card_go_keys)
  have pa: "sPhase ?a = sPhase s" "sBlock ?a = sBlock s" "sExecuted ?a = sExecuted s"
    by (simp_all add: AddPrepare_def)
  show thesis
  proof (cases rule: handlePrepare_cases [of ?m e V])
    case ignored
    then have False using m g by simp
    then show thesis ..
  next
    case (counted p t)
    then have t: "p = ?p" "t = s" using m g by simp_all
    have "\<not> (QuorumSize (eValidatorSet e) \<le> int (card (go_keys (sPrepareMsgs ?a))) \<and> sPhase s = PrePrepared)"
      using counted(4) t card pa by (auto simp: IsPrepared_def)
    with counted(5) t m keys pa ph show thesis by (intro that [of ?a]) auto
  next
    case (prepared p t c r)
    then have t: "p = ?p" "t = s" using m g by simp_all
    have f: "sPrepareMsgs (AddCommit c (TransitionToPrepared ?a)) = sPrepareMsgs ?a"
      "sPhase (AddCommit c (TransitionToPrepared ?a)) = Prepared"
      "sBlock (AddCommit c (TransitionToPrepared ?a)) = sBlock s"
      "sExecuted (AddCommit c (TransitionToPrepared ?a)) = sExecuted s"
      using prepared(5) t by (simp_all add: State_defs)
    show thesis
      by (rule that [of "AddCommit c (TransitionToPrepared ?a)"]) (use prepared t m keys f in simp_all)
  qed
qed

lemma handleMessage_votes [simp]:
  "handleMessage A S V (prepare_vote V v n w) e = Ret (handlePrepare V (prepare_vote V v n w) e)"
  "handleMessage A S V (commit_vote V v n w) e = handleCommit A S V (commit_vote V v n w) e"
  by (simp_all add: handleMessage_def prepare_vote_def commit_vote_def split: prod.splits)

lemma consensus_frame_trans: "consensus_frame a b \<Longrightarrow> consensus_frame b c \<Longrightarrow> consensus_frame a c"
  by (simp add: consensus_frame_def)

lemma prepares:
  assumes "codec_ok (ve_codec V)" and "GetExistingState n (eStateLog e) = Some s"
    and "sPhase s = PrePrepared \<or> sPhase s = Prepared" and "log_ok (eStateLog e)"
  shows "\<exists>e' s'. deliver A S V (map (prepare_vote V (eView e) n) ws) e = Ret e' \<and> consensus_frame e e' \<and>
    eAdapter e' = eAdapter e \<and> log_ok (eStateLog e') \<and> GetExistingState n (eStateLog e') = Some s' \<and>
    (sPhase s' = PrePrepared \<or> sPhase s' = Prepared) \<and>
    (sPhase s = Prepared \<or> ws \<noteq> [] \<and> QuorumSize (eValidatorSet e) \<le> int (card (go_keys (sPrepareMsgs s')))
       \<longrightarrow> sPhase s' = Prepared) \<and>
    go_keys (sPrepareMsgs s') = voter ` set ws \<union> go_keys (sPrepareMsgs s) \<and>
    sBlock s' = sBlock s \<and> sExecuted s' = sExecuted s"
  using assms
proof (induction ws arbitrary: e s)
  case Nil
  then show ?case by simp
next
  case (Cons w ws)
  let ?e = "handlePrepare V (prepare_vote V (eView e) n w) e"
  from prepare_step [OF Cons.prems, of w] obtain s1 where
    1: "GetExistingState n (eStateLog ?e) = Some s1" "sPhase s1 = PrePrepared \<or> sPhase s1 = Prepared"
      "sPhase s = Prepared \<or> QuorumSize (eValidatorSet e) \<le> int (card (go_keys (sPrepareMsgs s1))) \<Longrightarrow> sPhase s1 = Prepared"
      "go_keys (sPrepareMsgs s1) = insert (voter w) (go_keys (sPrepareMsgs s))"
      "sBlock s1 = sBlock s" "sExecuted s1 = sExecuted s" by blast
  have fr: "consensus_frame e ?e" by (rule handlePrepare_frame)
  then have v: "eView ?e = eView e" "eValidatorSet ?e = eValidatorSet e" by (simp_all add: consensus_frame_def)
  have log: "log_ok (eStateLog ?e)" using handlePrepare_frame(2) Cons.prems(4) by blast
  from Cons.IH [OF Cons.prems(1) 1(1,2) log] obtain e' s' where
    2: "deliver A S V (map (prepare_vote V (eView e) n) ws) ?e = Ret e'" "consensus_frame ?e e'"
      "eAdapter e' = eAdapter ?e" "log_ok (eStateLog e')" "GetExistingState n (eStateLog e') = Some s'"
      "sPhase s' = PrePrepared \<or> sPhase s' = Prepared"
      "sPhase s1 = Prepared \<or> ws \<noteq> [] \<and> QuorumSize (eValidatorSet e) \<le> int (card (go_keys (sPrepareMsgs s')))
         \<longrightarrow> sPhase s' = Prepared"
      "go_keys (sPrepareMsgs s') = voter ` set ws \<union> go_keys (sPrepareMsgs s1)"
      "sBlock s' = sBlock s1" "sExecuted s' = sExecuted s1" unfolding v by blast
  have "sPhase s = Prepared \<or> QuorumSize (eValidatorSet e) \<le> int (card (go_keys (sPrepareMsgs s'))) \<longrightarrow> sPhase s' = Prepared"
    using 1(3) 2(7,8) by (cases "ws = []") auto
  moreover have "consensus_frame e e'" by (rule consensus_frame_trans [OF fr 2(2)])
  ultimately show ?case using 1 2 by (intro exI [of _ e'] exI [of _ s']) (auto simp: handlePrepare_adapter)
qed

section \<open>Committing\<close>

text \<open>The chain has grown by \<open>b\<close> and the state under \<open>n\<close> cannot cause another execution.\<close>

definition settled :: "u64 \<Rightarrow> Block list \<Rightarrow> ('a, 's) Engine \<Rightarrow> bool" where
  "settled n chain e \<longleftrightarrow> eCommittedBlocks e = chain \<and>
     (\<forall>s. GetExistingState n (eStateLog e) = Some s \<longrightarrow> sPhase s \<noteq> Prepared)"

lemma settled_step:
  assumes "settled n chain e"
  shows "\<exists>e'. handleCommit A S V (commit_vote V v n w) e = Ret e' \<and> settled n chain e'"
proof -
  have m: "mSequenceNum (commit_vote V v n w) = n" by (cases w) (simp add: commit_vote_def)
  show ?thesis
  proof (cases "mView (commit_vote V v n w) = eView e \<and> dec_commit (ve_codec V) (mPayload (commit_vote V v n w)) \<noteq> None")
    case False
    then show ?thesis using assms by (auto simp: handleCommit_def)
  next
    case True
    then obtain c where c: "mView (commit_vote V v n w) = eView e"
      "dec_commit (ve_codec V) (mPayload (commit_vote V v n w)) = Some c" by auto
    show ?thesis
    proof (cases "GetExistingState n (eStateLog e)")
      case None
      then show ?thesis using assms c m by (simp add: handleCommit_def)
    next
      case (Some s)
      then have "sPhase s \<noteq> Prepared" using assms by (simp add: settled_def)
      then have "GetPhase (AddCommit c s) \<noteq> Prepared" by (simp add: State_defs)
      then have "handleCommit A S V (commit_vote V v n w) e = Ret (put_state n (AddCommit c s) e)"
        using c m Some by (simp add: handleCommit_def Let_def)
      moreover have "settled n chain (put_state n (AddCommit c s) e)"
        using assms \<open>sPhase s \<noteq> Prepared\<close> by (simp add: settled_def State_defs)
      ultimately show ?thesis by blast
    qed
  qed
qed

lemma settled_commits:
  "settled n chain e \<Longrightarrow> \<exists>e'. deliver A S V (map (commit_vote V v n) ws) e = Ret e' \<and> settled n chain e'"
proof (induction ws arbitrary: e)
  case (Cons w ws)
  from settled_step [OF Cons.prems, of A S V v w] obtain e1 where
    "handleCommit A S V (commit_vote V v n w) e = Ret e1" "settled n chain e1" by blast
  with Cons.IH show ?case by simp
qed simp

text \<open>Executing \<open>b\<close> in the application state of \<open>e\<close> leaves the chain \<open>chain\<close>.\<close>

definition runs_to ::
  "'a adapter_ops \<Rightarrow> 's store_ops \<Rightarrow> engine_env \<Rightarrow> u64 \<Rightarrow> Block \<Rightarrow> ('a, 's) Engine \<Rightarrow> Block list \<Rightarrow> bool" where
  "runs_to A S V n b e chain \<longleftrightarrow> (\<forall>t e0. \<not> sExecuted t \<longrightarrow> sBlock t = Some b \<longrightarrow> sPhase t = Committed \<longrightarrow>
     GetExistingState n (eStateLog e0) = Some t \<longrightarrow>
     eAdapter e0 = eAdapter e \<longrightarrow> eConfig e0 = eConfig e \<longrightarrow> eCommittedBlocks e0 = eCommittedBlocks e \<longrightarrow>
     (\<exists>e'. executeBlock A S V n t e0 = Ret e' \<and> settled n chain e'))"

lemma runs_to_cong:
  "runs_to A S V n b e chain \<Longrightarrow> eAdapter e0 = eAdapter e \<Longrightarrow> eConfig e0 = eConfig e \<Longrightarrow>
    eCommittedBlocks e0 = eCommittedBlocks e \<Longrightarrow> runs_to A S V n b e0 chain"
  by (simp add: runs_to_def)

lemma runs_to_extends:
  assumes app: "ad_FinalizeBlock A b (eAdapter e) = (a1, Inr r)" "ad_Commit A a1 = (a2, Inr h)"
    and iv: "cfCheckpointInterval (eConfig e) \<noteq> 0"
  shows "runs_to A S V n b e (eCommittedBlocks e @ [b])"
proof -
  have "\<exists>e'. executeBlock A S V n t e0 = Ret e' \<and> settled n (eCommittedBlocks e @ [b]) e'"
    if t: "\<not> sExecuted t" "sBlock t = Some b" "sPhase t = Committed"
      and e0: "eAdapter e0 = eAdapter e" "eConfig e0 = eConfig e" "eCommittedBlocks e0 = eCommittedBlocks e" for t e0
  proof -
    let ?e = "record_commit A S V n t b r (e0\<lparr>eAdapter := a2\<rparr>)"
    have 1: "settled n (eCommittedBlocks e @ [b]) ?e"
      using t e0 by (simp add: settled_def record_commit_fields State_defs)
    then have 2: "settled n (eCommittedBlocks e @ [b]) (createCheckpoint S V (sSequenceNum t) ?e)"
      by (simp add: settled_def createCheckpoint_fields Advance_get)
    obtain h1 h2 where h: "h = (h1, h2)" by (cases h)
    have "executeBlock A S V n t e0 =
        Ret (if sSequenceNum t mod cfCheckpointInterval (eConfig e) = 0 then createCheckpoint S V (sSequenceNum t) ?e else ?e)"
      using t e0 app iv h by (simp add: executeBlock_def after_commit_def Let_def record_commit_fields)
    with 1 2 show ?thesis by (cases "sSequenceNum t mod cfCheckpointInterval (eConfig e) = 0") simp_all
  qed
  then show ?thesis by (simp add: runs_to_def)
qed

lemma runs_to_stays:
  assumes "ad_FinalizeBlock A b (eAdapter e) = (a1, Inl err)"
  shows "runs_to A S V n b e (eCommittedBlocks e)"
  using assms by (simp add: runs_to_def executeBlock_def settled_def)

lemma commit_step:
  assumes "codec_ok (ve_codec V)" and g: "GetExistingState n (eStateLog e) = Some s"
    and s: "sPhase s = Prepared" "sBlock s = Some b" "\<not> sExecuted s" and log: "log_ok (eStateLog e)"
    and run: "runs_to A S V n b e chain"
  obtains (waiting) s' where
      "handleCommit A S V (commit_vote V (eView e) n w) e = Ret (put_state n s' e)"
      "int (card (insert (voter w) (go_keys (sCommitMsgs s)))) < QuorumSize (eValidatorSet e)"
      "sPhase s' = Prepared" "sBlock s' = Some b" "\<not> sExecuted s'"
      "go_keys (sCommitMsgs s') = insert (voter w) (go_keys (sCommitMsgs s))" "state_ok s'" "sSequenceNum s' = n"
  | (executed) e' where "handleCommit A S V (commit_vote V (eView e) n w) e = Ret e'" "settled n chain e'"
proof -
  obtain sd d i where w: "w = (sd, d, i)" by (cases w)
  let ?m = "commit_vote V (eView e) n w"
  let ?c = "NewCommitMsg (eView e) n d i"
  let ?a = "AddCommit ?c s"
  have m: "mView ?m = eView e" "mSequenceNum ?m = n" "dec_commit (ve_codec V) (mPayload ?m) = Some ?c"
    using assms(1) by (simp_all add: commit_vote_def w)
  have sok: "state_ok s" "sSequenceNum s = n" using log_ok_get [OF log g] by simp_all
  then have "state_ok ?a" by blast
  then have "go_wf (sCommitMsgs ?a)" by (simp add: state_ok_def votes_ok_def)
  then have "card (go_keys (sCommitMsgs ?a)) = length (sCommitMsgs ?a)" by (rule card_go_keys)
  moreover have keys: "go_keys (sCommitMsgs ?a) = insert (voter w) (go_keys (sCommitMsgs s))"
    by (simp add: AddCommit_def w)
  ultimately have q: "IsCommitted (QuorumSize (eValidatorSet e)) ?a \<longleftrightarrow>
      QuorumSize (eValidatorSet e) \<le> int (card (insert (voter w) (go_keys (sCommitMsgs s))))"
    using s(1) by (simp add: IsCommitted_def) (simp add: AddCommit_def less_eq_Phase_def)
  have f: "sPhase ?a = Prepared" "sBlock ?a = Some b" "\<not> sExecuted ?a" "GetPhase ?a = Prepared"
    using s by (simp_all add: AddCommit_def GetPhase_def)
  show thesis
  proof (cases "IsCommitted (QuorumSize (eValidatorSet e)) ?a")
    case False
    then show thesis using m g f q keys sok \<open>state_ok ?a\<close>
      by (intro waiting [of ?a]) (simp_all add: handleCommit_def Let_def not_le)
  next
    case True
    let ?t = "TransitionToCommitted ?a"
    have "\<not> sExecuted ?t" "sBlock ?t = Some b" "sPhase ?t = Committed" using f by (simp_all add: TransitionToCommitted_def)
    then have "\<exists>e'. executeBlock A S V n ?t (put_state n ?t e) = Ret e' \<and> settled n chain e'"
      by (intro run [unfolded runs_to_def, rule_format]) simp_all
    then obtain e' where "executeBlock A S V n ?t (put_state n ?t e) = Ret e'" "settled n chain e'" by blast
    with m g f True show thesis by (intro executed [of e']) (simp_all add: handleCommit_def Let_def)
  qed
qed

lemma commits:
  assumes "codec_ok (ve_codec V)" and "GetExistingState n (eStateLog e) = Some s"
    and "sPhase s = Prepared" "sBlock s = Some b" "\<not> sExecuted s" and "log_ok (eStateLog e)"
    and "runs_to A S V n b e chain" and "ws \<noteq> []"
    and "QuorumSize (eValidatorSet e) \<le> int (card (voter ` set ws \<union> go_keys (sCommitMsgs s)))"
  shows "\<exists>e'. deliver A S V (map (commit_vote V (eView e) n) ws) e = Ret e' \<and> settled n chain e'"
  using assms(2-)
proof (induction ws arbitrary: e s)
  case Nil
  then show ?case by simp
next
  case (Cons w ws)
  from assms(1) Cons.prems(1-6) show ?case
  proof (cases rule: commit_step [where w = w and S = S and A = A])
    case (executed e')
    from settled_commits [OF this(2), of A S V "eView e" ws] executed(1) show ?thesis by simp
  next
    case (waiting s')
    let ?e = "put_state n s' e"
    have q: "QuorumSize (eValidatorSet e) \<le> int (card (voter ` set ws \<union> go_keys (sCommitMsgs s')))"
      using Cons.prems(8) waiting(6) by (simp add: Un_commute)
    have ne: "ws \<noteq> []" using q waiting(2,6) by auto
    have "runs_to A S V n b ?e chain" by (rule runs_to_cong [OF Cons.prems(6)]) simp_all
    then have "\<exists>e'. deliver A S V (map (commit_vote V (eView ?e) n) ws) ?e = Ret e' \<and> settled n chain e'"
      by (intro Cons.IH [of ?e s']) (use waiting Cons.prems ne q in \<open>simp_all add: log_ok_write\<close>)
    with waiting(1) show ?thesis by simp
  qed
qed

lemma quorum_settles:
  assumes "codec_ok (ve_codec V)" and "engine_ok e"
    and "GetExistingState n (eStateLog e) = Some s" "sPhase s = PrePrepared" "sBlock s = Some b" "\<not> sExecuted s"
    and run: "runs_to A S V n b e chain"
    and q: "QuorumSize (eValidatorSet e) \<le> int (card (voter ` set ws))"
  shows "\<exists>e'. deliver A S V (map (prepare_vote V (eView e) n) ws @ map (commit_vote V (eView e) n) ws) e = Ret e' \<and>
    settled n chain e'"
proof -
  have ne: "ws \<noteq> []" using q QuorumSize_ge_1 [of "eValidatorSet e"] by auto
  have log: "log_ok (eStateLog e)" using assms(2) by (simp add: engine_ok_def)
  have mono: "QuorumSize (eValidatorSet e) \<le> int (card (voter ` set ws \<union> K))" if "finite K" for K
    using q that card_mono [of "voter ` set ws \<union> K" "voter ` set ws"] by simp
  obtain e1 s1 where
    1: "deliver A S V (map (prepare_vote V (eView e) n) ws) e = Ret e1" "consensus_frame e e1"
      "eAdapter e1 = eAdapter e" "log_ok (eStateLog e1)" "GetExistingState n (eStateLog e1) = Some s1"
    and p: "QuorumSize (eValidatorSet e) \<le> int (card (go_keys (sPrepareMsgs s1))) \<longrightarrow> sPhase s1 = Prepared"
      "go_keys (sPrepareMsgs s1) = voter ` set ws \<union> go_keys (sPrepareMsgs s)"
      "sBlock s1 = Some b" "\<not> sExecuted s1"
    using prepares [OF assms(1,3) disjI1 [OF assms(4)] log, of A S ws] ne assms(5,6) by auto
  have v: "eView e1 = eView e" "eValidatorSet e1 = eValidatorSet e" "eConfig e1 = eConfig e"
    "eCommittedBlocks e1 = eCommittedBlocks e" using 1(2) by (simp_all add: consensus_frame_def)
  have "sPhase s1 = Prepared" using p(1,2) mono by simp
  then have "\<exists>e'. deliver A S V (map (commit_vote V (eView e1) n) ws) e1 = Ret e' \<and> settled n chain e'"
    by (intro commits [of V n e1 s1 b A S chain ws])
      (use assms(1) runs_to_cong [OF run] 1(3-5) p(3,4) ne mono v in simp_all)
  with 1(1) v show ?thesis by (auto simp: deliver_append)
qed

lemma quorum_commits:
  assumes "codec_ok (ve_codec V)" and "engine_ok e"
    and "GetExistingState n (eStateLog e) = Some s" "sPhase s = PrePrepared" "sBlock s = Some b" "\<not> sExecuted s"
    and "ad_FinalizeBlock A b (eAdapter e) = (a1, Inr r)" "ad_Commit A a1 = (a2, Inr h)"
    and "cfCheckpointInterval (eConfig e) \<noteq> 0"
    and "QuorumSize (eValidatorSet e) \<le> int (card (voter ` set ws))"
  shows "\<exists>e'. deliver A S V (map (prepare_vote V (eView e) n) ws @ map (commit_vote V (eView e) n) ws) e = Ret e' \<and>
    eCommittedBlocks e' = eCommittedBlocks e @ [b]"
  using quorum_settles [OF assms(1-6) runs_to_extends [OF assms(7-9)] assms(10)] by (auto simp: settled_def)

section \<open>A sample cluster\<close>

text \<open>The environment and the engines the witnesses run: the default four nodes.\<close>

definition sample_env :: engine_env where
  "sample_env = \<lparr>ve_now = 0, ve_codec = sample_codec, ve_mp = test_env 0, ve_votes = rev,
     ve_prepares = rev, ve_checkpoints = rev\<rparr>"

lemma sample_env_simps [simp]: "ve_codec sample_env = sample_codec" "ve_ok sample_env"
  by (simp_all add: sample_env_def ve_ok_def)

definition fresh_engine :: "'a \<Rightarrow> string \<Rightarrow> ('a, MemoryStore) Engine" where
  "fresh_engine a node = NewEngineV2 (DefaultConfig node) default_set True a"

lemma fresh_engine_simps [simp]:
  "engine_ok (fresh_engine a node)" "eView (fresh_engine a node) = 0" "eValidatorSet (fresh_engine a node) = default_set"
  "eConfig (fresh_engine a node) = DefaultConfig node" "eStateLog (fresh_engine a node) = NewStateLog 200"
  "eCommittedBlocks (fresh_engine a node) = []" "eAdapter (fresh_engine a node) = a"
  "eSequenceNum (fresh_engine a node) = 0" "eMempool (fresh_engine a node) = None"
  by (simp_all add: fresh_engine_def engine_ok_New) (simp_all add: NewEngineV2_def DefaultConfig_def)

lemma fresh_engine_facts [simp]:
  "getPrimaryID (fresh_engine a node) = Ret ''node0''" "cfCheckpointInterval (DefaultConfig node) = 100"
  "GetExistingState n (NewStateLog w) = None" "IsInWindow 1 (NewStateLog 200)"
  by (simp_all add: getPrimaryID_def primary_at_def createDefaultValidators_def NewValidatorSet_def
      signed_modulo_int_def DefaultConfig_def GetExistingState_def NewStateLog_def IsInWindow_def)

definition pre_prepared_engine :: "'a \<Rightarrow> string \<Rightarrow> Block \<Rightarrow> ('a, MemoryStore) Engine" where
  "pre_prepared_engine a node b =
     put_state 1 (SetPrePrepare (NewPrePrepareMsg 0 1 b ''node0'') (Some b) (NewState 0 1)) (fresh_engine a node)"

lemma pre_prepared_engine_simps [simp]:
  "engine_ok (pre_prepared_engine a node b)" "eView (pre_prepared_engine a node b) = 0"
  "eValidatorSet (pre_prepared_engine a node b) = default_set" "eConfig (pre_prepared_engine a node b) = DefaultConfig node"
  "eCommittedBlocks (pre_prepared_engine a node b) = []" "eAdapter (pre_prepared_engine a node b) = a"
  "GetExistingState 1 (eStateLog (pre_prepared_engine a node b)) =
     Some (SetPrePrepare (NewPrePrepareMsg 0 1 b ''node0'') (Some b) (NewState 0 1))"
proof -
  let ?s = "SetPrePrepare (NewPrePrepareMsg 0 1 b ''node0'') (Some b) (NewState 0 1)"
  have "state_ok ?s"
    using state_ok_ops(1) [OF votes_ok_NewState, of "NewPrePrepareMsg 0 1 b ''node0''" 0 1] by simp
  moreover have "sSequenceNum ?s = 1" by (simp add: NewState_def)
  ultimately have "log_ok (write_state 1 ?s (NewStateLog 200))" by (rule log_ok_write [OF log_ok_New])
  then show "engine_ok (pre_prepared_engine a node b)"
    by (intro engine_ok_cong [OF fresh_engine_simps(1) [of a node]]) (simp_all add: pre_prepared_engine_def)
qed (simp_all add: pre_prepared_engine_def)

text \<open>Three votes, all sent by one node under three invented names and for a digest of no block.\<close>

definition forged_votes :: "vote list" where
  "forged_votes = map (\<lambda>i. (''node3'', [0], i)) [''x'', ''y'', ''z'']"

lemma forged_votes_quorum: "QuorumSize default_set \<le> int (card (voter ` set forged_votes))"
  by (simp add: size_default forged_votes_def)

text \<open>
  A quorum of votes takes a pre-prepared block to its execution, whatever the votes say. Let an
  engine hold an unexecuted pre-prepared state with block \<open>b\<close> under \<open>n\<close> in its view, and let the
  application finalize and commit \<open>b\<close>. Deliver \<open>PREPARE\<close> and then \<open>COMMIT\<close> messages that name at
  least \<open>QuorumSize\<close> different voters: \<open>b\<close> is appended to the chain, exactly once. Nothing is
  asked of the votes' digests, of the network senders, or of the voters being validators: a
  single sender that invents a quorum of names is enough.
\<close>

theorem votes_alone_commit:
  assumes "codec_ok (ve_codec V)" and "engine_ok e"
    and "GetExistingState n (eStateLog e) = Some s" "sPhase s = PrePrepared" "sBlock s = Some b" "\<not> sExecuted s"
    and "ad_FinalizeBlock A b (eAdapter e) = (a1, Inr r)" "ad_Commit A a1 = (a2, Inr h)"
    and "cfCheckpointInterval (eConfig e) \<noteq> 0"
    and "QuorumSize (eValidatorSet e) \<le> int (card (voter ` set ws))"
  shows "\<exists>e'. deliver A S V (map (prepare_vote V (eView e) n) ws @ map (commit_vote V (eView e) n) ws) e = Ret e' \<and>
    eCommittedBlocks e' = eCommittedBlocks e @ [b]"
  by (rule quorum_commits [OF assms])

theorem votes_alone_commit_witness:
  "\<exists>e'. deliver noop_adapter (memory_store rev) sample_env
      (map (prepare_vote sample_env 0 1) forged_votes @ map (commit_vote sample_env 0 1) forged_votes)
      (pre_prepared_engine NewNoopABCIAdapter ''node1'' (raw_block 1 [])) = Ret e' \<and>
    eCommittedBlocks e' = [raw_block 1 []]"
proof -
  let ?e = "pre_prepared_engine NewNoopABCIAdapter ''node1'' (raw_block 1 [])"
  obtain a1 r a2 h where app: "ad_FinalizeBlock noop_adapter (raw_block 1 []) (eAdapter ?e) = (a1, Inr r)"
    "ad_Commit noop_adapter a1 = (a2, Inr h)" using noop.executes by blast
  have "codec_ok (ve_codec sample_env)" "engine_ok ?e" "cfCheckpointInterval (eConfig ?e) \<noteq> 0"
    "QuorumSize (eValidatorSet ?e) \<le> int (card (voter ` set forged_votes))"
    using forged_votes_quorum by simp_all
  from votes_alone_commit [OF this(1,2) pre_prepared_engine_simps(7) _ _ _ app this(3,4), of "memory_store rev"]
  show ?thesis by (simp add: State_defs)
qed

text \<open>
  A block the application fails to finalize is never retried. With the same votes, let
  \<open>FinalizeBlock\<close> return an error for \<open>b\<close>: the chain stays as it was, and no further \<open>COMMIT\<close> for
  this number, however many arrive and whatever the application would answer by then, makes the
  engine execute it: the state is already in the phase \<open>Committed\<close>.
\<close>

theorem failed_finalize_is_final:
  assumes "codec_ok (ve_codec V)" and "engine_ok e"
    and "GetExistingState n (eStateLog e) = Some s" "sPhase s = PrePrepared" "sBlock s = Some b" "\<not> sExecuted s"
    and "ad_FinalizeBlock A b (eAdapter e) = (a1, Inl err)"
    and "QuorumSize (eValidatorSet e) \<le> int (card (voter ` set ws))"
  shows "\<exists>e1. deliver A S V (map (prepare_vote V (eView e) n) ws @ map (commit_vote V (eView e) n) ws) e = Ret e1 \<and>
    eCommittedBlocks e1 = eCommittedBlocks e \<and>
    (\<forall>A' more. \<exists>e2. deliver A' S V (map (commit_vote V (eView e) n) more) e1 = Ret e2 \<and>
       eCommittedBlocks e2 = eCommittedBlocks e)"
proof -
  obtain e1 where e1: "deliver A S V (map (prepare_vote V (eView e) n) ws @ map (commit_vote V (eView e) n) ws) e = Ret e1"
    "settled n (eCommittedBlocks e) e1"
    using quorum_settles [OF assms(1-6) runs_to_stays [OF assms(7)] assms(8)] by blast
  then show ?thesis using settled_commits [OF e1(2)] unfolding settled_def by metis
qed

theorem failed_finalize_is_final_witness:
  "\<exists>e1. deliver (local_adapter picky_codec rev) (memory_store rev) sample_env
      (map (prepare_vote sample_env 0 1) forged_votes @ map (commit_vote sample_env 0 1) forged_votes)
      (pre_prepared_engine (NewLocalABCIAdapter NewApplication) ''node1'' (raw_block 1 [raw_tx ''b'' [9]])) = Ret e1 \<and>
    eCommittedBlocks e1 = []"
proof -
  let ?b = "raw_block 1 [raw_tx ''b'' [9]]"
  let ?e = "pre_prepared_engine (NewLocalABCIAdapter NewApplication) ''node1'' ?b"
  have "\<not> local_healthy picky_codec (eAdapter ?e) ?b"
    by (simp add: local_healthy_def executed_part_def tx_bad_def picky_codec_def raw_block_def raw_tx_def)
  from local_ad.refuses [OF this, of rev] obtain a1 err where
    f: "ad_FinalizeBlock (local_adapter picky_codec rev) ?b (eAdapter ?e) = (a1, Inl err)" by blast
  have "codec_ok (ve_codec sample_env)" "engine_ok ?e"
    "QuorumSize (eValidatorSet ?e) \<le> int (card (voter ` set forged_votes))"
    using forged_votes_quorum by simp_all
  from failed_finalize_is_final [OF this(1,2) pre_prepared_engine_simps(7) _ _ _ f this(3), of "memory_store rev"]
  show ?thesis by (simp add: State_defs) blast
qed

section \<open>A proposal and its votes\<close>

text \<open>The \<open>PRE-PREPARE\<close> by which the primary proposes \<open>b\<close>, as \<open>proposeBlock\<close> makes it.\<close>

definition proposal :: "engine_env \<Rightarrow> u64 \<Rightarrow> u64 \<Rightarrow> string \<Rightarrow> Block \<Rightarrow> Message" where
  "proposal V v n primary b =
     (NewMessage (ve_now V) PrePrepare v n (bHash b) primary)
       \<lparr>mPayload := enc_pre_prepare (ve_codec V) (NewPrePrepareMsg v n b primary)\<rparr>"

lemma proposal_accepted:
  assumes "codec_ok (ve_codec V)" and "getPrimaryID e = Ret p" and "IsInWindow n (eStateLog e)"
    and "snd (ad_ProcessProposal A (sint n) (bytes_of_string p) (map txData (bTransactions b)) (bHash b) (eAdapter e)) = Inr True"
  shows "\<exists>a. handleMessage A S V (proposal V (eView e) n p b) e =
    Ret (accept_proposal V (proposal V (eView e) n p b) (NewPrePrepareMsg (eView e) n b p) (e\<lparr>eAdapter := a\<rparr>))"
proof -
  obtain a res where "ad_ProcessProposal A (sint n) (bytes_of_string p) (map txData (bTransactions b)) (bHash b) (eAdapter e) = (a, res)"
    by fastforce
  with assms have "ad_ProcessProposal A (sint n) (bytes_of_string p) (map txData (bTransactions b)) (bHash b) (eAdapter e) = (a, Inr True)"
    by simp
  then show ?thesis using assms(1-3)
    by (intro exI [of _ a]) (simp add: handleMessage_def handlePrePrepare_def proposal_def Let_def)
qed

text \<open>What accepting a proposal leaves: a pre-prepared state with the block and the node's vote.\<close>

lemma accept_proposal_state:
  assumes "GetState v n (eStateLog e) = (sl, s)" and "mView m = v" "mSequenceNum m = n"
  shows "GetExistingState n (eStateLog (accept_proposal V m pp e)) =
    Some (AddPrepare (NewPrepareMsg v n (mDigest m) (cfNodeID (eConfig e))) (SetPrePrepare pp (ppBlock pp) s))"
  using assms by (simp add: accept_proposal_def Let_def)

context accepting_adapter
begin

lemma proposal_then_votes:
  assumes C: "codec_ok (ve_codec V)" and ok: "engine_ok e"
    and "getPrimaryID e = Ret p" and "IsInWindow n (eStateLog e)" and new: "GetExistingState n (eStateLog e) = None"
    and iv: "cfCheckpointInterval (eConfig e) \<noteq> 0"
    and q: "QuorumSize (eValidatorSet e) \<le> int (card (voter ` set ws))"
  shows "\<exists>e'. deliver A S V (proposal V (eView e) n p b #
      map (prepare_vote V (eView e) n) ws @ map (commit_vote V (eView e) n) ws) e = Ret e' \<and>
    eCommittedBlocks e' = eCommittedBlocks e @ [b]"
proof -
  let ?m = "proposal V (eView e) n p b" and ?pp = "NewPrePrepareMsg (eView e) n b p"
  have m: "mView ?m = eView e" "mSequenceNum ?m = n" by (simp_all add: proposal_def)
  have "snd (ad_ProcessProposal A (sint n) (bytes_of_string p) (map txData (bTransactions b)) (bHash b) (eAdapter e)) = Inr True"
    by (simp add: process_accepts)
  from proposal_accepted [OF C assms(3,4) this] obtain a where
    h: "handleMessage A S V ?m e = Ret (accept_proposal V ?m ?pp (e\<lparr>eAdapter := a\<rparr>))" by blast
  let ?e = "accept_proposal V ?m ?pp (e\<lparr>eAdapter := a\<rparr>)"
  have fr: "consensus_frame (e\<lparr>eAdapter := a\<rparr>) ?e" by (rule accept_proposal_frame)
  then have v: "eView ?e = eView e" "eValidatorSet ?e = eValidatorSet e" "eConfig ?e = eConfig e"
    "eCommittedBlocks ?e = eCommittedBlocks e" by (simp_all add: consensus_frame_def)
  have "engine_ok (e\<lparr>eAdapter := a\<rparr>)" "log_ok (eStateLog e)"
    using ok by (simp_all add: engine_ok_def view_ok_def pool_ok_def checkpoints_ok_def)
  then have ok': "engine_ok ?e"
    using consensus_frame_ok [OF _ fr] accept_proposal_frame(2) [of "e\<lparr>eAdapter := a\<rparr>"] by simp
  obtain sl s where g: "GetState (eView e) n (eStateLog (e\<lparr>eAdapter := a\<rparr>)) = (sl, s)"
    by (cases "GetState (eView e) n (eStateLog (e\<lparr>eAdapter := a\<rparr>))")
  have s: "s = NewState (eView e) n"
    using g new by (auto simp: GetState_def GetExistingState_def Let_def)
  let ?s = "AddPrepare (NewPrepareMsg (eView e) n (mDigest ?m) (cfNodeID (eConfig e))) (SetPrePrepare ?pp (Some b) s)"
  have st: "GetExistingState n (eStateLog ?e) = Some ?s"
    using accept_proposal_state [OF g m, of V ?pp] by simp
  have f: "sPhase ?s = PrePrepared" "sBlock ?s = Some b" "\<not> sExecuted ?s" by (simp_all add: State_defs s)
  obtain a1 r a2 t where app: "ad_FinalizeBlock A b (eAdapter ?e) = (a1, Inr r)" "ad_Commit A a1 = (a2, Inr t)"
    using executes [where a = "eAdapter ?e" and b = b] by blast
  from quorum_commits [OF C ok' st f app, of ws S] iv q v h show ?thesis by simp
qed

end

text \<open>
  C23. A faulty primary can split the honest nodes. Take any two engines in the same view with the
  sequence number \<open>n\<close> open and unused, and any two different blocks. The primary sends one
  proposal to the first and the other to the second; then both receive the very same votes of a
  quorum of voters (as honest nodes broadcast them). The first engine commits \<open>b1\<close>, the second
  \<open>b2\<close>: with \<open>b1 \<noteq> b2\<close> their chains disagree. \<open>handlePrepare\<close> and \<open>handleCommit\<close> never compare a
  vote's digest with the proposal's.
\<close>

theorem equivocating_primary_splits:
  assumes "codec_ok (ve_codec V)" and "accepting_adapter A" and "engine_ok e1" "engine_ok e2"
    and "getPrimaryID e1 = Ret p" "getPrimaryID e2 = Ret p" and "eView e1 = v" "eView e2 = v"
    and "IsInWindow n (eStateLog e1)" "IsInWindow n (eStateLog e2)"
    and "GetExistingState n (eStateLog e1) = None" "GetExistingState n (eStateLog e2) = None"
    and "cfCheckpointInterval (eConfig e1) \<noteq> 0" "cfCheckpointInterval (eConfig e2) \<noteq> 0"
    and "QuorumSize (eValidatorSet e1) \<le> int (card (voter ` set ws))"
      "QuorumSize (eValidatorSet e2) \<le> int (card (voter ` set ws))"
  shows "\<exists>e1' e2'. let votes = map (prepare_vote V v n) ws @ map (commit_vote V v n) ws in
    deliver A S V (proposal V v n p b1 # votes) e1 = Ret e1' \<and>
    deliver A S V (proposal V v n p b2 # votes) e2 = Ret e2' \<and>
    eCommittedBlocks e1' = eCommittedBlocks e1 @ [b1] \<and> eCommittedBlocks e2' = eCommittedBlocks e2 @ [b2]"
proof -
  obtain e1' where "deliver A S V (proposal V v n p b1 # map (prepare_vote V v n) ws @ map (commit_vote V v n) ws) e1 = Ret e1'"
      "eCommittedBlocks e1' = eCommittedBlocks e1 @ [b1]"
    using accepting_adapter.proposal_then_votes [OF assms(2,1,3,5,9,11,13,15), of S b1] unfolding assms(7) by blast
  moreover obtain e2' where "deliver A S V (proposal V v n p b2 # map (prepare_vote V v n) ws @ map (commit_vote V v n) ws) e2 = Ret e2'"
      "eCommittedBlocks e2' = eCommittedBlocks e2 @ [b2]"
    using accepting_adapter.proposal_then_votes [OF assms(2,1,4,6,10,12,14,16), of S b2] unfolding assms(8) by blast
  ultimately show ?thesis unfolding Let_def by blast
qed

theorem equivocating_primary_splits_witness:
  "\<exists>e1' e2'. let votes = map (prepare_vote sample_env 0 1) forged_votes @ map (commit_vote sample_env 0 1) forged_votes in
    deliver noop_adapter (memory_store rev) sample_env (proposal sample_env 0 1 ''node0'' (raw_block 1 []) # votes)
      (fresh_engine NewNoopABCIAdapter ''node1'') = Ret e1' \<and>
    deliver noop_adapter (memory_store rev) sample_env (proposal sample_env 0 1 ''node0'' (raw_block 1 [raw_tx ''a'' [5]]) # votes)
      (fresh_engine NewNoopABCIAdapter ''node2'') = Ret e2' \<and>
    eCommittedBlocks e1' \<noteq> eCommittedBlocks e2'"
proof -
  have "codec_ok (ve_codec sample_env)" by simp
  from equivocating_primary_splits [OF this noop.accepting_adapter_axioms, of
      "fresh_engine NewNoopABCIAdapter ''node1''" "fresh_engine NewNoopABCIAdapter ''node2''" "''node0''" 0 1
      forged_votes "memory_store rev" "raw_block 1 []" "raw_block 1 [raw_tx ''a'' [5]]"]
  obtain e1' e2' where "let votes = map (prepare_vote sample_env 0 1) forged_votes @ map (commit_vote sample_env 0 1) forged_votes in
    deliver noop_adapter (memory_store rev) sample_env (proposal sample_env 0 1 ''node0'' (raw_block 1 []) # votes)
      (fresh_engine NewNoopABCIAdapter ''node1'') = Ret e1' \<and>
    deliver noop_adapter (memory_store rev) sample_env (proposal sample_env 0 1 ''node0'' (raw_block 1 [raw_tx ''a'' [5]]) # votes)
      (fresh_engine NewNoopABCIAdapter ''node2'') = Ret e2' \<and>
    eCommittedBlocks e1' = [raw_block 1 []] \<and> eCommittedBlocks e2' = [raw_block 1 [raw_tx ''a'' [5]]]"
    using forged_votes_quorum by simp blast
  moreover have "raw_block 1 [] \<noteq> raw_block 1 [raw_tx ''a'' [5]]" by (simp add: raw_block_def)
  ultimately show ?thesis unfolding Let_def by (metis list.inject)
qed

end
