(* ===== verification/Engine_Props.thy ===== *)
theory Engine_Props
  imports Engine_Votes
begin

text \<open>
  What an engine keeps and does over a whole run: the invariant of every reachable state, the
  chain as an append-only log that only a quorum of commits extends, the ballots an engine
  abstracts to, and the handlers that open a number, change the view and restart a node.
\<close>

section \<open>Every reachable state\<close>

text \<open>A node as \<open>main\<close> builds it: a new engine with its pool and its store.\<close>

definition booted :: "EngineConfig \<Rightarrow> ValidatorSet \<Rightarrow> 'a \<Rightarrow> Mempool \<Rightarrow> 's \<Rightarrow> ('a, 's) Engine" where
  "booted config vs a mp store = SetStore store (SetMempool mp (NewEngineV2 config vs True a))"

lemma engine_ok_booted:
  fixes a :: 'a and store :: 's
  assumes "good_pool mp"
  shows "engine_ok (booted c vs a mp store)"
proof -
  have "engine_ok (NewEngineV2 c vs True a :: ('a, 's) Engine)" by (rule engine_ok_New)
  with assms show ?thesis
    by (simp add: booted_def SetStore_def SetMempool_def engine_ok_def view_ok_def pool_ok_def checkpoints_ok_def)
qed

lemma booted_fields [simp]:
  "eCommittedBlocks (booted c vs a mp store) = []" "eView (booted c vs a mp store) = 0"
  "eSequenceNum (booted c vs a mp store) = 0" "eConfig (booted c vs a mp store) = c"
  "eMsgChan (booted c vs a mp store) = []" "eAdapter (booted c vs a mp store) = a"
  "eStateLog (booted c vs a mp store) = NewStateLog (cfWindowSize c)"
  "eValidatorSet (booted c vs a mp store) = vs" "eMempool (booted c vs a mp store) = Some mp"
  by (simp_all add: booted_def SetStore_def SetMempool_def NewEngineV2_def)

lemma engine_ok_facts:
  assumes "engine_ok e"
  shows "vmCurrentView (eVcm e) = eView e" "vmQuorumSize (eVcm e) = QuorumSize (eValidatorSet e)"
    "length (eCheckpoints e) \<le> 3" "slHigh (eStateLog e) = slLow (eStateLog e) + slWindow (eStateLog e)"
    "log_ok (eStateLog e)" "vmOnCompleteSet (eVcm e)"
  using assms by (simp_all add: engine_ok_def view_ok_def checkpoints_ok_def log_ok_def)

lemma engine_ok_state:
  assumes "engine_ok e" and "GetExistingState n (eStateLog e) = Some s"
  shows "sSequenceNum s = n" "PrepareCount s = int (card (go_keys (sPrepareMsgs s)))"
    "CommitCount s = int (card (go_keys (sCommitMsgs s)))" "sBlock s = Option.bind (sPrePrepareMsg s) ppBlock"
  using log_ok_get [OF engine_ok_facts(5) [OF assms(1)] assms(2)]
  by (simp_all add: state_ok_def votes_ok_def PrepareCount_def CommitCount_def card_go_keys)

text \<open>
  C2. The invariant of a running node. In every state a booted node can reach, whatever messages,
  requests, timeouts and pool operations arrive in whatever order, the view change manager agrees
  with the engine on the view and on the quorum, at most three checkpoints are kept, the window
  is the \<open>WindowSize\<close> numbers above the low mark, a logged state stands under its own number
  with one vote per voter and the block of its pre-prepare, and the pool respects its limits.
\<close>

theorem engine_invariant:
  assumes "engine_reachable A S (booted c vs a mp0 store) e" and "good_pool mp0"
  shows "vmCurrentView (eVcm e) = eView e \<and> vmQuorumSize (eVcm e) = QuorumSize (eValidatorSet e) \<and>
    length (eCheckpoints e) \<le> 3 \<and>
    slHigh (eStateLog e) = slLow (eStateLog e) + slWindow (eStateLog e) \<and>
    (\<forall>n s. GetExistingState n (eStateLog e) = Some s \<longrightarrow> sSequenceNum s = n \<and>
       PrepareCount s = int (card (go_keys (sPrepareMsgs s))) \<and>
       CommitCount s = int (card (go_keys (sCommitMsgs s))) \<and>
       sBlock s = Option.bind (sPrePrepareMsg s) ppBlock) \<and>
    (\<forall>mp. eMempool e = Some mp \<longrightarrow> mp_ok mp \<and> within_limits (mpConfig mp) mp)"
proof -
  have ok: "engine_ok e" by (rule engine_reachable_ok [OF assms(1) engine_ok_booted [OF assms(2)]])
  then have "\<forall>mp. eMempool e = Some mp \<longrightarrow> mp_ok mp \<and> within_limits (mpConfig mp) mp"
    by (simp add: engine_ok_def pool_ok_def good_pool_def)
  with engine_ok_facts [OF ok] engine_ok_state [OF ok] show ?thesis by simp
qed

text \<open>A run of a node: it receives and handles one proposal.\<close>

lemma one_message_reachable:
  assumes "handleMessage A S V m e0 = Ret e" and "ve_ok V" and "eMsgChan e0 = []"
  shows "engine_reachable A S e0 e"
proof -
  have in0: "engine_step A S e0 (handleIncomingMessage m e0)" by (rule es_incoming)
  have "handleIncomingMessage m e0 = e0\<lparr>eMsgChan := [m]\<rparr>"
    using assms(3) by (simp add: handleIncomingMessage_def chan_cap_def)
  moreover have "e0\<lparr>eMsgChan := []\<rparr> = e0" using assms(3) by simp
  ultimately have "run_msg A S V (handleIncomingMessage m e0) = Some (Ret e)"
    using assms(1) by (simp add: run_msg_def)
  from er_step [OF er_step [OF er_init in0] es_message [OF assms(2) this]] show ?thesis .
qed

lemma good_pool_New [simp]: "good_pool (NewMempool None)"
  by (simp add: good_pool_def within_limits_def) (simp add: NewMempool_def stored_def bytes_of_def
      DefaultMempoolConfig_def)

text \<open>The sample node: \<open>node1\<close> of the default four with the no-op application.\<close>

definition sample_node :: "(NoopABCIAdapter, MemoryStore) Engine" where
  "sample_node = booted (DefaultConfig ''node1'') default_set NewNoopABCIAdapter (NewMempool None) NewMemoryStore"

lemma sample_node_facts [simp]:
  "getPrimaryID sample_node = Ret ''node0''" "IsInWindow 1 (eStateLog sample_node)"
  "GetExistingState n (eStateLog sample_node) = None" "eView sample_node = 0" "eMsgChan sample_node = []"
  "eConfig sample_node = DefaultConfig ''node1''" "eCommittedBlocks sample_node = []"
  using fresh_engine_facts(1) [of NewNoopABCIAdapter "''node1''"]
  by (simp_all add: sample_node_def getPrimaryID_def) (simp_all add: DefaultConfig_def)

lemma sample_node_takes_proposal:
  "\<exists>e. handleMessage noop_adapter (memory_store rev) sample_env (proposal sample_env 0 1 ''node0'' (raw_block 1 []))
     sample_node = Ret e \<and>
   (\<exists>s. GetExistingState 1 (eStateLog e) = Some s \<and> sBlock s = Some (raw_block 1 []) \<and> sPhase s = PrePrepared \<and>
        go_keys (sPrepareMsgs s) = {''node1''})"
proof -
  have "snd (ad_ProcessProposal noop_adapter (sint (1 :: u64)) (bytes_of_string ''node0'') (map txData (bTransactions (raw_block 1 [])))
      (bHash (raw_block 1 [])) (eAdapter sample_node)) = Inr True" by (simp add: noop.process_accepts)
  from proposal_accepted [OF _ sample_node_facts(1,2) this, of sample_env "memory_store rev"] obtain a where
    h: "handleMessage noop_adapter (memory_store rev) sample_env (proposal sample_env 0 1 ''node0'' (raw_block 1 [])) sample_node =
      Ret (accept_proposal sample_env (proposal sample_env 0 1 ''node0'' (raw_block 1 []))
        (NewPrePrepareMsg 0 1 (raw_block 1 []) ''node0'') (sample_node\<lparr>eAdapter := a\<rparr>))" (is "_ = Ret ?e") by auto
  obtain sl s where g: "GetState 0 1 (eStateLog (sample_node\<lparr>eAdapter := a\<rparr>)) = (sl, s)"
    by (cases "GetState 0 1 (eStateLog (sample_node\<lparr>eAdapter := a\<rparr>))")
  have s: "s = NewState 0 1"
    using g sample_node_facts(3) [of 1] by (auto simp: GetState_def GetExistingState_def Let_def)
  let ?m = "proposal sample_env 0 1 ''node0'' (raw_block 1 [])"
  have "mView ?m = 0" "mSequenceNum ?m = 1" by (simp_all add: proposal_def)
  from accept_proposal_state [OF g this, of sample_env "NewPrePrepareMsg 0 1 (raw_block 1 []) ''node0''"] h
  show ?thesis by (simp add: s) (simp add: State_defs DefaultConfig_def)
qed

theorem engine_invariant_witness:
  "\<exists>e s. engine_reachable noop_adapter (memory_store rev) sample_node e \<and>
     GetExistingState 1 (eStateLog e) = Some s \<and> sSequenceNum s = 1 \<and> PrepareCount s = 1 \<and>
     vmCurrentView (eVcm e) = eView e"
proof -
  obtain e s where e: "handleMessage noop_adapter (memory_store rev) sample_env
       (proposal sample_env 0 1 ''node0'' (raw_block 1 [])) sample_node = Ret e"
    "GetExistingState 1 (eStateLog e) = Some s" "go_keys (sPrepareMsgs s) = {''node1''}"
    using sample_node_takes_proposal by (elim exE conjE) (rule that)
  have r: "engine_reachable noop_adapter (memory_store rev) sample_node e"
    by (rule one_message_reachable [OF e(1)]) simp_all
  note inv = engine_invariant [OF this [unfolded sample_node_def] good_pool_New]
  then have "sSequenceNum s = 1 \<and> PrepareCount s = int (card (go_keys (sPrepareMsgs s)))" using e(2) by simp
  with r e(2,3) inv show ?thesis by (intro exI [of _ e] exI [of _ s]) simp
qed

section \<open>The committed chain\<close>

lemma view_change_chain:
  assumes "handleViewChange V msg e = Ret e'" and cb: "vmOnCompleteSet (eVcm e)"
  shows "eCommittedBlocks e' = eCommittedBlocks e"
  using assms(1)
proof (cases rule: handleViewChange_cases)
  case (quorum vc)
  let ?e = "e\<lparr>eVcm := fst (HandleViewChange vc (eVcm e))\<rparr>"
  from quorum(5) show ?thesis
  proof (cases rule: broadcastNewView_cases)
    case (sent nv m ok)
    have "vmOnCompleteSet (eVcm (broadcast m ?e))" using cb by (simp add: HandleViewChange_fields)
    with sent(4) show ?thesis by (cases rule: vcm_HandleNewView_cases) simp_all
  qed simp
qed simp_all

lemma new_view_chain:
  assumes "handleNewView V msg e = Ret e'" and "vmOnCompleteSet (eVcm e)"
  shows "eCommittedBlocks e' = eCommittedBlocks e"
  using assms
proof (cases rule: handleNewView_cases)
  case (installed nv)
  then show ?thesis
    using reprocess_all_frame [of "resetViewChangeTimer (e\<lparr>eVcm := install_view nv (eVcm e), eView := nvView nv\<rparr>)" V]
    by (simp add: consensus_frame_def)
qed simp

text \<open>The commit that makes an engine with state \<open>s\<close> under \<open>n\<close> append \<open>b\<close>.\<close>

definition commits_block ::
  "'a adapter_ops \<Rightarrow> engine_env \<Rightarrow> Message \<Rightarrow> ('a, 's) Engine \<Rightarrow> Block \<Rightarrow> bool" where
  "commits_block A V m e b \<longleftrightarrow> mType m = Commit \<and> mView m = eView e \<and>
     (\<exists>c s a1 r a2 h. dec_commit (ve_codec V) (mPayload m) = Some c \<and>
        GetExistingState (mSequenceNum m) (eStateLog e) = Some s \<and> sPhase s = Prepared \<and> \<not> sExecuted s \<and>
        sBlock s = Some b \<and>
        QuorumSize (eValidatorSet e) \<le> int (card (insert (cNodeID c) (go_keys (sCommitMsgs s)))) \<and>
        ad_FinalizeBlock A b (eAdapter e) = (a1, Inr r) \<and> ad_Commit A a1 = (a2, Inr h))"

lemma handleCommit_extends:
  assumes "handleCommit A S V m e = Ret e'" and log: "log_ok (eStateLog e)" and t: "mType m = Commit"
    and ne: "eCommittedBlocks e' \<noteq> eCommittedBlocks e"
  obtains b where "eCommittedBlocks e' = eCommittedBlocks e @ [b]" "commits_block A V m e b"
  using assms(1)
proof (cases rule: handleCommit_cases)
  case (committed c s u)
  have st: "state_ok (AddCommit c s)" using log_ok_get [OF log committed(3)] by blast
  then have "go_wf (sCommitMsgs (AddCommit c s))" by (simp add: state_ok_def votes_ok_def)
  then have "card (go_keys (sCommitMsgs (AddCommit c s))) = length (sCommitMsgs (AddCommit c s))" by (rule card_go_keys)
  with committed(4) have q: "QuorumSize (eValidatorSet e) \<le> int (card (insert (cNodeID c) (go_keys (sCommitMsgs s))))"
    by (simp add: IsCommitted_def) (simp add: AddCommit_def)
  have u: "sExecuted u = sExecuted s" "sBlock u = sBlock s" using committed(6) by (simp_all add: State_defs)
  from committed(7) show thesis
  proof (cases rule: executeBlock_cases)
    case (recorded b r a1 h a2)
    then show thesis
      by (intro that [of b])
        (use committed(1-3,5) q u t in \<open>auto simp: commits_block_def record_commit_fields\<close>)
  next
    case (checkpointed b r a1 h a2)
    then show thesis
      by (intro that [of b])
        (use committed(1-3,5) q u t in \<open>auto simp: commits_block_def record_commit_fields createCheckpoint_fields\<close>)
  qed (use ne in simp_all)
qed (use ne in simp_all)

lemma handleMessage_extends:
  assumes "handleMessage A S V m e = Ret e'" and ok: "engine_ok e" and ne: "eCommittedBlocks e' \<noteq> eCommittedBlocks e"
  obtains b where "eCommittedBlocks e' = eCommittedBlocks e @ [b]" "commits_block A V m e b"
proof (cases "mType m = Commit")
  case True
  then have "handleCommit A S V m e = Ret e'" using assms(1) by (simp add: handleMessage_def)
  from handleCommit_extends [OF this engine_ok_facts(5) [OF ok] True ne] that show thesis by blast
next
  case False
  note cb = engine_ok_facts(6) [OF ok]
  from assms(1) have "eCommittedBlocks e' = eCommittedBlocks e"
  proof (cases rule: handleMessage_cases)
    case pre_prepare
    from handlePrePrepare_frame(1) [OF this] show ?thesis by (simp add: consensus_frame_def)
  next
    case prepare
    then show ?thesis using handlePrepare_frame(1) [of e V m] by (simp add: consensus_frame_def)
  next
    case commit
    with False assms(1) show ?thesis
      by (cases "mType m") (auto simp: handleMessage_def intro: view_change_chain [OF _ cb] new_view_chain [OF _ cb]
          dest: handlePrePrepare_frame(1) simp: handlePrepare_frame(1) [unfolded consensus_frame_def] consensus_frame_def)
  next
    case view_change
    from view_change_chain [OF this cb] show ?thesis .
  next
    case new_view
    from new_view_chain [OF this cb] show ?thesis .
  qed simp
  with ne show thesis by simp
qed

text \<open>
  C4. Only a quorum of commits extends the chain. Take any step of a node in a state that satisfies
  its invariant. If its chain is not the same afterwards, then the step was the handling of a
  message; and whatever the environment of that step was, the message was a \<open>COMMIT\<close> for the
  current view at the head of the queue, the log held a prepared and unexecuted state under its
  number, the voters already recorded there together with the one the environment's codec reads
  in this message are a quorum of different names, the application finalized and committed the
  state's block, and that block is all the step appended.
\<close>

theorem commit_needs_quorum:
  assumes "engine_step A S e e'" and "engine_ok e" and "eCommittedBlocks e' \<noteq> eCommittedBlocks e"
  shows "(\<exists>V. ve_ok V \<and> run_msg A S V e = Some (Ret e')) \<and>
    (\<forall>V. run_msg A S V e = Some (Ret e') \<longrightarrow>
      (\<exists>m q b c s a1 r a2 h. eMsgChan e = m # q \<and> eCommittedBlocks e' = eCommittedBlocks e @ [b] \<and>
        mType m = Commit \<and> mView m = eView e \<and> dec_commit (ve_codec V) (mPayload m) = Some c \<and>
        GetExistingState (mSequenceNum m) (eStateLog e) = Some s \<and> sPhase s = Prepared \<and> \<not> sExecuted s \<and>
        sBlock s = Some b \<and>
        QuorumSize (eValidatorSet e) \<le> int (card (insert (cNodeID c) (go_keys (sCommitMsgs s)))) \<and>
        ad_FinalizeBlock A b (eAdapter e) = (a1, Inr r) \<and> ad_Commit A a1 = (a2, Inr h)))"
proof (intro conjI allI impI)
  from assms(1) show "\<exists>V. ve_ok V \<and> run_msg A S V e = Some (Ret e')"
  proof (cases rule: engine_step.cases)
    case (es_request V)
    then have "eCommittedBlocks e' = eCommittedBlocks e"
    proof (cases rule: run_request_cases)
      case (propose r q)
      from proposeBlock_frame(1) [OF propose(3)] show ?thesis by (simp add: consensus_frame_def)
    qed simp
    with assms(3) show ?thesis by simp
  next
    case (es_timeout V)
    from es_timeout(2) have "eCommittedBlocks e' = eCommittedBlocks e"
      by (rule startViewChange_fields) (simp split: option.splits)
    with assms(3) show ?thesis by simp
  qed (use assms(3) in \<open>auto simp: handleIncomingMessage_def SubmitRequest_def Let_def engine_Start_def
        engine_Stop_def resetViewChangeTimer_def split: if_splits\<close>)
next
  fix V
  assume "run_msg A S V e = Some (Ret e')"
  then obtain m q where h: "eMsgChan e = m # q" "handleMessage A S V m (e\<lparr>eMsgChan := q\<rparr>) = Ret e'"
    by (auto elim: run_msg_cases)
  have "engine_ok (e\<lparr>eMsgChan := q\<rparr>)" "eCommittedBlocks e' \<noteq> eCommittedBlocks (e\<lparr>eMsgChan := q\<rparr>)"
    using assms(2,3) by simp_all
  from handleMessage_extends [OF h(2) this] obtain b where
    "eCommittedBlocks e' = eCommittedBlocks e @ [b]" "commits_block A V m (e\<lparr>eMsgChan := q\<rparr>) b" by auto
  then have "eCommittedBlocks e' = eCommittedBlocks e @ [b]" "commits_block A V m e b" by (simp_all add: commits_block_def)
  with h(1) show "\<exists>m q b c s a1 r a2 h. eMsgChan e = m # q \<and> eCommittedBlocks e' = eCommittedBlocks e @ [b] \<and>
        mType m = Commit \<and> mView m = eView e \<and> dec_commit (ve_codec V) (mPayload m) = Some c \<and>
        GetExistingState (mSequenceNum m) (eStateLog e) = Some s \<and> sPhase s = Prepared \<and> \<not> sExecuted s \<and>
        sBlock s = Some b \<and>
        QuorumSize (eValidatorSet e) \<le> int (card (insert (cNodeID c) (go_keys (sCommitMsgs s)))) \<and>
        ad_FinalizeBlock A b (eAdapter e) = (a1, Inr r) \<and> ad_Commit A a1 = (a2, Inr h)"
    unfolding commits_block_def by blast
qed

text \<open>A node one \<open>COMMIT\<close> short of a quorum, with that \<open>COMMIT\<close> in its queue.\<close>

definition nearly_committed_state :: State where
  "nearly_committed_state = AddCommit (NewCommitMsg 0 1 [] ''node2'') (AddCommit (NewCommitMsg 0 1 [] ''node1'')
     (TransitionToPrepared (SetPrePrepare (NewPrePrepareMsg 0 1 (raw_block 1 []) ''node0'') (Some (raw_block 1 [])) (NewState 0 1))))"

definition nearly_committed :: "(NoopABCIAdapter, MemoryStore) Engine" where
  "nearly_committed = (put_state 1 nearly_committed_state (fresh_engine NewNoopABCIAdapter ''node1''))
     \<lparr>eMsgChan := [commit_vote sample_env 0 1 (''node3'', [], ''node3'')]\<rparr>"

lemma nearly_committed_state_facts:
  "state_ok nearly_committed_state" "sSequenceNum nearly_committed_state = 1" "sPhase nearly_committed_state = Prepared"
  "sBlock nearly_committed_state = Some (raw_block 1 [])" "\<not> sExecuted nearly_committed_state"
  "go_keys (sCommitMsgs nearly_committed_state) = {''node1'', ''node2''}"
proof -
  have "state_ok (SetPrePrepare (NewPrePrepareMsg 0 1 (raw_block 1 []) ''node0'') (Some (raw_block 1 [])) (NewState 0 1))"
    using state_ok_ops(1) [OF votes_ok_NewState, of "NewPrePrepareMsg 0 1 (raw_block 1 []) ''node0''" 0 1] by simp
  then show "state_ok nearly_committed_state"
    unfolding nearly_committed_state_def by (intro state_ok_ops)
qed (simp_all add: nearly_committed_state_def State_defs insert_commute)

lemma nearly_committed_facts:
  "engine_ok nearly_committed" "eCommittedBlocks nearly_committed = []" "eView nearly_committed = 0"
  "GetExistingState 1 (eStateLog nearly_committed) = Some nearly_committed_state"
  "eValidatorSet nearly_committed = default_set" "eConfig nearly_committed = DefaultConfig ''node1''"
proof -
  have "log_ok (write_state 1 nearly_committed_state (NewStateLog 200))"
    by (rule log_ok_write [OF log_ok_New nearly_committed_state_facts(1,2)])
  then show "engine_ok nearly_committed"
    by (intro engine_ok_cong [OF fresh_engine_simps(1) [of NewNoopABCIAdapter "''node1''"]]) (simp_all add: nearly_committed_def)
qed (simp_all add: nearly_committed_def)

lemma nearly_committed_handles:
  "\<exists>e'. handleCommit noop_adapter (memory_store rev) sample_env (commit_vote sample_env 0 1 (''node3'', [], ''node3''))
       (nearly_committed\<lparr>eMsgChan := q\<rparr>) = Ret e' \<and> eCommittedBlocks e' = [raw_block 1 []]"
proof -
  let ?q = "nearly_committed\<lparr>eMsgChan := q\<rparr>" and ?m = "commit_vote sample_env 0 1 (''node3'', [], ''node3'')"
  obtain a1 r a2 h where app: "ad_FinalizeBlock noop_adapter (raw_block 1 []) (eAdapter ?q) = (a1, Inr r)"
    "ad_Commit noop_adapter a1 = (a2, Inr h)" using noop.executes by blast
  have C: "codec_ok (ve_codec sample_env)" and iv: "cfCheckpointInterval (eConfig ?q) \<noteq> 0"
    by (simp_all add: nearly_committed_facts)
  note run = runs_to_extends [OF app iv, where S = "memory_store rev" and V = sample_env and n = 1]
  have g: "GetExistingState 1 (eStateLog ?q) = Some nearly_committed_state" by (simp add: nearly_committed_facts)
  have log: "log_ok (eStateLog ?q)" using engine_ok_facts(5) [OF nearly_committed_facts(1)] by simp
  obtain e' where e': "handleCommit noop_adapter (memory_store rev) sample_env ?m ?q = Ret e'"
    "settled 1 [raw_block 1 []] e'"
  proof (cases rule: commit_step [OF C g nearly_committed_state_facts(3-5) log run, of "(''node3'', [], ''node3'')"])
    case (1 s')
    then show ?thesis by (simp add: nearly_committed_state_facts nearly_committed_facts size_default)
  next
    case (2 e')
    then show ?thesis using that by (simp add: nearly_committed_facts)
  qed
  then show ?thesis by (auto simp: settled_def)
qed

lemma nearly_committed_commits:
  "\<exists>e'. run_msg noop_adapter (memory_store rev) sample_env nearly_committed = Some (Ret e') \<and>
     eCommittedBlocks e' = [raw_block 1 []]"
proof -
  obtain e' where e': "handleCommit noop_adapter (memory_store rev) sample_env (commit_vote sample_env 0 1 (''node3'', [], ''node3''))
       (nearly_committed\<lparr>eMsgChan := []\<rparr>) = Ret e'" "eCommittedBlocks e' = [raw_block 1 []]"
    using nearly_committed_handles [of "[]"] by (elim exE conjE) (rule that)
  have "eMsgChan nearly_committed = [commit_vote sample_env 0 1 (''node3'', [], ''node3'')]" by (simp add: nearly_committed_def)
  with e' show ?thesis by (simp add: run_msg_def)
qed

theorem commit_needs_quorum_witness:
  "\<exists>e' m c s. run_msg noop_adapter (memory_store rev) sample_env nearly_committed = Some (Ret e') \<and>
     eCommittedBlocks e' = [raw_block 1 []] \<and> eMsgChan nearly_committed = [m] \<and> mType m = Commit \<and>
     dec_commit sample_codec (mPayload m) = Some c \<and>
     GetExistingState (mSequenceNum m) (eStateLog nearly_committed) = Some s \<and>
     QuorumSize (eValidatorSet nearly_committed) \<le> int (card (insert (cNodeID c) (go_keys (sCommitMsgs s))))"
proof -
  obtain e' where e': "run_msg noop_adapter (memory_store rev) sample_env nearly_committed = Some (Ret e')"
    "eCommittedBlocks e' = [raw_block 1 []]" using nearly_committed_commits by blast
  have st: "engine_step noop_adapter (memory_store rev) nearly_committed e'" by (rule es_message [OF _ e'(1)]) simp
  have "eCommittedBlocks e' \<noteq> eCommittedBlocks nearly_committed" using e'(2) by (simp add: nearly_committed_facts)
  from commit_needs_quorum [OF st nearly_committed_facts(1) this, THEN conjunct2, rule_format, OF e'(1)]
  obtain m q c s where "eMsgChan nearly_committed = m # q" "mType m = Commit" "dec_commit (ve_codec sample_env) (mPayload m) = Some c"
    "GetExistingState (mSequenceNum m) (eStateLog nearly_committed) = Some s"
    "QuorumSize (eValidatorSet nearly_committed) \<le> int (card (insert (cNodeID c) (go_keys (sCommitMsgs s))))"
    by (elim exE conjE) (rule that)
  with e' show ?thesis by (intro exI [of _ e'] exI [of _ m] exI [of _ c] exI [of _ s]) (simp add: nearly_committed_def sample_env_def)
qed

text \<open>
  C5. The chain and the view only grow. From any state of a booted node to any later one, whatever
  happens in between: the configuration is unchanged, the view has not decreased, the old chain
  is a prefix of the new one, and the low mark has not decreased.
\<close>

theorem committed_history_only_grows:
  assumes "engine_reachable A S (booted c vs a mp store) e" and "good_pool mp"
    and "engine_reachable A S e e'"
  shows "eConfig e' = c \<and> eView e \<le> eView e' \<and> (\<exists>bs. eCommittedBlocks e' = eCommittedBlocks e @ bs) \<and>
    slLow (eStateLog e) \<le> slLow (eStateLog e')"
proof -
  have ok: "engine_ok e" by (rule engine_reachable_ok [OF assms(1) engine_ok_booted [OF assms(2)]])
  have "eConfig e = c" using engine_reachable_progress [OF assms(1) engine_ok_booted [OF assms(2)]] by simp
  with engine_reachable_progress [OF assms(3) ok] show ?thesis by simp
qed

theorem committed_history_only_grows_witness:
  "\<exists>e. engine_reachable noop_adapter (memory_store rev) sample_node e \<and> GetExistingState 1 (eStateLog e) \<noteq> None \<and>
     eConfig e = DefaultConfig ''node1'' \<and> (\<exists>bs. eCommittedBlocks e = eCommittedBlocks sample_node @ bs)"
proof -
  obtain e s where e: "handleMessage noop_adapter (memory_store rev) sample_env
       (proposal sample_env 0 1 ''node0'' (raw_block 1 [])) sample_node = Ret e"
    "GetExistingState 1 (eStateLog e) = Some s"
    using sample_node_takes_proposal by (elim exE conjE) (rule that)
  have r: "engine_reachable noop_adapter (memory_store rev) sample_node e"
    by (rule one_message_reachable [OF e(1)]) simp_all
  note g = committed_history_only_grows [OF er_init good_pool_New r [unfolded sample_node_def], folded sample_node_def]
  with e(2) r show ?thesis by (intro exI [of _ e]) simp
qed

section \<open>Ballots\<close>

text \<open>
  The abstract view of the log: for each open number the phase, the block, the sets of voters
  and whether the block has run. The specification of a vote is one line per handler.
\<close>

record ballot =
  blPhase :: Phase
  blBlock :: "Block option"
  blPrepares :: "string set"
  blCommits :: "string set"
  blExecuted :: bool

definition ballot_of :: "State \<Rightarrow> ballot" where
  "ballot_of s = \<lparr>blPhase = sPhase s, blBlock = sBlock s, blPrepares = go_keys (sPrepareMsgs s),
     blCommits = go_keys (sCommitMsgs s), blExecuted = sExecuted s\<rparr>"

definition ballots :: "('a, 's) Engine \<Rightarrow> u64 \<Rightarrow> ballot option" where
  "ballots e n = map_option ballot_of (GetExistingState n (eStateLog e))"

definition spec_propose :: "string \<Rightarrow> Block option \<Rightarrow> ballot option \<Rightarrow> ballot" where
  "spec_propose self b old =
     (case old of
        None \<Rightarrow> \<lparr>blPhase = PrePrepared, blBlock = b, blPrepares = {self}, blCommits = {}, blExecuted = False\<rparr>
      | Some bl \<Rightarrow> bl\<lparr>blPhase := PrePrepared, blBlock := b, blPrepares := insert self (blPrepares bl)\<rparr>)"

definition spec_prepare :: "int \<Rightarrow> string \<Rightarrow> string \<Rightarrow> ballot \<Rightarrow> ballot" where
  "spec_prepare q self i bl =
     (let bl = bl\<lparr>blPrepares := insert i (blPrepares bl)\<rparr>
      in if blPhase bl = PrePrepared \<and> q \<le> int (card (blPrepares bl))
         then bl\<lparr>blPhase := Prepared, blCommits := insert self (blCommits bl)\<rparr> else bl)"

definition spec_commit :: "int \<Rightarrow> string \<Rightarrow> ballot \<Rightarrow> ballot" where
  "spec_commit q i bl =
     (let bl = bl\<lparr>blCommits := insert i (blCommits bl)\<rparr>
      in if blPhase bl = Prepared \<and> q \<le> int (card (blCommits bl)) then bl\<lparr>blPhase := Committed\<rparr> else bl)"

lemma ballots_put [simp]:
  "ballots (put_state n s e) = (ballots e)(n \<mapsto> ballot_of s)" "ballots (broadcast m e) = ballots e"
  "ballots (resetViewChangeTimer e) = ballots e" "ballots (e\<lparr>eAdapter := a\<rparr>) = ballots e"
  by (rule ext, simp add: ballots_def)+

lemma ballot_counts:
  assumes "state_ok s"
  shows "IsPrepared q s \<longleftrightarrow> sPhase s \<noteq> Idle \<and> q \<le> int (card (go_keys (sPrepareMsgs s)))"
    "IsCommitted q s \<longleftrightarrow> sPhase s \<in> {Prepared, Committed} \<and> q \<le> int (card (go_keys (sCommitMsgs s)))"
  using assms by (cases "sPhase s"; auto simp: IsPrepared_def IsCommitted_def state_ok_def votes_ok_def
      card_go_keys less_eq_Phase_def)+

lemma handlePrepare_ballots:
  assumes log: "log_ok (eStateLog e)" and d: "dec_prepare (ve_codec V) (mPayload m) = Some p" and v: "mView m = eView e"
  shows "ballots (handlePrepare V m e) = (ballots e)(mSequenceNum m :=
    map_option (spec_prepare (QuorumSize (eValidatorSet e)) (cfNodeID (eConfig e)) (pNodeID p)) (ballots e (mSequenceNum m)))"
proof (cases rule: handlePrepare_cases [of m e V])
  case ignored
  then have "ballots e (mSequenceNum m) = None" using d v by (auto simp: ballots_def)
  with ignored(2) show ?thesis by (simp add: fun_upd_idem)
next
  case (counted p' s)
  then have p: "p' = p" using d by simp
  have ok: "state_ok (AddPrepare p s)" using log_ok_get [OF log counted(3)] by blast
  have b: "ballots e (mSequenceNum m) = Some (ballot_of s)" using counted(3) by (simp add: ballots_def)
  have "ballot_of (AddPrepare p s) = spec_prepare (QuorumSize (eValidatorSet e)) (cfNodeID (eConfig e)) (pNodeID p) (ballot_of s)"
    using counted(4) unfolding p ballot_counts(1) [OF ok]
    by (auto simp: spec_prepare_def ballot_of_def Let_def AddPrepare_def)
  with counted(5) b p show ?thesis by simp
next
  case (prepared p' s c r)
  then have p: "p' = p" using d by simp
  have ok: "state_ok (AddPrepare p s)" using log_ok_get [OF log prepared(3)] by blast
  have b: "ballots e (mSequenceNum m) = Some (ballot_of s)" using prepared(3) by (simp add: ballots_def)
  have "ballot_of (AddCommit c (TransitionToPrepared (AddPrepare p s))) =
      spec_prepare (QuorumSize (eValidatorSet e)) (cfNodeID (eConfig e)) (pNodeID p) (ballot_of s)"
    using prepared(4,5,6) unfolding p ballot_counts(1) [OF ok]
    by (auto simp: spec_prepare_def ballot_of_def Let_def State_defs)
  with prepared(10) b p show ?thesis by simp
qed

lemma AddCommit_ballot:
  assumes "state_ok (AddCommit c s)"
    and "t = (if IsCommitted q (AddCommit c s) \<and> sPhase s = Prepared then TransitionToCommitted (AddCommit c s) else AddCommit c s)"
  shows "ballot_of t = spec_commit q (cNodeID c) (ballot_of s)"
  using assms(2) unfolding ballot_counts(2) [OF assms(1)]
  by (auto simp: spec_commit_def ballot_of_def Let_def State_defs)

lemma ballots_record [simp]:
  "ballots (record_commit A S V n s b r e) = (ballots e)(n \<mapsto> (ballot_of s)\<lparr>blExecuted := True\<rparr>)"
  by (rule ext) (simp add: ballots_def record_commit_fields ballot_of_def MarkExecuted_def)

lemma ballots_checkpoint [simp]:
  "ballots (createCheckpoint S V c e) = (\<lambda>k. if slLow (eStateLog e) < c \<and> k \<le> c then None else ballots e k)"
  by (rule ext) (simp add: ballots_def createCheckpoint_fields Advance_get)

lemma handleCommit_ballots:
  assumes h: "handleCommit A S V m e = Ret e'" and log: "log_ok (eStateLog e)"
    and d: "dec_commit (ve_codec V) (mPayload m) = Some c" and v: "mView m = eView e"
  defines "n \<equiv> mSequenceNum m"
    and "voted \<equiv> map_option (spec_commit (QuorumSize (eValidatorSet e)) (cNodeID c)) (ballots e (mSequenceNum m))"
  shows "if eCommittedBlocks e' = eCommittedBlocks e then ballots e' = (ballots e)(n := voted)
    else ballots e' = (\<lambda>k. if n mod cfCheckpointInterval (eConfig e) = 0 \<and> slLow (eStateLog e) < n \<and> k \<le> n then None
       else ((ballots e)(n := map_option (blExecuted_update (\<lambda>_. True)) voted)) k)"
  using h
proof (cases rule: handleCommit_cases)
  case ignored
  then have "ballots e n = None" using d v by (auto simp: ballots_def n_def)
  with ignored(2) show ?thesis by (simp add: fun_upd_idem voted_def n_def)
next
  case (counted c' s)
  then have c: "c' = c" using d by simp
  have ok: "state_ok (AddCommit c s)" using log_ok_get [OF log counted(3)] by blast
  have b: "voted = Some (spec_commit (QuorumSize (eValidatorSet e)) (cNodeID c) (ballot_of s))"
    using counted(3) by (simp add: ballots_def voted_def)
  have "ballot_of (AddCommit c s) = spec_commit (QuorumSize (eValidatorSet e)) (cNodeID c) (ballot_of s)"
    by (rule AddCommit_ballot [OF ok]) (use counted(4) c in auto)
  with counted(5) b c show ?thesis by (simp add: n_def)
next
  case (committed c' s t)
  then have c: "c' = c" using d by simp
  have ok: "state_ok (AddCommit c s)" "sSequenceNum s = n" using log_ok_get [OF log committed(3)] by (auto simp: n_def)
  have b: "voted = Some (spec_commit (QuorumSize (eValidatorSet e)) (cNodeID c) (ballot_of s))"
    using committed(3) by (simp add: ballots_def voted_def)
  have t: "ballot_of t = spec_commit (QuorumSize (eValidatorSet e)) (cNodeID c) (ballot_of s)"
    by (rule AddCommit_ballot [OF ok(1)]) (use committed(4-6) c in auto)
  have n: "sSequenceNum t = n" using committed(6) ok(2) by simp
  have box: "ballots (put_state n t e) = (ballots e)(n := voted)" using b t by simp
  from committed(7) show ?thesis
  proof (cases rule: executeBlock_cases)
    case skipped
    with box show ?thesis by (simp add: n_def)
  next
    case (failed a)
    with box show ?thesis by (simp add: n_def)
  next
    case (recorded bk r a1 h a2)
    with n b t show ?thesis by (auto simp: n_def record_commit_fields fun_eq_iff)
  next
    case (checkpointed bk r a1 h a2)
    with n b t show ?thesis by (auto simp: n_def record_commit_fields createCheckpoint_fields)
  qed
qed

lemma accept_ballots:
  "ballots (accept_proposal V m pp e) = (ballots e)(mSequenceNum m \<mapsto>
     spec_propose (cfNodeID (eConfig e)) (ppBlock pp) (ballots e (mSequenceNum m)))"
proof -
  let ?n = "mSequenceNum m"
  obtain sl s where g: "GetState (mView m) ?n (eStateLog e) = (sl, s)"
    by (cases "GetState (mView m) ?n (eStateLog e)")
  let ?s = "AddPrepare (NewPrepareMsg (mView m) ?n (mDigest m) (cfNodeID (eConfig e))) (SetPrePrepare pp (ppBlock pp) s)"
  have l: "eStateLog (accept_proposal V m pp e) = write_state ?n ?s sl"
    by (simp add: accept_proposal_def Let_def g)
  have "ballots (accept_proposal V m pp e) k = ((ballots e)(?n \<mapsto> ballot_of ?s)) k" for k
    using GetState_other [OF g, of k] by (simp add: ballots_def l)
  then have "ballots (accept_proposal V m pp e) = (ballots e)(?n \<mapsto> ballot_of ?s)" by (rule ext)
  moreover have "ballot_of ?s = spec_propose (cfNodeID (eConfig e)) (ppBlock pp) (ballots e ?n)"
  proof (cases "GetExistingState ?n (eStateLog e)")
    case None
    with g have "s = NewState (mView m) ?n" by (simp add: GetState_def GetExistingState_def Let_def)
    with None show ?thesis by (simp add: ballots_def spec_propose_def ballot_of_def State_defs)
  next
    case (Some t)
    with g have "s = t" by (simp add: GetState_def GetExistingState_def)
    with Some show ?thesis by (simp add: ballots_def spec_propose_def ballot_of_def State_defs)
  qed
  ultimately show ?thesis by simp
qed

text \<open>
  C8. The log of states implements a ballot box. Reading each logged state as its phase, block and
  sets of voters, a \<open>PREPARE\<close> for the current view does to the ballots exactly what
  \<open>spec_prepare\<close> says, a \<open>COMMIT\<close> what \<open>spec_commit\<close> says, and when it extends the chain it also
  marks the ballot as run and, at a checkpoint, forgets the ballots up to its number; an accepted
  proposal opens its ballot by \<open>spec_propose\<close>, over one that is already there too. No other
  ballot changes, and a vote for an unopened number is lost.
\<close>

theorem handlers_refine_ballots:
  fixes S :: "'s store_ops"
  assumes "engine_ok e" and "mView m = eView e"
  shows "(\<forall>p. dec_prepare (ve_codec V) (mPayload m) = Some p \<longrightarrow>
      ballots (handlePrepare V m e) = (ballots e)(mSequenceNum m :=
        map_option (spec_prepare (QuorumSize (eValidatorSet e)) (cfNodeID (eConfig e)) (pNodeID p)) (ballots e (mSequenceNum m)))) \<and>
    (\<forall>c e'. dec_commit (ve_codec V) (mPayload m) = Some c \<longrightarrow> handleCommit A S V m e = Ret e' \<longrightarrow>
      (let n = mSequenceNum m; voted = map_option (spec_commit (QuorumSize (eValidatorSet e)) (cNodeID c)) (ballots e n) in
       if eCommittedBlocks e' = eCommittedBlocks e then ballots e' = (ballots e)(n := voted)
       else ballots e' = (\<lambda>k. if n mod cfCheckpointInterval (eConfig e) = 0 \<and> slLow (eStateLog e) < n \<and> k \<le> n then None
         else ((ballots e)(n := map_option (blExecuted_update (\<lambda>_. True)) voted)) k))) \<and>
    (\<forall>pp e'. dec_pre_prepare (ve_codec V) (mPayload m) = Some pp \<longrightarrow> handlePrePrepare A V m e = Ret e' \<longrightarrow>
      ballots e' = ballots e \<or>
      ballots e' = (ballots e)(mSequenceNum m \<mapsto>
         spec_propose (cfNodeID (eConfig e)) (ppBlock pp) (ballots e (mSequenceNum m))))"
proof (intro conjI allI impI)
  note log = engine_ok_facts(5) [OF assms(1)]
  show "ballots (handlePrepare V m e) = (ballots e)(mSequenceNum m :=
        map_option (spec_prepare (QuorumSize (eValidatorSet e)) (cfNodeID (eConfig e)) (pNodeID p)) (ballots e (mSequenceNum m)))"
    if "dec_prepare (ve_codec V) (mPayload m) = Some p" for p
    by (rule handlePrepare_ballots [OF log that assms(2)])
  show "let n = mSequenceNum m; voted = map_option (spec_commit (QuorumSize (eValidatorSet e)) (cNodeID c)) (ballots e n) in
       if eCommittedBlocks e' = eCommittedBlocks e then ballots e' = (ballots e)(n := voted)
       else ballots e' = (\<lambda>k. if n mod cfCheckpointInterval (eConfig e) = 0 \<and> slLow (eStateLog e) < n \<and> k \<le> n then None
         else ((ballots e)(n := map_option (blExecuted_update (\<lambda>_. True)) voted)) k)"
    if "dec_commit (ve_codec V) (mPayload m) = Some c" "handleCommit A S V m e = Ret e'" for c e'
    unfolding Let_def by (rule handleCommit_ballots [OF that(2) log that(1) assms(2)])
  fix pp e'
  assume d: "dec_pre_prepare (ve_codec V) (mPayload m) = Some pp" and h: "handlePrePrepare A V m e = Ret e'"
  from h show "ballots e' = ballots e \<or>
      ballots e' = (ballots e)(mSequenceNum m \<mapsto>
         spec_propose (cfNodeID (eConfig e)) (ppBlock pp) (ballots e (mSequenceNum m)))"
  proof (cases rule: handlePrePrepare_cases)
    case (accepted pp' b a)
    with d show ?thesis by (simp add: accept_ballots)
  qed simp_all
qed

theorem handlers_refine_ballots_witness:
  "\<exists>e'. handleCommit noop_adapter (memory_store rev) sample_env (commit_vote sample_env 0 1 (''node3'', [], ''node3''))
       nearly_committed = Ret e' \<and>
     ballots e' 1 = Some \<lparr>blPhase = Committed, blBlock = Some (raw_block 1 []), blPrepares = {},
        blCommits = {''node1'', ''node2'', ''node3''}, blExecuted = True\<rparr>"
proof -
  let ?m = "commit_vote sample_env 0 1 (''node3'', [], ''node3'')"
  have self: "nearly_committed\<lparr>eMsgChan := eMsgChan nearly_committed\<rparr> = nearly_committed" by simp
  obtain e' where e': "handleCommit noop_adapter (memory_store rev) sample_env ?m nearly_committed = Ret e'"
    "eCommittedBlocks e' = [raw_block 1 []]" using nearly_committed_handles [of "eMsgChan nearly_committed"] unfolding self by (elim exE conjE) (rule that)
  have m: "mView ?m = eView nearly_committed" "mSequenceNum ?m = 1" by (simp_all add: commit_vote_def nearly_committed_facts)
  have d: "dec_commit (ve_codec sample_env) (mPayload ?m) = Some (NewCommitMsg 0 1 [] ''node3'')"
    by (simp add: commit_vote_def)
  have b: "ballots nearly_committed 1 = Some \<lparr>blPhase = Prepared, blBlock = Some (raw_block 1 []), blPrepares = {},
      blCommits = {''node1'', ''node2''}, blExecuted = False\<rparr>"
    by (simp add: ballots_def nearly_committed_facts ballot_of_def nearly_committed_state_facts)
      (simp add: nearly_committed_state_def State_defs)
  have k: "(1 :: u64) mod 100 \<noteq> 0" by simp
  have s: "spec_commit 3 ''node3'' \<lparr>blPhase = Prepared, blBlock = Some (raw_block 1 []), blPrepares = {},
      blCommits = {''node1'', ''node2''}, blExecuted = False\<rparr> = \<lparr>blPhase = Committed, blBlock = Some (raw_block 1 []),
      blPrepares = {}, blCommits = {''node1'', ''node2'', ''node3''}, blExecuted = False\<rparr>"
    by (simp add: spec_commit_def insert_commute)
  note all = handlers_refine_ballots [OF nearly_committed_facts(1) m(1), of sample_env noop_adapter "memory_store rev"]
  from all [THEN conjunct2, THEN conjunct1, rule_format, OF d e'(1)]
  have "ballots e' 1 = map_option (blExecuted_update (\<lambda>_. True))
      (map_option (spec_commit (QuorumSize (eValidatorSet nearly_committed)) ''node3'') (ballots nearly_committed 1))"
    using e'(2) k by (simp add: Let_def m(2) nearly_committed_facts)
  with e'(1) show ?thesis by (simp add: b s nearly_committed_facts size_default)
qed

end
