(* ===== verification/Engine_Proposals.thy ===== *)
theory Engine_Proposals
  imports Engine_Props
begin

text \<open>
  How a number is opened: what a node does with a proposal on every branch of
  \<open>handlePrePrepare\<close>, what the primary proposes (\<open>proposeBlock\<close>), and what becomes of the
  primary's counter when another node takes over.
\<close>

section \<open>Taking a proposal\<close>

lemma window_write [simp]: "IsInWindow k (write_state n s sl) = IsInWindow k sl"
  by (simp add: IsInWindow_def)

definition prepare_reply :: "engine_env \<Rightarrow> Message \<Rightarrow> string \<Rightarrow> Message" where
  "prepare_reply V m self = prepare_vote V (mView m) (mSequenceNum m) (self, mDigest m, self)"

lemma accept_proposal_fields:
  "eOut (accept_proposal V m pp e) = eOut e @ (if eTransportSet e then [prepare_reply V m (cfNodeID (eConfig e))] else [])"
  "eTimer (accept_proposal V m pp e) = Some (cfViewChangeTimeout (eConfig e))"
  by (simp_all add: accept_proposal_def Let_def resetViewChangeTimer_def prepare_reply_def prepare_vote_def split: prod.split)
    (simp_all add: broadcast_def put_state_def)

text \<open>
  C11. \<open>handlePrePrepare\<close> on every branch, for a node that knows the primary \<open>p\<close> of its view. A
  message from another node, for another view, outside the window or undecodable changes nothing;
  a proposal without a block panics; a proposal the application refuses changes only the
  application's state. Otherwise the proposal stands under its number with the node's own
  \<open>PREPARE\<close>, which is also broadcast, and the view change timer starts again. An accepted proposal
  replaces one that is already there, and keeps the votes and the execution mark of the old one.
\<close>

theorem handlePrePrepare_correct:
  assumes "getPrimaryID e = Ret p"
    and "ready \<longleftrightarrow> mNodeID m = p \<and> mView m = eView e \<and> IsInWindow (mSequenceNum m) (eStateLog e)"
  shows "case (if ready then dec_pre_prepare (ve_codec V) (mPayload m) else None) of
      None \<Rightarrow> handlePrePrepare A V m e = Ret e
    | Some pp \<Rightarrow>
       (case ppBlock pp of
          None \<Rightarrow> handlePrePrepare A V m e = Panic Nil_Deref
        | Some b \<Rightarrow>
           (case ad_ProcessProposal A (sint (mSequenceNum m)) (bytes_of_string (ppPrimaryID pp)) (map txData (bTransactions b))
                   (mDigest m) (eAdapter e) of
              (a, res) \<Rightarrow>
                if res \<noteq> Inr True then handlePrePrepare A V m e = Ret (e\<lparr>eAdapter := a\<rparr>)
                else \<exists>e'. handlePrePrepare A V m e = Ret e' \<and> eAdapter e' = a \<and> consensus_frame (e\<lparr>eAdapter := a\<rparr>) e' \<and>
                  ballots e' = (ballots e)(mSequenceNum m \<mapsto>
                     spec_propose (cfNodeID (eConfig e)) (Some b) (ballots e (mSequenceNum m))) \<and>
                  eOut e' = eOut e @ (if eTransportSet e then [prepare_reply V m (cfNodeID (eConfig e))] else []) \<and>
                  eTimer e' = Some (cfViewChangeTimeout (eConfig e))))"
proof (cases "if ready then dec_pre_prepare (ve_codec V) (mPayload m) else None")
  case None
  have "handlePrePrepare A V m e = Ret e"
  proof (cases ready)
    case True
    with None assms show ?thesis by (simp add: handlePrePrepare_def)
  next
    case False
    with assms show ?thesis by (auto simp: handlePrePrepare_def)
  qed
  with None show ?thesis by simp
next
  case (Some pp)
  then have r: "ready" and d: "dec_pre_prepare (ve_codec V) (mPayload m) = Some pp" by (auto split: if_splits)
  show ?thesis
  proof (cases "ppBlock pp")
    case None
    with Some r d assms show ?thesis by (simp add: handlePrePrepare_def)
  next
    case b: (Some b)
    obtain a res where pr: "ad_ProcessProposal A (sint (mSequenceNum m)) (bytes_of_string (ppPrimaryID pp))
        (map txData (bTransactions b)) (mDigest m) (eAdapter e) = (a, res)" by fastforce
    show ?thesis
    proof (cases "res = Inr True")
      case True
      let ?e = "accept_proposal V m pp (e\<lparr>eAdapter := a\<rparr>)"
      have "handlePrePrepare A V m e = Ret ?e"
        using d r b pr True assms by (simp add: handlePrePrepare_def Let_def)
      moreover have "eAdapter ?e = a" by (simp add: accept_proposal_frame(4))
      moreover have "consensus_frame (e\<lparr>eAdapter := a\<rparr>) ?e" by (rule accept_proposal_frame)
      ultimately show ?thesis using Some b pr True
        by (simp add: accept_ballots accept_proposal_fields)
    next
      case False
      then have "handlePrePrepare A V m e = Ret (e\<lparr>eAdapter := a\<rparr>)"
        using d r b pr assms by (auto simp: handlePrePrepare_def Let_def split: sum.split)
      with Some b pr False show ?thesis by simp
    qed
  qed
qed

text \<open>A node that already holds a proposal takes another one for the same number.\<close>

theorem handlePrePrepare_correct_witness:
  "\<exists>e'. handlePrePrepare noop_adapter sample_env (proposal sample_env 0 1 ''node0'' (raw_block 2 []))
       (pre_prepared_engine NewNoopABCIAdapter ''node1'' (raw_block 1 [])) = Ret e' \<and>
     ballots e' 1 = Some \<lparr>blPhase = PrePrepared, blBlock = Some (raw_block 2 []), blPrepares = {''node1''},
        blCommits = {}, blExecuted = False\<rparr>"
proof -
  let ?e = "pre_prepared_engine NewNoopABCIAdapter ''node1'' (raw_block 1 [])"
  let ?m = "proposal sample_env 0 1 ''node0'' (raw_block 2 [])"
  have prim: "getPrimaryID ?e = Ret ''node0''"
    using fresh_engine_facts(1) [of NewNoopABCIAdapter "''node1''"] by (simp add: getPrimaryID_def)
  have r: "True \<longleftrightarrow> mNodeID ?m = ''node0'' \<and> mView ?m = eView ?e \<and> IsInWindow (mSequenceNum ?m) (eStateLog ?e)"
    by (simp add: proposal_def pre_prepared_engine_def)
  note c = handlePrePrepare_correct [OF prim r, where V = sample_env and A = noop_adapter]
  have m: "mSequenceNum ?m = 1" "dec_pre_prepare sample_codec (mPayload ?m) = Some (NewPrePrepareMsg 0 1 (raw_block 2 []) ''node0'')"
    "ppBlock (NewPrePrepareMsg 0 1 (raw_block 2 []) ''node0'') = Some (raw_block 2 [])"
    using codec_okD(1) [OF codec_ok_sample] by (simp_all add: proposal_def)
  have b: "ballots ?e 1 = Some \<lparr>blPhase = PrePrepared, blBlock = Some (raw_block 1 []), blPrepares = {},
      blCommits = {}, blExecuted = False\<rparr>"
    by (simp add: ballots_def) (simp add: ballot_of_def State_defs)
  from c show ?thesis by (auto simp: m b noop.process_accepts spec_propose_def DefaultConfig_def)
qed

section \<open>Making a proposal\<close>

lemma issue_proposal_state:
  "GetExistingState k (eStateLog (issue_proposal V n v txs e)) =
     (if k = n then Some (AddPrepare (NewPrepareMsg v n (bHash (proposed_block V n v txs e)) (cfNodeID (eConfig e)))
          (SetPrePrepare (NewPrePrepareMsg v n (proposed_block V n v txs e) (cfNodeID (eConfig e)))
            (Some (proposed_block V n v txs e)) (case GetExistingState n (eStateLog e) of Some s \<Rightarrow> s | None \<Rightarrow> NewState v n)))
      else GetExistingState k (eStateLog e))"
proof -
  obtain sl s where g: "GetState v n (eStateLog e) = (sl, s)" by (cases "GetState v n (eStateLog e)")
  have s: "s = (case GetExistingState n (eStateLog e) of Some s \<Rightarrow> s | None \<Rightarrow> NewState v n)"
    using g by (auto simp: GetState_def GetExistingState_def Let_def split: option.splits)
  have "GetExistingState k (eStateLog (issue_proposal V n v txs e)) =
     (if k = n then Some (AddPrepare (NewPrepareMsg v n (bHash (proposed_block V n v txs e)) (cfNodeID (eConfig e)))
          (SetPrePrepare (NewPrePrepareMsg v n (proposed_block V n v txs e) (cfNodeID (eConfig e)))
            (Some (proposed_block V n v txs e)) s))
      else GetExistingState k sl)"
    by (simp add: issue_proposal_def Let_def g)
  with GetState_other [OF g] s show ?thesis by simp
qed

lemma proposed_block_fields:
  "map txData (bTransactions (proposed_block V n v txs e)) = txs"
  "hPrevHash (bHeader (proposed_block V n v txs e)) =
     (if eCommittedBlocks e \<noteq> [] then bHash (last (eCommittedBlocks e)) else [])"
  "hHeight (bHeader (proposed_block V n v txs e)) = n"
proof -
  have "map txData (map f (enumerate k txs)) = map (\<lambda>p. txData (f p)) (enumerate k txs)" for f k by simp
  moreover have "map snd (enumerate k txs) = txs" for k by (rule map_snd_enumerate)
  ultimately show "map txData (bTransactions (proposed_block V n v txs e)) = txs"
    by (simp add: proposed_block_def Let_def make_transactions_def case_prod_beta comp_def)
qed (simp_all add: proposed_block_def Let_def)

context builtin_adapter
begin

lemma proposes:
  assumes "IsInWindow (eSequenceNum e + 1) (eStateLog e)" and "eMempool e = Some mp"
    and "ReapMaxTxs (ve_mp V) 500 mp = Ret txs" and "txs \<noteq> []"
  shows "proposeBlock A V req e = Ret (issue_proposal V (eSequenceNum e + 1) (eView e) (map tData txs)
    (e\<lparr>eSequenceNum := eSequenceNum e + 1\<rparr>))"
  using assms by (simp add: proposeBlock_def Let_def collect_txs_def propose_txs_def prepare_as_is)

end

text \<open>
  Consecutive proposals repeat the transactions. Reaping does not take transactions out of the
  pool, and nothing marks them as proposed: a primary asked twice before the first block commits
  proposes, under the next two numbers, two blocks with the same transactions on the same parent.
\<close>

theorem consecutive_proposals_repeat:
  assumes "builtin_adapter A healthy" and "eMempool e = Some mp"
    and "ReapMaxTxs (ve_mp V) 500 mp = Ret txs" and "txs \<noteq> []"
    and "IsInWindow (eSequenceNum e + 1) (eStateLog e)" "IsInWindow (eSequenceNum e + 2) (eStateLog e)"
  shows "\<exists>e1 e2 s1 s2 b1 b2. proposeBlock A V req1 e = Ret e1 \<and> proposeBlock A V req2 e1 = Ret e2 \<and>
    GetExistingState (eSequenceNum e + 1) (eStateLog e2) = Some s1 \<and> sBlock s1 = Some b1 \<and>
    GetExistingState (eSequenceNum e + 2) (eStateLog e2) = Some s2 \<and> sBlock s2 = Some b2 \<and>
    map txData (bTransactions b1) = map tData txs \<and> map txData (bTransactions b2) = map tData txs \<and>
    hPrevHash (bHeader b2) = hPrevHash (bHeader b1) \<and> eMempool e2 = Some mp"
proof -
  let ?n = "eSequenceNum e + 1" and ?t = "map tData txs"
  let ?e = "e\<lparr>eSequenceNum := ?n\<rparr>"
  let ?e1 = "issue_proposal V ?n (eView e) ?t ?e"
  have p1: "proposeBlock A V req1 e = Ret ?e1"
    by (rule builtin_adapter.proposes [OF assms(1,5,2-4)])
  have fr: "consensus_frame ?e ?e1" by (rule issue_proposal_frame)
  have sq: "eSequenceNum ?e1 = ?n" by (simp add: issue_proposal_frame(3))
  have e1: "eMempool ?e1 = Some mp" "eView ?e1 = eView e" "eCommittedBlocks ?e1 = eCommittedBlocks e"
    using fr assms(2) by (simp_all add: consensus_frame_def)
  have n2: "?n + 1 = eSequenceNum e + 2" by simp
  have "slHigh (eStateLog ?e1) = slHigh (eStateLog e) \<and> slLow (eStateLog ?e1) = slLow (eStateLog e)"
    by (simp add: issue_proposal_def Let_def split: prod.split) (metis GetState_marks)
  then have w: "IsInWindow (eSequenceNum ?e1 + 1) (eStateLog ?e1)"
    using assms(6) unfolding sq n2 by (simp add: IsInWindow_def)
  let ?e2' = "?e1\<lparr>eSequenceNum := eSequenceNum ?e1 + 1\<rparr>"
  let ?e2 = "issue_proposal V (eSequenceNum ?e1 + 1) (eView ?e1) ?t ?e2'"
  have p2: "proposeBlock A V req2 ?e1 = Ret ?e2"
    by (rule builtin_adapter.proposes [OF assms(1) w e1(1) assms(3,4)])
  have m2: "eMempool ?e2 = Some mp"
    using issue_proposal_frame(1) [of ?e2' V "eSequenceNum ?e1 + 1" "eView ?e1" ?t] e1(1) by (simp add: consensus_frame_def)
  have ne: "?n \<noteq> eSequenceNum ?e1 + 1" unfolding sq by simp
  have s1: "\<exists>s1. GetExistingState ?n (eStateLog ?e2) = Some s1 \<and>
      sBlock s1 = Some (proposed_block V ?n (eView e) ?t ?e)"
    using ne by (simp add: issue_proposal_state) (simp add: State_defs)
  have s2: "\<exists>s2. GetExistingState (eSequenceNum e + 2) (eStateLog ?e2) = Some s2 \<and>
      sBlock s2 = Some (proposed_block V (eSequenceNum ?e1 + 1) (eView ?e1) ?t ?e2')"
    using sq n2 by (simp add: issue_proposal_state) (simp add: State_defs)
  have "hPrevHash (bHeader (proposed_block V (eSequenceNum ?e1 + 1) (eView ?e1) ?t ?e2')) =
      hPrevHash (bHeader (proposed_block V ?n (eView e) ?t ?e))"
    by (simp add: proposed_block_fields e1)
  with p1 p2 s1 s2 m2 show ?thesis using proposed_block_fields(1) by blast
qed

theorem consecutive_proposals_repeat_witness:
  "\<exists>e1 e2 s1 s2 b1 b2. proposeBlock noop_adapter sample_env None (SetMempool two_tx_pool (fresh_engine NewNoopABCIAdapter ''node0'')) = Ret e1 \<and>
     proposeBlock noop_adapter sample_env None e1 = Ret e2 \<and>
     GetExistingState 1 (eStateLog e2) = Some s1 \<and> sBlock s1 = Some b1 \<and>
     GetExistingState 2 (eStateLog e2) = Some s2 \<and> sBlock s2 = Some b2 \<and>
     bTransactions b1 \<noteq> [] \<and> map txData (bTransactions b1) = map txData (bTransactions b2)"
proof -
  let ?e = "SetMempool two_tx_pool (fresh_engine NewNoopABCIAdapter ''node0'') :: (NoopABCIAdapter, MemoryStore) Engine"
  have E: "env_ok (ve_mp sample_env)" by (simp add: sample_env_def)
  have "0 \<le> mcMaxBatchTxs (mpConfig two_tx_pool)" and l: "batch_limit 500 two_tx_pool = 500"
    by (simp_all add: two_tx_pool_facts batch_limit_def DefaultMempoolConfig_def)
  have "sort_key tTimestamp (map snd (env_range (ve_mp sample_env) (mpTxStore two_tx_pool))) \<noteq> []"
    using mset_reaped [OF E, of two_tx_pool] unfolding two_tx_pool_facts(3)
    by (metis add_mset_not_empty mset.simps(1))
  with ReapMaxTxs_eq [OF two_tx_pool_facts(1) \<open>0 \<le> _\<close>, of "ve_mp sample_env" 500] obtain txs where
    r: "ReapMaxTxs (ve_mp sample_env) 500 two_tx_pool = Ret txs" and ne: "txs \<noteq> []"
    using l by (auto simp: two_tx_pool_facts(3))
  have f: "eMempool ?e = Some two_tx_pool" "eSequenceNum ?e + 1 = 1" "eSequenceNum ?e + 2 = 2"
    "IsInWindow (eSequenceNum ?e + 1) (eStateLog ?e)" "IsInWindow (eSequenceNum ?e + 2) (eStateLog ?e)"
    by (simp_all add: SetMempool_def) (simp_all add: IsInWindow_def NewStateLog_def)
  have "builtin_adapter noop_adapter (\<lambda>a b. True)" by (rule noop.builtin_adapter_axioms)
  from consecutive_proposals_repeat [OF this f(1) r ne f(4,5), of None None] show ?thesis
    unfolding f(2,3) using ne by (metis map_is_Nil_conv)
qed

section \<open>A number that has run\<close>

text \<open>The number \<open>n\<close> has been executed, and the chain is \<open>chain\<close>.\<close>

definition spent :: "u64 \<Rightarrow> Block list \<Rightarrow> ('a, 's) Engine \<Rightarrow> bool" where
  "spent n chain e \<longleftrightarrow> eCommittedBlocks e = chain \<and> (\<exists>s. GetExistingState n (eStateLog e) = Some s \<and> sExecuted s)"

lemma executed_ops [simp]:
  "sExecuted (SetPrePrepare m b s) = sExecuted s" "sExecuted (AddPrepare p s) = sExecuted s"
  "sExecuted (AddCommit c s) = sExecuted s" "sExecuted (TransitionToPrepared s) = sExecuted s"
  "sExecuted (TransitionToCommitted s) = sExecuted s"
  by (simp_all add: State_defs)

lemma spent_propose: "spent n chain e \<Longrightarrow> proposeBlock A V req e = Ret e' \<Longrightarrow> spent n chain e'"
proof -
  assume sp: "spent n chain e"
  then obtain s where s: "GetExistingState n (eStateLog e) = Some s" "sExecuted s" "eCommittedBlocks e = chain"
    by (auto simp: spent_def)
  assume "proposeBlock A V req e = Ret e'"
  then show ?thesis
  proof (cases rule: proposeBlock_cases)
    case (issued a txs txs')
    have "eCommittedBlocks e' = chain"
      using issue_proposal_frame(1) [of "e\<lparr>eSequenceNum := eSequenceNum e + 1, eAdapter := a\<rparr>" V "eSequenceNum e + 1" "eView e" txs']
        s(3) issued(4) by (simp add: consensus_frame_def)
    with s issued(4) show ?thesis
      by (cases "n = eSequenceNum e + 1") (simp_all add: spent_def issue_proposal_state)
  qed (use sp in \<open>simp_all add: spent_def\<close>)
qed

lemma spent_message:
  assumes "spent n chain e" and "handleMessage A S V m e = Ret e'"
    and "mSequenceNum m = n" and "mType m \<in> {PrePrepare, Prepare, Commit}"
  shows "spent n chain e'"
proof -
  from assms(1) obtain s where s: "GetExistingState n (eStateLog e) = Some s" "sExecuted s" "eCommittedBlocks e = chain"
    by (auto simp: spent_def)
  consider "handlePrePrepare A V m e = Ret e'" | "e' = handlePrepare V m e" | "handleCommit A S V m e = Ret e'"
    using assms(2,4) by (auto simp: handleMessage_def)
  then show ?thesis
  proof cases
    case 1
    then show ?thesis
    proof (cases rule: handlePrePrepare_cases)
      case (accepted pp b a)
      obtain sl t where g: "GetState (mView m) n (eStateLog (e\<lparr>eAdapter := a\<rparr>)) = (sl, t)"
        by (cases "GetState (mView m) n (eStateLog (e\<lparr>eAdapter := a\<rparr>))")
      have "t = s" using g s(1) by (simp add: GetState_def GetExistingState_def)
      with accept_proposal_state [OF g refl assms(3), of V pp] s(2)
      have "\<exists>u. GetExistingState n (eStateLog e') = Some u \<and> sExecuted u" by (simp add: accepted(7))
      moreover have "eCommittedBlocks e' = chain"
        using accept_proposal_frame(1) [of "e\<lparr>eAdapter := a\<rparr>" V m pp] s(3) accepted(7) by (simp add: consensus_frame_def)
      ultimately show ?thesis by (simp add: spent_def)
    qed (use assms(1) in \<open>simp_all add: spent_def\<close>)
  next
    case 2
    show ?thesis
      by (cases rule: handlePrepare_cases [of m e V]) (use 2 assms(1,3) s in \<open>auto simp: spent_def\<close>)
  next
    case 3
    then show ?thesis
    proof (cases rule: handleCommit_cases)
      case (committed c u t)
      then have "sExecuted t" using s assms(3) by simp
      with committed(7) have "e' = put_state (mSequenceNum m) t e" by (simp add: executeBlock_def)
      with \<open>sExecuted t\<close> s(3) assms(3) show ?thesis by (simp add: spent_def)
    qed (use assms(1,3) s in \<open>auto simp: spent_def\<close>)
  qed
qed

lemma spent_deliver:
  assumes "spent n chain e" and "deliver A S V ms e = Ret e'"
    and "\<forall>m \<in> set ms. mSequenceNum m = n \<and> mType m \<in> {PrePrepare, Prepare, Commit}"
  shows "spent n chain e'"
  using assms
proof (induction ms arbitrary: e)
  case (Cons m ms)
  then obtain e1 where h: "handleMessage A S V m e = Ret e1" "deliver A S V ms e1 = Ret e'"
    by (auto simp: go_bind_Ret_iff)
  have "spent n chain e1" by (rule spent_message [OF Cons.prems(1) h(1)]) (use Cons.prems(3) in auto)
  then show ?case by (rule Cons.IH) (use h(2) Cons.prems(3) in auto)
qed simp

section \<open>The primary's counter\<close>

lemma handleMessage_counter:
  assumes "handleMessage A S V m e = Ret e'" and cb: "vmOnCompleteSet (eVcm e)"
  shows "eSequenceNum e' = eSequenceNum e"
  using assms(1)
proof (cases rule: handleMessage_cases)
  case pre_prepare
  then show ?thesis by (rule handlePrePrepare_frame)
next
  case prepare
  then show ?thesis by (simp add: handlePrepare_frame)
next
  case commit
  then show ?thesis
  proof (cases rule: handleCommit_cases)
    case (committed c s t)
    from committed(7) show ?thesis
      by (cases rule: executeBlock_cases) (simp_all add: record_commit_fields createCheckpoint_fields)
  qed simp_all
next
  case view_change
  then show ?thesis
  proof (cases rule: handleViewChange_cases)
    case (quorum vc)
    from quorum(5) show ?thesis
    proof (cases rule: broadcastNewView_cases)
      case (sent nv r ok)
      have "vmOnCompleteSet (eVcm (broadcast r (e\<lparr>eVcm := fst (HandleViewChange vc (eVcm e))\<rparr>)))"
        using cb by (simp add: HandleViewChange_fields)
      with sent(4) show ?thesis by (cases rule: vcm_HandleNewView_cases) simp_all
    qed simp
  qed simp_all
next
  case new_view
  from new_view cb show ?thesis
  proof (cases rule: handleNewView_cases)
    case (installed nv)
    then show ?thesis
      using reprocess_all_frame [of "resetViewChangeTimer (e\<lparr>eVcm := install_view nv (eVcm e), eView := nvView nv\<rparr>)" V]
      by simp
  qed simp
qed simp

lemma deliver_counter:
  "deliver A S V ms e = Ret e' \<Longrightarrow> engine_ok e \<Longrightarrow> ve_ok V \<Longrightarrow> eSequenceNum e' = eSequenceNum e \<and> engine_ok e'"
proof (induction ms arbitrary: e)
  case (Cons m ms)
  then obtain e1 where h: "handleMessage A S V m e = Ret e1" "deliver A S V ms e1 = Ret e'"
    by (auto simp: go_bind_Ret_iff)
  have "engine_ok e1" by (rule handleMessage_ok [OF h(1) Cons.prems(2,3)])
  from Cons.IH [OF h(2) this Cons.prems(3)] handleMessage_counter [OF h(1) engine_ok_facts(6) [OF Cons.prems(2)]]
  show ?case by simp
qed simp

text \<open>
  A node that becomes primary repeats old numbers, and what it proposes there is lost. No
  message moves \<open>sequenceNum\<close>: after any messages the counter \<open>k\<close> of a backup is where it was. If
  it then has to propose while the next number \<open>k + 1\<close> has already been executed, its proposal
  stands under that number, and no pre-prepares, prepares and commits for it, however many and
  from whomever, ever extend the chain: the state is marked as executed.
\<close>

theorem new_primary_repeats_numbers:
  assumes "deliver A S V ms e = Ret e1" and "engine_ok e" and "ve_ok V" and "eSequenceNum e = k"
    and "GetExistingState (k + 1) (eStateLog e1) = Some s" "sExecuted s"
    and "proposeBlock A V req e1 = Ret e2"
    and "\<forall>m \<in> set later. mSequenceNum m = k + 1 \<and> mType m \<in> {PrePrepare, Prepare, Commit}"
    and "deliver A S V later e2 = Ret e3"
  shows "eSequenceNum e1 = k \<and> eCommittedBlocks e3 = eCommittedBlocks e1"
proof -
  have "spent (k + 1) (eCommittedBlocks e1) e1" using assms(5,6) by (simp add: spent_def)
  from spent_deliver [OF spent_propose [OF this assms(7)] assms(9,8)]
  show ?thesis using deliver_counter [OF assms(1-3)] assms(4) by (simp add: spent_def)
qed

text \<open>Votes for a spent number are always handled.\<close>

lemma spent_commit_returns:
  assumes "spent (mSequenceNum m) chain e"
  shows "\<exists>e'. handleCommit A S V m e = Ret e'"
proof -
  obtain s where s: "GetExistingState (mSequenceNum m) (eStateLog e) = Some s" "sExecuted s"
    using assms by (auto simp: spent_def)
  show ?thesis
  proof (cases "mView m = eView e")
    case True
    then show ?thesis
      using s by (cases "dec_commit (ve_codec V) (mPayload m)") (simp_all add: handleCommit_def Let_def executeBlock_def)
  next
    case False
    then show ?thesis by (simp add: handleCommit_def)
  qed
qed

lemma spent_votes_return:
  assumes "spent n chain e" and "\<forall>m \<in> set ms. mSequenceNum m = n \<and> mType m \<in> {Prepare, Commit}"
  shows "\<exists>e'. deliver A S V ms e = Ret e'"
  using assms
proof (induction ms arbitrary: e)
  case (Cons m ms)
  have m: "mSequenceNum m = n" "mType m = Prepare \<or> mType m = Commit" using Cons.prems(2) by auto
  have "\<exists>e1. handleMessage A S V m e = Ret e1"
    using m spent_commit_returns [of m chain e A S V] Cons.prems(1) by (auto simp: handleMessage_def)
  then obtain e1 where h: "handleMessage A S V m e = Ret e1" by blast
  have "spent n chain e1" by (rule spent_message [OF Cons.prems(1) h m(1)]) (use m(2) in auto)
  from Cons.IH [OF this] Cons.prems(2) h show ?case by simp
qed simp

text \<open>
  \<open>node1\<close> has committed block 1 as a backup, takes a late vote, and then proposes an operation
  under number 1 again, which three votes of each kind cannot bring to an execution.
\<close>

definition one_block_engine :: "(NoopABCIAdapter, MemoryStore) Engine" where
  "one_block_engine = (put_state 1 (MarkExecuted nearly_committed_state) (fresh_engine NewNoopABCIAdapter ''node1''))
     \<lparr>eCommittedBlocks := [raw_block 1 []]\<rparr>"

lemma one_block_engine_facts:
  "engine_ok one_block_engine" "spent 1 [raw_block 1 []] one_block_engine" "eSequenceNum one_block_engine = 0"
  "eMempool one_block_engine = None"
proof -
  have "state_ok (MarkExecuted nearly_committed_state)" using nearly_committed_state_facts(1) by blast
  then have "log_ok (write_state 1 (MarkExecuted nearly_committed_state) (NewStateLog 200))"
    by (rule log_ok_write [OF log_ok_New]) (simp add: nearly_committed_state_facts)
  then show "engine_ok one_block_engine"
    by (intro engine_ok_cong [OF fresh_engine_simps(1) [of NewNoopABCIAdapter "''node1''"]]) (simp_all add: one_block_engine_def)
  show "spent 1 [raw_block 1 []] one_block_engine"
    by (simp add: spent_def one_block_engine_def MarkExecuted_def)
qed (simp_all add: one_block_engine_def)

lemma proposeBlock_returns:
  assumes "eMempool e = None"
  shows "\<exists>e'. proposeBlock A V req e = Ret e'"
  using assms by (cases "IsInWindow (eSequenceNum e + 1) (eStateLog e)"; cases req)
    (simp_all add: proposeBlock_def Let_def collect_txs_def)

theorem new_primary_repeats_numbers_witness:
  "\<exists>e1 e2 e3. handleMessage noop_adapter (memory_store rev) sample_env (prepare_vote sample_env 0 1 (''node2'', [], ''node2''))
       one_block_engine = Ret e1 \<and>
     proposeBlock noop_adapter sample_env (Some \<lparr>rqOperation = [5], rqTimestamp = 0, rqClientID = ''c''\<rparr>) e1 = Ret e2 \<and>
     deliver noop_adapter (memory_store rev) sample_env (map (prepare_vote sample_env 0 1) forged_votes @
       map (commit_vote sample_env 0 1) forged_votes) e2 = Ret e3 \<and> eCommittedBlocks e3 = [raw_block 1 []]"
proof -
  let ?A = noop_adapter and ?S = "memory_store rev" and ?V = sample_env
  let ?m = "prepare_vote sample_env 0 1 (''node2'', [], ''node2'')"
  let ?votes = "map (prepare_vote sample_env 0 1) forged_votes @ map (commit_vote sample_env 0 1) forged_votes"
  let ?req = "Some \<lparr>rqOperation = [5], rqTimestamp = 0, rqClientID = ''c''\<rparr>"
  let ?e1 = "handlePrepare sample_env ?m one_block_engine"
  have h: "handleMessage ?A ?S ?V ?m one_block_engine = Ret ?e1" by simp
  then have d: "deliver ?A ?S ?V [?m] one_block_engine = Ret ?e1" by simp
  have m: "mSequenceNum ?m = 1" "mType ?m \<in> {PrePrepare, Prepare, Commit}" by (simp_all add: prepare_vote_def)
  have sp: "spent 1 [raw_block 1 []] ?e1" by (rule spent_message [OF one_block_engine_facts(2) h m])
  then obtain s where s: "GetExistingState (0 + 1) (eStateLog ?e1) = Some s" "sExecuted s"
    by (auto simp: spent_def)
  have "eMempool ?e1 = None"
    using handlePrepare_frame(1) [of one_block_engine ?V ?m] one_block_engine_facts(4) by (simp add: consensus_frame_def)
  then obtain e2 where e2: "proposeBlock ?A ?V ?req ?e1 = Ret e2" using proposeBlock_returns by blast
  have votes: "\<forall>m \<in> set ?votes. mSequenceNum m = 1 \<and> mType m \<in> {Prepare, Commit}"
    by (auto simp: forged_votes_def prepare_vote_def commit_vote_def)
  obtain e3 where e3: "deliver ?A ?S ?V ?votes e2 = Ret e3"
    using spent_votes_return [OF spent_propose [OF sp e2] votes] by blast
  have "\<forall>m \<in> set ?votes. mSequenceNum m = 0 + 1 \<and> mType m \<in> {PrePrepare, Prepare, Commit}" using votes by auto
  from new_primary_repeats_numbers [OF d one_block_engine_facts(1) _ one_block_engine_facts(3) s e2 this e3]
  have "eCommittedBlocks e3 = eCommittedBlocks ?e1" by simp
  with sp h e2 e3 show ?thesis by (simp add: spent_def)
qed

end
