(* ===== verification/Engine_Restart.thy ===== *)
theory Engine_Restart
  imports Engine_Proposals
begin

text \<open>
  Views, certificates, checkpoints and restarts: which node is the primary of a view, what a new
  view message does before it is verified, which certificates a node collects when it asks for a
  view change, which checkpoints it keeps, and what \<open>Recover\<close> brings back from the store.
\<close>

section \<open>The primary of a view\<close>

lemma sint_u64: "sint (v :: u64) = (if unat v < 2 ^ 63 then int (unat v) else int (unat v) - 2 ^ 64)"
proof -
  have s: "sint v = signed_take_bit 63 (int (unat v))" by (simp add: sint_uint unsigned_def [symmetric])
  have low: "signed_take_bit 63 (int k) = int k" if "k < 2 ^ 63" for k
    using that by (intro signed_take_bit_int_eq_self) simp_all
  have high: "signed_take_bit 63 (int k) = int k - 2 ^ 64" if "\<not> k < 2 ^ 63" "k < 2 ^ 64" for k
  proof -
    have "(int k - 2 ^ 63) mod 2 ^ 64 = int k - 2 ^ 63"
      by (rule mod_pos_pos_trivial) (use that in simp_all)
    moreover have "int k + 2 ^ 63 = (int k - 2 ^ 63) + 2 ^ 64" by simp
    ultimately have "(int k + 2 ^ 63) mod 2 ^ 64 = int k - 2 ^ 63" by (metis mod_add_self2)
    then show ?thesis by (simp add: signed_take_bit_eq_take_bit_shift take_bit_eq_mod)
  qed
  have "unat v < 2 ^ 64" using unat_u64_less [of v] by simp
  then show ?thesis unfolding s using low [of "unat v"] high [of "unat v"] by (cases "unat v < 2 ^ 63") simp_all
qed

lemma smod_neg: "0 < n \<Longrightarrow> (int k - 2 ^ 64) smod int n = - (int ((2 ^ 64 - k) mod n))" if "k < 2 ^ 64"
  using that by (simp add: signed_modulo_int_def zmod_int of_nat_diff)

lemma smod_pos: "0 < n \<Longrightarrow> int k smod int n = int (k mod n)"
  by (cases "k = 0") (simp_all add: signed_modulo_int_def zmod_int)

text \<open>
  The primary of a view. With \<open>n\<close> validators, the view below \<open>2\<^sup>6\<^sup>3\<close> belongs to the validator at
  its remainder modulo \<open>n\<close>. From \<open>2\<^sup>6\<^sup>3\<close> on, \<open>int(view)\<close> is negative and so is Go's remainder: the
  index is out of range unless \<open>n\<close> divides the distance to \<open>2\<^sup>6\<^sup>4\<close>. Without validators the
  division itself panics.
\<close>

theorem primary_rotation:
  "primary_at view vs =
     (let n = length (vsValidators vs) in
      if n = 0 then Panic Divide_By_Zero
      else if unat view < 2 ^ 63 then Ret (vID (vsValidators vs ! (unat view mod n)))
      else if n dvd 2 ^ 64 - unat view then Ret (vID (vsValidators vs ! 0))
      else Panic Index_Out_Of_Range)"
proof (cases "length (vsValidators vs) = 0")
  case True
  then show ?thesis by (simp add: primary_at_def Let_def)
next
  case False
  let ?n = "length (vsValidators vs)"
  have n: "0 < ?n" using False by simp
  show ?thesis
  proof (cases "unat view < 2 ^ 63")
    case True
    have "sint view smod int ?n = int (unat view mod ?n)"
      using True smod_pos [OF n] by (simp only: sint_u64 if_True)
    with True False show ?thesis by (simp add: primary_at_def Let_def)
  next
    case big: False
    have lt: "unat view < 2 ^ 64" using unat_u64_less [of view] by simp
    have r: "sint view smod int ?n = - int ((2 ^ 64 - unat view) mod ?n)"
      using big smod_neg [OF lt n] by (simp only: sint_u64 if_False)
    show ?thesis
    proof (cases "?n dvd 2 ^ 64 - unat view")
      case True
      then have "sint view smod int ?n = 0" using r by (simp add: mod_eq_0_iff_dvd)
      with big True False show ?thesis by (simp add: primary_at_def Let_def)
    next
      case nd: False
      then have "(2 ^ 64 - unat view) mod ?n \<noteq> 0" by (simp add: mod_eq_0_iff_dvd)
      then have "sint view smod int ?n < 0" unfolding r by simp
      with big nd False show ?thesis by (simp add: primary_at_def Let_def)
    qed
  qed
qed

text \<open>The primary is computed before a new view message is verified.\<close>

lemma primary_at_panics:
  assumes "\<not> unat view < 2 ^ 63" and "\<not> length (vsValidators vs) dvd 2 ^ 64 - unat view" and "vsValidators vs \<noteq> []"
  shows "primary_at view vs = Panic Index_Out_Of_Range"
proof -
  let ?n = "length (vsValidators vs)"
  have n: "0 < ?n" using assms(3) by simp
  have lt: "unat view < 2 ^ 64" using unat_u64_less [of view] by simp
  have r: "sint view smod int ?n = - int ((2 ^ 64 - unat view) mod ?n)"
    using assms(1) smod_neg [OF lt n] by (simp only: sint_u64 if_False)
  have "(2 ^ 64 - unat view) mod ?n \<noteq> 0" using assms(2) by (simp add: mod_eq_0_iff_dvd)
  then have "sint view smod int ?n < 0" unfolding r by simp
  with n show ?thesis by (simp add: primary_at_def Let_def)
qed

text \<open>
  C28. One message stops a node. A \<open>NEW-VIEW\<close> from anybody, with no certificates and no signature,
  for a view of at least \<open>2\<^sup>6\<^sup>3\<close> whose distance to \<open>2\<^sup>6\<^sup>4\<close> the number of validators does not divide,
  makes \<open>handleNewView\<close> index the validators with a negative number: it panics before anything of
  the message is verified.
\<close>

theorem one_new_view_message_crashes:
  assumes "mType m = NewView" and "dec_new_view (ve_codec V) (mPayload m) = Some nv"
    and "eView e < nvView nv" and "2 ^ 63 \<le> unat (nvView nv)"
    and "vsValidators (eValidatorSet e) \<noteq> []"
    and "\<not> length (vsValidators (eValidatorSet e)) dvd 2 ^ 64 - unat (nvView nv)"
  shows "handleMessage A S V m e = Panic Index_Out_Of_Range"
proof -
  have "\<not> unat (nvView nv) < 2 ^ 63" using assms(4) by (simp only: not_less)
  from primary_at_panics [OF this assms(6,5)] assms(1-3) show ?thesis
    by (simp add: handleMessage_def handleNewView_def not_le)
qed

theorem one_new_view_message_crashes_witness:
  "handleMessage noop_adapter (memory_store rev) sample_env
     ((NewMessage 0 NewView 0 0 [] ''stranger'')\<lparr>mPayload := enc_new_view sample_codec
        \<lparr>nvView = - 1, nvViewChangeMsgs = [], nvPrePrepareMsgs = [], nvNewPrimaryID = []\<rparr>\<rparr>)
     (fresh_engine NewNoopABCIAdapter ''node1'') = Panic Index_Out_Of_Range"
proof -
  let ?nv = "\<lparr>nvView = - 1, nvViewChangeMsgs = [], nvPrePrepareMsgs = [], nvNewPrimaryID = []\<rparr>"
  let ?m = "(NewMessage 0 NewView 0 0 [] ''stranger'')\<lparr>mPayload := enc_new_view sample_codec ?nv\<rparr>"
  let ?e = "fresh_engine NewNoopABCIAdapter ''node1'' :: (NoopABCIAdapter, MemoryStore) Engine"
  have "mType ?m = NewView" by simp
  moreover have "dec_new_view (ve_codec sample_env) (mPayload ?m) = Some ?nv" by simp
  moreover have "eView ?e < nvView ?nv" by (simp add: word_less_nat_alt unsigned_minus_1_eq_mask mask_eq_exp_minus_1)
  moreover have "2 ^ 63 \<le> unat (nvView ?nv)" "2 ^ 64 - unat (nvView ?nv) = 1"
    by (simp_all add: unsigned_minus_1_eq_mask mask_eq_exp_minus_1)
  moreover have "length (vsValidators (eValidatorSet ?e)) = 4"
    by (simp add: createDefaultValidators_def NewValidatorSet_def)
  ultimately show ?thesis
    by (intro one_new_view_message_crashes [of ?m sample_env ?nv ?e]) auto
qed

section \<open>Prepared certificates\<close>

lemma collect_loop:
  "for_each (cert_step V q view sl) ns acc = Inr (acc @ List.map_filter (prepared_cert V q view sl) ns)"
  by (induction ns arbitrary: acc) (auto simp: cert_step_def List.map_filter_simps split: option.split)

lemma prepared_cert_Some:
  assumes "log_ok sl"
  shows "prepared_cert V q view sl n = Some c \<longleftrightarrow>
    (\<exists>s pp. GetExistingState n sl = Some s \<and> sPrePrepareMsg s = Some pp \<and> q \<le> PrepareCount s \<and> \<not> sExecuted s \<and>
       c = \<lparr>pcPrePrepare = \<lparr>ppView = view, ppSequenceNum = n, ppDigest = ppDigest pp, ppBlock = sBlock s,
              ppPrimaryID = ppPrimaryID pp\<rparr>, pcPrepares = ve_prepares V (map snd (sPrepareMsgs s))\<rparr>)"
proof -
  have "IsPrepared q s \<longleftrightarrow> q \<le> PrepareCount s" if "GetExistingState n sl = Some s" "sPrePrepareMsg s = Some pp" for s pp
  proof -
    have ok: "state_ok s" using log_ok_get [OF assms that(1)] by simp
    then have "sPhase s \<noteq> Idle" using that(2) by (auto simp: state_ok_def)
    with ballot_counts(1) [OF ok, of q] ok show ?thesis
      by (simp add: PrepareCount_def state_ok_def votes_ok_def card_go_keys)
  qed
  then show ?thesis by (auto simp: prepared_cert_def split: option.splits if_splits)
qed

text \<open>
  C24. The certificates of a view change request. Unless the high mark is the largest \<open>uint64\<close>, where
  the loop never ends, \<open>collectPreparedCertificates\<close> returns, in increasing order of the number and
  each once, a certificate for exactly the numbers of the window whose state has a pre-prepare and
  a quorum of prepares and has not been executed, with the state's block and prepares.
\<close>

theorem collectPreparedCertificates_correct:
  assumes "engine_ok e" and "slLow (eStateLog e) \<noteq> - 1"
  shows "if slHigh (eStateLog e) = - 1 then collectPreparedCertificates V e = Diverge
    else \<exists>certs. collectPreparedCertificates V e = Ret certs \<and>
      sorted_wrt (<) (map (ppSequenceNum \<circ> pcPrePrepare) certs) \<and>
      (\<forall>c. c \<in> set certs \<longleftrightarrow> (\<exists>n s pp. IsInWindow n (eStateLog e) \<and>
         GetExistingState n (eStateLog e) = Some s \<and> sPrePrepareMsg s = Some pp \<and>
         QuorumSize (eValidatorSet e) \<le> PrepareCount s \<and> \<not> sExecuted s \<and>
         c = \<lparr>pcPrePrepare = \<lparr>ppView = eView e, ppSequenceNum = n, ppDigest = ppDigest pp, ppBlock = sBlock s,
                ppPrimaryID = ppPrimaryID pp\<rparr>, pcPrepares = ve_prepares V (map snd (sPrepareMsgs s))\<rparr>))"
proof (cases "slHigh (eStateLog e) = - 1")
  case True
  have "cert_step V q v sl i s \<noteq> Inl r" for q v sl i s r by (simp add: cert_step_def)
  from u64_for_diverges [OF this] True show ?thesis by (simp add: collectPreparedCertificates_def Let_def)
next
  case False
  let ?sl = "eStateLog e" and ?g = "prepared_cert V (QuorumSize (eValidatorSet e)) (eView e) (eStateLog e)"
  let ?ns = "u64_range (slLow ?sl + 1) (slHigh ?sl)"
  note log = engine_ok_facts(5) [OF assms(1)]
  have c: "collectPreparedCertificates V e = Ret (List.map_filter ?g ?ns)"
    using False by (simp add: collectPreparedCertificates_def Let_def u64_for_terminates collect_loop)
  have "ppSequenceNum (pcPrePrepare c) = n" if "?g n = Some c" for n c
    using that unfolding prepared_cert_Some [OF log] by auto
  then have srt: "sorted_wrt (<) (map (ppSequenceNum \<circ> pcPrePrepare) (List.map_filter ?g ?ns))"
    by (intro map_filter_sorted [OF _ strict_u64_range]) simp
  have "slLow ?sl + 1 \<le> n \<longleftrightarrow> slLow ?sl < n" for n
    using unat_u64_Suc [OF assms(2)] by (simp add: word_le_nat_alt word_less_nat_alt Suc_le_eq)
  then have w: "n \<in> set ?ns \<longleftrightarrow> IsInWindow n ?sl" for n by (simp add: set_u64_range IsInWindow_def)
  have "c \<in> set (List.map_filter ?g ?ns) \<longleftrightarrow> (\<exists>n. IsInWindow n ?sl \<and> ?g n = Some c)" for c
    unfolding in_map_filter using w by blast
  with c srt False show ?thesis unfolding prepared_cert_Some [OF log] by auto
qed

text \<open>A node with a prepared block under number 1.\<close>

definition prepared_state :: State where
  "prepared_state = AddPrepare (NewPrepareMsg 0 1 [] ''node2'') (AddPrepare (NewPrepareMsg 0 1 [] ''node1'')
     (AddPrepare (NewPrepareMsg 0 1 [] ''node0'')
        (SetPrePrepare (NewPrePrepareMsg 0 1 (raw_block 1 []) ''node0'') (Some (raw_block 1 [])) (NewState 0 1))))"

definition prepared_engine :: "(NoopABCIAdapter, MemoryStore) Engine" where
  "prepared_engine = put_state 1 prepared_state (fresh_engine NewNoopABCIAdapter ''node1'')"

lemma prepared_engine_facts:
  "engine_ok prepared_engine" "GetExistingState 1 (eStateLog prepared_engine) = Some prepared_state"
  "slLow (eStateLog prepared_engine) = 0" "slHigh (eStateLog prepared_engine) = 200"
  "eValidatorSet prepared_engine = default_set"
proof -
  have "state_ok (SetPrePrepare (NewPrePrepareMsg 0 1 (raw_block 1 []) ''node0'') (Some (raw_block 1 [])) (NewState 0 1))"
    using state_ok_ops(1) [OF votes_ok_NewState, of "NewPrePrepareMsg 0 1 (raw_block 1 []) ''node0''" 0 1] by simp
  then have "state_ok prepared_state" unfolding prepared_state_def by (intro state_ok_ops)
  moreover have "sSequenceNum prepared_state = 1" by (simp add: prepared_state_def) (simp add: NewState_def)
  ultimately have "log_ok (write_state 1 prepared_state (NewStateLog 200))" by (rule log_ok_write [OF log_ok_New])
  then show "engine_ok prepared_engine"
    by (intro engine_ok_cong [OF fresh_engine_simps(1) [of NewNoopABCIAdapter "''node1''"]]) (simp_all add: prepared_engine_def)
qed (simp_all add: prepared_engine_def, simp_all add: NewStateLog_def)

theorem collectPreparedCertificates_correct_witness:
  "\<exists>certs c. collectPreparedCertificates sample_env prepared_engine = Ret certs \<and> c \<in> set certs \<and>
     ppSequenceNum (pcPrePrepare c) = 1 \<and> ppBlock (pcPrePrepare c) = Some (raw_block 1 [])"
proof -
  have low: "slLow (eStateLog prepared_engine) \<noteq> - 1" and high: "slHigh (eStateLog prepared_engine) \<noteq> - 1"
    by (simp_all add: prepared_engine_facts)
  let ?c = "\<lparr>pcPrePrepare = \<lparr>ppView = eView prepared_engine, ppSequenceNum = 1,
      ppDigest = ppDigest (NewPrePrepareMsg 0 1 (raw_block 1 []) ''node0''), ppBlock = sBlock prepared_state,
      ppPrimaryID = ppPrimaryID (NewPrePrepareMsg 0 1 (raw_block 1 []) ''node0'')\<rparr>,
      pcPrepares = ve_prepares sample_env (map snd (sPrepareMsgs prepared_state))\<rparr>"
  have w: "IsInWindow 1 (eStateLog prepared_engine)" by (simp add: IsInWindow_def prepared_engine_facts)
  have s: "sPrePrepareMsg prepared_state = Some (NewPrePrepareMsg 0 1 (raw_block 1 []) ''node0'')"
    "QuorumSize (eValidatorSet prepared_engine) \<le> PrepareCount prepared_state" "\<not> sExecuted prepared_state"
    "sBlock prepared_state = Some (raw_block 1 [])"
    by (simp_all add: prepared_engine_facts size_default prepared_state_def State_defs PrepareCount_def)
  obtain certs where certs: "collectPreparedCertificates sample_env prepared_engine = Ret certs"
    "\<forall>c. c \<in> set certs \<longleftrightarrow> (\<exists>n s pp. IsInWindow n (eStateLog prepared_engine) \<and>
         GetExistingState n (eStateLog prepared_engine) = Some s \<and> sPrePrepareMsg s = Some pp \<and>
         QuorumSize (eValidatorSet prepared_engine) \<le> PrepareCount s \<and> \<not> sExecuted s \<and>
         c = \<lparr>pcPrePrepare = \<lparr>ppView = eView prepared_engine, ppSequenceNum = n, ppDigest = ppDigest pp, ppBlock = sBlock s,
                ppPrimaryID = ppPrimaryID pp\<rparr>, pcPrepares = ve_prepares sample_env (map snd (sPrepareMsgs s))\<rparr>)"
    using collectPreparedCertificates_correct [OF prepared_engine_facts(1) low, of sample_env]
    unfolding if_not_P [OF high] by (elim exE conjE) (rule that)
  have "?c \<in> set certs" using certs(2) w prepared_engine_facts(2) s by blast
  with certs(1) s(4) show ?thesis by (intro exI [of _ certs] exI [of _ ?c]) simp
qed

section \<open>Checkpoints\<close>

text \<open>
  C26. A checkpoint. \<open>createCheckpoint\<close> at \<open>n\<close> records the hash of the last committed block under
  \<open>n\<close> and, when that makes four, drops the oldest: at most three remain, all others keep their
  digest, and the window moves to the numbers after \<open>n\<close>.
\<close>

theorem createCheckpoint_correct:
  fixes S :: "'s store_ops" and e :: "('a, 's) Engine"
  assumes "engine_ok e" and "ve_ok V" and "eCommittedBlocks e \<noteq> []"
    and "K = insert n (go_keys (eCheckpoints e))" and "e' = createCheckpoint S V n e"
  shows "go_keys (eCheckpoints e') = (if card K \<le> 3 then K else K - {Min K}) \<and> card (go_keys (eCheckpoints e')) \<le> 3 \<and>
    (\<forall>k \<in> go_keys (eCheckpoints e'). go_get (eCheckpoints e') k =
       (if k = n then Some (bHash (last (eCommittedBlocks e))) else go_get (eCheckpoints e) k)) \<and>
    eStateLog e' = AdvanceWatermarks n (eStateLog e) \<and> eCommittedBlocks e' = eCommittedBlocks e"
proof -
  let ?cps = "go_put n (bHash (last (eCommittedBlocks e))) (eCheckpoints e)"
  have wf: "go_wf ?cps" using assms(1) by (simp add: engine_ok_def checkpoints_ok_def)
  have keys: "go_keys ?cps = K" by (simp add: assms(4))
  have len: "length ?cps = card K" using card_go_keys [OF wf] keys by simp
  have "fold (\<lambda>(s, d) oldest. if s < oldest then s else oldest) (ve_checkpoints V ?cps) n = Min (insert n (go_keys ?cps))"
    using assms(2) by (simp add: fold_min ve_ok_def go_order_set)
  also have "insert n (go_keys ?cps) = K" using keys assms(4) by (simp add: insert_absorb)
  finally have o: "fold (\<lambda>(s, d) oldest. if s < oldest then s else oldest) (ve_checkpoints V ?cps) n = Min K" .
  have cps: "eCheckpoints e' = (if card K \<le> 3 then ?cps else go_del (Min K) ?cps)"
    using assms(3,5) len o by (simp add: createCheckpoint_fields Let_def not_le)
  have ok': "checkpoints_ok e'"
    using checkpoints_ok_create [OF assms(2), of e S n] assms(1,5) by (simp add: engine_ok_def)
  then have "card (go_keys (eCheckpoints e')) \<le> 3"
    using card_go_keys [of "eCheckpoints e'"] by (simp add: checkpoints_ok_def)
  moreover have "go_keys (eCheckpoints e') = (if card K \<le> 3 then K else K - {Min K})"
    unfolding cps using keys by simp
  moreover have "go_get (eCheckpoints e') k =
       (if k = n then Some (bHash (last (eCommittedBlocks e))) else go_get (eCheckpoints e) k)"
    if "k \<in> go_keys (eCheckpoints e')" for k
  proof (cases "card K \<le> 3")
    case True
    then show ?thesis by (simp add: cps)
  next
    case False
    then have "k \<noteq> Min K" using that keys by (simp add: cps)
    with False show ?thesis by (simp add: cps)
  qed
  ultimately show ?thesis using assms(5) by (simp add: createCheckpoint_fields)
qed

theorem createCheckpoint_correct_witness:
  "let e' = createCheckpoint (memory_store rev) sample_env 400 (one_block_engine
       \<lparr>eCheckpoints := [(100, [1]), (200, [2]), (300, [3])]\<rparr>)
   in go_keys (eCheckpoints e') = {200, 300, 400} \<and> go_get (eCheckpoints e') 300 = Some [3] \<and>
      slLow (eStateLog e') = 400"
proof -
  let ?e = "one_block_engine\<lparr>eCheckpoints := [(100, [1]), (200, [2]), (300, [3])]\<rparr>"
  let ?e' = "createCheckpoint (memory_store rev) sample_env 400 ?e" and ?K = "{400, 100, 200, 300} :: u64 set"
  have ok: "engine_ok ?e"
    using one_block_engine_facts(1)
    by (simp add: engine_ok_def view_ok_def pool_ok_def checkpoints_ok_def go_wf_def)
  have ne: "eCommittedBlocks ?e \<noteq> []" by (simp add: one_block_engine_def)
  have K: "?K = insert 400 (go_keys (eCheckpoints ?e))" by auto
  have V: "ve_ok sample_env" by simp
  note c = createCheckpoint_correct [OF ok V ne K refl, of "memory_store rev"]
  have k: "\<not> card ?K \<le> 3" by simp
  have "Min ?K = 100" by (rule Min_eqI) auto
  moreover have "?K - {100} = {200, 300, 400}" by auto
  ultimately have keys: "go_keys (eCheckpoints ?e') = {200, 300, 400}" using c unfolding if_not_P [OF k] by simp
  have "300 \<in> go_keys (eCheckpoints ?e')" by (simp add: keys)
  from c [THEN conjunct2, THEN conjunct2, THEN conjunct1, rule_format, OF this]
  have "go_get (eCheckpoints ?e') 300 = Some [3]" by simp
  moreover have "slLow (eStateLog ?e) = 0"
    by (simp add: one_block_engine_def) (simp add: NewStateLog_def)
  ultimately show ?thesis using c keys by (simp add: AdvanceWatermarks_def Let_def)
qed

section \<open>Recovering\<close>

lemma map_filter_by_key:
  assumes "map f xs = ks" and "distinct ks"
  shows "List.map_filter (map_of (map (\<lambda>x. (f x, x)) xs)) ks = xs"
proof -
  have "List.map_filter g (map f ys) = ys" if "\<forall>y \<in> set ys. g (f y) = Some y" for g ys
    using that by (induction ys) (simp_all add: List.map_filter_simps)
  moreover have "map_of (map (\<lambda>x. (f x, x)) xs) (f y) = Some y" if "y \<in> set xs" for y
    using that assms by (intro map_of_is_SomeI) (auto simp: comp_def)
  ultimately show ?thesis using assms(1) by blast
qed

text \<open>The store holds the chain of the node, block by block, under its heights \<open>1, 2, \<dots>\<close>.\<close>

definition stores_chain :: "MemoryStore \<Rightarrow> Block list \<Rightarrow> bool" where
  "stores_chain ms chain \<longleftrightarrow> ms_ok ms \<and> length chain < 2 ^ 64 - 1 \<and>
     map (\<lambda>b. hHeight (bHeader b)) chain = u64_range 1 (of_nat (length chain)) \<and>
     go_get (msBlocks ms) = map_of (map (\<lambda>b. (hHeight (bHeader b), b)) chain)"

lemma stored_chain:
  assumes "stores_chain ms chain"
  shows "ms_GetLatestBlockHeight ms = Inr (of_nat (length chain))"
    and "chain \<noteq> [] \<Longrightarrow> (of_nat (length chain) :: u64) \<noteq> 0"
    and "ms_LoadBlocks 1 (of_nat (length chain)) ms = Ret (Inr chain)"
proof -
  let ?k = "of_nat (length chain) :: u64"
  have len: "length chain < 18446744073709551615" using assms by (simp add: stores_chain_def)
  then have k: "unat ?k = length chain" by (intro unat_u64_of_nat) simp
  then have ne1: "?k \<noteq> - 1" using len by (auto simp: unsigned_minus_1_eq_mask mask_eq_exp_minus_1)
  show "chain \<noteq> [] \<Longrightarrow> ?k \<noteq> 0" using k by auto
  have h: "map (\<lambda>b. hHeight (bHeader b)) chain = u64_range 1 ?k" using assms by (simp add: stores_chain_def)
  have get: "go_get (msBlocks ms) = map_of (map (\<lambda>b. (hHeight (bHeader b), b)) chain)"
    using assms by (simp add: stores_chain_def)
  show "ms_LoadBlocks 1 ?k ms = Ret (Inr chain)"
    using map_filter_by_key [OF h distinct_u64_range] by (simp add: ms_LoadBlocks_eq [OF ne1] get)
  have "go_keys (msBlocks ms) = dom (go_get (msBlocks ms))" by (simp only: dom_map_of_conv_image_fst)
  also have "\<dots> = (\<lambda>b. hHeight (bHeader b)) ` set chain"
    unfolding get by (simp only: dom_map_of_conv_image_fst list.set_map image_image fst_conv)
  also have "\<dots> = set (u64_range 1 ?k)" using h by (metis list.set_map)
  finally have keys: "go_keys (msBlocks ms) = {1..?k}" by (simp only: set_u64_range)
  have "?k \<in> insert 0 {1..?k}"
    using k by (cases chain) (simp_all add: word_le_nat_alt del: of_nat_Suc)
  then have "Max (insert 0 {1..?k}) = ?k" by (intro Max_eqI) auto
  then show "ms_GetLatestBlockHeight ms = Inr ?k"
    by (simp add: ms_GetLatestBlockHeight_def fold_max keys)
qed

lemma fold_digests:
  "go_get (fold (\<lambda>cp m. go_put (pcpSequenceNum cp) (pcpDigest cp) m) cps m) n =
     (case find (\<lambda>cp. pcpSequenceNum cp = n) (rev cps) of Some cp \<Rightarrow> Some (pcpDigest cp) | None \<Rightarrow> go_get m n)"
  by (induction cps arbitrary: m rule: rev_induct) auto

lemma find_unique:
  assumes "keyed pcpSequenceNum m" "go_wf m" and "set xs = snd ` set m"
  shows "find (\<lambda>cp. pcpSequenceNum cp = n) xs = go_get m n"
proof (cases "go_get m n")
  case None
  have "\<forall>cp \<in> set xs. pcpSequenceNum cp \<noteq> n"
    using None assms(1,3) by (force simp: keyed_def go_get_None_iff)
  then have "find (\<lambda>cp. pcpSequenceNum cp = n) xs = None" by (simp add: find_None_iff)
  with None show ?thesis by simp
next
  case (Some c)
  have c: "c \<in> set xs" "pcpSequenceNum c = n"
    using Some assms keyed_get [OF assms(1) Some] go_get_SomeD [OF Some] by (force, simp)
  have u: "cp = c" if "cp \<in> set xs" "pcpSequenceNum cp = n" for cp
  proof -
    from that(1) assms(3) obtain k where "(k, cp) \<in> set m" by auto
    then have "go_get m k = Some cp" by (simp add: go_get_Some_iff [OF assms(2)])
    with keyed_get [OF assms(1) this] that(2) Some show ?thesis by simp
  qed
  have "find (\<lambda>cp. pcpSequenceNum cp = n) xs \<noteq> None"
    using c by (auto simp: find_None_iff)
  then obtain d where d: "find (\<lambda>cp. pcpSequenceNum cp = n) xs = Some d" by blast
  then have "d \<in> set xs" "pcpSequenceNum d = n" by (auto simp: find_Some_iff)
  with u d Some show ?thesis by simp
qed

text \<open>
  C25. What a restart brings back. Let a node's store hold its chain and its checkpoints, and let it
  save its state and stop. A new engine on that store recovers the view, the last application
  hash, the whole chain in order and every stored checkpoint. It does not recover the rest: the
  counter and the window start at zero, the log is empty, and the view change manager is in view
  0, no longer the engine's view.
\<close>

theorem Recover_roundtrip:
  fixes a :: 'a and e :: "('a, MemoryStore) Engine"
  assumes "eStore e = Some ms" and "stores_chain ms (eCommittedBlocks e)"
    and "go_order ord" and "SaveState (memory_store ord) e = (e1, None)" and "eStore e1 = Some ms1"
  shows "\<exists>e2. Recover (memory_store ord) (SetStore ms1 (NewEngineV2 c vs t a)) = Ret (e2, None) \<and>
    eView e2 = eView e \<and> eLastAppHash e2 = eLastAppHash e \<and> eCommittedBlocks e2 = eCommittedBlocks e \<and>
    (\<forall>n. go_get (eCheckpoints e2) n = map_option pcpDigest (go_get (msCheckpoints ms) n)) \<and>
    eSequenceNum e2 = 0 \<and> eStateLog e2 = NewStateLog (cfWindowSize c) \<and> vmCurrentView (eVcm e2) = 0"
proof -
  let ?chain = "eCommittedBlocks e"
  let ?st = "\<lparr>csNodeID = cfNodeID (eConfig e), csCurrentView = eView e,
      csCurrentHeight = of_nat (length ?chain), csLastAppHash = eLastAppHash e,
      csLastBlockHash = (if ?chain \<noteq> [] then bHash (last ?chain) else [])\<rparr>"
  let ?new = "SetStore ms1 (NewEngineV2 c vs t a) :: ('a, MemoryStore) Engine"
  have ms1: "ms1 = ms\<lparr>msState := Some ?st\<rparr>"
    using assms(1,4,5) by (auto simp: SaveState_def Let_def memory_store_def ms_SaveState_def)
  have sc: "stores_chain ms1 ?chain" using assms(2) by (simp add: stores_chain_def ms1 ms_ok_def)
  let ?e1 = "?new\<lparr>eView := eView e, eLastAppHash := eLastAppHash e\<rparr>"
  have 1: "LoadState (memory_store ord) ?new = (?e1, None)"
    by (simp add: LoadState_def SetStore_def memory_store_def ms_LoadState_def ms1)
  let ?e2 = "?e1\<lparr>eCommittedBlocks := ?chain\<rparr>"
  have b0: "eCommittedBlocks ?e1 = []" and st1: "eStore ?e1 = Some ms1"
    by (simp_all add: SetStore_def NewEngineV2_def)
  have 2: "LoadBlocks (memory_store ord) ?e1 = Ret (?e2, None)"
  proof (cases "?chain = []")
    case True
    with stored_chain(1) [OF sc] b0 st1 show ?thesis
      by (simp add: LoadBlocks_def memory_store_def)
  next
    case False
    with stored_chain [OF sc] st1 show ?thesis by (simp add: LoadBlocks_def memory_store_def)
  qed
  let ?cps = "ord (map snd (msCheckpoints ms1))"
  let ?e3 = "?e2\<lparr>eCheckpoints := fold (\<lambda>cp m. go_put (pcpSequenceNum cp) (pcpDigest cp) m) ?cps (eCheckpoints ?e2)\<rparr>"
  have st2: "eStore ?e2 = Some ms1" "eStore ?new = Some ms1" by (simp_all add: SetStore_def)
  have 3: "Recover (memory_store ord) ?new = Ret (?e3, None)"
    using 1 2 st2 by (simp add: Recover_def memory_store_def ms_LoadCheckpoints_def)
  have ok: "keyed pcpSequenceNum (msCheckpoints ms1)" "go_wf (msCheckpoints ms1)"
    using sc by (simp_all add: stores_chain_def ms_ok_def)
  have "set (rev ?cps) = snd ` set (msCheckpoints ms1)" using assms(3) by (simp add: go_order_set)
  from find_unique [OF ok this] have
    "go_get (eCheckpoints ?e3) n = map_option pcpDigest (go_get (msCheckpoints ms) n)" for n
    by (simp add: fold_digests SetStore_def NewEngineV2_def ms1 split: option.split)
  with 3 show ?thesis
    by (intro exI [of _ ?e3]) (simp add: SetStore_def NewEngineV2_def SetBroadcastFunc_def
        SetOnViewChangeComplete_def NewViewChangeManager_def)
qed

theorem Recover_roundtrip_witness:
  "\<exists>e1 ms1 e2. SaveState (memory_store rev) (one_block_engine\<lparr>eView := 7,
       eStore := Some (save_all [raw_block 1 []])\<rparr>) = (e1, None) \<and> eStore e1 = Some ms1 \<and>
     Recover (memory_store rev) (SetStore ms1 (fresh_engine NewNoopABCIAdapter ''node1'')) = Ret (e2, None) \<and>
     eView e2 = 7 \<and> eCommittedBlocks e2 = [raw_block 1 []] \<and> eSequenceNum e2 = 0 \<and> vmCurrentView (eVcm e2) = 0"
proof -
  let ?ms = "save_all [raw_block 1 []]"
  let ?e = "one_block_engine\<lparr>eView := 7, eStore := Some ?ms\<rparr>"
  have st: "eStore ?e = Some ?ms" and ch: "eCommittedBlocks ?e = [raw_block 1 []]" by (simp_all add: one_block_engine_def)
  have "u64_range 1 1 = [1]" by (simp add: u64_range_def)
  moreover have "hHeight (bHeader (raw_block 1 [])) = 1" by (simp add: raw_block_def)
  ultimately have sc: "stores_chain ?ms (eCommittedBlocks ?e)"
    using save_all_blocks [of "[raw_block 1 []]"]
    unfolding ch by (auto simp: stores_chain_def last_saved_def fun_eq_iff)
  obtain e1 where s: "SaveState (memory_store rev) ?e = (e1, None)" "\<exists>ms1. eStore e1 = Some ms1"
    by (simp add: SaveState_def Let_def memory_store_def ms_SaveState_def)
  then obtain ms1 where ms1: "eStore e1 = Some ms1" by blast
  from Recover_roundtrip [OF st sc go_order_rev s(1) ms1, of "DefaultConfig ''node1''" default_set True NewNoopABCIAdapter]
  obtain e2 where "Recover (memory_store rev) (SetStore ms1 (fresh_engine NewNoopABCIAdapter ''node1'')) = Ret (e2, None)"
    "eView e2 = eView ?e" "eCommittedBlocks e2 = eCommittedBlocks ?e" "eSequenceNum e2 = 0" "vmCurrentView (eVcm e2) = 0"
    unfolding fresh_engine_def by blast
  with s(1) ms1 ch show ?thesis by (intro exI [of _ e1] exI [of _ ms1] exI [of _ e2]) simp
qed

end
