(* ===== verification/FileStore.thy ===== *)
theory FileStore
  imports Store Sample_Codec "HOL-Library.List_Lexorder" "HOL-Library.Char_ord"
begin

text \<open>
  \<open>FileStore\<close> of \<open>persistence/store.go\<close>: one JSON file per block and per checkpoint and one for
  the state. The disk is a map from paths (lists of components) to contents; what the operating
  system answers is the argument \<open>io\<close>, and a write may stop in the middle. \<open>encoding/json\<close> is
  the argument \<open>J\<close>. The file store obeys the laws of the store interface.
\<close>

section \<open>The disk\<close>

type_synonym path = "string list"

record disk =
  dkDirs :: "path list"
  dkFiles :: "(path, bytes) gomap"

text \<open>
  The outcome of \<open>os.WriteFile\<close>, which truncates the file before it writes: done, stopped after
  some bytes, or refused before anything happened.
\<close>

datatype write_outcome = Written | Torn nat | Refused

record io_env =
  io_mkdir :: "path \<Rightarrow> bool"
  io_write :: "path \<Rightarrow> write_outcome"
  io_read :: "path \<Rightarrow> bool"
  io_readdir :: "path \<Rightarrow> bool"

record store_codec =
  js_enc_block :: "Block \<Rightarrow> bytes"
  js_dec_block :: "bytes \<Rightarrow> Block option"
  js_enc_state :: "ConsensusState \<Rightarrow> bytes"
  js_dec_state :: "bytes \<Rightarrow> ConsensusState option"
  js_enc_checkpoint :: "PCheckpoint \<Rightarrow> bytes"
  js_dec_checkpoint :: "bytes \<Rightarrow> PCheckpoint option"

record FileStore =
  fsBaseDir :: string
  fsDisk :: disk

definition write_file :: "io_env \<Rightarrow> path \<Rightarrow> bytes \<Rightarrow> FileStore \<Rightarrow> FileStore \<times> store_error option" where
  "write_file io p data fs =
     (case io_write io p of
        Written \<Rightarrow> (fs\<lparr>fsDisk := (fsDisk fs)\<lparr>dkFiles := go_put p data (dkFiles (fsDisk fs))\<rparr>\<rparr>, None)
      | Torn n \<Rightarrow> (fs\<lparr>fsDisk := (fsDisk fs)\<lparr>dkFiles := go_put p (take n data) (dkFiles (fsDisk fs))\<rparr>\<rparr>, Some Io_Error)
      | Refused \<Rightarrow> (fs, Some Io_Error))"

text \<open>\<open>os.ReadFile\<close>: an error, no such file, or the contents; then \<open>json.Unmarshal\<close>.\<close>

definition load_file :: "io_env \<Rightarrow> (bytes \<Rightarrow> 'v option) \<Rightarrow> path \<Rightarrow> FileStore \<Rightarrow> store_error + 'v option" where
  "load_file io dec p fs =
     (if \<not> io_read io p then Inl Io_Error
      else case go_get (dkFiles (fsDisk fs)) p of
        None \<Rightarrow> Inr None
      | Some data \<Rightarrow> (case dec data of None \<Rightarrow> Inl Decode_Error | Some v \<Rightarrow> Inr (Some v)))"

text \<open>\<open>os.ReadDir\<close>: the files of a directory, sorted by name.\<close>

definition read_dir :: "path \<Rightarrow> FileStore \<Rightarrow> string list" where
  "read_dir d fs = sort (map last (filter (\<lambda>p. p \<noteq> [] \<and> butlast p = d) (map fst (dkFiles (fsDisk fs)))))"

section \<open>File names\<close>

definition block_name :: "u64 \<Rightarrow> string" where
  "block_name h = ''block_'' @ show_nat (unat h) @ ''.json''"

definition checkpoint_name :: "u64 \<Rightarrow> string" where
  "checkpoint_name n = ''checkpoint_'' @ show_nat (unat n) @ ''.json''"

definition is_digit :: "char \<Rightarrow> bool" where
  "is_digit c \<longleftrightarrow> 48 \<le> (of_char c :: nat) \<and> (of_char c :: nat) \<le> 57"

definition is_blank :: "char \<Rightarrow> bool" where
  "is_blank c \<longleftrightarrow> (of_char c :: nat) \<in> {9, 11, 12, 32}"

definition digits_value :: "string \<Rightarrow> nat" where
  "digits_value ds = foldl (\<lambda>a c. 10 * a + (of_char c - 48)) 0 ds"

text \<open>
  \<open>fmt.Sscanf\<close> with a format of a literal, one \<open>%d\<close> into a \<open>uint64\<close> and a literal: blanks before
  the number are skipped, a number that does not fit is an error, text after the format is left.
\<close>

definition after_literal :: "string \<Rightarrow> string \<Rightarrow> string option" where
  "after_literal lit s = (if take (length lit) s = lit then Some (drop (length lit) s) else None)"

definition Sscanf_name :: "string \<Rightarrow> string \<Rightarrow> string \<Rightarrow> u64 option" where
  "Sscanf_name pre post s =
     (case after_literal pre s of
        None \<Rightarrow> None
      | Some r \<Rightarrow>
          let r = dropWhile is_blank r; ds = takeWhile is_digit r; v = digits_value ds
          in if ds = [] \<or> v \<ge> 2 ^ 64 then None
             else case after_literal post (dropWhile is_digit r) of None \<Rightarrow> None | Some _ \<Rightarrow> Some (of_nat v))"

section \<open>Operations\<close>

definition NewFileStore :: "io_env \<Rightarrow> string \<Rightarrow> disk \<Rightarrow> disk \<times> (store_error + FileStore)" where
  "NewFileStore io baseDir dk =
     (let (dk, ok) = fold (\<lambda>dir (dk, ok).
            if \<not> ok then (dk, ok)
            else if io_mkdir io dir then (dk\<lparr>dkDirs := List.insert dir (dkDirs dk)\<rparr>, True) else (dk, False))
          [[baseDir], [baseDir, ''blocks''], [baseDir, ''checkpoints'']] (dk, True)
      in (dk, if ok then Inr \<lparr>fsBaseDir = baseDir, fsDisk = dk\<rparr> else Inl Io_Error))"

definition fs_SaveBlock :: "io_env \<Rightarrow> store_codec \<Rightarrow> Block option \<Rightarrow> FileStore \<Rightarrow> FileStore \<times> store_error option" where
  "fs_SaveBlock io J block fs =
     (case block of
        None \<Rightarrow> (fs, Some Nil_Argument)
      | Some b \<Rightarrow> write_file io [fsBaseDir fs, ''blocks'', block_name (hHeight (bHeader b))] (js_enc_block J b) fs)"

definition fs_LoadBlock :: "io_env \<Rightarrow> store_codec \<Rightarrow> u64 \<Rightarrow> FileStore \<Rightarrow> store_error + Block option" where
  "fs_LoadBlock io J height fs = load_file io (js_dec_block J) [fsBaseDir fs, ''blocks'', block_name height] fs"

definition fs_load_step ::
  "(u64 \<Rightarrow> store_error + Block option) \<Rightarrow> u64 \<Rightarrow> Block list \<Rightarrow> store_error + Block list" where
  "fs_load_step load h blocks =
     (case load h of Inl err \<Rightarrow> Inl err
      | Inr None \<Rightarrow> Inr blocks
      | Inr (Some block) \<Rightarrow> Inr (blocks @ [block]))"

definition fs_LoadBlocks ::
  "io_env \<Rightarrow> store_codec \<Rightarrow> u64 \<Rightarrow> u64 \<Rightarrow> FileStore \<Rightarrow> (store_error + Block list) go" where
  "fs_LoadBlocks io J fromHeight toHeight fs =
     of_loop (u64_for (fs_load_step (\<lambda>h. fs_LoadBlock io J h fs)) fromHeight toHeight [])"

definition fs_GetLatestBlockHeight :: "io_env \<Rightarrow> FileStore \<Rightarrow> store_error + u64" where
  "fs_GetLatestBlockHeight io fs =
     (if \<not> io_readdir io [fsBaseDir fs, ''blocks''] then Inl Io_Error
      else Inr (fold (\<lambda>name maxHeight.
             case Sscanf_name ''block_'' ''.json'' name of
               None \<Rightarrow> maxHeight
             | Some height \<Rightarrow> if height > maxHeight then height else maxHeight)
           (read_dir [fsBaseDir fs, ''blocks''] fs) 0))"

definition fs_SaveState ::
  "io_env \<Rightarrow> store_codec \<Rightarrow> ConsensusState option \<Rightarrow> FileStore \<Rightarrow> FileStore \<times> store_error option" where
  "fs_SaveState io J state fs =
     (case state of
        None \<Rightarrow> (fs, Some Nil_Argument)
      | Some st \<Rightarrow> write_file io [fsBaseDir fs, ''state.json''] (js_enc_state J st) fs)"

definition fs_LoadState :: "io_env \<Rightarrow> store_codec \<Rightarrow> FileStore \<Rightarrow> store_error + ConsensusState option" where
  "fs_LoadState io J fs = load_file io (js_dec_state J) [fsBaseDir fs, ''state.json''] fs"

definition fs_SaveCheckpoint ::
  "io_env \<Rightarrow> store_codec \<Rightarrow> PCheckpoint option \<Rightarrow> FileStore \<Rightarrow> FileStore \<times> store_error option" where
  "fs_SaveCheckpoint io J checkpoint fs =
     (case checkpoint of
        None \<Rightarrow> (fs, Some Nil_Argument)
      | Some c \<Rightarrow>
          write_file io [fsBaseDir fs, ''checkpoints'', checkpoint_name (pcpSequenceNum c)] (js_enc_checkpoint J c) fs)"

definition fs_LoadCheckpoint :: "io_env \<Rightarrow> store_codec \<Rightarrow> u64 \<Rightarrow> FileStore \<Rightarrow> store_error + PCheckpoint option" where
  "fs_LoadCheckpoint io J seqNum fs =
     load_file io (js_dec_checkpoint J) [fsBaseDir fs, ''checkpoints'', checkpoint_name seqNum] fs"

definition load_checkpoint_step ::
  "(u64 \<Rightarrow> store_error + PCheckpoint option) \<Rightarrow> string \<Rightarrow> PCheckpoint list \<Rightarrow> store_error + PCheckpoint list" where
  "load_checkpoint_step load name checkpoints =
     (case Sscanf_name ''checkpoint_'' ''.json'' name of
        None \<Rightarrow> Inr checkpoints
      | Some seqNum \<Rightarrow>
          (case load seqNum of Inl err \<Rightarrow> Inl err
           | Inr None \<Rightarrow> Inr checkpoints
           | Inr (Some cp) \<Rightarrow> Inr (checkpoints @ [cp])))"

definition fs_LoadCheckpoints :: "io_env \<Rightarrow> store_codec \<Rightarrow> FileStore \<Rightarrow> store_error + PCheckpoint list" where
  "fs_LoadCheckpoints io J fs =
     (if \<not> io_readdir io [fsBaseDir fs, ''checkpoints''] then Inl Io_Error
      else for_each (load_checkpoint_step (\<lambda>n. fs_LoadCheckpoint io J n fs))
             (read_dir [fsBaseDir fs, ''checkpoints''] fs) [])"

definition fs_GetLatestCheckpoint :: "io_env \<Rightarrow> store_codec \<Rightarrow> FileStore \<Rightarrow> store_error + PCheckpoint option" where
  "fs_GetLatestCheckpoint io J fs =
     (case fs_LoadCheckpoints io J fs of Inl err \<Rightarrow> Inl err | Inr cps \<Rightarrow> Inr (latest_of cps))"

definition file_store :: "io_env \<Rightarrow> store_codec \<Rightarrow> FileStore store_ops" where
  "file_store io J = \<lparr>st_SaveBlock = fs_SaveBlock io J, st_LoadBlock = fs_LoadBlock io J,
     st_LoadBlocks = fs_LoadBlocks io J, st_GetLatestBlockHeight = fs_GetLatestBlockHeight io,
     st_SaveState = fs_SaveState io J, st_LoadState = fs_LoadState io J,
     st_SaveCheckpoint = fs_SaveCheckpoint io J, st_LoadCheckpoint = fs_LoadCheckpoint io J,
     st_LoadCheckpoints = fs_LoadCheckpoints io J, st_GetLatestCheckpoint = fs_GetLatestCheckpoint io J\<rparr>"

section \<open>Names are read back\<close>

lemma of_char_digit: "d < 10 \<Longrightarrow> (of_char (char_of (48 + d :: nat) :: char) :: nat) = 48 + d"
  by simp

lemma show_nat_digits:
  "show_nat n \<noteq> [] \<and> (\<forall>c \<in> set (show_nat n). is_digit c) \<and> digits_value (show_nat n) = n"
proof (induction n rule: show_nat.induct)
  case (1 n)
  show ?case
  proof (cases "n < 10")
    case True
    then show ?thesis
      by (simp add: show_nat.simps [of n] is_digit_def digits_value_def)
  next
    case False
    with 1 have IH: "show_nat (n div 10) \<noteq> []" "\<forall>c \<in> set (show_nat (n div 10)). is_digit c"
      "digits_value (show_nat (n div 10)) = n div 10" by simp_all
    have d: "(of_char (char_of (48 + n mod 10) :: char) :: nat) = 48 + n mod 10" by (rule of_char_digit) simp
    have "digits_value (show_nat (n div 10) @ [char_of (48 + n mod 10)]) = 10 * (n div 10) + n mod 10"
      using IH(3) d by (simp add: digits_value_def)
    moreover have "is_digit (char_of (48 + n mod 10))" unfolding is_digit_def d using mod_less_divisor [of 10 n] by simp
    ultimately show ?thesis using IH False by (simp add: show_nat.simps [of n])
  qed
qed

lemma is_digit_not_blank: "is_digit c \<Longrightarrow> \<not> is_blank c"
  by (auto simp: is_digit_def is_blank_def)

lemma not_is_digit_dot [simp]: "\<not> is_digit (CHR ''.'')"
  by (simp add: is_digit_def)

lemma Sscanf_written:
  "Sscanf_name pre ''.json'' (pre @ show_nat (unat n) @ ''.json'') = Some n"
proof -
  let ?ds = "show_nat (unat n)"
  have d: "?ds \<noteq> []" "\<forall>c \<in> set ?ds. is_digit c" "digits_value ?ds = unat n"
    using show_nat_digits [of "unat n"] by simp_all
  then have b: "dropWhile is_blank (?ds @ ''.json'') = ?ds @ ''.json''"
    by (cases ?ds) (auto dest: is_digit_not_blank)
  have t: "takeWhile is_digit (?ds @ ''.json'') = ?ds" "dropWhile is_digit (?ds @ ''.json'') = ''.json''"
    using d(2) by (simp_all add: takeWhile_append2 dropWhile_append2)
  have lt: "\<not> unat n \<ge> 2 ^ 64" using unat_u64_less [of n] by simp
  have a: "after_literal pre (pre @ ?ds @ ''.json'') = Some (?ds @ ''.json'')" by (simp add: after_literal_def)
  show ?thesis unfolding Sscanf_name_def a
    using d lt by (simp add: Let_def b t after_literal_def)
qed

lemma Sscanf_names [simp]:
  "Sscanf_name ''block_'' ''.json'' (block_name h) = Some h"
  "Sscanf_name ''checkpoint_'' ''.json'' (checkpoint_name n) = Some n"
  unfolding block_name_def checkpoint_name_def by (rule Sscanf_written)+

lemma names_inj [simp]:
  "block_name h = block_name k \<longleftrightarrow> h = k" "checkpoint_name h = checkpoint_name k \<longleftrightarrow> h = k"
  using Sscanf_names by (metis option.inject)+

section \<open>The file store keeps its laws\<close>

text \<open>What the code relies on of \<open>encoding/json\<close>: a written value is read back.\<close>

definition json_ok :: "store_codec \<Rightarrow> bool" where
  "json_ok J \<longleftrightarrow> (\<forall>b. js_dec_block J (js_enc_block J b) = Some b) \<and>
     (\<forall>s. js_dec_state J (js_enc_state J s) = Some s) \<and>
     (\<forall>c. js_dec_checkpoint J (js_enc_checkpoint J c) = Some c)"

lemma json_okD [simp]:
  assumes "json_ok J"
  shows "js_dec_block J (js_enc_block J b) = Some b" "js_dec_state J (js_enc_state J s) = Some s"
    "js_dec_checkpoint J (js_enc_checkpoint J c) = Some c"
  using assms by (simp_all add: json_ok_def)

abbreviation fs_files :: "FileStore \<Rightarrow> (path, bytes) gomap" where
  "fs_files fs \<equiv> dkFiles (fsDisk fs)"

text \<open>Every file of the two directories was written whole, under the name of its number.\<close>

definition fs_ok :: "store_codec \<Rightarrow> FileStore \<Rightarrow> bool" where
  "fs_ok J fs \<longleftrightarrow> go_wf (fs_files fs) \<and>
     (\<forall>nm data. go_get (fs_files fs) [fsBaseDir fs, ''blocks'', nm] = Some data \<longrightarrow>
        (\<exists>b. js_dec_block J data = Some b \<and> nm = block_name (hHeight (bHeader b)))) \<and>
     (\<forall>nm data. go_get (fs_files fs) [fsBaseDir fs, ''checkpoints'', nm] = Some data \<longrightarrow>
        (\<exists>c. js_dec_checkpoint J data = Some c \<and> nm = checkpoint_name (pcpSequenceNum c)))"

definition fs_blocks :: "store_codec \<Rightarrow> FileStore \<Rightarrow> u64 \<Rightarrow> Block option" where
  "fs_blocks J fs h = Option.bind (go_get (fs_files fs) [fsBaseDir fs, ''blocks'', block_name h]) (js_dec_block J)"

definition fs_checkpoints :: "store_codec \<Rightarrow> FileStore \<Rightarrow> u64 \<Rightarrow> PCheckpoint option" where
  "fs_checkpoints J fs n =
     Option.bind (go_get (fs_files fs) [fsBaseDir fs, ''checkpoints'', checkpoint_name n]) (js_dec_checkpoint J)"

definition fs_state :: "store_codec \<Rightarrow> FileStore \<Rightarrow> ConsensusState option" where
  "fs_state J fs = Option.bind (go_get (fs_files fs) [fsBaseDir fs, ''state.json'']) (js_dec_state J)"

lemma write_file_ok:
  "write_file io p data fs = (fs', None) \<longleftrightarrow> io_write io p = Written \<and>
     fs' = fs\<lparr>fsDisk := (fsDisk fs)\<lparr>dkFiles := go_put p data (fs_files fs)\<rparr>\<rparr>"
  by (auto simp: write_file_def split: write_outcome.split)

lemma load_file_get:
  "load_file io dec p fs = Inr r \<Longrightarrow> r = Option.bind (go_get (fs_files fs) p) dec"
  by (auto simp: load_file_def split: if_splits option.splits)

lemma set_read_dir: "set (read_dir [a, d] fs) = {nm. go_get (fs_files fs) [a, d, nm] \<noteq> None}"
proof -
  have p: "p \<noteq> [] \<and> butlast p = [a, d] \<longleftrightarrow> p = [a, d, last p]" for p :: path
    by (metis append_butlast_last_id append_Cons append_Nil butlast_snoc last_snoc snoc_eq_iff_butlast)
  have "nm \<in> set (read_dir [a, d] fs) \<longleftrightarrow> [a, d, nm] \<in> go_keys (fs_files fs)" for nm
  proof
    assume "nm \<in> set (read_dir [a, d] fs)"
    then obtain q where "q \<in> go_keys (fs_files fs)" "q = [a, d, last q]" "nm = last q"
      by (auto simp: read_dir_def p)
    then show "[a, d, nm] \<in> go_keys (fs_files fs)" by metis
  next
    assume "[a, d, nm] \<in> go_keys (fs_files fs)"
    then show "nm \<in> set (read_dir [a, d] fs)" by (force simp: read_dir_def)
  qed
  then show ?thesis unfolding go_get_None_iff by blast
qed

lemma load_blocks_loop:
  assumes "for_each (fs_load_step load) hs acc = Inr bs" and "\<And>h r. load h = Inr r \<Longrightarrow> r = get h"
  shows "bs = acc @ List.map_filter get hs"
  using assms(1)
proof (induction hs arbitrary: acc)
  case Nil
  then show ?case by (simp add: List.map_filter_simps)
next
  case (Cons h hs)
  from Cons.prems obtain r where "load h = Inr r" by (auto simp: fs_load_step_def split: sum.splits)
  with assms(2) [OF this] have "load h = Inr (get h)" by simp
  with Cons.prems Cons.IH [of acc] Cons.IH [of "acc @ [the (get h)]"] show ?case
    by (cases "get h") (auto simp: fs_load_step_def List.map_filter_simps)
qed

lemma load_checkpoints_loop:
  assumes "for_each (load_checkpoint_step load) (map checkpoint_name ns) acc = Inr cps"
    and "\<And>n r. load n = Inr r \<Longrightarrow> r = get n"
  shows "cps = acc @ List.map_filter get ns"
  using assms(1)
proof (induction ns arbitrary: acc)
  case Nil
  then show ?case by (simp add: List.map_filter_simps)
next
  case (Cons n ns)
  from Cons.prems obtain r where "load n = Inr r" by (auto simp: load_checkpoint_step_def split: sum.splits)
  with assms(2) [OF this] have "load n = Inr (get n)" by simp
  with Cons.prems Cons.IH [of acc] Cons.IH [of "acc @ [the (get n)]"] show ?case
    by (cases "get n") (auto simp: load_checkpoint_step_def List.map_filter_simps)
qed

lemma max_named:
  "fold (\<lambda>name mx. case Sscanf_name ''block_'' ''.json'' name of None \<Rightarrow> mx
       | Some height \<Rightarrow> if height > mx then height else mx) (map block_name hs) m = Max (insert m (set hs))" for m :: u64
proof -
  have "fold (\<lambda>name mx. case Sscanf_name ''block_'' ''.json'' name of None \<Rightarrow> mx
       | Some height \<Rightarrow> if height > mx then height else mx) (map block_name hs) m =
      fold (\<lambda>x mx. if x > mx then x else mx) hs m"
    by (simp add: fold_map comp_def)
  then show ?thesis using fold_max [of "\<lambda>x. x" hs m] by simp
qed

text \<open>The names of a directory whose files all have a number.\<close>

lemma read_dir_names:
  assumes "\<And>nm data. go_get (fs_files fs) [a, d, nm] = Some data \<Longrightarrow> \<exists>n. nm = f n"
  obtains ns where "read_dir [a, d] fs = map f ns" "set ns = {n. go_get (fs_files fs) [a, d, f n] \<noteq> None} \<or> \<not> inj f"
proof -
  have "\<forall>nm \<in> set (read_dir [a, d] fs). \<exists>n. nm = f n"
    using assms unfolding set_read_dir by blast
  then obtain ns where ns: "read_dir [a, d] fs = map f ns" by (metis ex_map_conv)
  have "set ns = {n. go_get (fs_files fs) [a, d, f n] \<noteq> None}" if "inj f"
  proof -
    have "f ` set ns = {nm. go_get (fs_files fs) [a, d, nm] \<noteq> None}"
      using set_read_dir [of a d fs] ns by simp
    then have "n \<in> set ns \<longleftrightarrow> go_get (fs_files fs) [a, d, f n] \<noteq> None" for n
      using inj_image_mem_iff [OF that, of n "set ns"] by auto
    then show ?thesis by blast
  qed
  with ns that show thesis by blast
qed

lemma inj_names: "inj block_name" "inj checkpoint_name"
  by (auto intro: injI)

text \<open>A concrete codec, which also refuses a file that is not exactly what it writes.\<close>

definition wr_saved :: "ConsensusState \<Rightarrow> bytes" where
  "wr_saved = wr_map (\<lambda>s. ((csNodeID s, csCurrentView s), (csCurrentHeight s, (csLastAppHash s, csLastBlockHash s))))
     (wr_pair (wr_pair wr_string wr_u64) (wr_pair wr_u64 (wr_pair wr_bytes wr_bytes)))"

definition rd_saved :: "bytes \<Rightarrow> ConsensusState \<times> bytes" where
  "rd_saved = rd_map (\<lambda>((i, v), (h, (a, b))). \<lparr>csNodeID = i, csCurrentView = v, csCurrentHeight = h,
     csLastAppHash = a, csLastBlockHash = b\<rparr>)
     (rd_pair (rd_pair rd_string rd_u64) (rd_pair rd_u64 (rd_pair rd_bytes rd_bytes)))"

definition wr_point :: "PCheckpoint \<Rightarrow> bytes" where
  "wr_point = wr_map (\<lambda>c. (pcpSequenceNum c, (pcpDigest c, pcpNodeID c))) (wr_pair wr_u64 (wr_pair wr_bytes wr_string))"

definition rd_point :: "bytes \<Rightarrow> PCheckpoint \<times> bytes" where
  "rd_point = rd_map (\<lambda>(n, (d, i)). \<lparr>pcpSequenceNum = n, pcpDigest = d, pcpNodeID = i\<rparr>)
     (rd_pair rd_u64 (rd_pair rd_bytes rd_string))"

lemma reads_saved: "reads wr_saved rd_saved" "reads wr_point rd_point"
proof -
  show "reads wr_saved rd_saved" unfolding wr_saved_def rd_saved_def
    by (rule reads_map) (intro reads_rules, simp)
  show "reads wr_point rd_point" unfolding wr_point_def rd_point_def
    by (rule reads_map) (intro reads_rules, simp)
qed

definition strict_decode :: "('v \<Rightarrow> bytes) \<Rightarrow> (bytes \<Rightarrow> 'v \<times> bytes) \<Rightarrow> bytes \<Rightarrow> 'v option" where
  "strict_decode wr rd bs = (let v = fst (rd bs) in if wr v = bs then Some v else None)"

lemma strict_decode_whole: "reads wr rd \<Longrightarrow> strict_decode wr rd (wr v) = Some v"
  by (simp add: strict_decode_def Let_def decode_whole)

lemma strict_decode_torn:
  assumes "reads wr rd" and "n < length (wr v)"
  shows "strict_decode wr rd (take n (wr v)) = None"
proof (rule ccontr)
  assume "strict_decode wr rd (take n (wr v)) \<noteq> None"
  then obtain u where u: "wr u = take n (wr v)" by (auto simp: strict_decode_def Let_def split: if_splits)
  have "rd (wr u @ drop n (wr v)) = (u, drop n (wr v))" by (rule readsD [OF assms(1)])
  moreover have "wr u @ drop n (wr v) = wr v @ []" by (simp add: u)
  ultimately have "drop n (wr v) = []" using readsD [OF assms(1), of v "[]"] by simp
  with assms(2) show False by simp
qed

definition sample_json :: store_codec where
  "sample_json = \<lparr>js_enc_block = wr_block, js_dec_block = strict_decode wr_block rd_block,
      js_enc_state = wr_saved, js_dec_state = strict_decode wr_saved rd_saved,
      js_enc_checkpoint = wr_point, js_dec_checkpoint = strict_decode wr_point rd_point\<rparr>"

lemma sample_json_ok [simp]: "json_ok sample_json"
  by (simp add: json_ok_def sample_json_def strict_decode_whole reads_saved reads_block)

typedef lawful_codec = "{J. json_ok J}"
  by (rule exI [of _ sample_json]) simp

interpretation files: store_spec "file_store io (Rep_lawful_codec J)" "fs_ok (Rep_lawful_codec J)"
    "fs_blocks (Rep_lawful_codec J)" "fs_checkpoints (Rep_lawful_codec J)" "fs_state (Rep_lawful_codec J)" for io J
proof
  let ?J = "Rep_lawful_codec J"
  have J: "json_ok ?J" using Rep_lawful_codec [of J] by simp
  show "st_SaveBlock (file_store io ?J) None s = (s, Some Nil_Argument)" for s
    by (simp add: file_store_def fs_SaveBlock_def)
  fix s s' :: FileStore
  assume ok: "fs_ok ?J s"
  show "fs_ok ?J s' \<and> fs_blocks ?J s' = (fs_blocks ?J s)(hHeight (bHeader b) \<mapsto> b) \<and>
      fs_checkpoints ?J s' = fs_checkpoints ?J s \<and> fs_state ?J s' = fs_state ?J s"
    if "st_SaveBlock (file_store io ?J) (Some b) s = (s', None)" for b
    using that ok J by (auto simp: file_store_def fs_SaveBlock_def write_file_ok fs_ok_def fs_blocks_def
        fs_checkpoints_def fs_state_def fun_eq_iff)
  show "fs_ok ?J s' \<and> fs_blocks ?J s' = fs_blocks ?J s \<and>
      fs_checkpoints ?J s' = fs_checkpoints ?J s \<and> fs_state ?J s' = Some c"
    if "st_SaveState (file_store io ?J) (Some c) s = (s', None)" for c
    using that ok J by (auto simp: file_store_def fs_SaveState_def write_file_ok fs_ok_def fs_blocks_def
        fs_checkpoints_def fs_state_def fun_eq_iff)
  show "fs_ok ?J s' \<and> fs_blocks ?J s' = fs_blocks ?J s \<and>
      fs_checkpoints ?J s' = (fs_checkpoints ?J s)(pcpSequenceNum c \<mapsto> c) \<and> fs_state ?J s' = fs_state ?J s"
    if "st_SaveCheckpoint (file_store io ?J) (Some c) s = (s', None)" for c
    using that ok J by (auto simp: file_store_def fs_SaveCheckpoint_def write_file_ok fs_ok_def fs_blocks_def
        fs_checkpoints_def fs_state_def fun_eq_iff)
  have lb: "r = fs_blocks ?J s h" if "fs_LoadBlock io ?J h s = Inr r" for h r
    using load_file_get that unfolding fs_LoadBlock_def fs_blocks_def by blast
  then show "r = fs_blocks ?J s h" if "st_LoadBlock (file_store io ?J) h s = Inr r" for h r
    using that by (simp add: file_store_def)
  show "r = fs_state ?J s" if "st_LoadState (file_store io ?J) s = Inr r" for r
    using that load_file_get by (simp add: file_store_def fs_LoadState_def fs_state_def)
  have lc: "r = fs_checkpoints ?J s n" if "fs_LoadCheckpoint io ?J n s = Inr r" for n r
    using load_file_get that unfolding fs_LoadCheckpoint_def fs_checkpoints_def by blast
  have cn: "\<exists>n. nm = checkpoint_name n"
    if "go_get (fs_files s) [fsBaseDir s, ''checkpoints'', nm] = Some data" for nm data
    using that ok unfolding fs_ok_def by blast
  have bn: "\<exists>n. nm = block_name n" if "go_get (fs_files s) [fsBaseDir s, ''blocks'', nm] = Some data" for nm data
    using that ok unfolding fs_ok_def by blast
  show ck: "pcpSequenceNum c = k" if "fs_checkpoints ?J s k = Some c" for k c
  proof -
    from that obtain data where d: "go_get (fs_files s) [fsBaseDir s, ''checkpoints'', checkpoint_name k] = Some data"
      "js_dec_checkpoint ?J data = Some c" by (auto simp: fs_checkpoints_def split: Option.bind_splits)
    with ok obtain c' where "js_dec_checkpoint ?J data = Some c'" "checkpoint_name k = checkpoint_name (pcpSequenceNum c')"
      unfolding fs_ok_def by blast
    with d(2) show ?thesis by simp
  qed
  show bk: "hHeight (bHeader b) = k" if "fs_blocks ?J s k = Some b" for k b
  proof -
    from that obtain data where d: "go_get (fs_files s) [fsBaseDir s, ''blocks'', block_name k] = Some data"
      "js_dec_block ?J data = Some b" by (auto simp: fs_blocks_def split: Option.bind_splits)
    with ok obtain b' where "js_dec_block ?J data = Some b'" "block_name k = block_name (hHeight (bHeader b'))"
      unfolding fs_ok_def by blast
    with d(2) show ?thesis by simp
  qed
  show "set cps = ran (fs_checkpoints ?J s)"
    if l: "st_LoadCheckpoints (file_store io ?J) s = Inr cps" for cps
  proof -
    obtain ns where ns: "read_dir [fsBaseDir s, ''checkpoints''] s = map checkpoint_name ns"
      "set ns = {n. go_get (fs_files s) [fsBaseDir s, ''checkpoints'', checkpoint_name n] \<noteq> None}"
      by (rule read_dir_names [of s "fsBaseDir s" "''checkpoints''" checkpoint_name, OF cn])
        (use inj_names(2) in simp_all)
    have "cps = [] @ List.map_filter (fs_checkpoints ?J s) ns"
      by (rule load_checkpoints_loop [of "\<lambda>n. fs_LoadCheckpoint io ?J n s" ns "[]" cps "fs_checkpoints ?J s", OF _ lc])
        (use l ns(1) in \<open>auto simp: file_store_def fs_LoadCheckpoints_def split: if_splits\<close>)
    moreover have "fs_checkpoints ?J s n = Some c \<Longrightarrow> n \<in> set ns" for n c
      unfolding ns(2) by (auto simp: fs_checkpoints_def split: Option.bind_splits)
    ultimately show ?thesis unfolding ran_def by (auto simp: set_eq_iff in_map_filter simp del: split_paired_Ex)
  qed
  show "(\<forall>k. fs_blocks ?J s k \<noteq> None \<longrightarrow> k \<le> h) \<and> (h \<noteq> 0 \<longrightarrow> fs_blocks ?J s h \<noteq> None)"
    if l: "st_GetLatestBlockHeight (file_store io ?J) s = Inr h" for h
  proof -
    obtain hs where hs: "read_dir [fsBaseDir s, ''blocks''] s = map block_name hs"
      "set hs = {n. go_get (fs_files s) [fsBaseDir s, ''blocks'', block_name n] \<noteq> None}"
      by (rule read_dir_names [of s "fsBaseDir s" "''blocks''" block_name, OF bn])
        (use inj_names(1) in simp_all)
    have h: "h = Max (insert 0 (set hs))"
      using l by (auto simp: file_store_def fs_GetLatestBlockHeight_def hs(1) max_named split: if_splits)
    have b: "fs_blocks ?J s n \<noteq> None \<longleftrightarrow> n \<in> set hs" for n
    proof -
      have "\<exists>b. ?J = ?J \<and> js_dec_block ?J data = Some b"
        if "go_get (fs_files s) [fsBaseDir s, ''blocks'', block_name n] = Some data" for data
        using that ok unfolding fs_ok_def by blast
      then show ?thesis unfolding hs(2) by (auto simp: fs_blocks_def split: Option.bind_splits)
    qed
    have "k \<le> h" if "k \<in> set hs" for k using that h by simp
    moreover have "h \<in> insert 0 (set hs)" unfolding h by (rule Max_in) simp_all
    ultimately show ?thesis using b by auto
  qed
  show "bs = List.map_filter (fs_blocks ?J s) (u64_range lo hi)"
    if "hi \<noteq> - 1" "st_LoadBlocks (file_store io ?J) lo hi s = Ret (Inr bs)" for lo hi bs
  proof -
    have "for_each (fs_load_step (\<lambda>h. fs_LoadBlock io ?J h s)) (u64_range lo hi) [] = Inr bs"
      using that by (simp add: file_store_def fs_LoadBlocks_def u64_for_terminates)
    from load_blocks_loop [OF this lb] show ?thesis by simp
  qed
qed

section \<open>Across a restart\<close>

text \<open>Saving blocks one after the other; reopening the directory reads the same disk.\<close>

definition fs_save_all :: "io_env \<Rightarrow> store_codec \<Rightarrow> Block list \<Rightarrow> FileStore \<Rightarrow> FileStore" where
  "fs_save_all io J bs fs = fold (\<lambda>b fs. fst (fs_SaveBlock io J (Some b) fs)) bs fs"

definition io_sound :: "io_env \<Rightarrow> bool" where
  "io_sound io \<longleftrightarrow> (\<forall>p. io_mkdir io p \<and> io_write io p = Written \<and> io_read io p \<and> io_readdir io p)"

lemma NewFileStore_sound:
  assumes "io_sound io"
  shows "\<exists>dk'. NewFileStore io d dk = (dk', Inr \<lparr>fsBaseDir = d, fsDisk = dk'\<rparr>) \<and> dkFiles dk' = dkFiles dk"
  using assms by (simp add: NewFileStore_def io_sound_def)

lemma fs_save_all_ok:
  assumes "io_sound io" and "json_ok J" and "fs_ok J fs"
  shows "fs_ok J (fs_save_all io J bs fs) \<and> fsBaseDir (fs_save_all io J bs fs) = fsBaseDir fs \<and>
    fs_blocks J (fs_save_all io J bs fs) = fs_blocks J fs ++ last_saved bs"
proof (induction bs rule: rev_induct)
  case Nil
  have "last_saved [] = Map.empty" by (rule ext) (simp add: last_saved_def)
  then show ?case using assms(3) by (simp add: fs_save_all_def)
next
  case (snoc b bs)
  let ?f = "fs_save_all io J bs fs"
  obtain j where j: "J = Rep_lawful_codec j"
    using assms(2) by (metis Abs_lawful_codec_inverse mem_Collect_eq)
  have w: "io_write io p = Written" for p using assms(1) by (simp add: io_sound_def)
  obtain f' where f': "fs_SaveBlock io J (Some b) ?f = (f', None)" "fsBaseDir f' = fsBaseDir ?f"
    by (simp add: fs_SaveBlock_def write_file_def w)
  then have e: "fs_save_all io J (bs @ [b]) fs = f'" by (simp add: fs_save_all_def)
  have "st_SaveBlock (file_store io (Rep_lawful_codec j)) (Some b) ?f = (f', None)"
    using f'(1) by (simp add: file_store_def j)
  from files.save_block [OF _ this] snoc have "fs_ok J f'" "fs_blocks J f' = (fs_blocks J ?f)(hHeight (bHeader b) \<mapsto> b)"
    by (simp_all add: j)
  with snoc f'(2) show ?case unfolding e by (auto simp: last_saved_def map_add_def fun_eq_iff split: option.split)
qed

text \<open>An empty store in a directory of its own.\<close>

definition empty_store :: "string \<Rightarrow> FileStore" where
  "empty_store d = \<lparr>fsBaseDir = d, fsDisk = \<lparr>dkDirs = [], dkFiles = []\<rparr>\<rparr>"

lemma empty_store_ok [simp]: "fs_ok J (empty_store d)" "fs_blocks J (empty_store d) = Map.empty"
  "fsBaseDir (empty_store d) = d"
  by (simp_all add: fs_ok_def empty_store_def fs_blocks_def fun_eq_iff)

lemma fs_LoadBlocks_eq:
  assumes "io_sound io" and "json_ok J" and "fs_ok J fs" and "hi \<noteq> - 1"
  shows "fs_LoadBlocks io J lo hi fs = Ret (Inr (List.map_filter (fs_blocks J fs) (u64_range lo hi)))"
proof -
  have r: "io_read io p" for p using assms(1) by (simp add: io_sound_def)
  have l: "fs_LoadBlock io J h fs = Inr (fs_blocks J fs h)" for h
  proof (cases "go_get (fs_files fs) [fsBaseDir fs, ''blocks'', block_name h]")
    case None
    then show ?thesis by (simp add: fs_LoadBlock_def load_file_def r fs_blocks_def)
  next
    case (Some data)
    with assms(3) obtain b where "js_dec_block J data = Some b" unfolding fs_ok_def by blast
    with Some show ?thesis by (simp add: fs_LoadBlock_def load_file_def r fs_blocks_def)
  qed
  have "for_each (fs_load_step (\<lambda>h. fs_LoadBlock io J h fs)) hs acc = Inr (acc @ List.map_filter (fs_blocks J fs) hs)" for hs acc
    by (induction hs arbitrary: acc) (auto simp: fs_load_step_def l List.map_filter_simps split: option.split)
  then show ?thesis using assms(4) by (simp add: fs_LoadBlocks_def u64_for_terminates)
qed

text \<open>
  C21. Blocks survive a restart. Save any blocks in a file store whose operating system does not
  fail, forget the store and open the directory again: \<open>LoadBlocks\<close> returns, in strictly increasing
  height order, exactly the blocks saved last under the heights of the range. (The upper bound
  must not be the largest \<open>uint64\<close>.)
\<close>

theorem FileStore_survives_restart:
  assumes "io_sound io" and "json_ok J" and "hi \<noteq> - 1"
    and "NewFileStore io d (fsDisk (fs_save_all io J bs (empty_store d))) = (dk, r)"
  shows "\<exists>fs out. r = Inr fs \<and> fs_LoadBlocks io J lo hi fs = Ret (Inr out) \<and>
    sorted_wrt (<) (map (\<lambda>b. hHeight (bHeader b)) out) \<and>
    (\<forall>b. b \<in> set out \<longleftrightarrow> lo \<le> hHeight (bHeader b) \<and> hHeight (bHeader b) \<le> hi \<and>
       last_saved bs (hHeight (bHeader b)) = Some b)"
proof -
  let ?s = "fs_save_all io J bs (empty_store d)"
  let ?fs = "\<lparr>fsBaseDir = d, fsDisk = dk\<rparr>"
  have r: "r = Inr ?fs" "dkFiles dk = fs_files ?s"
    using NewFileStore_sound [OF assms(1), of d "fsDisk ?s"] assms(4) by auto
  have s: "fs_ok J ?s" "fsBaseDir ?s = d" "fs_blocks J ?s = last_saved bs"
    using fs_save_all_ok [OF assms(1,2) empty_store_ok(1) [of J d], of bs] by simp_all
  have ok: "fs_ok J ?fs" using s(1,2) r(2) by (simp add: fs_ok_def)
  have b: "fs_blocks J ?fs = last_saved bs" using s(2,3) r(2) by (simp add: fs_blocks_def fun_eq_iff)
  have l: "fs_LoadBlocks io J lo hi ?fs = Ret (Inr (List.map_filter (last_saved bs) (u64_range lo hi)))" (is "_ = Ret (Inr ?out)")
    using fs_LoadBlocks_eq [OF assms(1,2) ok assms(3), of lo] by (simp add: b)
  obtain j where j: "J = Rep_lawful_codec j"
    using assms(2) by (metis Abs_lawful_codec_inverse mem_Collect_eq)
  have "st_LoadBlocks (file_store io (Rep_lawful_codec j)) lo hi ?fs = Ret (Inr ?out)" using l by (simp add: file_store_def j)
  from files.load_blocks_in_order [OF ok [unfolded j] assms(3) this] r(1) l show ?thesis by (auto simp: b j [symmetric])
qed

definition sound_io :: io_env where
  "sound_io = \<lparr>io_mkdir = \<lambda>p. True, io_write = \<lambda>p. Written, io_read = \<lambda>p. True, io_readdir = \<lambda>p. True\<rparr>"

lemma sound_io_sound [simp]: "io_sound sound_io"
  by (simp add: io_sound_def sound_io_def)

theorem FileStore_survives_restart_witness:
  "\<exists>dk fs out. NewFileStore sound_io ''data'' (fsDisk (fs_save_all sound_io sample_json
       [sample_block 1 ''a'', sample_block 12 ''a'', sample_block 1 ''b''] (empty_store ''data''))) = (dk, Inr fs) \<and>
     fs_LoadBlocks sound_io sample_json 1 12 fs = Ret (Inr out) \<and>
     sample_block 1 ''b'' \<in> set out \<and> sample_block 12 ''a'' \<in> set out \<and> sample_block 1 ''a'' \<notin> set out"
proof -
  let ?bs = "[sample_block 1 ''a'', sample_block 12 ''a'', sample_block 1 ''b'']"
  obtain dk r where n: "NewFileStore sound_io ''data'' (fsDisk (fs_save_all sound_io sample_json ?bs (empty_store ''data''))) = (dk, r)"
    by fastforce
  have "(12 :: u64) \<noteq> - 1" by simp
  from FileStore_survives_restart [OF sound_io_sound sample_json_ok this n, of 1] obtain fs out where
    "r = Inr fs" "fs_LoadBlocks sound_io sample_json 1 12 fs = Ret (Inr out)"
    "\<forall>b. b \<in> set out \<longleftrightarrow> 1 \<le> hHeight (bHeader b) \<and> hHeight (bHeader b) \<le> 12 \<and>
       last_saved ?bs (hHeight (bHeader b)) = Some b" by blast
  with n show ?thesis
    by (intro exI [of _ dk] exI [of _ fs] exI [of _ out]) (simp add: last_saved_def sample_block_def)
qed

end
