(* ===== verification/Durability.thy ===== *)
theory Durability
  imports Engine_Restart FileStore
begin

text \<open>
  The engine on its file store: what a write that stops in the middle does to a later recovery.
\<close>

lemma load_blocks_stops:
  assumes "h \<in> set hs" and "load h = Inl err" and "\<And>k. k \<noteq> h \<Longrightarrow> \<exists>r. load k = Inr r"
  shows "for_each (fs_load_step load) hs acc = Inl err"
  using assms(1)
proof (induction hs arbitrary: acc)
  case (Cons k ks)
  show ?case
  proof (cases "k = h")
    case True
    with assms(2) show ?thesis by (simp add: fs_load_step_def)
  next
    case False
    with assms(3) obtain r where "load k = Inr r" by blast
    with Cons False show ?thesis by (cases r) (simp_all add: fs_load_step_def)
  qed
qed simp

text \<open>The highest number of a directory of block files.\<close>

lemma latest_of_names:
  assumes "io_sound io" and "\<And>nm data. go_get (fs_files fs) [fsBaseDir fs, ''blocks'', nm] = Some data \<Longrightarrow> \<exists>n. nm = block_name n"
  obtains hs where "fs_GetLatestBlockHeight io fs = Inr (Max (insert 0 (set hs)))"
    "set hs = {n. go_get (fs_files fs) [fsBaseDir fs, ''blocks'', block_name n] \<noteq> None}"
proof -
  obtain hs where hs: "read_dir [fsBaseDir fs, ''blocks''] fs = map block_name hs"
    "set hs = {n. go_get (fs_files fs) [fsBaseDir fs, ''blocks'', block_name n] \<noteq> None}"
    by (rule read_dir_names [of fs "fsBaseDir fs" "''blocks''" block_name, OF assms(2)])
      (use inj_names(1) in simp_all)
  show thesis
    by (rule that [OF _ hs(2)]) (use assms(1) in \<open>simp add: fs_GetLatestBlockHeight_def io_sound_def hs(1) max_named\<close>)
qed

text \<open>
  A torn write stops recovery for good. Let the write of a block's file stop after some bytes,
  as when the machine loses power, so that what is on disk is no JSON document. \<open>SaveBlock\<close> reports
  an error, which the engine drops, and the truncated file stays under the block's name: with a
  disk that works again, \<open>Recover\<close> of a new engine fails to decode it, every time it is tried.
\<close>

theorem torn_write_stops_recovery:
  fixes a :: 'a
  assumes "fs_ok J fs" and "io_sound io'"
    and "io_write io [fsBaseDir fs, ''blocks'', block_name (hHeight (bHeader b))] = Torn n"
    and "js_dec_block J (take n (js_enc_block J b)) = None"
    and "hHeight (bHeader b) \<noteq> 0" "hHeight (bHeader b) \<noteq> - 1" "fs_blocks J fs (- 1) = None"
    and "fs_LoadState io' J fs = Inr st"
  shows "\<exists>fs' e'. fs_SaveBlock io J (Some b) fs = (fs', Some Io_Error) \<and>
    Recover (file_store io' J) (SetStore fs' (NewEngineV2 c vs t a)) = Ret (e', Some Decode_Error)"
proof -
  let ?h = "hHeight (bHeader b)" and ?d = "fsBaseDir fs"
  let ?p = "[?d, ''blocks'', block_name ?h]"
  let ?fs = "fs\<lparr>fsDisk := (fsDisk fs)\<lparr>dkFiles := go_put ?p (take n (js_enc_block J b)) (fs_files fs)\<rparr>\<rparr>"
  have s: "fs_SaveBlock io J (Some b) fs = (?fs, Some Io_Error)"
    by (simp add: fs_SaveBlock_def write_file_def assms(3))
  have rd: "io_read io' p" for p using assms(2) by (simp add: io_sound_def)
  have names: "\<exists>k. nm = block_name k" if "go_get (fs_files ?fs) [fsBaseDir ?fs, ''blocks'', nm] = Some data" for nm data
  proof (cases "nm = block_name ?h")
    case False
    with that have "go_get (fs_files fs) [?d, ''blocks'', nm] = Some data" by simp
    with assms(1) show ?thesis unfolding fs_ok_def by blast
  qed blast
  obtain hs where hs: "fs_GetLatestBlockHeight io' ?fs = Inr (Max (insert 0 (set hs)))"
    "set hs = {k. go_get (fs_files ?fs) [fsBaseDir ?fs, ''blocks'', block_name k] \<noteq> None}"
    by (rule latest_of_names [OF assms(2) names])
  let ?L = "Max (insert 0 (set hs))"
  have "?h \<in> set hs" unfolding hs(2) by simp
  then have hL: "?h \<le> ?L" by simp
  have "- 1 \<notin> set hs"
  proof
    assume "- 1 \<in> set hs"
    with assms(6) have "go_get (fs_files fs) [?d, ''blocks'', block_name (- 1)] \<noteq> None" unfolding hs(2) by simp
    then obtain data where d: "go_get (fs_files fs) [?d, ''blocks'', block_name (- 1)] = Some data" by blast
    with assms(1) obtain b' where "js_dec_block J data = Some b'" unfolding fs_ok_def by blast
    with d assms(7) show False by (simp add: fs_blocks_def)
  qed
  moreover have "?L \<in> insert 0 (set hs)" by (rule Max_in) simp_all
  ultimately have L1: "?L \<noteq> - 1" by auto
  have L0: "?L \<noteq> 0"
  proof
    assume "?L = 0"
    with hL have "?h \<le> 0" by simp
    with assms(5) show False by simp
  qed
  have bad: "fs_LoadBlock io' J ?h ?fs = Inl Decode_Error"
    using assms(4) by (simp add: fs_LoadBlock_def load_file_def rd)
  have good: "\<exists>r. fs_LoadBlock io' J k ?fs = Inr r" if "k \<noteq> ?h" for k
  proof (cases "go_get (fs_files fs) [?d, ''blocks'', block_name k]")
    case None
    with that show ?thesis by (simp add: fs_LoadBlock_def load_file_def rd)
  next
    case (Some data)
    with assms(1) obtain b' where "js_dec_block J data = Some b'" unfolding fs_ok_def by blast
    with that Some show ?thesis by (simp add: fs_LoadBlock_def load_file_def rd)
  qed
  have "1 \<le> ?h" using assms(5) by (simp add: word_le_nat_alt Suc_le_eq word_neq_0_conv [symmetric] unat_gt_0)
  then have "?h \<in> set (u64_range 1 ?L)" using hL by (simp add: set_u64_range)
  then have "for_each (fs_load_step (\<lambda>k. fs_LoadBlock io' J k ?fs)) (u64_range 1 ?L) [] = Inl Decode_Error"
    by (rule load_blocks_stops) (use bad good in auto)
  then have lb: "fs_LoadBlocks io' J 1 ?L ?fs = Ret (Inl Decode_Error)"
    using L1 by (simp add: fs_LoadBlocks_def u64_for_terminates)
  let ?e = "SetStore ?fs (NewEngineV2 c vs t a)"
  have st: "fs_LoadState io' J ?fs = Inr st" using assms(8) by (simp add: fs_LoadState_def load_file_def rd)
  obtain e1 where e1: "LoadState (file_store io' J) ?e = (e1, None)" "eStore e1 = Some ?fs"
    by (cases st) (simp_all add: LoadState_def SetStore_def file_store_def st)
  have "LoadBlocks (file_store io' J) e1 = Ret (e1, Some Decode_Error)"
    using e1(2) hs(1) L0 lb by (simp add: LoadBlocks_def file_store_def)
  with e1 have "Recover (file_store io' J) ?e = Ret (e1, Some Decode_Error)"
    by (simp add: Recover_def) (simp add: SetStore_def)
  with s show ?thesis by blast
qed

text \<open>Power fails while block 2 of two is written.\<close>

theorem torn_write_stops_recovery_witness:
  "\<exists>fs' e'. fs_SaveBlock (sound_io\<lparr>io_write := \<lambda>p. Torn 1\<rparr>) sample_json (Some (sample_block 2 ''a''))
       (fs_save_all sound_io sample_json [sample_block 1 ''a''] (empty_store ''data'')) = (fs', Some Io_Error) \<and>
     Recover (file_store sound_io sample_json) (SetStore fs' (NewEngineV2 (DefaultConfig ''node1'') default_set True NewNoopABCIAdapter))
       = Ret (e', Some Decode_Error)"
proof -
  let ?fs = "fs_save_all sound_io sample_json [sample_block 1 ''a''] (empty_store ''data'')"
  let ?b = "sample_block 2 ''a''"
  have fs: "fs_ok sample_json ?fs" "fs_blocks sample_json ?fs = last_saved [sample_block 1 ''a'']"
    using fs_save_all_ok [OF sound_io_sound sample_json_ok empty_store_ok(1) [of sample_json "''data''"], of "[sample_block 1 ''a'']"]
    by simp_all
  have h: "hHeight (bHeader ?b) = 2" "hHeight (bHeader (sample_block 1 ''a'')) = 1" by (simp_all add: sample_block_def)
  have "1 < length (wr_block ?b)"
    by (simp add: wr_block_def wr_map_def wr_pair_def wr_header_def sample_block_def wr_u64_def wr_nat_def)
  then have torn: "js_dec_block sample_json (take 1 (js_enc_block sample_json ?b)) = None"
    using strict_decode_torn [OF reads_block(3)] by (simp add: sample_json_def)
  have "fs_LoadState sound_io sample_json ?fs = Inr None"
    by (simp add: fs_LoadState_def load_file_def fs_save_all_def fs_SaveBlock_def write_file_def sound_io_def empty_store_def)
  then show ?thesis
    by (intro torn_write_stops_recovery [OF fs(1) sound_io_sound _ torn]) (simp_all add: h fs(2) last_saved_def)
qed

end
