(* ===== verification/Transport.thy ===== *)
theory Transport
  imports Engine
begin

text \<open>
  \<open>transport/grpc.go\<close> and \<open>transport/codec.go\<close>, with the message types of
  \<open>api/pbft/v1/types.pb.go\<close> they use: the conversions between the engine's messages and the wire
  format, and \<open>GRPCTransport\<close>, its client side (peers, broadcasts, sends) and its server side (the
  handlers). What lies outside is a parameter: the listener, the dialler and the remote calls of
  grpc (\<open>grpc_env\<close>), \<open>timestamppb\<close> (\<open>ts_codec\<close>) and \<open>encoding/json\<close>. The callbacks act on a
  state \<open>'w\<close> of their owner. Every remote call is recorded in the order it is issued; the calls
  of a broadcast run concurrently in the code, so their order is a parameter too.
\<close>

section \<open>Wire types\<close>

datatype ProtoMessageType =
  MESSAGE_TYPE_UNSPECIFIED | MESSAGE_TYPE_PRE_PREPARE | MESSAGE_TYPE_PREPARE | MESSAGE_TYPE_COMMIT
  | MESSAGE_TYPE_VIEW_CHANGE | MESSAGE_TYPE_NEW_VIEW | MESSAGE_TYPE_CHECKPOINT | OtherProtoType int

record 'ts PBFTMessage =
  pmType :: ProtoMessageType
  pmView :: u64
  pmSequenceNum :: u64
  pmDigest :: bytes
  pmNodeId :: string
  pmTimestamp :: "'ts option"
  pmSignature :: bytes
  pmPayload :: bytes

record 'ts ProtoBlockHeader =
  phHeight :: u64
  phTimestamp :: "'ts option"
  phPrevHash :: bytes
  phTxHash :: bytes
  phStateHash :: bytes
  phProposer :: string
  phView :: u64

record 'ts ProtoBlock =
  pbHeader :: "'ts ProtoBlockHeader option"
  pbTxs :: "bytes list"
  pbHash :: bytes

record ProtoCheckpoint =
  pkSequenceNum :: u64
  pkDigest :: bytes
  pkNodeId :: string

record 'ts TxMessage =
  tmTxData :: bytes
  tmTxHash :: string
  tmSender :: string
  tmNonce :: u64
  tmGasPrice :: u64
  tmGasLimit :: u64
  tmTimestamp :: "'ts option"
  tmFromNode :: string

record BroadcastTxResponse =
  btSuccess :: bool
  btError :: string
  btTxHash :: string

record SendTxResponse =
  sxSuccess :: bool
  sxError :: string

record 'ts SyncStateResponse =
  ssBlocks :: "'ts ProtoBlock option list"
  ssCheckpoints :: "ProtoCheckpoint list"

record GetStatusResponse =
  gsNodeId :: string
  gsCurrentView :: u64
  gsCurrentHeight :: u64
  gsLastAppHash :: bytes
  gsPeerCount :: "32 word"
  gsIsPrimary :: bool

text \<open>\<open>timestamppb.New\<close> and \<open>AsTime\<close>; the zero \<open>time.Time\<close> is instant 0.\<close>

record 'ts ts_codec =
  ts_New :: "gotime \<Rightarrow> 'ts"
  ts_AsTime :: "'ts \<Rightarrow> gotime"

section \<open>Conversions\<close>

fun convertMessageType :: "MessageType \<Rightarrow> ProtoMessageType" where
  "convertMessageType PrePrepare = MESSAGE_TYPE_PRE_PREPARE"
| "convertMessageType Prepare = MESSAGE_TYPE_PREPARE"
| "convertMessageType Commit = MESSAGE_TYPE_COMMIT"
| "convertMessageType ViewChange = MESSAGE_TYPE_VIEW_CHANGE"
| "convertMessageType NewView = MESSAGE_TYPE_NEW_VIEW"
| "convertMessageType CheckpointMsgType = MESSAGE_TYPE_CHECKPOINT"
| "convertMessageType _ = MESSAGE_TYPE_UNSPECIFIED"

fun convertProtoMessageType :: "ProtoMessageType \<Rightarrow> MessageType" where
  "convertProtoMessageType MESSAGE_TYPE_PRE_PREPARE = PrePrepare"
| "convertProtoMessageType MESSAGE_TYPE_PREPARE = Prepare"
| "convertProtoMessageType MESSAGE_TYPE_COMMIT = Commit"
| "convertProtoMessageType MESSAGE_TYPE_VIEW_CHANGE = ViewChange"
| "convertProtoMessageType MESSAGE_TYPE_NEW_VIEW = NewView"
| "convertProtoMessageType MESSAGE_TYPE_CHECKPOINT = CheckpointMsgType"
| "convertProtoMessageType _ = Request"

definition messageToProto :: "'ts ts_codec \<Rightarrow> Message \<Rightarrow> 'ts PBFTMessage" where
  "messageToProto T msg =
     \<lparr>pmType = convertMessageType (mType msg), pmView = mView msg, pmSequenceNum = mSequenceNum msg,
      pmDigest = mDigest msg, pmNodeId = mNodeID msg, pmTimestamp = Some (ts_New T (mTimestamp msg)),
      pmSignature = mSignature msg, pmPayload = mPayload msg\<rparr>"

definition protoToMessage :: "'ts ts_codec \<Rightarrow> 'ts PBFTMessage \<Rightarrow> Message" where
  "protoToMessage T proto =
     (let ts = (case pmTimestamp proto of None \<Rightarrow> 0 | Some t \<Rightarrow> ts_AsTime T t)
      in \<lparr>mType = convertProtoMessageType (pmType proto), mView = pmView proto,
          mSequenceNum = pmSequenceNum proto, mDigest = pmDigest proto, mNodeID = pmNodeId proto,
          mTimestamp = ts, mSignature = pmSignature proto, mPayload = pmPayload proto\<rparr>)"

definition typesBlockToProto :: "'ts ts_codec \<Rightarrow> Block option \<Rightarrow> 'ts ProtoBlock option" where
  "typesBlockToProto T b =
     (case b of
        None \<Rightarrow> None
      | Some b \<Rightarrow>
          let txs = map txData (bTransactions b); h = bHeader b
          in Some \<lparr>pbHeader = Some \<lparr>phHeight = hHeight h, phTimestamp = Some (ts_New T (hTimestamp h)),
                     phPrevHash = hPrevHash h, phTxHash = hTxRoot h, phStateHash = hStateRoot h,
                     phProposer = hProposerID h, phView = hView h\<rparr>,
                   pbTxs = txs, pbHash = bHash b\<rparr>)"

text \<open>The codec registered with grpc: JSON under the name of the default one.\<close>

definition codec_Name :: string where
  "codec_Name = ''proto''"

definition codec_Marshal :: "('v \<Rightarrow> string + bytes) \<Rightarrow> 'v \<Rightarrow> string + bytes" where
  "codec_Marshal json_Marshal v =
     (case json_Marshal v of Inl err \<Rightarrow> Inl (''json marshal error: '' @ err) | Inr data \<Rightarrow> Inr data)"

definition codec_Unmarshal :: "(bytes \<Rightarrow> string + 'v) \<Rightarrow> bytes \<Rightarrow> string + 'v" where
  "codec_Unmarshal json_Unmarshal data =
     (case json_Unmarshal data of Inl err \<Rightarrow> Inl (''json unmarshal error: '' @ err) | Inr v \<Rightarrow> Inr v)"

section \<open>State\<close>

text \<open>
  A connection \<open>'c\<close> is also the client stub built on it. \<open>gtSent\<close> records the remote calls,
  \<open>gtClosed\<close> the connections closed.
\<close>

datatype 'ts rpc =
  rpc_BroadcastMessage "'ts PBFTMessage"
| rpc_SendMessage string "'ts PBFTMessage"
| rpc_BroadcastTx "'ts TxMessage"
| rpc_SendTx string "'ts TxMessage"

record 'c peerConn =
  pcId :: string
  pcAddr :: string
  pcConn :: 'c

record ('c, 'ts) GRPCTransport =
  gtNodeID :: string
  gtAddress :: string
  gtServer :: bool
  gtListening :: bool
  gtPeers :: "(string, 'c peerConn) gomap"
  gtHandlerSet :: bool
  gtProviderSet :: bool
  gtRunning :: bool
  gtDone :: bool
  gtSent :: "('c \<times> 'ts rpc) list"
  gtClosed :: "'c list"

record ('c, 'ts) grpc_env =
  ge_ts :: "'ts ts_codec"
  ge_now :: gotime
  ge_listen :: "string \<Rightarrow> string option"
  ge_dial :: "string \<Rightarrow> string + 'c"
  ge_call :: "'c \<Rightarrow> 'ts rpc \<Rightarrow> string option"
  ge_peers :: "(string \<times> 'c peerConn) list \<Rightarrow> (string \<times> 'c peerConn) list"

definition NewGRPCTransport :: "string \<Rightarrow> string \<Rightarrow> ('c, 'ts) GRPCTransport" where
  "NewGRPCTransport nodeID address =
     \<lparr>gtNodeID = nodeID, gtAddress = address, gtServer = False, gtListening = False, gtPeers = [],
      gtHandlerSet = False, gtProviderSet = False, gtRunning = False, gtDone = False,
      gtSent = [], gtClosed = []\<rparr>"

definition gt_Start ::
  "('c, 'ts) grpc_env \<Rightarrow> ('c, 'ts) GRPCTransport \<Rightarrow> ('c, 'ts) GRPCTransport \<times> string option" where
  "gt_Start G t =
     (case ge_listen G (gtAddress t) of
        Some err \<Rightarrow> (t, Some (''failed to listen on '' @ gtAddress t @ '': '' @ err))
      | None \<Rightarrow> (t\<lparr>gtListening := True, gtServer := True, gtRunning := True\<rparr>, None))"

text \<open>Closing the channel \<open>done\<close> a second time panics.\<close>

definition gt_Stop :: "('c, 'ts) grpc_env \<Rightarrow> ('c, 'ts) GRPCTransport \<Rightarrow> ('c, 'ts) GRPCTransport go" where
  "gt_Stop G t =
     (if gtDone t then Panic Closed_Channel
      else Ret (t\<lparr>gtRunning := False, gtDone := True,
                  gtClosed := gtClosed t @ map (pcConn \<circ> snd) (ge_peers G (gtPeers t)), gtPeers := [],
                  gtListening := False\<rparr>))"

section \<open>Client side\<close>

definition AddPeer ::
  "('c, 'ts) grpc_env \<Rightarrow> string \<Rightarrow> string \<Rightarrow> ('c, 'ts) GRPCTransport \<Rightarrow> ('c, 'ts) GRPCTransport \<times> string option" where
  "AddPeer G nodeID address t =
     (case ge_dial G address of
        Inl err \<Rightarrow> (t, Some (''failed to connect to peer '' @ nodeID @ '' at '' @ address @ '': '' @ err))
      | Inr conn \<Rightarrow>
          (t\<lparr>gtPeers := go_put nodeID \<lparr>pcId = nodeID, pcAddr = address, pcConn = conn\<rparr> (gtPeers t)\<rparr>, None))"

definition RemovePeer :: "string \<Rightarrow> ('c, 'ts) GRPCTransport \<Rightarrow> ('c, 'ts) GRPCTransport" where
  "RemovePeer nodeID t =
     (case go_get (gtPeers t) nodeID of
        None \<Rightarrow> t
      | Some peer \<Rightarrow> t\<lparr>gtClosed := gtClosed t @ [pcConn peer], gtPeers := go_del nodeID (gtPeers t)\<rparr>)"

text \<open>One call per peer; the error returned is that of the last call that failed.\<close>

definition call_peers ::
  "('c, 'ts) grpc_env \<Rightarrow> 'ts rpc \<Rightarrow> ('c, 'ts) GRPCTransport \<Rightarrow> ('c, 'ts) GRPCTransport \<times> string option" where
  "call_peers G req t =
     fold (\<lambda>(i, p) (t, lastErr).
            (t\<lparr>gtSent := gtSent t @ [(pcConn p, req)]\<rparr>,
             case ge_call G (pcConn p) req of Some err \<Rightarrow> Some err | None \<Rightarrow> lastErr))
       (ge_peers G (gtPeers t)) (t, None)"

definition call_peer ::
  "('c, 'ts) grpc_env \<Rightarrow> string \<Rightarrow> 'ts rpc \<Rightarrow> ('c, 'ts) GRPCTransport \<Rightarrow> ('c, 'ts) GRPCTransport \<times> string option" where
  "call_peer G nodeID req t =
     (case go_get (gtPeers t) nodeID of
        None \<Rightarrow> (t, Some (''peer '' @ nodeID @ '' not found''))
      | Some peer \<Rightarrow>
          (t\<lparr>gtSent := gtSent t @ [(pcConn peer, req)]\<rparr>, ge_call G (pcConn peer) req))"

definition gt_Broadcast ::
  "('c, 'ts) grpc_env \<Rightarrow> Message \<Rightarrow> ('c, 'ts) GRPCTransport \<Rightarrow> ('c, 'ts) GRPCTransport \<times> string option" where
  "gt_Broadcast G msg t = call_peers G (rpc_BroadcastMessage (messageToProto (ge_ts G) msg)) t"

definition gt_Send ::
  "('c, 'ts) grpc_env \<Rightarrow> string \<Rightarrow> Message \<Rightarrow> ('c, 'ts) GRPCTransport \<Rightarrow> ('c, 'ts) GRPCTransport \<times> string option" where
  "gt_Send G nodeID msg t = call_peer G nodeID (rpc_SendMessage nodeID (messageToProto (ge_ts G) msg)) t"

definition tx_message ::
  "('c, 'ts) grpc_env \<Rightarrow> bytes \<Rightarrow> string \<Rightarrow> string \<Rightarrow> u64 \<Rightarrow> u64 \<Rightarrow> u64 \<Rightarrow> ('c, 'ts) GRPCTransport \<Rightarrow> 'ts TxMessage" where
  "tx_message G txd txHash sender nonce gasPrice gasLimit t =
     \<lparr>tmTxData = txd, tmTxHash = txHash, tmSender = sender, tmNonce = nonce, tmGasPrice = gasPrice,
      tmGasLimit = gasLimit, tmTimestamp = Some (ts_New (ge_ts G) (ge_now G)), tmFromNode = gtNodeID t\<rparr>"

definition BroadcastTransaction ::
  "('c, 'ts) grpc_env \<Rightarrow> bytes \<Rightarrow> string \<Rightarrow> string \<Rightarrow> u64 \<Rightarrow> u64 \<Rightarrow> u64
     \<Rightarrow> ('c, 'ts) GRPCTransport \<Rightarrow> ('c, 'ts) GRPCTransport \<times> string option" where
  "BroadcastTransaction G txd txHash sender nonce gasPrice gasLimit t =
     call_peers G (rpc_BroadcastTx (tx_message G txd txHash sender nonce gasPrice gasLimit t)) t"

definition SendTransaction ::
  "('c, 'ts) grpc_env \<Rightarrow> string \<Rightarrow> bytes \<Rightarrow> string \<Rightarrow> string \<Rightarrow> u64 \<Rightarrow> u64 \<Rightarrow> u64
     \<Rightarrow> ('c, 'ts) GRPCTransport \<Rightarrow> ('c, 'ts) GRPCTransport \<times> string option" where
  "SendTransaction G peerID txd txHash sender nonce gasPrice gasLimit t =
     call_peer G peerID (rpc_SendTx peerID (tx_message G txd txHash sender nonce gasPrice gasLimit t)) t"

definition SetMessageHandler :: "('c, 'ts) GRPCTransport \<Rightarrow> ('c, 'ts) GRPCTransport" where
  "SetMessageHandler t = t\<lparr>gtHandlerSet := True\<rparr>"

definition SetStateProvider :: "('c, 'ts) GRPCTransport \<Rightarrow> ('c, 'ts) GRPCTransport" where
  "SetStateProvider t = t\<lparr>gtProviderSet := True\<rparr>"

definition GetPeers :: "('c, 'ts) grpc_env \<Rightarrow> ('c, 'ts) GRPCTransport \<Rightarrow> string list" where
  "GetPeers G t = map fst (ge_peers G (gtPeers t))"

definition PeerCount :: "('c, 'ts) GRPCTransport \<Rightarrow> nat" where
  "PeerCount t = length (gtPeers t)"

section \<open>Server side\<close>

text \<open>The callback of \<open>SetMessageHandler\<close> is \<open>h\<close>; both message handlers answer with success.\<close>

definition BroadcastMessage ::
  "'ts ts_codec \<Rightarrow> (Message \<Rightarrow> 'w \<Rightarrow> 'w) \<Rightarrow> 'ts PBFTMessage option \<Rightarrow> ('c, 'ts) GRPCTransport \<Rightarrow> 'w \<Rightarrow> 'w \<times> bool" where
  "BroadcastMessage T h req t w =
     (case req of
        Some m \<Rightarrow> if gtHandlerSet t then (h (protoToMessage T m) w, True) else (w, True)
      | None \<Rightarrow> (w, True))"

definition SendMessage ::
  "'ts ts_codec \<Rightarrow> (Message \<Rightarrow> 'w \<Rightarrow> 'w) \<Rightarrow> 'ts PBFTMessage option \<Rightarrow> ('c, 'ts) GRPCTransport \<Rightarrow> 'w \<Rightarrow> 'w \<times> bool" where
  "SendMessage T h req t w =
     (case req of
        Some m \<Rightarrow> if gtHandlerSet t then (h (protoToMessage T m) w, True) else (w, True)
      | None \<Rightarrow> (w, True))"

text \<open>
  The events of a stream, each with whether \<open>done\<close> was closed when the loop came round. The
  result is the error returned, if any, or \<open>None\<close> while the loop waits for the next event.
\<close>

datatype 'ts stream_event = Stream_Msg "'ts PBFTMessage" | Stream_EOF | Stream_Error string

fun MessageStream ::
  "'ts ts_codec \<Rightarrow> (Message \<Rightarrow> 'w \<Rightarrow> 'w) \<Rightarrow> (bool \<times> 'ts stream_event) list \<Rightarrow> ('c, 'ts) GRPCTransport \<Rightarrow> 'w
     \<Rightarrow> 'w \<times> string option option" where
  "MessageStream T h [] t w = (w, None)"
| "MessageStream T h ((stopped, ev) # evs) t w =
     (if stopped then (w, Some None)
      else case ev of
        Stream_EOF \<Rightarrow> (w, Some None)
      | Stream_Error err \<Rightarrow> (w, Some (Some err))
      | Stream_Msg m \<Rightarrow>
          MessageStream T h evs t (if gtHandlerSet t then h (protoToMessage T m) w else w))"

text \<open>The interface \<open>StateProvider\<close>.\<close>

record 'w state_provider =
  sp_GetBlocksFromHeight :: "u64 \<Rightarrow> 'w \<Rightarrow> Block option list"
  sp_GetCheckpoints :: "'w \<Rightarrow> Checkpoint list"
  sp_GetCheckpoint :: "u64 \<Rightarrow> 'w \<Rightarrow> Checkpoint option"

definition checkpoint_to_proto :: "Checkpoint \<Rightarrow> ProtoCheckpoint" where
  "checkpoint_to_proto cp =
     \<lparr>pkSequenceNum = cpSequenceNum cp, pkDigest = cpDigest cp, pkNodeId = cpNodeID cp\<rparr>"

definition SyncState ::
  "'ts ts_codec \<Rightarrow> 'w state_provider \<Rightarrow> u64 \<Rightarrow> ('c, 'ts) GRPCTransport \<Rightarrow> 'w \<Rightarrow> 'ts SyncStateResponse" where
  "SyncState T P fromHeight t w =
     (if \<not> gtProviderSet t then \<lparr>ssBlocks = [], ssCheckpoints = []\<rparr>
      else \<lparr>ssBlocks = map (typesBlockToProto T) (sp_GetBlocksFromHeight P fromHeight w),
            ssCheckpoints = map checkpoint_to_proto (sp_GetCheckpoints P w)\<rparr>)"

definition gt_GetCheckpoint ::
  "'w state_provider \<Rightarrow> u64 \<Rightarrow> ('c, 'ts) GRPCTransport \<Rightarrow> 'w \<Rightarrow> ProtoCheckpoint option" where
  "gt_GetCheckpoint P seqNum t w =
     (if \<not> gtProviderSet t then None else map_option checkpoint_to_proto (sp_GetCheckpoint P seqNum w))"

definition GetStatus :: "('c, 'ts) GRPCTransport \<Rightarrow> GetStatusResponse" where
  "GetStatus t = \<lparr>gsNodeId = gtNodeID t, gsCurrentView = 0, gsCurrentHeight = 0, gsLastAppHash = [],
     gsPeerCount = of_nat (PeerCount t), gsIsPrimary = False\<rparr>"

text \<open>
  \<open>txHandler\<close> is a variable of the package: all the transports of a process share the handler
  set last. It is the argument \<open>handler\<close>, and acts on the state of whoever set it.
\<close>

type_synonym 'w tx_handler = "bytes \<Rightarrow> string \<Rightarrow> u64 \<Rightarrow> u64 \<Rightarrow> u64 \<Rightarrow> 'w \<Rightarrow> ('w \<times> string option) go"

definition BroadcastTx ::
  "'w tx_handler option \<Rightarrow> 'ts TxMessage option \<Rightarrow> ('c, 'ts) GRPCTransport \<Rightarrow> 'w \<Rightarrow> ('w \<times> BroadcastTxResponse) go" where
  "BroadcastTx handler req t w =
     (case req of
        None \<Rightarrow> Ret (w, \<lparr>btSuccess = False, btError = ''transaction is nil'', btTxHash = []\<rparr>)
      | Some tx \<Rightarrow>
          if tmFromNode tx = gtNodeID t
          then Ret (w, \<lparr>btSuccess = True, btError = [], btTxHash = tmTxHash tx\<rparr>)
          else case handler of
            None \<Rightarrow> Ret (w, \<lparr>btSuccess = True, btError = [], btTxHash = tmTxHash tx\<rparr>)
          | Some h \<Rightarrow>
              go_bind (h (tmTxData tx) (tmSender tx) (tmNonce tx) (tmGasPrice tx) (tmGasLimit tx) w) (\<lambda>(w, err).
                case err of
                  Some e \<Rightarrow> Ret (w, \<lparr>btSuccess = False, btError = e, btTxHash = tmTxHash tx\<rparr>)
                | None \<Rightarrow> Ret (w, \<lparr>btSuccess = True, btError = [], btTxHash = tmTxHash tx\<rparr>)))"

definition SendTx ::
  "'w tx_handler option \<Rightarrow> 'ts TxMessage option \<Rightarrow> ('c, 'ts) GRPCTransport \<Rightarrow> 'w \<Rightarrow> ('w \<times> SendTxResponse) go" where
  "SendTx handler req t w =
     (case req of
        None \<Rightarrow> Ret (w, \<lparr>sxSuccess = False, sxError = ''transaction is nil''\<rparr>)
      | Some tx \<Rightarrow>
          (case handler of
             None \<Rightarrow> Ret (w, \<lparr>sxSuccess = True, sxError = []\<rparr>)
           | Some h \<Rightarrow>
               go_bind (h (tmTxData tx) (tmSender tx) (tmNonce tx) (tmGasPrice tx) (tmGasLimit tx) w) (\<lambda>(w, err).
                 case err of
                   Some e \<Rightarrow> Ret (w, \<lparr>sxSuccess = False, sxError = e\<rparr>)
                 | None \<Rightarrow> Ret (w, \<lparr>sxSuccess = True, sxError = []\<rparr>))))"

section \<open>The wire is transparent to the engine\<close>

text \<open>
  The conversion merges requests, replies and unknown types and may move the timestamp; none of
  that reaches a handler.
\<close>

lemma wire_fields [simp]:
  "mType (protoToMessage T (messageToProto T m)) = convertProtoMessageType (convertMessageType (mType m))"
  "mView (protoToMessage T (messageToProto T m)) = mView m"
  "mSequenceNum (protoToMessage T (messageToProto T m)) = mSequenceNum m"
  "mDigest (protoToMessage T (messageToProto T m)) = mDigest m"
  "mNodeID (protoToMessage T (messageToProto T m)) = mNodeID m"
  "mPayload (protoToMessage T (messageToProto T m)) = mPayload m"
  by (simp_all add: protoToMessage_def messageToProto_def Let_def)

lemma convert_types:
  "convertProtoMessageType (convertMessageType ty) =
     (case ty of Reply \<Rightarrow> Request | OtherType _ \<Rightarrow> Request | _ \<Rightarrow> ty)"
  by (cases ty) simp_all

lemma wire_handlers:
  "handlePrePrepare A V (protoToMessage T (messageToProto T m)) e = handlePrePrepare A V m e"
  "handlePrepare V (protoToMessage T (messageToProto T m)) e = handlePrepare V m e"
  "handleCommit A S V (protoToMessage T (messageToProto T m)) e = handleCommit A S V m e"
  "handleViewChange V (protoToMessage T (messageToProto T m)) e = handleViewChange V m e"
  "handleNewView V (protoToMessage T (messageToProto T m)) e = handleNewView V m e"
  unfolding handlePrePrepare_def accept_proposal_def handlePrepare_def handleCommit_def handleViewChange_def
    handleNewView_def wire_fields by (rule refl)+

text \<open>
  Sending a message through grpc changes nothing for the engine: for every message, every
  timestamp codec and every engine, handling the message that comes off the wire is handling the
  message that was put on it, panics included.
\<close>

theorem wire_transparent:
  "handleMessage A S V (protoToMessage T (messageToProto T m)) e = handleMessage A S V m e"
  by (cases "mType m") (simp_all add: handleMessage_def convert_types wire_handlers)

section \<open>Peers and broadcasts\<close>

definition transport_ok :: "('c, 'ts) GRPCTransport \<Rightarrow> bool" where
  "transport_ok t \<longleftrightarrow> go_wf (gtPeers t) \<and> keyed pcId (gtPeers t)"

lemma transport_ok_New: "transport_ok (NewGRPCTransport i a)"
  by (simp add: transport_ok_def NewGRPCTransport_def)

lemma transport_ok_AddPeer: "transport_ok t \<Longrightarrow> transport_ok (fst (AddPeer G i a t))"
  by (simp add: transport_ok_def AddPeer_def split: sum.split)

lemma transport_ok_RemovePeer: "transport_ok t \<Longrightarrow> transport_ok (RemovePeer i t)"
  by (simp add: transport_ok_def RemovePeer_def split: option.split)

lemma call_peers_fold:
  "fold (\<lambda>(i, p) (t, lastErr). (t\<lparr>gtSent := gtSent t @ [(pcConn p, req)]\<rparr>,
      case ge_call G (pcConn p) req of Some err \<Rightarrow> Some err | None \<Rightarrow> lastErr)) ps (t, le) =
   (t\<lparr>gtSent := gtSent t @ map (\<lambda>e. (pcConn (snd e), req)) ps\<rparr>,
    fold (\<lambda>e le. case ge_call G (pcConn (snd e)) req of Some err \<Rightarrow> Some err | None \<Rightarrow> le) ps le)"
  by (induction ps arbitrary: t le) (auto split: prod.splits)

lemma last_error:
  fixes f :: "'p \<Rightarrow> string option"
  defines "run \<equiv> fold (\<lambda>p le. case f p of Some err \<Rightarrow> Some err | None \<Rightarrow> le)"
  shows "run ps None = None \<longleftrightarrow> (\<forall>p \<in> set ps. f p = None)"
    "run ps None = Some err \<Longrightarrow> \<exists>p \<in> set ps. f p = Some err"
proof -
  have keep: "run ps (Some x) \<noteq> None" for x ps
    unfolding run_def by (induction ps arbitrary: x) (auto split: option.split)
  have gen: "run ps le = Some err \<Longrightarrow> le = Some err \<or> (\<exists>p \<in> set ps. f p = Some err)" for le ps
    unfolding run_def by (induction ps arbitrary: le) (auto split: option.splits)
  show "run ps None = None \<longleftrightarrow> (\<forall>p \<in> set ps. f p = None)"
  proof (induction ps)
    case (Cons p ps)
    then show ?case using keep [of ps] unfolding run_def by (auto split: option.split)
  qed (simp add: run_def)
  show "run ps None = Some err \<Longrightarrow> \<exists>p \<in> set ps. f p = Some err"
    using gen [of ps None] by simp
qed

lemma call_peers_result:
  "call_peers G req t = (t\<lparr>gtSent := gtSent t @ map (\<lambda>e. (pcConn (snd e), req)) (ge_peers G (gtPeers t))\<rparr>,
     fold (\<lambda>e le. case ge_call G (pcConn (snd e)) req of Some err \<Rightarrow> Some err | None \<Rightarrow> le) (ge_peers G (gtPeers t)) None)"
  by (simp add: call_peers_def call_peers_fold)

text \<open>
  The interface \<open>Transport\<close> of \<open>consensus/pbft/config.go\<close>, as far as broadcasts go: one call per
  target, and the targets stay. Hence a series of messages reaches every target completely.
\<close>

locale broadcast_spec =
  fixes bcast :: "Message \<Rightarrow> 't \<Rightarrow> 't" and calls :: "'t \<Rightarrow> 'k list" and targets :: "'t \<Rightarrow> 'd list"
    and call :: "'d \<Rightarrow> Message \<Rightarrow> 'k"
  assumes one_call_each: "mset (calls (bcast m t)) = mset (calls t) + mset (map (\<lambda>d. call d m) (targets t))"
    and same_targets: "targets (bcast m t) = targets t"
begin

lemma all_reached:
  "mset (calls (fold bcast ms t)) = mset (calls t) + mset (concat (map (\<lambda>m. map (\<lambda>d. call d m) (targets t)) ms))"
  by (induction ms arbitrary: t) (simp_all add: one_call_each same_targets)

lemma reached: "m \<in> set ms \<Longrightarrow> d \<in> set (targets t) \<Longrightarrow> call d m \<in> set (calls (fold bcast ms t))"
  using arg_cong [OF all_reached [of ms t], of set_mset] by auto

end

interpretation grpc: broadcast_spec "\<lambda>m t. fst (gt_Broadcast G m t)" gtSent
  "\<lambda>t. map snd (ge_peers G (gtPeers t))" "\<lambda>p m. (pcConn p, rpc_BroadcastMessage (messageToProto (ge_ts G) m))" for G
  by unfold_locales (simp_all add: gt_Broadcast_def call_peers_result comp_def)

text \<open>
  \<open>Broadcast\<close> calls every connected peer exactly once, with the message on the wire format,
  and nobody else; it returns no error exactly when every call succeeded, and otherwise the error
  of one of the calls that failed.
\<close>

theorem Broadcast_reaches_every_peer:
  assumes "go_order (ge_peers G)" and "gt_Broadcast G m t = (t', err)"
  shows "\<exists>new. gtSent t' = gtSent t @ new \<and>
      mset new = mset (map (\<lambda>p. (pcConn p, rpc_BroadcastMessage (messageToProto (ge_ts G) m))) (map snd (gtPeers t))) \<and>
      t' = t\<lparr>gtSent := gtSent t @ new\<rparr> \<and>
      (err = None \<longleftrightarrow> (\<forall>c \<in> set new. ge_call G (fst c) (snd c) = None)) \<and>
      (\<forall>x. err = Some x \<longrightarrow> (\<exists>c \<in> set new. ge_call G (fst c) (snd c) = Some x))"
proof -
  let ?req = "rpc_BroadcastMessage (messageToProto (ge_ts G) m)"
  let ?ps = "ge_peers G (gtPeers t)"
  let ?new = "map (\<lambda>e. (pcConn (snd e), ?req)) ?ps"
  have r: "t' = t\<lparr>gtSent := gtSent t @ ?new\<rparr>"
    "err = fold (\<lambda>e le. case ge_call G (pcConn (snd e)) ?req of Some err \<Rightarrow> Some err | None \<Rightarrow> le) ?ps None"
    using assms(2) by (simp_all add: gt_Broadcast_def call_peers_result)
  have "mset ?ps = mset (gtPeers t)" using assms(1) by (simp add: go_order_def)
  then have "image_mset (\<lambda>e. (pcConn (snd e), ?req)) (mset ?ps) = image_mset (\<lambda>e. (pcConn (snd e), ?req)) (mset (gtPeers t))"
    by simp
  then have "mset ?new = mset (map (\<lambda>p. (pcConn p, ?req)) (map snd (gtPeers t)))"
    by (simp add: image_mset.compositionality comp_def)
  moreover have "err = None \<longleftrightarrow> (\<forall>c \<in> set ?new. ge_call G (fst c) (snd c) = None)"
    unfolding r(2) last_error(1) by auto
  moreover have "\<exists>c \<in> set ?new. ge_call G (fst c) (snd c) = Some x" if "err = Some x" for x
    using last_error(2) [OF that [unfolded r(2)]] by auto
  ultimately show ?thesis using r(1) by (intro exI [of _ ?new]) simp
qed

text \<open>Two peers, the second one unreachable.\<close>

definition nanos :: "int ts_codec" where
  "nanos = \<lparr>ts_New = (\<lambda>t. t), ts_AsTime = (\<lambda>t. t)\<rparr>"

definition half_down :: "(string, int) grpc_env" where
  "half_down = \<lparr>ge_ts = nanos, ge_now = 5, ge_listen = (\<lambda>a. None), ge_dial = (\<lambda>a. Inr a),
     ge_call = (\<lambda>c r. if c = ''host2'' then Some ''unavailable'' else None), ge_peers = rev\<rparr>"

definition two_peers :: "(string, int) GRPCTransport" where
  "two_peers = fst (AddPeer half_down ''node2'' ''host2''
     (fst (AddPeer half_down ''node1'' ''host1'' (NewGRPCTransport ''node0'' ''host0''))))"

theorem Broadcast_reaches_every_peer_witness:
  "\<exists>t' err. gt_Broadcast half_down (NewMessage 3 Prepare 0 1 [] ''node0'') two_peers = (t', err) \<and>
     length (gtSent t') = 2 \<and> err = Some ''unavailable''"
proof -
  obtain t' err where r: "gt_Broadcast half_down (NewMessage 3 Prepare 0 1 [] ''node0'') two_peers = (t', err)"
    by (cases "gt_Broadcast half_down (NewMessage 3 Prepare 0 1 [] ''node0'') two_peers")
  have o: "go_order (ge_peers half_down)" by (simp add: half_down_def)
  from Broadcast_reaches_every_peer [OF o r] obtain new where n: "gtSent t' = gtSent two_peers @ new"
    "mset new = mset (map (\<lambda>p. (pcConn p, rpc_BroadcastMessage (messageToProto (ge_ts half_down)
        (NewMessage 3 Prepare 0 1 [] ''node0'')))) (map snd (gtPeers two_peers)))" by (elim exE conjE) (rule that)
  have "gtSent two_peers = []" "length (gtPeers two_peers) = 2"
    by (simp_all add: two_peers_def half_down_def AddPeer_def NewGRPCTransport_def)
  moreover have "length new = length (gtPeers two_peers)" using mset_eq_length [OF n(2)] by simp
  moreover have "err = Some ''unavailable''"
    using r by (simp add: gt_Broadcast_def call_peers_result two_peers_def half_down_def AddPeer_def NewGRPCTransport_def)
  ultimately show ?thesis using r n(1) by simp
qed

text \<open>
  Connecting to a peer again replaces its entry without closing the old connection, which \<open>Stop\<close>
  no longer knows; and a second \<open>Stop\<close> closes a closed channel.
\<close>

lemma reconnect_leaks:
  assumes "go_order (ge_peers G)" and "gtPeers t = []" and "gtClosed t = []" and "\<not> gtDone t"
    and "ge_dial G a = Inr c" and "ge_dial G b = Inr d" and "c \<noteq> d"
    and "gt_Stop G (fst (AddPeer G i b (fst (AddPeer G i a t)))) = Ret t'"
  shows "c \<notin> set (gtClosed t')" and "gt_Stop G t' = Panic Closed_Channel"
proof -
  have "set (ge_peers G xs) = set xs" for xs
    using assms(1) unfolding go_order_def by (metis set_mset_mset)
  with assms(2-8) show "c \<notin> set (gtClosed t')" "gt_Stop G t' = Panic Closed_Channel"
    by (auto simp: gt_Stop_def AddPeer_def)
qed

section \<open>Serving state\<close>

text \<open>What a provider owes the handlers: a checkpoint is found under its number exactly if it is listed.\<close>

locale state_source =
  fixes P :: "'w state_provider" and ok :: "'w \<Rightarrow> bool"
  assumes listed: "ok w \<Longrightarrow> sp_GetCheckpoint P n w = Some c \<longleftrightarrow> c \<in> set (sp_GetCheckpoints P w) \<and> cpSequenceNum c = n"
    and from_height: "ok w \<Longrightarrow> Some b \<in> set (sp_GetBlocksFromHeight P h w) \<Longrightarrow> h \<le> hHeight (bHeader b)"
begin

lemma served_checkpoint:
  assumes "ok w" and "gtProviderSet t" and "k \<in> set (ssCheckpoints (SyncState T P h t w))"
  shows "gt_GetCheckpoint P (pkSequenceNum k) t w = Some k"
proof -
  obtain c where c: "c \<in> set (sp_GetCheckpoints P w)" "k = checkpoint_to_proto c"
    using assms(2,3) by (auto simp: SyncState_def)
  then have "pkSequenceNum k = cpSequenceNum c" by (simp add: checkpoint_to_proto_def)
  with c listed [OF assms(1), of "cpSequenceNum c" c] assms(2) show ?thesis by (simp add: gt_GetCheckpoint_def)
qed

lemma served_blocks:
  assumes "ok w" and "Some b \<in> set (ssBlocks (SyncState T P h t w))"
  shows "\<exists>hd. pbHeader b = Some hd \<and> h \<le> phHeight hd"
proof -
  obtain x where x: "x \<in> set (sp_GetBlocksFromHeight P h w)" "typesBlockToProto T x = Some b" and set: "gtProviderSet t"
    using assms(2) by (auto simp: SyncState_def split: if_splits)
  have "x \<noteq> None" using x(2) by (cases x) (simp_all add: typesBlockToProto_def)
  then obtain y where y: "x = Some y" by blast
  then have "\<exists>hd. pbHeader b = Some hd \<and> phHeight hd = hHeight (bHeader y)"
    using x(2) by (auto simp: typesBlockToProto_def Let_def)
  then show ?thesis using from_height [OF assms(1)] x(1) y by auto
qed

end

text \<open>The engine as the provider.\<close>

definition engine_provider :: "engine_env \<Rightarrow> ('a, 's) Engine state_provider" where
  "engine_provider V = \<lparr>sp_GetBlocksFromHeight = (\<lambda>h e. map Some (GetBlocksFromHeight h e)),
     sp_GetCheckpoints = GetCheckpoints V, sp_GetCheckpoint = GetCheckpoint\<rparr>"

section \<open>Accessors of the wire types\<close>

text \<open>They accept a nil receiver, and then give the zero value of the field.\<close>

definition pm_GetType :: "'ts PBFTMessage option \<Rightarrow> ProtoMessageType" where
  "pm_GetType m = (case m of None \<Rightarrow> MESSAGE_TYPE_UNSPECIFIED | Some m \<Rightarrow> pmType m)"

definition pm_GetView :: "'ts PBFTMessage option \<Rightarrow> u64" where
  "pm_GetView m = (case m of None \<Rightarrow> 0 | Some m \<Rightarrow> pmView m)"

definition pm_GetSequenceNum :: "'ts PBFTMessage option \<Rightarrow> u64" where
  "pm_GetSequenceNum m = (case m of None \<Rightarrow> 0 | Some m \<Rightarrow> pmSequenceNum m)"

definition pm_GetDigest :: "'ts PBFTMessage option \<Rightarrow> bytes" where
  "pm_GetDigest m = (case m of None \<Rightarrow> [] | Some m \<Rightarrow> pmDigest m)"

definition pm_GetNodeId :: "'ts PBFTMessage option \<Rightarrow> string" where
  "pm_GetNodeId m = (case m of None \<Rightarrow> [] | Some m \<Rightarrow> pmNodeId m)"

definition pm_GetTimestamp :: "'ts PBFTMessage option \<Rightarrow> 'ts option" where
  "pm_GetTimestamp m = (case m of None \<Rightarrow> None | Some m \<Rightarrow> pmTimestamp m)"

definition pm_GetSignature :: "'ts PBFTMessage option \<Rightarrow> bytes" where
  "pm_GetSignature m = (case m of None \<Rightarrow> [] | Some m \<Rightarrow> pmSignature m)"

definition pm_GetPayload :: "'ts PBFTMessage option \<Rightarrow> bytes" where
  "pm_GetPayload m = (case m of None \<Rightarrow> [] | Some m \<Rightarrow> pmPayload m)"

definition tm_GetTxData :: "'ts TxMessage option \<Rightarrow> bytes" where
  "tm_GetTxData m = (case m of None \<Rightarrow> [] | Some m \<Rightarrow> tmTxData m)"

definition tm_GetTxHash :: "'ts TxMessage option \<Rightarrow> string" where
  "tm_GetTxHash m = (case m of None \<Rightarrow> [] | Some m \<Rightarrow> tmTxHash m)"

definition tm_GetSender :: "'ts TxMessage option \<Rightarrow> string" where
  "tm_GetSender m = (case m of None \<Rightarrow> [] | Some m \<Rightarrow> tmSender m)"

definition tm_GetFromNode :: "'ts TxMessage option \<Rightarrow> string" where
  "tm_GetFromNode m = (case m of None \<Rightarrow> [] | Some m \<Rightarrow> tmFromNode m)"

definition TimestampToTime :: "'ts ts_codec \<Rightarrow> 'ts option \<Rightarrow> gotime" where
  "TimestampToTime T ts = (case ts of None \<Rightarrow> 0 | Some ts \<Rightarrow> ts_AsTime T ts)"

definition TimeToTimestamp :: "'ts ts_codec \<Rightarrow> gotime \<Rightarrow> 'ts option" where
  "TimeToTimestamp T t = Some (ts_New T t)"

end
