(* ===== verification/Abci.thy ===== *)
theory Abci
  imports Adapter
begin

text \<open>
  The way to an application in another process: \<open>abci/client.go\<close>, \<open>abci/types.go\<close> and
  \<open>ABCIAdapter\<close> of \<open>consensus/pbft/abci_adapter.go\<close>. The application and the generated client
  stub of CometBFT are a parameter: \<open>abci_rpc\<close> holds one function per remote method, on the state
  \<open>'n\<close> of the remote side, each returning an error or a response. Of the request and response types
  of CometBFT the fields the code reads or writes are kept; events, consensus parameters and proofs,
  which are only copied, are left out. The client methods for vote extensions and snapshots, which
  nothing calls, forward to any method given to them.
\<close>

section \<open>Requests and responses\<close>

record RequestInitChain =
  riChainId :: string
  riValidators :: "ValidatorUpdate list"
  riTime :: gotime
  riAppStateBytes :: bytes
  riInitialHeight :: int

record ResponseInfo =
  infVersion :: string
  infAppVersion :: u64
  infLastBlockHeight :: int
  infLastBlockAppHash :: bytes

datatype CheckTxType = CheckTxType_New | CheckTxType_Recheck

record RequestCheckTx =
  rcTx :: bytes
  rcType :: CheckTxType

record ResponseCheckTx =
  rcCode :: "32 word"
  rcLog :: string

record RequestPrepareProposal =
  rpTxs :: "bytes list"
  rpMaxTxBytes :: int
  rpHeight :: int
  rpTime :: gotime
  rpProposerAddress :: bytes

record RequestProcessProposal =
  roTxs :: "bytes list"
  roHash :: bytes
  roHeight :: int
  roTime :: gotime
  roProposerAddress :: bytes

datatype ProposalStatus = Proposal_UNKNOWN | Proposal_ACCEPT | Proposal_REJECT

record RequestFinalizeBlock =
  rfTxs :: "bytes list"
  rfHash :: bytes
  rfHeight :: int
  rfTime :: gotime
  rfProposerAddress :: bytes

record ExecTxResult =
  etCode :: "32 word"
  etData :: bytes
  etLog :: string
  etInfo :: string
  etGasWanted :: int
  etGasUsed :: int

record ResponseFinalizeBlock =
  rfbTxResults :: "ExecTxResult list"
  rfbValidatorUpdates :: "ValidatorUpdate list"
  rfbAppHash :: bytes

record RequestQuery =
  rqPath :: string
  rqData :: bytes
  rqHeight :: int
  rqProve :: bool

record ResponseQuery =
  rsCode :: "32 word"
  rsLog :: string
  rsKey :: bytes
  rsValue :: bytes
  rsHeight :: int

record 'n abci_rpc =
  rpc_Info :: "'n \<Rightarrow> 'n \<times> (string + ResponseInfo)"
  rpc_InitChain :: "RequestInitChain \<Rightarrow> 'n \<Rightarrow> 'n \<times> (string + bytes)"
  rpc_CheckTx :: "RequestCheckTx \<Rightarrow> 'n \<Rightarrow> 'n \<times> (string + ResponseCheckTx)"
  rpc_PrepareProposal :: "RequestPrepareProposal \<Rightarrow> 'n \<Rightarrow> 'n \<times> (string + bytes list)"
  rpc_ProcessProposal :: "RequestProcessProposal \<Rightarrow> 'n \<Rightarrow> 'n \<times> (string + ProposalStatus)"
  rpc_FinalizeBlock :: "RequestFinalizeBlock \<Rightarrow> 'n \<Rightarrow> 'n \<times> (string + ResponseFinalizeBlock)"
  rpc_Commit :: "'n \<Rightarrow> 'n \<times> (string + int)"
  rpc_Query :: "RequestQuery \<Rightarrow> 'n \<Rightarrow> 'n \<times> (string + ResponseQuery)"

section \<open>Conversions\<close>

record TxResult =
  xrCode :: "32 word"
  xrData :: bytes
  xrLog :: string
  xrInfo :: string
  xrGasWanted :: int
  xrGasUsed :: int

record ExecutionResult =
  xeTxResults :: "TxResult list"
  xeValidatorUpdates :: "ValidatorUpdate list"
  xeAppHash :: bytes

record BlockData =
  bdHeight :: int
  bdTxs :: "bytes list"
  bdHash :: bytes
  bdTime :: gotime
  bdProposerAddr :: bytes

definition NewPrepareProposalRequest :: "bytes list \<Rightarrow> int \<Rightarrow> int \<Rightarrow> gotime \<Rightarrow> bytes \<Rightarrow> RequestPrepareProposal" where
  "NewPrepareProposalRequest txs maxTxBytes height t proposer =
     \<lparr>rpTxs = txs, rpMaxTxBytes = maxTxBytes, rpHeight = height, rpTime = t, rpProposerAddress = proposer\<rparr>"

definition NewProcessProposalRequest :: "bytes list \<Rightarrow> int \<Rightarrow> gotime \<Rightarrow> bytes \<Rightarrow> bytes \<Rightarrow> RequestProcessProposal" where
  "NewProcessProposalRequest txs height t proposer hash =
     \<lparr>roTxs = txs, roHash = hash, roHeight = height, roTime = t, roProposerAddress = proposer\<rparr>"

definition NewFinalizeBlockRequest :: "BlockData \<Rightarrow> RequestFinalizeBlock" where
  "NewFinalizeBlockRequest block =
     \<lparr>rfTxs = bdTxs block, rfHash = bdHash block, rfHeight = bdHeight block, rfTime = bdTime block,
      rfProposerAddress = bdProposerAddr block\<rparr>"

definition FinalizeBlockResponseToResult :: "ResponseFinalizeBlock \<Rightarrow> ExecutionResult" where
  "FinalizeBlockResponseToResult resp =
     \<lparr>xeTxResults = map (\<lambda>r. \<lparr>xrCode = etCode r, xrData = etData r, xrLog = etLog r, xrInfo = etInfo r,
          xrGasWanted = etGasWanted r, xrGasUsed = etGasUsed r\<rparr>) (rfbTxResults resp),
      xeValidatorUpdates = rfbValidatorUpdates resp, xeAppHash = rfbAppHash resp\<rparr>"

definition convertTxResults :: "TxResult list \<Rightarrow> ABCITxResult list" where
  "convertTxResults results =
     map (\<lambda>r. \<lparr>trCode = xrCode r, trData = xrData r, trLog = xrLog r, trInfo = xrInfo r,
        trGasWanted = xrGasWanted r, trGasUsed = xrGasUsed r\<rparr>) results"

text \<open>The helper type \<open>ValidatorUpdate\<close> of \<open>abci/types.go\<close>, with a plain key.\<close>

record PlainValidatorUpdate =
  pvPubKey :: bytes
  pvPower :: int

definition ToABCIValidatorUpdate :: "PlainValidatorUpdate \<Rightarrow> ValidatorUpdate" where
  "ToABCIValidatorUpdate v = \<lparr>vuPubKey = Ed25519 (Some (pvPubKey v)), vuPower = pvPower v\<rparr>"

definition FromABCIValidatorUpdate :: "ValidatorUpdate \<Rightarrow> PlainValidatorUpdate" where
  "FromABCIValidatorUpdate update =
     (let pubKey = (case GetEd25519 (vuPubKey update) of
                      Some k \<Rightarrow> k
                    | None \<Rightarrow> (case GetSecp256K1 (vuPubKey update) of Some k \<Rightarrow> k | None \<Rightarrow> []))
      in \<lparr>pvPubKey = pubKey, pvPower = vuPower update\<rparr>)"

section \<open>The client\<close>

text \<open>\<open>clPeer\<close> is the state of the remote side behind the connection, \<open>None\<close> for a nil connection.\<close>

record 'n Client =
  clPeer :: 'n
  clConnected :: bool
  clLastHeight :: int
  clLastAppHash :: bytes
  clAddress :: string
  clTimeout :: int

record ClientConfig =
  ccAddress :: string
  ccTimeout :: int

definition DefaultClientConfig :: "string \<Rightarrow> ClientConfig" where
  "DefaultClientConfig address = \<lparr>ccAddress = address, ccTimeout = 10000000000\<rparr>"

definition NewClient :: "(string \<Rightarrow> string + 'n) \<Rightarrow> ClientConfig \<Rightarrow> string + 'n Client" where
  "NewClient dial config =
     (case dial (ccAddress config) of
        Inl err \<Rightarrow> Inl (''failed to connect to ABCI app at '' @ ccAddress config @ '': '' @ err)
      | Inr peer \<Rightarrow> Inr \<lparr>clPeer = peer, clConnected = True, clLastHeight = 0, clLastAppHash = [],
          clAddress = ccAddress config, clTimeout = ccTimeout config\<rparr>)"

text \<open>A method that only forwards its request.\<close>

definition forward :: "('n \<Rightarrow> 'n \<times> 'r) \<Rightarrow> 'n Client \<Rightarrow> 'n Client \<times> 'r" where
  "forward f c = (let (n, r) = f (clPeer c) in (c\<lparr>clPeer := n\<rparr>, r))"

definition cl_Info :: "'n abci_rpc \<Rightarrow> 'n Client \<Rightarrow> 'n Client \<times> (string + ResponseInfo)" where
  "cl_Info R c = forward (rpc_Info R) c"

definition cl_InitChain :: "'n abci_rpc \<Rightarrow> RequestInitChain \<Rightarrow> 'n Client \<Rightarrow> 'n Client \<times> (string + bytes)" where
  "cl_InitChain R req c =
     (case forward (rpc_InitChain R req) c of
        (c, Inl err) \<Rightarrow> (c, Inl err)
      | (c, Inr appHash) \<Rightarrow> (c\<lparr>clLastAppHash := appHash\<rparr>, Inr appHash))"

definition cl_CheckTx :: "'n abci_rpc \<Rightarrow> bytes \<Rightarrow> 'n Client \<Rightarrow> 'n Client \<times> (string + ResponseCheckTx)" where
  "cl_CheckTx R tx c = forward (rpc_CheckTx R \<lparr>rcTx = tx, rcType = CheckTxType_New\<rparr>) c"

definition cl_CheckTxRecheck :: "'n abci_rpc \<Rightarrow> bytes \<Rightarrow> 'n Client \<Rightarrow> 'n Client \<times> (string + ResponseCheckTx)" where
  "cl_CheckTxRecheck R tx c = forward (rpc_CheckTx R \<lparr>rcTx = tx, rcType = CheckTxType_Recheck\<rparr>) c"

definition cl_PrepareProposal :: "'n abci_rpc \<Rightarrow> RequestPrepareProposal \<Rightarrow> 'n Client \<Rightarrow> 'n Client \<times> (string + bytes list)" where
  "cl_PrepareProposal R req c = forward (rpc_PrepareProposal R req) c"

definition cl_ProcessProposal :: "'n abci_rpc \<Rightarrow> RequestProcessProposal \<Rightarrow> 'n Client \<Rightarrow> 'n Client \<times> (string + ProposalStatus)" where
  "cl_ProcessProposal R req c = forward (rpc_ProcessProposal R req) c"

definition cl_FinalizeBlock ::
  "'n abci_rpc \<Rightarrow> RequestFinalizeBlock \<Rightarrow> 'n Client \<Rightarrow> 'n Client \<times> (string + ResponseFinalizeBlock)" where
  "cl_FinalizeBlock R req c = forward (rpc_FinalizeBlock R req) c"

text \<open>\<open>lastHeight++\<close> on an \<open>int64\<close>.\<close>

definition int64_inc :: "int \<Rightarrow> int" where
  "int64_inc h = sint (word_of_int h + 1 :: u64)"

definition cl_Commit :: "'n abci_rpc \<Rightarrow> 'n Client \<Rightarrow> 'n Client \<times> (string + int)" where
  "cl_Commit R c =
     (case forward (rpc_Commit R) c of
        (c, Inl err) \<Rightarrow> (c, Inl err)
      | (c, Inr retainHeight) \<Rightarrow> (c\<lparr>clLastHeight := int64_inc (clLastHeight c)\<rparr>, Inr retainHeight))"

definition cl_Query :: "'n abci_rpc \<Rightarrow> RequestQuery \<Rightarrow> 'n Client \<Rightarrow> 'n Client \<times> (string + ResponseQuery)" where
  "cl_Query R req c = forward (rpc_Query R req) c"

text \<open>
  Methods the adapter does not use: they pass any request on, \<open>call\<close> being the method of the
  remote side.
\<close>

definition cl_ExtendVote :: "('q \<Rightarrow> 'n \<Rightarrow> 'n \<times> (string + 'r)) \<Rightarrow> 'q \<Rightarrow> 'n Client \<Rightarrow> 'n Client \<times> (string + 'r)" where
  "cl_ExtendVote call req c = forward (call req) c"

definition cl_VerifyVoteExtension :: "('q \<Rightarrow> 'n \<Rightarrow> 'n \<times> (string + 'r)) \<Rightarrow> 'q \<Rightarrow> 'n Client \<Rightarrow> 'n Client \<times> (string + 'r)" where
  "cl_VerifyVoteExtension call req c = forward (call req) c"

definition cl_ListSnapshots :: "('n \<Rightarrow> 'n \<times> (string + 'r)) \<Rightarrow> 'n Client \<Rightarrow> 'n Client \<times> (string + 'r)" where
  "cl_ListSnapshots call c = forward call c"

definition cl_OfferSnapshot :: "('q \<Rightarrow> 'n \<Rightarrow> 'n \<times> (string + 'r)) \<Rightarrow> 'q \<Rightarrow> 'n Client \<Rightarrow> 'n Client \<times> (string + 'r)" where
  "cl_OfferSnapshot call req c = forward (call req) c"

definition cl_LoadSnapshotChunk :: "('q \<Rightarrow> 'n \<Rightarrow> 'n \<times> (string + 'r)) \<Rightarrow> 'q \<Rightarrow> 'n Client \<Rightarrow> 'n Client \<times> (string + 'r)" where
  "cl_LoadSnapshotChunk call req c = forward (call req) c"

definition cl_ApplySnapshotChunk :: "('q \<Rightarrow> 'n \<Rightarrow> 'n \<times> (string + 'r)) \<Rightarrow> 'q \<Rightarrow> 'n Client \<Rightarrow> 'n Client \<times> (string + 'r)" where
  "cl_ApplySnapshotChunk call req c = forward (call req) c"

definition cl_GetLastHeight :: "'n Client \<Rightarrow> int" where
  "cl_GetLastHeight c = clLastHeight c"

definition cl_GetLastAppHash :: "'n Client \<Rightarrow> bytes" where
  "cl_GetLastAppHash c = clLastAppHash c"

definition cl_SetLastHeight :: "int \<Rightarrow> 'n Client \<Rightarrow> 'n Client" where
  "cl_SetLastHeight height c = c\<lparr>clLastHeight := height\<rparr>"

definition cl_SetLastAppHash :: "bytes \<Rightarrow> 'n Client \<Rightarrow> 'n Client" where
  "cl_SetLastAppHash hash c = c\<lparr>clLastAppHash := hash\<rparr>"

definition cl_IsConnected :: "'n Client \<Rightarrow> bool" where
  "cl_IsConnected c = clConnected c"

definition cl_GetAddress :: "'n Client \<Rightarrow> string" where
  "cl_GetAddress c = clAddress c"

text \<open>\<open>hangup\<close> is \<open>ClientConn.Close\<close>; the field keeps the closed connection.\<close>

definition cl_Close :: "('n \<Rightarrow> 'n \<times> string option) \<Rightarrow> 'n Client \<Rightarrow> 'n Client \<times> string option" where
  "cl_Close hangup c = (if clConnected c then forward hangup c else (c, None))"

section \<open>The adapter\<close>

record 'n ABCIAdapter =
  aaClient :: "'n Client"
  aaLastHeight :: int
  aaLastAppHash :: bytes
  aaMaxTxBytes :: int
  aaChainID :: string

definition NewABCIAdapter :: "(string \<Rightarrow> string + 'n) \<Rightarrow> string \<Rightarrow> string + 'n ABCIAdapter" where
  "NewABCIAdapter dial abciAddress =
     (case NewClient dial (DefaultClientConfig abciAddress) of
        Inl err \<Rightarrow> Inl (''failed to create ABCI client: '' @ err)
      | Inr client \<Rightarrow> Inr \<lparr>aaClient = client, aaLastHeight = 0, aaLastAppHash = [],
          aaMaxTxBytes = 1024 * 1024, aaChainID = []\<rparr>)"

text \<open>A call of the client from the adapter.\<close>

definition via :: "('n Client \<Rightarrow> 'n Client \<times> 'r) \<Rightarrow> 'n ABCIAdapter \<Rightarrow> 'n ABCIAdapter \<times> 'r" where
  "via f a = (let (c, r) = f (aaClient a) in (a\<lparr>aaClient := c\<rparr>, r))"

definition aa_Close :: "('n \<Rightarrow> 'n \<times> string option) \<Rightarrow> 'n ABCIAdapter \<Rightarrow> 'n ABCIAdapter \<times> string option" where
  "aa_Close hangup a = via (cl_Close hangup) a"

definition aa_InitChain ::
  "'n abci_rpc \<Rightarrow> gotime \<Rightarrow> string \<Rightarrow> Validator list \<Rightarrow> bytes \<Rightarrow> 'n ABCIAdapter \<Rightarrow> 'n ABCIAdapter \<times> string option" where
  "aa_InitChain R now chainID validators appState a =
     (let a = a\<lparr>aaChainID := chainID\<rparr>;
          abciValidators = map (\<lambda>v. \<lparr>vuPubKey = Ed25519 (Some (vPublicKey v)), vuPower = vPower v\<rparr>) validators;
          req = \<lparr>riChainId = chainID, riValidators = abciValidators, riTime = now,
                 riAppStateBytes = appState, riInitialHeight = 1\<rparr>
      in case via (cl_InitChain R req) a of
           (a, Inl err) \<Rightarrow> (a, Some (''InitChain failed: '' @ err))
         | (a, Inr appHash) \<Rightarrow> (a\<lparr>aaLastAppHash := appHash, aaLastHeight := 0\<rparr>, None))"

definition aa_PrepareProposal ::
  "'n abci_rpc \<Rightarrow> gotime \<Rightarrow> int \<Rightarrow> bytes \<Rightarrow> bytes list \<Rightarrow> 'n ABCIAdapter \<Rightarrow> 'n ABCIAdapter \<times> (string + bytes list)" where
  "aa_PrepareProposal R now height proposer txs a =
     (case via (cl_PrepareProposal R (NewPrepareProposalRequest txs (aaMaxTxBytes a) height now proposer)) a of
        (a, Inl err) \<Rightarrow> (a, Inl (''PrepareProposal failed: '' @ err))
      | (a, Inr ptxs) \<Rightarrow> (a, Inr ptxs))"

definition aa_ProcessProposal ::
  "'n abci_rpc \<Rightarrow> gotime \<Rightarrow> int \<Rightarrow> bytes \<Rightarrow> bytes list \<Rightarrow> bytes \<Rightarrow> 'n ABCIAdapter \<Rightarrow> 'n ABCIAdapter \<times> (string + bool)" where
  "aa_ProcessProposal R now height proposer txs hash a =
     (case via (cl_ProcessProposal R (NewProcessProposalRequest txs height now proposer hash)) a of
        (a, Inl err) \<Rightarrow> (a, Inl (''ProcessProposal failed: '' @ err))
      | (a, Inr status) \<Rightarrow> (a, Inr (status = Proposal_ACCEPT)))"

definition block_data :: "Block \<Rightarrow> BlockData" where
  "block_data block =
     \<lparr>bdHeight = sint (hHeight (bHeader block)), bdTxs = map txData (bTransactions block), bdHash = bHash block,
      bdTime = hTimestamp (bHeader block), bdProposerAddr = bytes_of_string (hProposerID (bHeader block))\<rparr>"

definition aa_FinalizeBlock ::
  "'n abci_rpc \<Rightarrow> Block \<Rightarrow> 'n ABCIAdapter \<Rightarrow> 'n ABCIAdapter \<times> (string + ABCIExecutionResult)" where
  "aa_FinalizeBlock R block a =
     (case via (cl_FinalizeBlock R (NewFinalizeBlockRequest (block_data block))) a of
        (a, Inl err) \<Rightarrow> (a, Inl (''FinalizeBlock failed: '' @ err))
      | (a, Inr resp) \<Rightarrow>
          let result = FinalizeBlockResponseToResult resp
          in (a, Inr \<lparr>erTxResults = convertTxResults (xeTxResults result),
                erValidatorUpdates = xeValidatorUpdates result, erAppHash = xeAppHash result\<rparr>))"

definition aa_Commit :: "'n abci_rpc \<Rightarrow> 'n ABCIAdapter \<Rightarrow> 'n ABCIAdapter \<times> (string + bytes \<times> int)" where
  "aa_Commit R a =
     (case via (cl_Commit R) a of
        (a, Inl err) \<Rightarrow> (a, Inl (''Commit failed: '' @ err))
      | (a, Inr retainHeight) \<Rightarrow>
          (a\<lparr>aaLastHeight := int64_inc (aaLastHeight a)\<rparr>, Inr (aaLastAppHash a, retainHeight)))"

definition aa_CheckTx :: "'n abci_rpc \<Rightarrow> bytes \<Rightarrow> 'n ABCIAdapter \<Rightarrow> 'n ABCIAdapter \<times> string option" where
  "aa_CheckTx R tx a =
     (case via (cl_CheckTx R tx) a of
        (a, Inl err) \<Rightarrow> (a, Some err)
      | (a, Inr resp) \<Rightarrow>
          (a, if rcCode resp \<noteq> 0
              then Some (''CheckTx failed (code='' @ show_nat (unat (rcCode resp)) @ ''): '' @ rcLog resp)
              else None))"

record ABCIQueryResult =
  aqKey :: bytes
  aqValue :: bytes
  aqHeight :: int

definition aa_Query ::
  "'n abci_rpc \<Rightarrow> string \<Rightarrow> bytes \<Rightarrow> int \<Rightarrow> bool \<Rightarrow> 'n ABCIAdapter \<Rightarrow> 'n ABCIAdapter \<times> (string + ABCIQueryResult)" where
  "aa_Query R path qdata height prove a =
     (case via (cl_Query R \<lparr>rqPath = path, rqData = qdata, rqHeight = height, rqProve = prove\<rparr>) a of
        (a, Inl err) \<Rightarrow> (a, Inl err)
      | (a, Inr resp) \<Rightarrow>
          (a, if rsCode resp \<noteq> 0
              then Inl (''query failed (code='' @ show_nat (unat (rsCode resp)) @ ''): '' @ rsLog resp)
              else Inr \<lparr>aqKey = rsKey resp, aqValue = rsValue resp, aqHeight = rsHeight resp\<rparr>))"

definition aa_Info :: "'n abci_rpc \<Rightarrow> 'n ABCIAdapter \<Rightarrow> 'n ABCIAdapter \<times> (string + ResponseInfo)" where
  "aa_Info R a =
     (case via (cl_Info R) a of
        (a, Inl err) \<Rightarrow> (a, Inl err)
      | (a, Inr resp) \<Rightarrow>
          (a\<lparr>aaLastHeight := infLastBlockHeight resp, aaLastAppHash := infLastBlockAppHash resp\<rparr>, Inr resp))"

definition SetMaxTxBytes :: "int \<Rightarrow> 'n ABCIAdapter \<Rightarrow> 'n ABCIAdapter" where
  "SetMaxTxBytes maxBytes a = a\<lparr>aaMaxTxBytes := maxBytes\<rparr>"

definition abci_adapter :: "'n abci_rpc \<Rightarrow> gotime \<Rightarrow> 'n ABCIAdapter adapter_ops" where
  "abci_adapter R now = \<lparr>
     ad_InitChain = aa_InitChain R now, ad_PrepareProposal = aa_PrepareProposal R now,
     ad_ProcessProposal = aa_ProcessProposal R now, ad_FinalizeBlock = aa_FinalizeBlock R,
     ad_Commit = aa_Commit R, ad_CheckTx = (\<lambda>tx a. snd (aa_CheckTx R tx a)),
     ad_GetLastAppHash = aaLastAppHash, ad_GetLastHeight = aaLastHeight,
     ad_SetLastAppHash = (\<lambda>hash a. a\<lparr>aaLastAppHash := hash\<rparr>)\<rparr>"

end
