(* ===== verification/Node.thy ===== *)
theory Node
  imports Engine_Props Reactor Transport Adapters Abci
begin

text \<open>
  \<open>node/node.go\<close> and \<open>node/config.go\<close>: a node wires an engine, a grpc transport, a pool and its
  reactor together. The engine, the reactor and the node hold pointers to one pool: a write through
  any of them is a write to all (\<open>put_pool\<close>). Messages the engine broadcasts are handed to the
  transport (\<open>engine_did\<close>). The package variable \<open>txHandler\<close> is part of the process, which
  may run several nodes (\<open>Proc\<close>). The metrics and the HTTP server are in \<open>Pbftd\<close>; logging is left
  out.
\<close>

section \<open>Configuration\<close>

record NodeConfig =
  ncNodeID :: string
  ncChainID :: string
  ncListenAddr :: string
  ncABCIAddr :: string
  ncPeers :: "string list"
  ncValidators :: "Validator list"
  ncRequestTimeout :: int
  ncViewChangeTimeout :: int
  ncCheckpointInterval :: u64
  ncWindowSize :: u64
  ncMetricsEnabled :: bool
  ncMetricsAddr :: string
  ncLogLevel :: string
  ncDataDir :: string

datatype configError = ErrEmptyNodeID | ErrEmptyChainID | ErrEmptyListenAddr | ErrInsufficientValidators

definition node_DefaultConfig :: NodeConfig where
  "node_DefaultConfig =
     \<lparr>ncNodeID = [], ncChainID = ''pbft-chain'', ncListenAddr = ''0.0.0.0:26656'',
      ncABCIAddr = ''localhost:26658'', ncPeers = [], ncValidators = [], ncRequestTimeout = 5000000000,
      ncViewChangeTimeout = 10000000000, ncCheckpointInterval = 100, ncWindowSize = 200,
      ncMetricsEnabled = True, ncMetricsAddr = ''0.0.0.0:26660'', ncLogLevel = ''info'', ncDataDir = ''./data''\<rparr>"

definition Validate :: "NodeConfig \<Rightarrow> configError option" where
  "Validate c =
     (if ncNodeID c = [] then Some ErrEmptyNodeID
      else if ncChainID c = [] then Some ErrEmptyChainID
      else if ncListenAddr c = [] then Some ErrEmptyListenAddr
      else if length (ncValidators c) < 4 then Some ErrInsufficientValidators
      else None)"

section \<open>State\<close>

record ('a, 's, 'c, 'ts) Node =
  ndConfig :: NodeConfig
  ndEngine :: "('a, 's) Engine"
  ndTransport :: "('c, 'ts) GRPCTransport"
  ndMempool :: Mempool
  ndReactor :: Reactor
  ndRunning :: bool
  ndDone :: bool

text \<open>
  \<open>NewNode\<close> gives one \<open>*Mempool\<close> to the node, the engine and the reactor. The model has no pointers:
  the record has the pool three times, and every operation that changes it writes all three.
\<close>

definition put_pool :: "Mempool \<Rightarrow> ('a, 's, 'c, 'ts) Node \<Rightarrow> ('a, 's, 'c, 'ts) Node" where
  "put_pool mp n = n\<lparr>ndMempool := mp, ndEngine := (ndEngine n)\<lparr>eMempool := Some mp\<rparr>,
     ndReactor := (ndReactor n)\<lparr>reMempool := mp\<rparr>\<rparr>"

text \<open>The node after its engine has gone from one state to the next: new messages are broadcast.\<close>

definition engine_did ::
  "('c, 'ts) grpc_env \<Rightarrow> ('a, 's) Engine \<Rightarrow> ('a, 's, 'c, 'ts) Node \<Rightarrow> ('a, 's, 'c, 'ts) Node" where
  "engine_did G e n =
     (let msgs = drop (length (eOut (ndEngine n))) (eOut e);
          t = fold (\<lambda>m t. fst (gt_Broadcast G m t)) msgs (ndTransport n);
          n = n\<lparr>ndEngine := e, ndTransport := t\<rparr>
      in case eMempool e of Some mp \<Rightarrow> put_pool mp n | None \<Rightarrow> n)"

definition reactor_did :: "Reactor \<Rightarrow> ('a, 's, 'c, 'ts) Node \<Rightarrow> ('a, 's, 'c, 'ts) Node" where
  "reactor_did r n = put_pool (reMempool r) (n\<lparr>ndReactor := r\<rparr>)"

section \<open>Construction\<close>

definition engine_config :: "NodeConfig \<Rightarrow> EngineConfig" where
  "engine_config c =
     \<lparr>cfNodeID = ncNodeID c, cfRequestTimeout = ncRequestTimeout c, cfViewChangeTimeout = ncViewChangeTimeout c,
      cfCheckpointInterval = ncCheckpointInterval c, cfWindowSize = ncWindowSize c\<rparr>"

text \<open>
  The part the two constructors share, once the adapter is there; \<open>NewEngineV2\<close> sets the message
  handler of the transport.
\<close>

definition assemble :: "NodeConfig \<Rightarrow> 'a \<Rightarrow> ('a, 's, 'c, 'ts) Node" where
  "assemble c adapter =
     (let trans = NewGRPCTransport (ncNodeID c) (ncListenAddr c);
          mp = NewMempool (Some DefaultMempoolConfig);
          reactor = NewReactor mp (Some DefaultReactorConfig);
          engine = NewEngineV2 (engine_config c) (NewValidatorSet (ncValidators c)) True adapter
      in \<lparr>ndConfig = c, ndEngine = SetMempool mp engine, ndTransport = SetMessageHandler trans,
          ndMempool = mp, ndReactor = reactor, ndRunning = False, ndDone = False\<rparr>)"

text \<open>\<open>NewEngineV2WithABCIAddress\<close> of the engine.\<close>

definition NewEngineV2WithABCIAddress ::
  "(string \<Rightarrow> string + 'n) \<Rightarrow> EngineConfig \<Rightarrow> ValidatorSet \<Rightarrow> bool \<Rightarrow> string \<Rightarrow> string + ('n ABCIAdapter, 's) Engine" where
  "NewEngineV2WithABCIAddress dial config validatorSet transport abciAddress =
     (case NewABCIAdapter dial abciAddress of
        Inl err \<Rightarrow> Inl (''failed to create ABCI adapter: '' @ err)
      | Inr adapter \<Rightarrow> Inr (NewEngineV2 config validatorSet transport adapter))"

definition NewNode :: "NodeConfig \<Rightarrow> configError + (NoopABCIAdapter, 's, 'c, 'ts) Node" where
  "NewNode c = (case Validate c of Some err \<Rightarrow> Inl err | None \<Rightarrow> Inr (assemble c NewNoopABCIAdapter))"

text \<open>With an application in another process, reached by \<open>dial\<close>.\<close>

datatype node_init_error = Invalid_Config configError | Adapter_Failed string

definition NewNodeWithABCI ::
  "(string \<Rightarrow> string + 'n) \<Rightarrow> NodeConfig \<Rightarrow> node_init_error + ('n ABCIAdapter, 's, 'c, 'ts) Node" where
  "NewNodeWithABCI dial c =
     (case Validate c of
        Some err \<Rightarrow> Inl (Invalid_Config err)
      | None \<Rightarrow>
          (case NewABCIAdapter dial (ncABCIAddr c) of
             Inl err \<Rightarrow> Inl (Adapter_Failed (''failed to create ABCI adapter: '' @ err))
           | Inr adapter \<Rightarrow> Inr (assemble c adapter)))"

section \<open>Start and stop\<close>

text \<open>\<open>strings.SplitN(peerStr, "@", 2)\<close> when it has two parts.\<close>

definition split_peer :: "string \<Rightarrow> (string \<times> string) option" where
  "split_peer s = (case dropWhile (\<lambda>c. c \<noteq> CHR 0x40) s of
     [] \<Rightarrow> None | _ # rest \<Rightarrow> Some (takeWhile (\<lambda>c. c \<noteq> CHR 0x40) s, rest))"

definition connect_peer ::
  "('c, 'ts) grpc_env \<Rightarrow> string \<Rightarrow> string \<Rightarrow> ('c, 'ts) GRPCTransport \<Rightarrow> ('c, 'ts) GRPCTransport" where
  "connect_peer G nodeID peerStr t =
     (case split_peer peerStr of
        None \<Rightarrow> t
      | Some (peerID, peerAddr) \<Rightarrow> if peerID = nodeID then t else fst (AddPeer G peerID peerAddr t))"

text \<open>The second result tells whether the package variable \<open>txHandler\<close> was set.\<close>

definition nd_Start ::
  "('c, 'ts) grpc_env \<Rightarrow> ('a, 's, 'c, 'ts) Node \<Rightarrow> ('a, 's, 'c, 'ts) Node \<times> bool \<times> string option" where
  "nd_Start G n =
     (if ndRunning n then (n, False, Some ''node already running'')
      else
        let n = n\<lparr>ndRunning := True\<rparr>;
            (t, err) = gt_Start G (ndTransport n);
            n = n\<lparr>ndTransport := t\<rparr>
        in case err of
             Some e \<Rightarrow> (n, False, Some (''failed to start transport: '' @ e))
           | None \<Rightarrow>
               let n = n\<lparr>ndTransport := fold (connect_peer G (ncNodeID (ndConfig n))) (ncPeers (ndConfig n)) (ndTransport n)\<rparr>;
                   n = put_pool (mp_Start (ndMempool n)) n;
                   n = n\<lparr>ndReactor := re_Start (SetBroadcaster (ndReactor n))\<rparr>
               in (n\<lparr>ndEngine := engine_Start (ndEngine n)\<rparr>, True, None))"

definition nd_Stop ::
  "('c, 'ts) grpc_env \<Rightarrow> ('a, 's, 'c, 'ts) Node \<Rightarrow> ('a, 's, 'c, 'ts) Node go" where
  "nd_Stop G n =
     (if \<not> ndRunning n then Ret n
      else if ndDone n then Panic Closed_Channel
      else
        let n = n\<lparr>ndRunning := False, ndDone := True, ndReactor := re_Stop (ndReactor n)\<rparr>
        in go_bind (mp_Stop (ndMempool n)) (\<lambda>mp.
             let n = put_pool mp n;
                 n = n\<lparr>ndEngine := engine_Stop (ndEngine n)\<rparr>
             in go_bind (gt_Stop G (ndTransport n)) (\<lambda>t. Ret (n\<lparr>ndTransport := t\<rparr>))))"

section \<open>Transactions\<close>

datatype node_error = Add_To_Mempool_Failed mempool_error | Request_Channel_Full

definition nd_SubmitTx ::
  "engine_env \<Rightarrow> bytes \<Rightarrow> string \<Rightarrow> ('a, 's, 'c, 'ts) Node \<Rightarrow> (('a, 's, 'c, 'ts) Node \<times> node_error option) go" where
  "nd_SubmitTx V tx clientID n =
     go_bind (AddTxWithMeta (ve_mp V) tx clientID 0 0 0 (ndMempool n)) (\<lambda>(mp, err).
       let n = put_pool mp n in
       case err of
         Some e \<Rightarrow> Ret (n, Some (Add_To_Mempool_Failed e))
       | None \<Rightarrow>
           go_bind (isPrimary (ndEngine n)) (\<lambda>primary.
             if primary
             then let (e, ok) = SubmitRequest V tx clientID (ndEngine n)
                  in Ret (n\<lparr>ndEngine := e\<rparr>, if ok then None else Some Request_Channel_Full)
             else Ret (n, None)))"

text \<open>The closure \<open>Start\<close> installs as \<open>txHandler\<close>; \<open>text\<close> is the text of an error.\<close>

definition node_tx_handler :: "(mempool_error \<Rightarrow> string) \<Rightarrow> engine_env \<Rightarrow> ('a, 's, 'c, 'ts) Node tx_handler" where
  "node_tx_handler text V txd sender nonce gasPrice gasLimit n =
     go_bind (AddTxWithMeta (ve_mp V) txd sender nonce gasPrice gasLimit (ndMempool n)) (\<lambda>(mp, err).
       Ret (put_pool mp n, map_option text err))"

section \<open>The broadcaster of the reactor\<close>

definition computeTxHash :: "bytes \<Rightarrow> string" where
  "computeTxHash tx = hex_encode (sha256 tx)"

definition tb_BroadcastTx ::
  "('c, 'ts) grpc_env \<Rightarrow> bytes \<Rightarrow> ('c, 'ts) GRPCTransport \<Rightarrow> ('c, 'ts) GRPCTransport \<times> string option" where
  "tb_BroadcastTx G tx t = BroadcastTransaction G tx (computeTxHash tx) [] 0 0 0 t"

definition tb_SendTx ::
  "('c, 'ts) grpc_env \<Rightarrow> string \<Rightarrow> bytes \<Rightarrow> ('c, 'ts) GRPCTransport \<Rightarrow> ('c, 'ts) GRPCTransport \<times> string option" where
  "tb_SendTx G peerID tx t = SendTransaction G peerID tx (computeTxHash tx) [] 0 0 0 t"

definition gossip ::
  "('c, 'ts) grpc_env \<Rightarrow> bytes list \<Rightarrow> ('a, 's, 'c, 'ts) Node \<Rightarrow> ('a, 's, 'c, 'ts) Node" where
  "gossip G txs n = n\<lparr>ndTransport := fold (\<lambda>tx t. fst (tb_BroadcastTx G tx t)) txs (ndTransport n)\<rparr>"

section \<open>Queries\<close>

definition nd_GetHeight :: "('a, 's, 'c, 'ts) Node \<Rightarrow> u64" where
  "nd_GetHeight n = GetCurrentHeight (ndEngine n)"

definition nd_GetView :: "('a, 's, 'c, 'ts) Node \<Rightarrow> u64" where
  "nd_GetView n = GetCurrentView (ndEngine n)"

definition nd_IsPrimary :: "('a, 's, 'c, 'ts) Node \<Rightarrow> bool go" where
  "nd_IsPrimary n = isPrimary (ndEngine n)"

definition GetPeerCount :: "('a, 's, 'c, 'ts) Node \<Rightarrow> nat" where
  "GetPeerCount n = PeerCount (ndTransport n)"

definition GetMempoolSize :: "('a, 's, 'c, 'ts) Node \<Rightarrow> int" where
  "GetMempoolSize n = mp_Size (ndMempool n)"

definition GetNodeID :: "('a, 's, 'c, 'ts) Node \<Rightarrow> string" where
  "GetNodeID n = ncNodeID (ndConfig n)"

definition GetChainID :: "('a, 's, 'c, 'ts) Node \<Rightarrow> string" where
  "GetChainID n = ncChainID (ndConfig n)"

definition IsRunning :: "('a, 's, 'c, 'ts) Node \<Rightarrow> bool" where
  "IsRunning n = ndRunning n"

definition nd_GetMempool :: "('a, 's, 'c, 'ts) Node \<Rightarrow> Mempool" where
  "nd_GetMempool n = ndMempool n"

section \<open>The process\<close>

text \<open>Nodes by index, and which of them the package variable \<open>txHandler\<close> belongs to.\<close>

record ('a, 's, 'c, 'ts) Proc =
  prNodes :: "nat \<Rightarrow> ('a, 's, 'c, 'ts) Node"
  prHandler :: "nat option"

definition proc_Start :: "('c, 'ts) grpc_env \<Rightarrow> nat \<Rightarrow> ('a, 's, 'c, 'ts) Proc \<Rightarrow> ('a, 's, 'c, 'ts) Proc \<times> string option" where
  "proc_Start G k p =
     (let (n, installed, err) = nd_Start G (prNodes p k)
      in (p\<lparr>prNodes := (prNodes p)(k := n), prHandler := (if installed then Some k else prHandler p)\<rparr>, err))"

definition proc_handler ::
  "(mempool_error \<Rightarrow> string) \<Rightarrow> engine_env \<Rightarrow> ('a, 's, 'c, 'ts) Proc \<Rightarrow> ('a, 's, 'c, 'ts) Proc tx_handler option" where
  "proc_handler text V p = map_option
     (\<lambda>k d s nonce gp gl p. go_bind (node_tx_handler text V d s nonce gp gl (prNodes p k))
        (\<lambda>(n, err). Ret (p\<lparr>prNodes := (prNodes p)(k := n)\<rparr>, err))) (prHandler p)"

definition proc_BroadcastTx ::
  "(mempool_error \<Rightarrow> string) \<Rightarrow> engine_env \<Rightarrow> nat \<Rightarrow> 'ts TxMessage option \<Rightarrow> ('a, 's, 'c, 'ts) Proc
     \<Rightarrow> (('a, 's, 'c, 'ts) Proc \<times> BroadcastTxResponse) go" where
  "proc_BroadcastTx text V j req p = BroadcastTx (proc_handler text V p) req (ndTransport (prNodes p j)) p"

definition proc_SendTx ::
  "(mempool_error \<Rightarrow> string) \<Rightarrow> engine_env \<Rightarrow> nat \<Rightarrow> 'ts TxMessage option \<Rightarrow> ('a, 's, 'c, 'ts) Proc
     \<Rightarrow> (('a, 's, 'c, 'ts) Proc \<times> SendTxResponse) go" where
  "proc_SendTx text V j req p = SendTx (proc_handler text V p) req (ndTransport (prNodes p j)) p"

end
