(* ===== verification/Cluster.thy ===== *)
theory Cluster
  imports Engine_Restart
begin

text \<open>
  Several nodes at once: what the primary and the backups send in one round and what the others
  make of it. If every node answers, all commit the same block.
\<close>

section \<open>Who sends what\<close>

text \<open>The primary's proposal is all it sends: its own \<open>PREPARE\<close> stays in its log.\<close>

lemma issue_proposal_sends:
  "eOut (issue_proposal V n v txs e) = eOut e @
     (if eTransportSet e then [proposal V v n (cfNodeID (eConfig e)) (proposed_block V n v txs e)] else [])"
  by (simp add: issue_proposal_def Let_def proposal_def split: prod.split) (simp add: broadcast_def put_state_def)

lemma proposeBlock_sends:
  assumes "proposeBlock A V req e = Ret e'"
  shows "\<exists>ms. eOut e' = eOut e @ ms \<and> (\<forall>m \<in> set ms. mType m = PrePrepare)"
  using assms by (cases rule: proposeBlock_cases) (simp_all add: issue_proposal_sends proposal_def)

section \<open>A round in which everybody answers\<close>

text \<open>A node that prepares sends its \<open>COMMIT\<close>, for the digest of the vote that made the quorum.\<close>

lemma broadcast_out: "eOut (broadcast m e) = eOut e @ (if eTransportSet e then [m] else [])"
  by (simp add: broadcast_def)

lemma prepare_sends:
  assumes C: "codec_ok (ve_codec V)" and s: "GetExistingState n (eStateLog e) = Some s" and ph: "sPhase s = PrePrepared"
  obtains (waiting) s' where "GetExistingState n (eStateLog (handlePrepare V (prepare_vote V (eView e) n w) e)) = Some s'"
      "sPhase s' = PrePrepared" "eOut (handlePrepare V (prepare_vote V (eView e) n w) e) = eOut e"
      "go_keys (sPrepareMsgs s') = insert (voter w) (go_keys (sPrepareMsgs s))"
  | (prepared) s' where "GetExistingState n (eStateLog (handlePrepare V (prepare_vote V (eView e) n w) e)) = Some s'"
      "sPhase s' = Prepared" "eOut (handlePrepare V (prepare_vote V (eView e) n w) e) = eOut e @
        (if eTransportSet e then [commit_vote V (eView e) n (cfNodeID (eConfig e), fst (snd w), cfNodeID (eConfig e))] else [])"
proof -
  obtain sd d i where w: "w = (sd, d, i)" by (cases w)
  let ?m = "prepare_vote V (eView e) n w" and ?p = "NewPrepareMsg (eView e) n d i"
  have m: "mView ?m = eView e" "mSequenceNum ?m = n" "mDigest ?m = d" "dec_prepare (ve_codec V) (mPayload ?m) = Some ?p"
    using C by (simp_all add: prepare_vote_def w)
  have phA: "GetPhase (AddPrepare ?p s) = PrePrepared" using ph by (simp add: GetPhase_def AddPrepare_def)
  show thesis
  proof (cases "IsPrepared (QuorumSize (eValidatorSet e)) (AddPrepare ?p s)")
    case False
    then have "handlePrepare V ?m e = put_state n (AddPrepare ?p s) e"
      using m s by (simp add: handlePrepare_def Let_def)
    then show thesis using ph w by (intro waiting [of "AddPrepare ?p s"]) (simp_all add: AddPrepare_def)
  next
    case True
    let ?c = "NewCommitMsg (eView e) n d (cfNodeID (eConfig e))"
    let ?t = "AddCommit ?c (TransitionToPrepared (AddPrepare ?p s))"
    have h: "handlePrepare V ?m e = broadcast (commit_vote V (eView e) n (cfNodeID (eConfig e), d, cfNodeID (eConfig e)))
        (put_state n ?t e)"
      using m s True phA by (simp add: handlePrepare_def Let_def commit_vote_def)
    have "sPhase ?t = Prepared" using ph by (simp add: State_defs)
    with h w show thesis by (intro prepared [of ?t]) (simp_all add: broadcast_out)
  qed
qed

lemma prepares_send_commit:
  assumes "codec_ok (ve_codec V)" and "GetExistingState n (eStateLog e) = Some s" and "sPhase s = PrePrepared \<or> sPhase s = Prepared"
    and "log_ok (eStateLog e)" and "\<forall>w \<in> set ws. fst (snd w) = d" and "eTransportSet e"
    and "deliver A S V (map (prepare_vote V (eView e) n) ws) e = Ret e'"
    and "GetExistingState n (eStateLog e') = Some s'" "sPhase s' = Prepared"
  shows "set (eOut e) \<subseteq> set (eOut e') \<and> (sPhase s = PrePrepared \<longrightarrow>
    commit_vote V (eView e) n (cfNodeID (eConfig e), d, cfNodeID (eConfig e)) \<in> set (eOut e'))"
  using assms
proof (induction ws arbitrary: e s)
  case Nil
  then show ?case by simp
next
  case (Cons w ws)
  let ?e = "handlePrepare V (prepare_vote V (eView e) n w) e"
  have fr: "consensus_frame e ?e" by (rule handlePrepare_frame)
  then have v: "eView ?e = eView e" "eConfig ?e = eConfig e" by (simp_all add: consensus_frame_def)
  have log: "log_ok (eStateLog ?e)" using handlePrepare_frame(2) Cons.prems(4) by blast
  have tr: "eTransportSet ?e" using Cons.prems(6)
    by (cases rule: handlePrepare_cases [of "prepare_vote V (eView e) n w" e V]) simp_all
  have d: "deliver A S V (map (prepare_vote V (eView ?e) n) ws) ?e = Ret e'" using Cons.prems(7) by (simp add: v)
  from prepare_step [OF Cons.prems(1-4), of w] obtain s1 where
    1: "GetExistingState n (eStateLog ?e) = Some s1" "sPhase s1 = PrePrepared \<or> sPhase s1 = Prepared" by blast
  have IH: "set (eOut ?e) \<subseteq> set (eOut e') \<and> (sPhase s1 = PrePrepared \<longrightarrow>
      commit_vote V (eView ?e) n (cfNodeID (eConfig ?e), d, cfNodeID (eConfig ?e)) \<in> set (eOut e'))"
    by (rule Cons.IH [OF Cons.prems(1) 1 log _ tr d Cons.prems(8,9)]) (use Cons.prems(5) in simp)
  show ?case
  proof (cases "sPhase s = PrePrepared")
    case True
    from Cons.prems(1,2) True show ?thesis
    proof (cases rule: prepare_sends [where w = w])
      case (waiting s2)
      with 1 IH v show ?thesis by simp
    next
      case (prepared s2)
      with IH Cons.prems(5,6) show ?thesis by auto
    qed
  next
    case False
    then have "sPhase s = Prepared" using Cons.prems(3) by blast
    have "eOut ?e = eOut e"
      by (cases rule: handlePrepare_cases [of "prepare_vote V (eView e) n w" e V])
        (use Cons.prems(2) \<open>sPhase s = Prepared\<close> in \<open>auto simp: prepare_vote_def split: prod.splits\<close>)
    with IH False show ?thesis by simp
  qed
qed

text \<open>A quorum that counts the \<open>PREPARE\<close>s a state already has.\<close>

lemma quorum_round:
  assumes "codec_ok (ve_codec V)" and "engine_ok e"
    and "GetExistingState n (eStateLog e) = Some s" "sPhase s = PrePrepared" "sBlock s = Some b" "\<not> sExecuted s"
    and "ad_FinalizeBlock A b (eAdapter e) = (a1, Inr r)" "ad_Commit A a1 = (a2, Inr h)"
    and "cfCheckpointInterval (eConfig e) \<noteq> 0" and "ws \<noteq> []" "us \<noteq> []"
    and "QuorumSize (eValidatorSet e) \<le> int (card (voter ` set ws \<union> go_keys (sPrepareMsgs s)))"
    and "QuorumSize (eValidatorSet e) \<le> int (card (voter ` set us))"
    and "eTransportSet e" and "\<forall>w \<in> set ws. fst (snd w) = d"
  shows "\<exists>e1 e2. deliver A S V (map (prepare_vote V (eView e) n) ws) e = Ret e1 \<and>
    set (eOut e) \<subseteq> set (eOut e1) \<and>
    commit_vote V (eView e) n (cfNodeID (eConfig e), d, cfNodeID (eConfig e)) \<in> set (eOut e1) \<and>
    deliver A S V (map (commit_vote V (eView e) n) us) e1 = Ret e2 \<and> eCommittedBlocks e2 = eCommittedBlocks e @ [b]"
proof -
  have log: "log_ok (eStateLog e)" using assms(2) by (simp add: engine_ok_def)
  obtain e1 s1 where
    1: "deliver A S V (map (prepare_vote V (eView e) n) ws) e = Ret e1" "consensus_frame e e1"
      "eAdapter e1 = eAdapter e" "log_ok (eStateLog e1)" "GetExistingState n (eStateLog e1) = Some s1"
    and p: "QuorumSize (eValidatorSet e) \<le> int (card (go_keys (sPrepareMsgs s1))) \<longrightarrow> sPhase s1 = Prepared"
      "go_keys (sPrepareMsgs s1) = voter ` set ws \<union> go_keys (sPrepareMsgs s)"
      "sBlock s1 = Some b" "\<not> sExecuted s1"
    using prepares [OF assms(1,3) disjI1 [OF assms(4)] log, of A S ws] assms(5,6,10) by auto
  have v: "eView e1 = eView e" "eValidatorSet e1 = eValidatorSet e" "eConfig e1 = eConfig e"
    "eCommittedBlocks e1 = eCommittedBlocks e" using 1(2) by (simp_all add: consensus_frame_def)
  have ph: "sPhase s1 = Prepared" using p(1,2) assms(12) by simp
  have mono: "QuorumSize (eValidatorSet e1) \<le> int (card (voter ` set us \<union> go_keys (sCommitMsgs s1)))"
    using assms(13) card_mono [of "voter ` set us \<union> go_keys (sCommitMsgs s1)" "voter ` set us"] v(2) by simp
  have run: "runs_to A S V n b e1 (eCommittedBlocks e @ [b])"
    by (rule runs_to_cong [OF runs_to_extends [OF assms(7-9)]]) (use 1(3) v in simp_all)
  obtain e2 where "deliver A S V (map (commit_vote V (eView e1) n) us) e1 = Ret e2" "settled n (eCommittedBlocks e @ [b]) e2"
    using commits [OF assms(1) 1(5) ph p(3,4) 1(4) run assms(11) mono] by blast
  moreover have "set (eOut e) \<subseteq> set (eOut e1) \<and>
      commit_vote V (eView e) n (cfNodeID (eConfig e), d, cfNodeID (eConfig e)) \<in> set (eOut e1)"
    using prepares_send_commit [OF assms(1,3) disjI1 [OF assms(4)] log assms(15,14) 1(1,5) ph] assms(4) by blast
  ultimately show ?thesis using 1(1) v(1) by (auto simp: settled_def)
qed

text \<open>Nodes that agree on the view and its primary and have the number \<open>n\<close> open and unused.\<close>

definition round_ready :: "(string \<Rightarrow> ('a, 's) Engine) \<Rightarrow> ValidatorSet \<Rightarrow> u64 \<Rightarrow> u64 \<Rightarrow> string \<Rightarrow> bool" where
  "round_ready E vs v n p \<longleftrightarrow> (\<forall>i \<in> ids vs. engine_ok (E i) \<and> eValidatorSet (E i) = vs \<and> eView (E i) = v \<and>
     cfNodeID (eConfig (E i)) = i \<and> getPrimaryID (E i) = Ret p \<and> IsInWindow n (eStateLog (E i)) \<and>
     GetExistingState n (eStateLog (E i)) = None \<and> cfCheckpointInterval (eConfig (E i)) \<noteq> 0 \<and> eTransportSet (E i))"

abbreviation sends_prepare :: "engine_env \<Rightarrow> u64 \<Rightarrow> u64 \<Rightarrow> Block \<Rightarrow> string \<Rightarrow> Message" where
  "sends_prepare V v n b i \<equiv> prepare_vote V v n (i, bHash b, i)"

abbreviation sends_commit :: "engine_env \<Rightarrow> u64 \<Rightarrow> u64 \<Rightarrow> Block \<Rightarrow> string \<Rightarrow> Message" where
  "sends_commit V v n b i \<equiv> commit_vote V v n (i, bHash b, i)"

lemma map_votes:
  "map (sends_prepare V v n b) is = map (prepare_vote V v n) (map (\<lambda>i. (i, bHash b, i)) is)"
  "map (sends_commit V v n b) is = map (commit_vote V v n) (map (\<lambda>i. (i, bHash b, i)) is)"
  by simp_all

lemma pbft_counts:
  assumes "pbft_set vs" and "1 \<le> FaultyTolerance vs"
  shows "i \<in> ids vs \<Longrightarrow> QuorumSize vs \<le> int (card (ids vs - {i}))" "QuorumSize vs \<le> int (card (ids vs))"
    "i \<in> ids vs \<Longrightarrow> ids vs - {i} \<noteq> {}"
proof -
  let ?f = "tolerance_of vs"
  have fin: "finite (ids vs)" by (simp add: ids_def)
  have n: "card (ids vs) = 3 * ?f + 1"
    using card_ids [of vs] assms(1) pbft_set_size(1) [OF assms(1)] by (simp add: pbft_set_def)
  have q: "QuorumSize vs = 2 * int ?f + 1"
    using pbft_set_size(2) [OF assms(1)] QuorumSize_ge_1 [of vs] by (simp add: quorum_of_def)
  have f: "1 \<le> ?f" using assms(2) by (simp add: tolerance_of_def)
  show c: "i \<in> ids vs \<Longrightarrow> QuorumSize vs \<le> int (card (ids vs - {i}))" for i
    using fin n q f by (simp add: card_Diff_singleton)
  show "QuorumSize vs \<le> int (card (ids vs))" using n q f by simp
  assume i: "i \<in> ids vs"
  show "ids vs - {i} \<noteq> {}"
  proof
    assume "ids vs - {i} = {}"
    then have "card (ids vs - {i}) = 0" by (simp only: card.empty)
    with c [OF i] q show False by simp
  qed
qed

context accepting_adapter
begin

text \<open>A state opened by a proposal, with the node's own vote, and the votes of the others.\<close>

lemma opened_round:
  assumes C: "codec_ok (ve_codec V)" and ok: "engine_ok e" and vs: "eValidatorSet e = vs" "pbft_set vs" "1 \<le> FaultyTolerance vs"
    and g: "GetExistingState n (eStateLog e) = Some s" "sPhase s = PrePrepared" "sBlock s = Some b" "\<not> sExecuted s"
      "go_keys (sPrepareMsgs s) = {i}"
    and i: "i \<in> ids vs" "cfNodeID (eConfig e) = i" "cfCheckpointInterval (eConfig e) \<noteq> 0" "eTransportSet e" "eView e = v"
    and p: "p \<in> ids vs" "set bs = ids vs - {p} - {i}" "set cs = ids vs - {i}"
  shows "\<exists>e2 e3. deliver A S V (map (sends_prepare V v n b) bs) e = Ret e2 \<and>
    sends_commit V v n b i \<in> set (eOut e2) \<and>
    deliver A S V (map (sends_commit V v n b) cs) e2 = Ret e3 \<and> eCommittedBlocks e3 = eCommittedBlocks e @ [b]"
proof -
  let ?w = "\<lambda>i. (i, bHash b, i)"
  obtain a1 r a2 h where app: "ad_FinalizeBlock A b (eAdapter e) = (a1, Inr r)" "ad_Commit A a1 = (a2, Inr h)"
    using executes [where a = "eAdapter e" and b = b] by blast
  have vt: "voter ` set (map ?w is) = set is" for "is" by (force simp: image_iff)
  have fin: "finite (ids vs)" by (simp add: ids_def)
  have "ids vs - {p} \<subseteq> voter ` set (map ?w bs) \<union> go_keys (sPrepareMsgs s)"
    unfolding vt using p(2) g(5) by blast
  then have "card (ids vs - {p}) \<le> card (voter ` set (map ?w bs) \<union> go_keys (sPrepareMsgs s))"
    by (intro card_mono) simp_all
  then have q1: "QuorumSize (eValidatorSet e) \<le> int (card (voter ` set (map ?w bs) \<union> go_keys (sPrepareMsgs s)))"
    using pbft_counts(1) [OF vs(2,3) p(1)] unfolding vs(1) by linarith
  have q2: "QuorumSize (eValidatorSet e) \<le> int (card (voter ` set (map ?w cs)))"
    unfolding vt using pbft_counts(1) [OF vs(2,3) i(1)] vs(1) p(3) by simp
  have ne1: "map ?w bs \<noteq> []"
  proof
    assume "map ?w bs = []"
    then have "ids vs \<subseteq> {p, i}" using p(2) by auto
    then have "card (ids vs) \<le> card {p, i}" by (intro card_mono) simp_all
    also have "\<dots> \<le> 2" by (simp add: card_insert_if)
    finally have "card (ids vs) \<le> 2" .
    moreover have "QuorumSize vs = 2 * int (tolerance_of vs) + 1" "1 \<le> tolerance_of vs"
      using pbft_set_size(2) [OF vs(2)] QuorumSize_ge_1 [of vs] vs(3) by (simp_all add: quorum_of_def tolerance_of_def)
    ultimately show False using pbft_counts(2) [OF vs(2,3)] by linarith
  qed
  have "set cs \<noteq> {}" unfolding p(3) by (rule pbft_counts(3) [OF vs(2,3) i(1)])
  then have ne2: "map ?w cs \<noteq> []" by (simp only: set_empty map_is_Nil_conv not_False_eq_True)
  have dg: "\<forall>w \<in> set (map ?w bs). fst (snd w) = bHash b" by simp
  obtain e2 e3 where r: "deliver A S V (map (prepare_vote V (eView e) n) (map ?w bs)) e = Ret e2"
    "commit_vote V (eView e) n (cfNodeID (eConfig e), bHash b, cfNodeID (eConfig e)) \<in> set (eOut e2)"
    "deliver A S V (map (commit_vote V (eView e) n) (map ?w cs)) e2 = Ret e3" "eCommittedBlocks e3 = eCommittedBlocks e @ [b]"
    using quorum_round [OF C ok g(1-4) app i(3) ne1 ne2 q1 q2 i(4) dg, of S] by (elim exE conjE) (rule that)
  note r' = r [unfolded i(2,5), folded map_votes]
  show ?thesis by (rule exI [of _ e2], rule exI [of _ e3]) (intro conjI r')
qed

lemma primary_round:
  assumes C: "codec_ok (ve_codec V)" and ok: "engine_ok e" and vs: "eValidatorSet e = vs" "pbft_set vs" "1 \<le> FaultyTolerance vs"
    and e: "eView e = v" "cfNodeID (eConfig e) = p" "cfCheckpointInterval (eConfig e) \<noteq> 0" "eTransportSet e" "p \<in> ids vs"
    and n: "IsInWindow n (eStateLog e)" "GetExistingState n (eStateLog e) = None" "eSequenceNum e + 1 = n"
    and txs: "collect_txs V req (e\<lparr>eSequenceNum := n\<rparr>) = Ret txs" "txs \<noteq> []"
    and b: "b = proposed_block V n v txs (e\<lparr>eSequenceNum := n\<rparr>)"
  shows "\<exists>ep. proposeBlock A V req e = Ret ep \<and> proposal V v n p b \<in> set (eOut ep) \<and>
    (\<forall>bs cs. set bs = ids vs - {p} \<longrightarrow> set cs = ids vs - {p} \<longrightarrow>
       (\<exists>e2 e3. deliver A S V (map (sends_prepare V v n b) bs) ep = Ret e2 \<and> sends_commit V v n b p \<in> set (eOut e2) \<and>
          deliver A S V (map (sends_commit V v n b) cs) e2 = Ret e3 \<and> eCommittedBlocks e3 = eCommittedBlocks e @ [b]))"
proof -
  let ?e = "e\<lparr>eSequenceNum := n\<rparr>"
  let ?ep = "issue_proposal V n v txs ?e"
  have p: "proposeBlock A V req e = Ret ?ep"
    using n txs e(1) by (simp add: proposeBlock_def Let_def propose_txs_def prepare_as_is)
  have out: "proposal V v n p b \<in> set (eOut ?ep)"
    using e(2,4) by (simp add: issue_proposal_sends b)
  have fr: "consensus_frame ?e ?ep" by (rule issue_proposal_frame)
  then have v: "eValidatorSet ?ep = vs" "eView ?ep = v" "eConfig ?ep = eConfig e" "eCommittedBlocks ?ep = eCommittedBlocks e"
    using vs(1) e(1) by (simp_all add: consensus_frame_def)
  have "engine_ok ?e" using ok by (simp add: engine_ok_def view_ok_def pool_ok_def checkpoints_ok_def)
  moreover have "log_ok (eStateLog ?ep)" using issue_proposal_frame(2) [of ?e] ok by (simp add: engine_ok_def)
  ultimately have ok': "engine_ok ?ep" using consensus_frame_ok fr by blast
  let ?s = "AddPrepare (NewPrepareMsg v n (bHash b) p) (SetPrePrepare (NewPrePrepareMsg v n b p) (Some b) (NewState v n))"
  have g: "GetExistingState n (eStateLog ?ep) = Some ?s"
    using n(2) e(2) by (simp add: issue_proposal_state b)
  have s: "sPhase ?s = PrePrepared" "sBlock ?s = Some b" "\<not> sExecuted ?s" "go_keys (sPrepareMsgs ?s) = {p}"
    by (simp_all add: State_defs)
  have tr: "eTransportSet ?ep" using e(4) by (simp add: issue_proposal_def Let_def split: prod.split)
  have "\<exists>e2 e3. deliver A S V (map (sends_prepare V v n b) bs) ?ep = Ret e2 \<and> sends_commit V v n b p \<in> set (eOut e2) \<and>
      deliver A S V (map (sends_commit V v n b) cs) e2 = Ret e3 \<and> eCommittedBlocks e3 = eCommittedBlocks ?ep @ [b]"
    if "set bs = ids vs - {p}" "set cs = ids vs - {p}" for bs cs
    by (rule opened_round [OF C ok' v(1) vs(2,3) g s e(5) _ _ tr v(2) e(5) _ that(2)]) (use that(1) e(2,3) v(3) in simp_all)
  with p out v(4) show ?thesis by (intro exI [of _ ?ep]) simp
qed

lemma backup_round:
  assumes C: "codec_ok (ve_codec V)" and ok: "engine_ok e" and vs: "eValidatorSet e = vs" "pbft_set vs" "1 \<le> FaultyTolerance vs"
    and e: "eView e = v" "cfNodeID (eConfig e) = i" "cfCheckpointInterval (eConfig e) \<noteq> 0" "eTransportSet e"
      "getPrimaryID e = Ret p" and i: "i \<in> ids vs" "p \<in> ids vs"
    and n: "IsInWindow n (eStateLog e)" "GetExistingState n (eStateLog e) = None"
  shows "\<exists>e1. handleMessage A S V (proposal V v n p b) e = Ret e1 \<and> sends_prepare V v n b i \<in> set (eOut e1) \<and>
    (\<forall>bs cs. set bs = ids vs - {p} - {i} \<longrightarrow> set cs = ids vs - {i} \<longrightarrow>
       (\<exists>e2 e3. deliver A S V (map (sends_prepare V v n b) bs) e1 = Ret e2 \<and> sends_commit V v n b i \<in> set (eOut e2) \<and>
          deliver A S V (map (sends_commit V v n b) cs) e2 = Ret e3 \<and> eCommittedBlocks e3 = eCommittedBlocks e @ [b]))"
proof -
  let ?m = "proposal V v n p b" and ?pp = "NewPrePrepareMsg v n b p"
  have "snd (ad_ProcessProposal A (sint n) (bytes_of_string p) (map txData (bTransactions b)) (bHash b) (eAdapter e)) = Inr True"
    by (simp add: process_accepts)
  from proposal_accepted [OF C e(5) n(1) this, of S] obtain a where
    h: "handleMessage A S V ?m e = Ret (accept_proposal V ?m ?pp (e\<lparr>eAdapter := a\<rparr>))" unfolding e(1) by blast
  let ?e1 = "accept_proposal V ?m ?pp (e\<lparr>eAdapter := a\<rparr>)"
  have m: "mView ?m = v" "mSequenceNum ?m = n" "mDigest ?m = bHash b" by (simp_all add: proposal_def)
  have fr: "consensus_frame (e\<lparr>eAdapter := a\<rparr>) ?e1" by (rule accept_proposal_frame)
  then have v: "eValidatorSet ?e1 = vs" "eView ?e1 = v" "eConfig ?e1 = eConfig e" "eCommittedBlocks ?e1 = eCommittedBlocks e"
    using vs(1) e(1) by (simp_all add: consensus_frame_def)
  have "engine_ok (e\<lparr>eAdapter := a\<rparr>)" using ok by (simp add: engine_ok_def view_ok_def pool_ok_def checkpoints_ok_def)
  moreover have "log_ok (eStateLog ?e1)" using accept_proposal_frame(2) [of "e\<lparr>eAdapter := a\<rparr>"] ok by (simp add: engine_ok_def)
  ultimately have ok': "engine_ok ?e1" using consensus_frame_ok fr by blast
  have out: "sends_prepare V v n b i \<in> set (eOut ?e1)"
    using e(2,4) by (simp add: accept_proposal_fields prepare_reply_def m)
  obtain sl s0 where gs: "GetState v n (eStateLog (e\<lparr>eAdapter := a\<rparr>)) = (sl, s0)"
    by (cases "GetState v n (eStateLog (e\<lparr>eAdapter := a\<rparr>))")
  have s0: "s0 = NewState v n" using gs n(2) by (auto simp: GetState_def GetExistingState_def Let_def)
  let ?s = "AddPrepare (NewPrepareMsg v n (bHash b) i) (SetPrePrepare ?pp (Some b) (NewState v n))"
  have g: "GetExistingState n (eStateLog ?e1) = Some ?s"
    using accept_proposal_state [OF gs m(1,2), of V ?pp] e(2) by (simp add: s0 m)
  have s: "sPhase ?s = PrePrepared" "sBlock ?s = Some b" "\<not> sExecuted ?s" "go_keys (sPrepareMsgs ?s) = {i}"
    by (simp_all add: State_defs)
  have tr: "eTransportSet ?e1" using e(4)
    by (simp add: accept_proposal_def Let_def split: prod.split)
  have "\<exists>e2 e3. deliver A S V (map (sends_prepare V v n b) bs) ?e1 = Ret e2 \<and> sends_commit V v n b i \<in> set (eOut e2) \<and>
      deliver A S V (map (sends_commit V v n b) cs) e2 = Ret e3 \<and> eCommittedBlocks e3 = eCommittedBlocks ?e1 @ [b]"
    if "set bs = ids vs - {p} - {i}" "set cs = ids vs - {i}" for bs cs
    by (rule opened_round [OF C ok' v(1) vs(2,3) g s i(1) _ _ tr v(2) i(2) that]) (use e(2,3) v(3) in simp_all)
  with h out v(4) show ?thesis by (intro exI [of _ ?e1]) simp
qed

end

text \<open>
  C9. A round in which everybody answers commits everywhere. Take \<open>3f + 1\<close> validators with
  \<open>f \<ge> 1\<close>, all running engines that agree on the view and its primary and have the next number
  of the primary open and unused, and an application that accepts and executes. If the primary
  has something to propose, it broadcasts a proposal of a block; every backup answers the
  proposal with its \<open>PREPARE\<close>; the \<open>PREPARE\<close>s of the other backups, in any order and with
  repetitions, make each node broadcast its \<open>COMMIT\<close>; and the \<open>COMMIT\<close>s of the other nodes make
  it append that same block to its chain, the primary included.
\<close>

theorem all_answer_all_commit:
  assumes "codec_ok (ve_codec V)" and "accepting_adapter A" and "pbft_set vs" and "1 \<le> FaultyTolerance vs"
    and "p \<in> ids vs" and "round_ready E vs v n p" and "eSequenceNum (E p) + 1 = n"
    and "collect_txs V req ((E p)\<lparr>eSequenceNum := n\<rparr>) = Ret txs" "txs \<noteq> []"
  shows "\<exists>b ep. proposeBlock A V req (E p) = Ret ep \<and> proposal V v n p b \<in> set (eOut ep) \<and>
    (\<forall>bs cs. set bs = ids vs - {p} \<longrightarrow> set cs = ids vs - {p} \<longrightarrow>
       (\<exists>e2 e3. deliver A S V (map (sends_prepare V v n b) bs) ep = Ret e2 \<and> sends_commit V v n b p \<in> set (eOut e2) \<and>
          deliver A S V (map (sends_commit V v n b) cs) e2 = Ret e3 \<and> eCommittedBlocks e3 = eCommittedBlocks (E p) @ [b])) \<and>
    (\<forall>i \<in> ids vs - {p}. \<exists>e1. handleMessage A S V (proposal V v n p b) (E i) = Ret e1 \<and>
       sends_prepare V v n b i \<in> set (eOut e1) \<and>
       (\<forall>bs cs. set bs = ids vs - {p} - {i} \<longrightarrow> set cs = ids vs - {i} \<longrightarrow>
          (\<exists>e2 e3. deliver A S V (map (sends_prepare V v n b) bs) e1 = Ret e2 \<and> sends_commit V v n b i \<in> set (eOut e2) \<and>
             deliver A S V (map (sends_commit V v n b) cs) e2 = Ret e3 \<and> eCommittedBlocks e3 = eCommittedBlocks (E i) @ [b])))"
proof -
  have r: "engine_ok (E i) \<and> eValidatorSet (E i) = vs \<and> eView (E i) = v \<and>
     cfNodeID (eConfig (E i)) = i \<and> getPrimaryID (E i) = Ret p \<and> IsInWindow n (eStateLog (E i)) \<and>
     GetExistingState n (eStateLog (E i)) = None \<and> cfCheckpointInterval (eConfig (E i)) \<noteq> 0 \<and> eTransportSet (E i)"
    if "i \<in> ids vs" for i
    using assms(6) that by (simp add: round_ready_def)
  let ?b = "proposed_block V n v txs ((E p)\<lparr>eSequenceNum := n\<rparr>)"
  obtain ep where ep: "proposeBlock A V req (E p) = Ret ep" "proposal V v n p ?b \<in> set (eOut ep)"
    "\<forall>bs cs. set bs = ids vs - {p} \<longrightarrow> set cs = ids vs - {p} \<longrightarrow>
       (\<exists>e2 e3. deliver A S V (map (sends_prepare V v n ?b) bs) ep = Ret e2 \<and> sends_commit V v n ?b p \<in> set (eOut e2) \<and>
          deliver A S V (map (sends_commit V v n ?b) cs) e2 = Ret e3 \<and> eCommittedBlocks e3 = eCommittedBlocks (E p) @ [?b])"
    using accepting_adapter.primary_round [OF assms(2,1), of "E p" vs v p n req txs ?b S] r [OF assms(5)] assms(3-5,7-9)
    by (elim exE conjE) (simp, blast)
  have "\<exists>e1. handleMessage A S V (proposal V v n p ?b) (E i) = Ret e1 \<and> sends_prepare V v n ?b i \<in> set (eOut e1) \<and>
    (\<forall>bs cs. set bs = ids vs - {p} - {i} \<longrightarrow> set cs = ids vs - {i} \<longrightarrow>
       (\<exists>e2 e3. deliver A S V (map (sends_prepare V v n ?b) bs) e1 = Ret e2 \<and> sends_commit V v n ?b i \<in> set (eOut e2) \<and>
          deliver A S V (map (sends_commit V v n ?b) cs) e2 = Ret e3 \<and> eCommittedBlocks e3 = eCommittedBlocks (E i) @ [?b]))"
    if "i \<in> ids vs - {p}" for i
    by (rule accepting_adapter.backup_round [OF assms(2,1)]) (use r [of i] that assms(3-5) in simp_all)
  with ep show ?thesis by (intro exI [of _ ?b] exI [of _ ep]) simp
qed

text \<open>The four default validators, a client request at \<open>node0\<close>: the primary and \<open>node1\<close> commit one block.\<close>

theorem all_answer_all_commit_witness:
  "\<exists>b ep e2 e3 f1 f2 f3.
     proposeBlock noop_adapter sample_env (Some \<lparr>rqOperation = [7], rqTimestamp = 0, rqClientID = ''client''\<rparr>) (fresh_engine NewNoopABCIAdapter ''node0'') = Ret ep \<and>
     deliver noop_adapter (memory_store rev) sample_env
       (map (sends_prepare sample_env 0 1 b) [''node1'', ''node2'', ''node3'']) ep = Ret e2 \<and>
     deliver noop_adapter (memory_store rev) sample_env
       (map (sends_commit sample_env 0 1 b) [''node1'', ''node2'', ''node3'']) e2 = Ret e3 \<and> eCommittedBlocks e3 = [b] \<and>
     handleMessage noop_adapter (memory_store rev) sample_env (proposal sample_env 0 1 ''node0'' b)
       (fresh_engine NewNoopABCIAdapter ''node1'') = Ret f1 \<and>
     deliver noop_adapter (memory_store rev) sample_env (map (sends_prepare sample_env 0 1 b) [''node2'', ''node3'']) f1 = Ret f2 \<and>
     deliver noop_adapter (memory_store rev) sample_env
       (map (sends_commit sample_env 0 1 b) [''node0'', ''node2'', ''node3'']) f2 = Ret f3 \<and> eCommittedBlocks f3 = [b]"
proof -
  let ?E = "\<lambda>i. fresh_engine NewNoopABCIAdapter i :: (NoopABCIAdapter, MemoryStore) Engine"
  let ?r = "Some \<lparr>rqOperation = [7], rqTimestamp = 0, rqClientID = ''client''\<rparr>"
  have ready: "round_ready ?E default_set 0 1 ''node0''"
    using fresh_engine_facts(1) [of NewNoopABCIAdapter]
    by (simp add: round_ready_def getPrimaryID_def) (simp add: fresh_engine_def NewEngineV2_def DefaultConfig_def)
  have txs: "collect_txs sample_env ?r ((?E ''node0'')\<lparr>eSequenceNum := 1\<rparr>) = Ret [[7]]"
    by (simp add: collect_txs_def)
  have c: "codec_ok (ve_codec sample_env)" by simp
  have h: "1 \<le> FaultyTolerance default_set" "''node0'' \<in> ids default_set" "eSequenceNum (?E ''node0'') + 1 = 1" "[[7 :: 8 word]] \<noteq> []"
    by (simp_all add: size_default ids_default)
  have i: "''node1'' \<in> ids default_set - {''node0''}" by (simp add: ids_default)
  have b: "set [''node1'', ''node2'', ''node3''] = ids default_set - {''node0''}"
    "set [''node2'', ''node3''] = ids default_set - {''node0''} - {''node1''}"
    "set [''node0'', ''node2'', ''node3''] = ids default_set - {''node1''}"
    by (auto simp: ids_default)
  from all_answer_all_commit [OF c noop.accepting_adapter_axioms pbft_set_default h(1,2) ready h(3) txs h(4), of "memory_store rev"]
  obtain b ep where ep: "proposeBlock noop_adapter sample_env ?r (?E ''node0'') = Ret ep"
    and p: "\<forall>bs cs. set bs = ids default_set - {''node0''} \<longrightarrow> set cs = ids default_set - {''node0''} \<longrightarrow>
       (\<exists>e2 e3. deliver noop_adapter (memory_store rev) sample_env (map (sends_prepare sample_env 0 1 b) bs) ep = Ret e2 \<and>
          sends_commit sample_env 0 1 b ''node0'' \<in> set (eOut e2) \<and>
          deliver noop_adapter (memory_store rev) sample_env (map (sends_commit sample_env 0 1 b) cs) e2 = Ret e3 \<and>
          eCommittedBlocks e3 = eCommittedBlocks (?E ''node0'') @ [b])"
    and q: "\<forall>i \<in> ids default_set - {''node0''}. \<exists>e1. handleMessage noop_adapter (memory_store rev) sample_env
       (proposal sample_env 0 1 ''node0'' b) (?E i) = Ret e1 \<and> sends_prepare sample_env 0 1 b i \<in> set (eOut e1) \<and>
       (\<forall>bs cs. set bs = ids default_set - {''node0''} - {i} \<longrightarrow> set cs = ids default_set - {i} \<longrightarrow>
          (\<exists>e2 e3. deliver noop_adapter (memory_store rev) sample_env (map (sends_prepare sample_env 0 1 b) bs) e1 = Ret e2 \<and>
             sends_commit sample_env 0 1 b i \<in> set (eOut e2) \<and>
             deliver noop_adapter (memory_store rev) sample_env (map (sends_commit sample_env 0 1 b) cs) e2 = Ret e3 \<and>
             eCommittedBlocks e3 = eCommittedBlocks (?E i) @ [b]))"
    by (elim exE conjE) (rule that)
  from p [rule_format, OF b(1,1)] obtain e2 e3 where pr:
    "deliver noop_adapter (memory_store rev) sample_env (map (sends_prepare sample_env 0 1 b) [''node1'', ''node2'', ''node3'']) ep = Ret e2"
    "deliver noop_adapter (memory_store rev) sample_env (map (sends_commit sample_env 0 1 b) [''node1'', ''node2'', ''node3'']) e2 = Ret e3"
    "eCommittedBlocks e3 = eCommittedBlocks (?E ''node0'') @ [b]" by (elim exE conjE) (rule that)
  from q [rule_format, OF i] obtain f1 where f1:
    "handleMessage noop_adapter (memory_store rev) sample_env (proposal sample_env 0 1 ''node0'' b) (?E ''node1'') = Ret f1"
    and r: "\<forall>bs cs. set bs = ids default_set - {''node0''} - {''node1''} \<longrightarrow> set cs = ids default_set - {''node1''} \<longrightarrow>
          (\<exists>e2 e3. deliver noop_adapter (memory_store rev) sample_env (map (sends_prepare sample_env 0 1 b) bs) f1 = Ret e2 \<and>
             sends_commit sample_env 0 1 b ''node1'' \<in> set (eOut e2) \<and>
             deliver noop_adapter (memory_store rev) sample_env (map (sends_commit sample_env 0 1 b) cs) e2 = Ret e3 \<and>
             eCommittedBlocks e3 = eCommittedBlocks (?E ''node1'') @ [b])" by (elim exE conjE) (rule that)
  from r [rule_format, OF b(2,3)] obtain f2 f3 where br:
    "deliver noop_adapter (memory_store rev) sample_env (map (sends_prepare sample_env 0 1 b) [''node2'', ''node3'']) f1 = Ret f2"
    "deliver noop_adapter (memory_store rev) sample_env (map (sends_commit sample_env 0 1 b) [''node0'', ''node2'', ''node3'']) f2 = Ret f3"
    "eCommittedBlocks f3 = eCommittedBlocks (?E ''node1'') @ [b]" by (elim exE conjE) (rule that)
  have nil: "eCommittedBlocks (?E i) @ [b] = [b]" for i by simp
  show ?thesis
    by (rule exI [of _ b], rule exI [of _ ep], rule exI [of _ e2], rule exI [of _ e3], rule exI [of _ f1],
        rule exI [of _ f2], rule exI [of _ f3]) (intro conjI ep pr(1,2) pr(3) [unfolded nil] f1 br(1,2) br(3) [unfolded nil])
qed

end
