(* ===== verification/Node_Props.thy ===== *)
theory Node_Props
  imports Node Cluster
begin

text \<open>
  What a running node does with its parts: the pool stays shared, the engine keeps its invariant,
  and what the node never does, because nothing is wired to do it: gossip a transaction, serve
  its state, or persist anything.
\<close>

section \<open>An engine without a store\<close>

definition wired :: "('a, 's) Engine \<Rightarrow> bool" where
  "wired e \<longleftrightarrow> engine_ok e \<and> eStore e = None \<and> eMempool e \<noteq> None"

lemma consensus_frame_wired: "consensus_frame e e' \<Longrightarrow> engine_ok e' \<Longrightarrow> wired e \<Longrightarrow> wired e'"
  by (simp add: wired_def consensus_frame_def)

lemma handleValidatorUpdates_store [simp]: "eStore (handleValidatorUpdates us e) = eStore e"
  using updates_fields [of us e] by (elim exE) simp

lemma record_commit_store: "eStore e = None \<Longrightarrow> eStore (record_commit A S V n s b r e) = None"
proof -
  assume e: "eStore e = None"
  show ?thesis
    by (simp add: record_commit_def Let_def saveBlockToStore_def e put_state_def split: option.split)
qed

lemma createCheckpoint_store: "eStore e = None \<Longrightarrow> eStore (createCheckpoint S V n e) = None"
  by (simp add: createCheckpoint_def Let_def saveCheckpointToStore_def SaveState_def)

lemma executeBlock_wiring:
  assumes "executeBlock A S V n s e = Ret e'" and "eStore e = None" "eMempool e \<noteq> None"
  shows "eStore e' = None \<and> eMempool e' \<noteq> None"
  using assms(1)
  by (cases rule: executeBlock_cases)
    (use assms(2,3) in \<open>auto simp: createCheckpoint_fields record_commit_fields
      intro!: record_commit_store createCheckpoint_store\<close>)

lemma vcm_HandleNewView_wiring:
  assumes "vcm_HandleNewView nv e = Ret (e', ok)" and "vmOnCompleteSet (eVcm e)"
  shows "eStore e' = eStore e \<and> eMempool e' = eMempool e"
  using assms by (cases rule: vcm_HandleNewView_cases) simp_all

lemma handleMessage_wiring:
  assumes "handleMessage A S V m e = Ret e'" and w: "wired e"
  shows "eStore e' = None \<and> eMempool e' \<noteq> None"
proof -
  have oc: "vmOnCompleteSet (eVcm e)" and log: "log_ok (eStateLog e)"
    using w by (simp_all add: wired_def engine_ok_def view_ok_def)
  have fr: "eStore e' = None \<and> eMempool e' \<noteq> None" if "consensus_frame e e'"
    using that w by (simp add: consensus_frame_def wired_def)
  from assms(1) show ?thesis
  proof (cases rule: handleMessage_cases)
    case pre_prepare
    then show ?thesis by (intro fr handlePrePrepare_frame)
  next
    case prepare
    have "consensus_frame e e'" unfolding prepare by (rule handlePrepare_frame)
    then show ?thesis by (rule fr)
  next
    case commit
    then show ?thesis
    proof (cases rule: handleCommit_cases)
      case (committed c s t)
      from executeBlock_wiring [OF committed(7)] w show ?thesis by (simp add: wired_def)
    qed (use w in \<open>simp_all add: wired_def\<close>)
  next
    case view_change
    then show ?thesis
    proof (cases rule: handleViewChange_cases)
      case (quorum vc)
      from quorum(5) show ?thesis
      proof (cases rule: broadcastNewView_cases)
        case (sent nv m ok)
        from vcm_HandleNewView_wiring [OF sent(4)] oc w show ?thesis by (simp add: wired_def HandleViewChange_fields)
      qed (use w in \<open>simp add: wired_def\<close>)
    qed (use w in \<open>simp_all add: wired_def\<close>)
  next
    case new_view
    from this oc show ?thesis
    proof (cases rule: handleNewView_cases)
      case (installed nv)
      from reprocess_all_frame [of "resetViewChangeTimer (e\<lparr>eVcm := install_view nv (eVcm e), eView := nvView nv\<rparr>)"
          V "nvView nv" "nvPrePrepareMsgs nv"] installed(5) w
      show ?thesis by (simp add: wired_def consensus_frame_def)
    qed (use w in \<open>simp add: wired_def\<close>)
  qed (use w in \<open>simp add: wired_def\<close>)
qed

lemma engine_step_wired:
  assumes "engine_step A S e e'" and w: "wired e"
  shows "wired e'"
proof -
  have ok: "engine_ok e'" using engine_step_ok [OF assms(1)] w by (simp add: wired_def)
  have "eStore e' = None \<and> eMempool e' \<noteq> None"
    using assms(1)
  proof (cases rule: engine_step.cases)
    case (es_message V)
    then obtain m q where "handleMessage A S V m (e\<lparr>eMsgChan := q\<rparr>) = Ret e'" by (metis run_msg_cases)
    from handleMessage_wiring [OF this] w show ?thesis by (simp add: wired_def)
  next
    case (es_request V)
    then show ?thesis
    proof (cases rule: run_request_cases)
      case (propose r q)
      from proposeBlock_frame(1) [OF propose(3)] w show ?thesis by (simp add: consensus_frame_def wired_def)
    qed (use w in \<open>simp add: wired_def\<close>)
  next
    case (es_timeout V)
    from es_timeout(2) show ?thesis
      by (rule startViewChange_fields) (use w in \<open>auto simp: wired_def split: option.split\<close>)
  qed (use w in \<open>simp_all add: wired_def handleIncomingMessage_def SubmitRequest_def Let_def engine_Start_def
      engine_Stop_def resetViewChangeTimer_def\<close>)
  with ok show ?thesis by (simp add: wired_def)
qed

section \<open>Runs of a node\<close>

text \<open>
  What can happen to a node: a client submits, a peer's transaction or message arrives, its engine
  or its pool makes a step, a goroutine of the reactor comes round, it is started or stopped.
  After a stop the code's goroutines end when their context is cancelled; here they may still
  come round, so that what holds of every run holds of the code's.
\<close>

inductive node_step ::
  "'a adapter_ops \<Rightarrow> 's store_ops \<Rightarrow> ('c, 'ts) grpc_env \<Rightarrow> ('a, 's, 'c, 'ts) Node \<Rightarrow> ('a, 's, 'c, 'ts) Node \<Rightarrow> bool"
  for A S G where
  ns_submit: "ve_ok V \<Longrightarrow> nd_SubmitTx V tx cl n = Ret (n', err) \<Longrightarrow> node_step A S G n n'"
| ns_peer_tx: "ve_ok V \<Longrightarrow> node_tx_handler text V d s x g l n = Ret (n', err') \<Longrightarrow> node_step A S G n n'"
| ns_message: "BroadcastMessage T handleIncomingMessage req (ndTransport n) (ndEngine n) = (e, ok) \<Longrightarrow>
    node_step A S G n (n\<lparr>ndEngine := e\<rparr>)"
| ns_direct: "SendMessage T handleIncomingMessage req (ndTransport n) (ndEngine n) = (e, ok) \<Longrightarrow>
    node_step A S G n (n\<lparr>ndEngine := e\<rparr>)"
| ns_engine: "engine_step A S (ndEngine n) e \<Longrightarrow> node_step A S G n (engine_did G e n)"
| ns_dequeue: "broadcast_dequeue (ndReactor n) = Some (r, txs) \<Longrightarrow> node_step A S G n (gossip G txs (reactor_did r n))"
| ns_tick: "broadcast_tick (ndReactor n) = (r, txs) \<Longrightarrow> node_step A S G n (gossip G txs (reactor_did r n))"
| ns_new_tx: "receive_new_tx (ndReactor n) = Some r \<Longrightarrow> node_step A S G n (reactor_did r n)"
| ns_start: "nd_Start G n = (n', installed, err'') \<Longrightarrow> node_step A S G n n'"
| ns_stop: "nd_Stop G n = Ret n' \<Longrightarrow> node_step A S G n n'"

inductive node_reachable ::
  "'a adapter_ops \<Rightarrow> 's store_ops \<Rightarrow> ('c, 'ts) grpc_env \<Rightarrow> ('a, 's, 'c, 'ts) Node \<Rightarrow> ('a, 's, 'c, 'ts) Node \<Rightarrow> bool"
  for A S G n0 where
  nr_init: "node_reachable A S G n0 n0"
| nr_step: "node_reachable A S G n0 n \<Longrightarrow> node_step A S G n n' \<Longrightarrow> node_reachable A S G n0 n'"

text \<open>A transport that has called its peers for consensus messages only, and serves no state.\<close>

definition mute :: "('c, 'ts) GRPCTransport \<Rightarrow> bool" where
  "mute t \<longleftrightarrow> transport_ok t \<and> \<not> gtProviderSet t \<and> (\<forall>x \<in> set (gtSent t). \<exists>m. snd x = rpc_BroadcastMessage m)"

definition node_ok :: "('a, 's, 'c, 'ts) Node \<Rightarrow> bool" where
  "node_ok n \<longleftrightarrow> wired (ndEngine n) \<and> eMempool (ndEngine n) = Some (ndMempool n) \<and>
     reMempool (ndReactor n) = ndMempool n \<and> reQueue (ndReactor n) = [] \<and> reBatch (ndReactor n) = [] \<and>
     mute (ndTransport n)"

lemma mute_Broadcast: "mute t \<Longrightarrow> mute (fst (gt_Broadcast G m t))"
  by (auto simp: mute_def gt_Broadcast_def call_peers_result transport_ok_def)

lemma mute_Broadcasts: "mute t \<Longrightarrow> mute (fold (\<lambda>m t. fst (gt_Broadcast G m t)) ms t)"
  by (induction ms arbitrary: t) (simp_all add: mute_Broadcast)

lemma mute_AddPeer: "mute t \<Longrightarrow> mute (fst (AddPeer G i a t))"
  using transport_ok_AddPeer [of t G i a] by (auto simp: mute_def AddPeer_def split: sum.splits)

lemma mute_connect: "mute t \<Longrightarrow> mute (fold (connect_peer G i) ps t)"
  by (induction ps arbitrary: t) (simp_all add: connect_peer_def mute_AddPeer split: option.split prod.split)

lemma put_pool_fields [simp]:
  "ndMempool (put_pool mp n) = mp" "eMempool (ndEngine (put_pool mp n)) = Some mp"
  "reMempool (ndReactor (put_pool mp n)) = mp" "ndTransport (put_pool mp n) = ndTransport n"
  "reQueue (ndReactor (put_pool mp n)) = reQueue (ndReactor n)" "reBatch (ndReactor (put_pool mp n)) = reBatch (ndReactor n)"
  "ndConfig (put_pool mp n) = ndConfig n" "ndRunning (put_pool mp n) = ndRunning n"
  "ndEngine (put_pool mp n) = (ndEngine n)\<lparr>eMempool := Some mp\<rparr>"
  by (simp_all add: put_pool_def)

lemma put_pool_ok:
  assumes n: "node_ok n" and "mp_step (ndMempool n) mp"
  shows "node_ok (put_pool mp n)"
proof -
  have "eMempool (ndEngine n) = Some (ndMempool n)" using n by (simp add: node_ok_def)
  from engine_step_wired [OF es_pool [OF this assms(2)]] n
  have "wired ((ndEngine n)\<lparr>eMempool := Some mp\<rparr>)" by (simp add: node_ok_def)
  with n show ?thesis by (simp add: node_ok_def)
qed

lemma wired_same_pool: "wired e \<Longrightarrow> eMempool e = Some mp \<Longrightarrow> wired (e\<lparr>eMempool := Some mp\<rparr>)"
  by (simp add: wired_def engine_ok_def view_ok_def pool_ok_def checkpoints_ok_def)

lemma put_same_pool: "node_ok n \<Longrightarrow> node_ok (put_pool (ndMempool n) n)"
  by (simp add: node_ok_def wired_same_pool)

lemma engine_did_ok:
  assumes n: "node_ok n" and e: "wired e"
  shows "node_ok (engine_did G e n)"
proof -
  obtain mp where mp: "eMempool e = Some mp" using e by (auto simp: wired_def)
  with n e show ?thesis
    by (simp add: node_ok_def engine_did_def Let_def wired_same_pool mute_Broadcasts)
qed

text \<open>With nothing queued the goroutines of the reactor hand nothing to the broadcaster.\<close>

lemma idle_reactor:
  assumes "reQueue r = []" and "reBatch r = []"
  shows "broadcast_dequeue r = None" and "broadcast_tick r = (r, [])"
  using assms by (simp_all add: broadcast_dequeue_def broadcast_tick_def)

lemma queueing_mempool [simp]:
  "eMempool (handleIncomingMessage m e) = eMempool e" "eMempool (fst (SubmitRequest V tx cl e)) = eMempool e"
  "eMempool (engine_Start e) = eMempool e" "eMempool (engine_Stop e) = eMempool e"
  by (simp_all add: handleIncomingMessage_def SubmitRequest_def Let_def engine_Start_def engine_Stop_def
      resetViewChangeTimer_def)

lemma queueing_wired:
  assumes "wired e"
  shows "wired (handleIncomingMessage m e)" "wired (fst (SubmitRequest V tx cl e))"
    "wired (engine_Start e)" "wired (engine_Stop e)"
  using engine_step_wired [OF es_incoming assms] engine_step_wired [OF es_submit assms]
    engine_step_wired [OF es_start assms] engine_step_wired [OF es_stop assms] by blast+

lemma incoming_ok: "node_ok n \<Longrightarrow> node_ok (n\<lparr>ndEngine := handleIncomingMessage m (ndEngine n)\<rparr>)"
  by (simp add: node_ok_def queueing_wired)

lemma SubmitTx_ok:
  assumes "nd_SubmitTx V tx cl n = Ret (n', err)" and n: "node_ok n" and V: "ve_ok V"
  shows "node_ok n'"
proof -
  obtain mp r where a: "AddTxWithMeta (ve_mp V) tx cl 0 0 0 (ndMempool n) = Ret (mp, r)"
    using assms(1) by (auto simp: nd_SubmitTx_def go_bind_Ret_iff)
  have st: "mp_step (ndMempool n) mp" by (rule mps_add [OF _ a]) (use V in \<open>simp add: ve_ok_def\<close>)
  have ok: "node_ok (put_pool mp n)" by (rule put_pool_ok [OF n st])
  show ?thesis
  proof (cases r)
    case None
    then obtain b where b: "(if b then let (e, ok) = SubmitRequest V tx cl (ndEngine (put_pool mp n))
           in Ret ((put_pool mp n)\<lparr>ndEngine := e\<rparr>, if ok then None else Some Request_Channel_Full)
         else Ret (put_pool mp n, None)) = Ret (n', err)"
      using assms(1) a by (auto simp: nd_SubmitTx_def go_bind_Ret_iff Let_def)
    show ?thesis
    proof (cases b)
      case True
      with b have "n' = (put_pool mp n)\<lparr>ndEngine := fst (SubmitRequest V tx cl (ndEngine (put_pool mp n)))\<rparr>"
        by (simp add: split_beta)
      then show ?thesis using ok by (simp add: node_ok_def queueing_wired)
    qed (use b ok in simp)
  qed (use assms(1) a ok in \<open>simp add: nd_SubmitTx_def Let_def\<close>)
qed

lemma peer_tx_ok:
  assumes "node_tx_handler text V d s x g l n = Ret (n', err)" and "node_ok n" and "ve_ok V"
  shows "node_ok n'"
proof -
  obtain mp r where a: "AddTxWithMeta (ve_mp V) d s x g l (ndMempool n) = Ret (mp, r)" and n': "n' = put_pool mp n"
    using assms(1) by (auto simp: node_tx_handler_def go_bind_Ret_iff)
  show ?thesis unfolding n'
    by (rule put_pool_ok [OF assms(2) mps_add [OF _ a]]) (use assms(3) in \<open>simp add: ve_ok_def\<close>)
qed

lemma Start_ok:
  assumes "nd_Start G n = (n', installed, err)" and n: "node_ok n"
  shows "node_ok n'"
proof (cases "ndRunning n")
  case False
  obtain t e where t: "gt_Start G (ndTransport n) = (t, e)" by fastforce
  have m: "mute t" using t n by (auto simp: gt_Start_def node_ok_def mute_def transport_ok_def split: option.splits)
  show ?thesis
  proof (cases e)
    case None
    let ?n = "put_pool (mp_Start (ndMempool n)) n"
    have "node_ok ?n" by (rule put_pool_ok [OF n mps_start])
    with assms(1) False t None mute_connect [OF m] show ?thesis
      by (auto simp: nd_Start_def Let_def node_ok_def put_pool_def re_Start_def SetBroadcaster_def queueing_wired)
  qed (use assms(1) False t m n in \<open>auto simp: nd_Start_def Let_def node_ok_def\<close>)
qed (use assms in \<open>simp add: nd_Start_def\<close>)

lemma Stop_ok:
  assumes "nd_Stop G n = Ret n'" and n: "node_ok n"
  shows "node_ok n'"
proof (cases "ndRunning n")
  case True
  with assms(1) have d: "\<not> ndDone n" by (auto simp: nd_Stop_def)
  obtain mp t where mp: "mp_Stop (ndMempool n) = Ret mp" and t: "gt_Stop G (ndTransport n) = Ret t"
    using assms(1) True d by (auto simp: nd_Stop_def go_bind_Ret_iff Let_def)
  let ?n = "put_pool mp n"
  have "node_ok ?n" by (rule put_pool_ok [OF n mps_stop [OF mp]])
  moreover have "mute t" using t n by (auto simp: gt_Stop_def node_ok_def mute_def transport_ok_def split: if_splits)
  moreover have "n\<lparr>ndRunning := False, ndDone := True, ndMempool := mp, ndReactor := (re_Stop (ndReactor n))\<lparr>reMempool := mp\<rparr>,
      ndEngine := engine_Stop ((ndEngine n)\<lparr>eMempool := Some mp\<rparr>), ndTransport := t\<rparr> = n'"
    using assms(1) True d mp t by (simp add: nd_Stop_def put_pool_def Let_def)
  ultimately show ?thesis by (auto simp: node_ok_def queueing_wired re_Stop_def)
qed (use assms in \<open>simp add: nd_Stop_def\<close>)

lemma node_step_ok:
  assumes "node_step A S G n n'" and n: "node_ok n"
  shows "node_ok n'"
proof -
  have idle: "broadcast_dequeue (ndReactor n) = None" "broadcast_tick (ndReactor n) = (ndReactor n, [])"
    using idle_reactor n by (simp_all add: node_ok_def)
  have same: "reactor_did (ndReactor n) n = put_pool (ndMempool n) n" using n by (simp add: reactor_did_def node_ok_def)
  from assms(1) show ?thesis
  proof (cases rule: node_step.cases)
    case (ns_message T req e ok)
    then have "e = ndEngine n \<or> (\<exists>m. e = handleIncomingMessage m (ndEngine n))"
      by (auto simp: BroadcastMessage_def split: option.splits if_splits)
    with ns_message(1) n incoming_ok show ?thesis by auto
  next
    case (ns_direct T req e ok)
    then have "e = ndEngine n \<or> (\<exists>m. e = handleIncomingMessage m (ndEngine n))"
      by (auto simp: SendMessage_def split: option.splits if_splits)
    with ns_direct(1) n incoming_ok show ?thesis by auto
  next
    case (ns_engine e)
    have "wired (ndEngine n)" using n by (simp add: node_ok_def)
    from engine_step_wired [OF ns_engine(2) this] show ?thesis unfolding ns_engine(1) by (rule engine_did_ok [OF n])
  next
    case (ns_dequeue r txs)
    then show ?thesis using idle by simp
  next
    case (ns_tick r txs)
    then show ?thesis using idle same put_same_pool [OF n] by (auto simp: gossip_def node_ok_def)
  next
    case (ns_new_tx r)
    then obtain tx mp where "recv_new_tx (ndMempool n) = Some (tx, mp)" "r = (ndReactor n)\<lparr>reMempool := mp\<rparr>"
      using n by (auto simp: receive_new_tx_def node_ok_def split: option.splits)
    then have "n' = put_pool mp n" "mp_step (ndMempool n) mp"
      using ns_new_tx(1) by (simp_all add: reactor_did_def put_pool_def mps_recv)
    then show ?thesis using put_pool_ok [OF n] by simp
  next
    case (ns_submit V tx cl err)
    show ?thesis by (rule SubmitTx_ok [OF ns_submit(2) n ns_submit(1)])
  next
    case (ns_peer_tx V show_err d s x g l err)
    show ?thesis by (rule peer_tx_ok [OF ns_peer_tx(2) n ns_peer_tx(1)])
  next
    case (ns_start installed err)
    show ?thesis by (rule Start_ok [OF ns_start n])
  next
    case ns_stop
    show ?thesis by (rule Stop_ok [OF ns_stop n])
  qed
qed

lemma node_reachable_ok: "node_reachable A S G n0 n \<Longrightarrow> node_ok n0 \<Longrightarrow> node_ok n"
  by (induction rule: node_reachable.induct) (auto intro: node_step_ok)

text \<open>A new node is fit; the pool its constructor makes is the default one.\<close>

lemma default_pool: "NewMempool (Some DefaultMempoolConfig) = NewMempool None"
  by (simp add: NewMempool_def)

lemma NewNode_ok: "NewNode c = Inr n \<Longrightarrow> node_ok n"
  using engine_ok_New good_pool_New
  by (auto simp: NewNode_def assemble_def Let_def node_ok_def wired_def mute_def transport_ok_def default_pool
      NewGRPCTransport_def SetMessageHandler_def NewReactor_def SetMempool_def engine_ok_def view_ok_def pool_ok_def
      checkpoints_ok_def NewEngineV2_def split: option.splits)

text \<open>A transaction just accepted is in the pool.\<close>

lemma accepted_stored:
  assumes "node_ok n" and V: "ve_ok V" and "\<not> mpChClosed (ndMempool n)"
    and a: "AddTxWithMeta (ve_mp V) tx cl x g l (ndMempool n) = Ret (mp, None)"
  obtains D where "mp_ok mp" "new_tx (ve_mp V) tx cl x g l (ndMempool n) \<in># stored mp"
    "add_mset (new_tx (ve_mp V) tx cl x g l (ndMempool n)) (stored (ndMempool n)) = D + stored mp"
    "mpConfig mp = mpConfig (ndMempool n)"
proof -
  have ok: "mp_ok (ndMempool n)"
    using assms(1) by (simp add: node_ok_def wired_def engine_ok_def pool_ok_def good_pool_def)
  have E: "env_ok (ve_mp V)" using V by (simp add: ve_ok_def)
  have run: "mpIsRunning (ndMempool n)" using a by (auto simp: AddTxWithMeta_def split: if_splits)
  from ok E run assms(3) show thesis
  proof (cases rule: AddTx_cases [of "ndMempool n" "ve_mp V" tx cl x g l])
    case (added mp' D)
    with a show thesis by (intro that [of D]) simp_all
  qed (use a in simp_all)
qed

section \<open>An engine that serves its state\<close>

text \<open>The engine keeps the laws of a provider, if someone sets it as one.\<close>

interpretation served: state_source "engine_provider V" "\<lambda>e. ve_ok V \<and> engine_ok e" for V
proof unfold_locales
  fix e :: "('a, 's) Engine" and n c
  assume "ve_ok V \<and> engine_ok e"
  then have "go_wf (eCheckpoints e)" "set (ve_checkpoints V (eCheckpoints e)) = set (eCheckpoints e)"
    by (simp_all add: engine_ok_def checkpoints_ok_def ve_ok_def go_order_set)
  then show "sp_GetCheckpoint (engine_provider V) n e = Some c \<longleftrightarrow>
      c \<in> set (sp_GetCheckpoints (engine_provider V) e) \<and> cpSequenceNum c = n"
    by (auto simp: engine_provider_def GetCheckpoint_def GetCheckpoints_def go_get_Some_iff)
qed (auto simp: engine_provider_def GetBlocksFromHeight_def)

text \<open>
  What a transport serves of its engine. With the engine as provider, the answer to a state
  request holds exactly the committed blocks of at least the height asked for, in order, each with
  its hash, header data and transaction bytes, and every checkpoint it lists is also the answer to
  the request for that checkpoint.
\<close>

theorem served_state_correct:
  assumes "ve_ok V" and "engine_ok e" and "gtProviderSet t"
  shows "map (map_option pbTxs) (ssBlocks (SyncState T (engine_provider V) h t e)) =
      map (\<lambda>b. Some (map txData (bTransactions b))) (filter (\<lambda>b. h \<le> hHeight (bHeader b)) (eCommittedBlocks e)) \<and>
    map (map_option pbHash) (ssBlocks (SyncState T (engine_provider V) h t e)) =
      map (\<lambda>b. Some (bHash b)) (filter (\<lambda>b. h \<le> hHeight (bHeader b)) (eCommittedBlocks e)) \<and>
    (\<forall>k \<in> set (ssCheckpoints (SyncState T (engine_provider V) h t e)).
       gt_GetCheckpoint (engine_provider V) (pkSequenceNum k) t e = Some k)"
  using served.served_checkpoint [of V e t _ T h] assms
  by (simp add: SyncState_def engine_provider_def GetBlocksFromHeight_def typesBlockToProto_def Let_def comp_def)

theorem served_state_correct_witness:
  "map (map_option pbHash) (ssBlocks (SyncState nanos (engine_provider sample_env) 1
     (SetStateProvider two_peers) one_block_engine)) = [Some [1]]"
proof -
  have v: "ve_ok sample_env" by simp
  have p: "gtProviderSet (SetStateProvider two_peers)" by (simp add: SetStateProvider_def)
  have b: "eCommittedBlocks one_block_engine = [raw_block 1 []]" by (simp add: one_block_engine_def)
  from served_state_correct [OF v one_block_engine_facts(1) p, of nanos 1] show ?thesis
    by (simp add: b raw_block_def)
qed

end
