(* ===== verification/Node_Runs.thy ===== *)
theory Node_Runs
  imports Node_Props
begin

text \<open>
  Whole paths through a node: from a client's submission at the primary to the proposal on the
  wire to every peer, the life of a node across stops and restarts, and several nodes in one
  process. The sample nodes of the witnesses are the four default validators.
\<close>

section \<open>From the client to the wire\<close>

lemma put_pool_engine_pool: "eMempool (ndEngine n) = Some mp \<Longrightarrow> ndEngine (put_pool mp n) = ndEngine n"
  by simp

lemma proposed_data [simp]: "map txData (bTransactions (proposed_block V n v txs e)) = txs"
  by (simp add: proposed_block_def Let_def make_transactions_def case_prod_beta comp_def)

text \<open>A batch of at most 500 transactions is the whole pool.\<close>

lemma reap_everything:
  assumes "mp_ok mp" and "env_ok E" and "mcMaxBatchTxs (mpConfig mp) \<ge> 500" and "size (stored mp) \<le> 500"
  obtains txs where "ReapMaxTxs E 500 mp = Ret txs" "mset txs = stored mp"
proof -
  let ?l = "sort_key tTimestamp (map snd (env_range E (mpTxStore mp)))"
  have m: "mset ?l = stored mp" by (rule mset_reaped [OF assms(2)])
  have "length ?l = size (stored mp)" unfolding m [symmetric] by simp
  then have "take (batch_limit 500 mp) ?l = ?l" using assms(3,4) by (simp add: batch_limit_def)
  moreover have "0 \<le> mcMaxBatchTxs (mpConfig mp)" using assms(3) by simp
  ultimately show thesis
    using ReapMaxTxs_eq [OF assms(1), of E 500] m that by fastforce
qed

lemma propose_one:
  assumes "IsInWindow (eSequenceNum e + 1) (eStateLog e)" and "collect_txs V req (e\<lparr>eSequenceNum := eSequenceNum e + 1\<rparr>) = Ret txs"
    and "txs \<noteq> []" and "eTransportSet e"
  shows "\<exists>e' b. proposeBlock noop_adapter V req e = Ret e' \<and> map txData (bTransactions b) = txs \<and>
    eOut e' = eOut e @ [proposal V (eView e) (eSequenceNum e + 1) (cfNodeID (eConfig e)) b]"
proof -
  let ?e = "e\<lparr>eSequenceNum := eSequenceNum e + 1\<rparr>"
  let ?b = "proposed_block V (eSequenceNum e + 1) (eView e) txs ?e"
  have "proposeBlock noop_adapter V req e = Ret (issue_proposal V (eSequenceNum e + 1) (eView e) txs ?e)"
    using assms(1-3) by (simp add: proposeBlock_def Let_def propose_txs_def noop.prepare_as_is)
  then show ?thesis using assms(4)
    by (intro exI [of _ "issue_proposal V (eSequenceNum e + 1) (eView e) txs ?e"] exI [of _ ?b])
      (simp add: issue_proposal_sends)
qed

text \<open>
  C33. A transaction submitted at the primary reaches every peer in a proposal. Take a node that
  \<open>NewNode\<close> built, in any reachable state, primary of its view, with room in its pool for one
  batch, no request waiting and its next number in the window. When \<open>SubmitTx\<close> accepts a
  transaction, the engine finds the request at its next turn and proposes a block that contains
  the transaction, and the transport sends that proposal to every connected peer.
\<close>

theorem primary_proposes_transaction:
  assumes "NewNode c = Inr n0" and "node_reachable noop_adapter S G n0 n" and "ve_ok V" and "go_order (ge_peers G)"
    and "\<not> mpChClosed (ndMempool n)" and "isPrimary (ndEngine n) = Ret True" and "eTransportSet (ndEngine n)"
    and "eRequestChan (ndEngine n) = []" and "IsInWindow (eSequenceNum (ndEngine n) + 1) (eStateLog (ndEngine n))"
    and "mp_Size (ndMempool n) < 500" and "500 \<le> mcMaxBatchTxs (mpConfig (ndMempool n))"
    and "nd_SubmitTx V tx cl n = Ret (n', None)"
  shows "\<exists>e b. run_request noop_adapter V (ndEngine n') = Some (Ret e) \<and> tx \<in> txData ` set (bTransactions b) \<and>
    (\<forall>p \<in> set (gtPeers (ndTransport n)).
       (pcConn (snd p), rpc_BroadcastMessage (messageToProto (ge_ts G) (proposal V (eView (ndEngine n))
          (eSequenceNum (ndEngine n) + 1) (cfNodeID (eConfig (ndEngine n))) b)))
       \<in> set (gtSent (ndTransport (engine_did G e n'))))"
proof -
  have ok: "node_ok n" by (rule node_reachable_ok [OF assms(2) NewNode_ok [OF assms(1)]])
  have E: "env_ok (ve_mp V)" using assms(3) by (simp add: ve_ok_def)
  obtain mp r where a: "AddTxWithMeta (ve_mp V) tx cl 0 0 0 (ndMempool n) = Ret (mp, r)"
    using assms(12) by (auto simp: nd_SubmitTx_def go_bind_Ret_iff)
  let ?e0 = "(ndEngine n)\<lparr>eMempool := Some mp\<rparr>"
  let ?req = "\<lparr>rqOperation = tx, rqTimestamp = ve_now V, rqClientID = cl\<rparr>"
  have prim: "isPrimary ?e0 = Ret True" using assms(6) by (simp add: isPrimary_def)
  have r: "r = None" using assms(12) a by (cases r) (simp_all add: nd_SubmitTx_def Let_def)
  have n': "n' = (put_pool mp n)\<lparr>ndEngine := ?e0\<lparr>eRequestChan := [?req]\<rparr>\<rparr>"
    using assms(8,12) a r prim by (simp add: nd_SubmitTx_def Let_def SubmitRequest_def chan_cap_def)
  obtain D where mp: "mp_ok mp" "new_tx (ve_mp V) tx cl 0 0 0 (ndMempool n) \<in># stored mp"
    "add_mset (new_tx (ve_mp V) tx cl 0 0 0 (ndMempool n)) (stored (ndMempool n)) = D + stored mp"
    "mpConfig mp = mpConfig (ndMempool n)"
    by (rule accepted_stored [OF ok assms(3,5) a [unfolded r]])
  have "mp_ok (ndMempool n)" using ok by (simp add: node_ok_def wired_def engine_ok_def pool_ok_def good_pool_def)
  then have "size (stored (ndMempool n)) < 500" using assms(10) by (simp add: mp_ok_def mp_Size_def)
  moreover have "Suc (size (stored (ndMempool n))) = size D + size (stored mp)"
    using arg_cong [OF mp(3), of size] by simp
  ultimately have "size (stored mp) \<le> 500" by linarith
  then obtain txs where txs: "ReapMaxTxs (ve_mp V) 500 mp = Ret txs" "mset txs = stored mp"
    using reap_everything [OF mp(1) E] assms(11) mp(4) by metis
  have in_txs: "new_tx (ve_mp V) tx cl 0 0 0 (ndMempool n) \<in> set txs" using mp(2) txs(2) by (metis set_mset_mset)
  then have ne: "map tData txs \<noteq> []" by auto
  have "tData (new_tx (ve_mp V) tx cl 0 0 0 (ndMempool n)) = tx"
    by (simp add: new_tx_def NewTxWithMeta_def NewTx_def Let_def)
  with in_txs have tx: "tx \<in> set (map tData txs)" by (metis image_eqI list.set_map)
  let ?e1 = "?e0\<lparr>eRequestChan := []\<rparr>"
  have "collect_txs V (Some ?req) (?e1\<lparr>eSequenceNum := eSequenceNum ?e1 + 1\<rparr>) = Ret (map tData txs)"
    using txs(1) ne by (simp add: collect_txs_def)
  from propose_one [OF _ this ne] assms(7,9) obtain e b where p: "proposeBlock noop_adapter V (Some ?req) ?e1 = Ret e"
    "map txData (bTransactions b) = map tData txs"
    "eOut e = eOut ?e1 @ [proposal V (eView ?e1) (eSequenceNum ?e1 + 1) (cfNodeID (eConfig ?e1)) b]" by auto
  let ?m = "proposal V (eView (ndEngine n)) (eSequenceNum (ndEngine n) + 1) (cfNodeID (eConfig (ndEngine n))) b"
  have prim1: "isPrimary ?e1 = Ret True" using assms(6) by (simp add: isPrimary_def)
  have "run_request noop_adapter V (ndEngine n') = Some (Ret e)"
    using p(1) prim1 by (simp add: n' run_request_def Let_def)
  moreover have "tx \<in> txData ` set (bTransactions b)" using tx unfolding p(2) [symmetric] by simp
  moreover have "ndTransport (engine_did G e n') = fst (gt_Broadcast G ?m (ndTransport n))"
    using p(3) by (simp add: engine_did_def Let_def n' split: option.split)
  moreover have "\<forall>q \<in> set (gtPeers (ndTransport n)). (pcConn (snd q), rpc_BroadcastMessage (messageToProto (ge_ts G) ?m))
      \<in> set (gtSent (fst (gt_Broadcast G ?m (ndTransport n))))"
    using go_order_set [OF assms(4)] by (auto simp: gt_Broadcast_def call_peers_result)
  ultimately show ?thesis by (intro exI [of _ e] exI [of _ b]) simp
qed

text \<open>The default validators as nodes, connected to \<open>node1\<close> and \<open>node2\<close>.\<close>

definition node_config :: "string \<Rightarrow> NodeConfig" where
  "node_config i = node_DefaultConfig\<lparr>ncNodeID := i, ncValidators := createDefaultValidators,
     ncPeers := [''node1@host1'', ''node2@host2'', ''nonsense'']\<rparr>"

definition new_node :: "string \<Rightarrow> (NoopABCIAdapter, MemoryStore, string, int) Node" where
  "new_node i = assemble (node_config i) NewNoopABCIAdapter"

definition started :: "string \<Rightarrow> (NoopABCIAdapter, MemoryStore, string, int) Node" where
  "started i = fst (nd_Start half_down (new_node i))"

lemma NewNode_sample: "i \<noteq> [] \<Longrightarrow> NewNode (node_config i) = Inr (new_node i)"
  by (simp add: NewNode_def Validate_def new_node_def node_config_def node_DefaultConfig_def createDefaultValidators_def)

lemma new_node_fields:
  "ndConfig (new_node i) = node_config i" "\<not> ndRunning (new_node i)" "\<not> ndDone (new_node i)"
  "ndMempool (new_node i) = NewMempool None" "ndReactor (new_node i) = NewReactor (NewMempool None) (Some DefaultReactorConfig)"
  "ndTransport (new_node i) = (NewGRPCTransport i ''0.0.0.0:26656'')\<lparr>gtHandlerSet := True\<rparr>"
  "ndEngine (new_node i) = SetMempool (NewMempool None) (fresh_engine NewNoopABCIAdapter i)"
  by (simp_all add: new_node_def assemble_def Let_def default_pool SetMessageHandler_def fresh_engine_def
      node_config_def node_DefaultConfig_def engine_config_def DefaultConfig_def)

lemma half_down_starts: "gt_Start half_down t = (t\<lparr>gtListening := True, gtServer := True, gtRunning := True\<rparr>, None)"
  by (simp add: gt_Start_def half_down_def)

lemma half_down_dials: "ge_dial half_down a = Inr a"
  by (simp add: half_down_def)

lemma nd_Start_half_down:
  "nd_Start half_down (new_node i) = (started i, True, None)"
  by (simp add: started_def nd_Start_def new_node_fields half_down_starts Let_def)

lemma started_fields [simp]:
  "ndRunning (started i)" "\<not> ndDone (started i)" "ndMempool (started i) = mp_Start (NewMempool None)"
  "ndEngine (started i) = engine_Start ((fresh_engine NewNoopABCIAdapter i)\<lparr>eMempool := Some (mp_Start (NewMempool None))\<rparr>)"
  by (simp_all add: started_def nd_Start_def new_node_fields half_down_starts Let_def put_pool_def SetMempool_def)

lemma started_peers: "map fst (gtPeers (ndTransport (started ''node0''))) = [''node1'', ''node2'']"
  by (simp add: started_def nd_Start_def new_node_fields half_down_starts Let_def NewGRPCTransport_def
      node_config_def node_DefaultConfig_def connect_peer_def split_peer_def AddPeer_def half_down_dials)

lemma started_reachable: "node_reachable A S half_down (new_node i) (started i)"
  by (rule nr_step [OF nr_init ns_start [OF nd_Start_half_down]])

lemma node_ok_started [simp]: "i \<noteq> [] \<Longrightarrow> node_ok (started i)"
  by (rule node_reachable_ok [OF started_reachable NewNode_ok [OF NewNode_sample]])

lemma started_primary [simp]:
  "isPrimary (ndEngine (started i)) = Ret (''node0'' = i)" "eTransportSet (ndEngine (started i))"
  "eRequestChan (ndEngine (started i)) = []" "IsInWindow 1 (eStateLog (ndEngine (started i)))"
  "eSequenceNum (ndEngine (started i)) = 0" "eView (ndEngine (started i)) = 0"
  "cfNodeID (eConfig (ndEngine (started i))) = i"
  using fresh_engine_facts(1) [of NewNoopABCIAdapter i]
  by (simp_all add: isPrimary_def getPrimaryID_def engine_Start_def resetViewChangeTimer_def)
    (simp_all add: fresh_engine_def NewEngineV2_def DefaultConfig_def)

text \<open>A running pool with nothing in it takes a small transaction.\<close>

lemma fresh_pool_facts:
  "mpConfig (mp_Start (NewMempool None)) = DefaultMempoolConfig" "mpIsRunning (mp_Start (NewMempool None))"
  "\<not> mpChClosed (mp_Start (NewMempool None))" "stored (mp_Start (NewMempool None)) = {#}"
  "mp_ok (mp_Start (NewMempool None))" "mp_Size (mp_Start (NewMempool None)) = 0"
  by (simp_all add: mp_Start_def mp_ok_def) (simp_all add: NewMempool_def stored_def mp_Size_def bytes_of_def index_ok_def)

lemma fresh_pool_admits:
  assumes "env_ok E"
  shows "\<exists>mp. AddTxWithMeta E [1, 2] cl 0 0 0 (mp_Start (NewMempool None)) = Ret (mp, None)"
proof -
  let ?mp = "mp_Start (NewMempool None)"
  have adm: "admission_error E [1, 2] cl 0 0 0 ?mp = None"
    by (simp add: admission_error_def HasTx_def checkNonce_def mp_Start_def NewMempool_def DefaultMempoolConfig_def)
  from fresh_pool_facts(5) assms fresh_pool_facts(2,3) show ?thesis
  proof (cases rule: AddTx_cases [of ?mp E "[1, 2]" cl 0 0 0])
    case (full mp' D)
    then have "stored mp' = {#}" using fresh_pool_facts(4) by simp
    with mp_ok_empty [OF full(3)] full(8) show ?thesis by (simp add: fresh_pool_facts(1) DefaultMempoolConfig_def)
  qed (use adm in auto)
qed

lemma started_accepts:
  assumes "i \<noteq> []" and "ve_ok V"
  shows "\<exists>n. nd_SubmitTx V [1, 2] cl (started i) = Ret (n, None)"
proof -
  from assms(2) have "env_ok (ve_mp V)" by (simp add: ve_ok_def)
  from fresh_pool_admits [OF this, of cl] obtain mp where
    "AddTxWithMeta (ve_mp V) [1, 2] cl 0 0 0 (mp_Start (NewMempool None)) = Ret (mp, None)" by blast
  moreover have "isPrimary (ndEngine (put_pool mp (started i))) = Ret (''node0'' = i)"
    using started_primary(1) [of i] by (simp add: isPrimary_def)
  moreover have "eRequestChan (ndEngine (put_pool mp (started i))) = []"
    using started_primary(3) [of i] by simp
  ultimately show ?thesis by (simp add: nd_SubmitTx_def Let_def SubmitRequest_def chan_cap_def)
qed

theorem primary_proposes_transaction_witness:
  "\<exists>n e b. nd_SubmitTx sample_env [1, 2] ''client'' (started ''node0'') = Ret (n, None) \<and>
     run_request noop_adapter sample_env (ndEngine n) = Some (Ret e) \<and> [1, 2] \<in> txData ` set (bTransactions b) \<and>
     (\<forall>p \<in> set (gtPeers (ndTransport (started ''node0''))).
        (pcConn (snd p), rpc_BroadcastMessage (messageToProto nanos (proposal sample_env 0 1 ''node0'' b)))
        \<in> set (gtSent (ndTransport (engine_did half_down e n)))) \<and>
     length (gtPeers (ndTransport (started ''node0''))) = 2"
proof -
  obtain n where n: "nd_SubmitTx sample_env [1, 2] ''client'' (started ''node0'') = Ret (n, None)"
    using started_accepts [of "''node0''" sample_env] by auto
  have two: "length (gtPeers (ndTransport (started ''node0''))) = 2" using arg_cong [OF started_peers, of length] by simp
  have ts: "ge_ts half_down = nanos" "go_order (ge_peers half_down)" by (simp_all add: half_down_def)
  have pool: "\<not> mpChClosed (ndMempool (started ''node0''))" "mp_Size (ndMempool (started ''node0'')) < 500"
    "500 \<le> mcMaxBatchTxs (mpConfig (ndMempool (started ''node0'')))"
    by (simp_all add: fresh_pool_facts DefaultMempoolConfig_def)
  have prim: "isPrimary (ndEngine (started ''node0'')) = Ret True" unfolding started_primary(1) by simp
  have win: "IsInWindow (eSequenceNum (ndEngine (started ''node0'')) + 1) (eStateLog (ndEngine (started ''node0'')))"
    unfolding started_primary(5) by (simp del: started_fields)
  from primary_proposes_transaction [OF NewNode_sample started_reachable _ ts(2) pool(1) prim started_primary(2,3)
      win pool(2,3) n]
  show ?thesis using n two unfolding ts(1) started_primary(5-7) by auto
qed

section \<open>What a node guarantees, and what it never does\<close>

text \<open>
  In every run of a node that \<open>NewNode\<close> built the engine, the reactor and the node see the
  same pool, the pool respects its configured limits and the engine keeps its invariant, whatever
  clients, peers and the clock do, and across stops and restarts that return.
\<close>

lemma node_invariant:
  assumes "NewNode c = Inr n0" and "node_reachable A S G n0 n"
  shows "eMempool (ndEngine n) = Some (ndMempool n) \<and> reMempool (ndReactor n) = ndMempool n \<and>
    good_pool (ndMempool n) \<and> engine_ok (ndEngine n) \<and> transport_ok (ndTransport n)"
proof -
  have "node_ok n" by (rule node_reachable_ok [OF assms(2) NewNode_ok [OF assms(1)]])
  then show ?thesis by (simp add: node_ok_def wired_def mute_def engine_ok_def pool_ok_def)
qed

text \<open>
  C34. A node never gossips, never serves its state and never stores a block. Whatever its clients
  submit, the only remote calls it makes carry consensus messages: the queue of the reactor stays
  empty, because \<open>SubmitTx\<close> adds to the pool without the reactor; its transport answers every
  state request with no blocks, because no provider is set; and its engine has no store, so that
  saving a block and recovering do nothing.
\<close>

theorem node_never_gossips:
  assumes "NewNode c = Inr n0" and "node_reachable A S G n0 n"
  shows "(\<forall>x \<in> set (gtSent (ndTransport n)). \<exists>m. snd x = rpc_BroadcastMessage m) \<and>
    broadcast_dequeue (ndReactor n) = None \<and> broadcast_tick (ndReactor n) = (ndReactor n, []) \<and>
    SyncState T P h (ndTransport n) w = \<lparr>ssBlocks = [], ssCheckpoints = []\<rparr> \<and>
    saveBlockToStore S b (ndEngine n) = (ndEngine n, None) \<and> Recover S (ndEngine n) = Ret (ndEngine n, None)"
proof -
  have "node_ok n" by (rule node_reachable_ok [OF assms(2) NewNode_ok [OF assms(1)]])
  then show ?thesis
    by (simp add: node_ok_def wired_def mute_def idle_reactor SyncState_def saveBlockToStore_def Recover_def)
qed

theorem node_never_gossips_witness:
  "broadcast_dequeue (ndReactor (started ''node0'')) = None \<and>
     SyncState nanos (engine_provider sample_env) 0 (ndTransport (started ''node0'')) (ndEngine (started ''node0'')) =
       \<lparr>ssBlocks = [], ssCheckpoints = []\<rparr>"
proof -
  have "NewNode (node_config ''node0'') = Inr (new_node ''node0'')" by (rule NewNode_sample) simp
  note g = node_never_gossips [OF this started_reachable [of noop_adapter "memory_store rev"]]
  show ?thesis
    by (intro conjI) (rule g [THEN conjunct2, THEN conjunct1],
        rule g [THEN conjunct2, THEN conjunct2, THEN conjunct2, THEN conjunct1])
qed

text \<open>
  A transaction accepted by a node that is not the primary stays there: the client is told of
  success and the transaction is in the pool, but nothing is sent to any peer, nothing is queued
  for gossip and the engine of the node is given no request.
\<close>

theorem backup_keeps_transaction:
  assumes "node_ok n" and "ve_ok V" and "\<not> mpChClosed (ndMempool n)" and "isPrimary (ndEngine n) = Ret False"
    and "nd_SubmitTx V tx cl n = Ret (n', None)"
  shows "HasTx (computeTxHash tx) (ndMempool n') \<and> ndTransport n' = ndTransport n \<and>
    reQueue (ndReactor n') = [] \<and> ndEngine n' = (ndEngine n)\<lparr>eMempool := Some (ndMempool n')\<rparr>"
proof -
  obtain mp r where a: "AddTxWithMeta (ve_mp V) tx cl 0 0 0 (ndMempool n) = Ret (mp, r)"
    using assms(5) by (auto simp: nd_SubmitTx_def go_bind_Ret_iff)
  have p: "isPrimary (ndEngine (put_pool mp n)) = Ret False"
    using assms(4) by (simp add: isPrimary_def)
  have r: "r = None" and n': "n' = put_pool mp n"
    using assms(5) a p by (cases r; simp add: nd_SubmitTx_def Let_def)+
  from accepted_stored [OF assms(1-3) a [unfolded r]] obtain
    "mp_ok mp" "new_tx (ve_mp V) tx cl 0 0 0 (ndMempool n) \<in># stored mp" by blast
  from stored_unique [OF this] have "HasTx (computeTxHash tx) mp" by (simp add: HasTx_def computeTxHash_def)
  with assms(1) show ?thesis by (simp add: n' node_ok_def)
qed

theorem backup_keeps_transaction_witness:
  "\<exists>n. nd_SubmitTx sample_env [1, 2] ''client'' (started ''node1'') = Ret (n, None) \<and>
     HasTx (computeTxHash [1, 2]) (ndMempool n) \<and> ndTransport n = ndTransport (started ''node1'')"
proof -
  obtain n where n: "nd_SubmitTx sample_env [1, 2] ''client'' (started ''node1'') = Ret (n, None)"
    using started_accepts [of "''node1''" sample_env] by auto
  have ch: "\<not> mpChClosed (ndMempool (started ''node1''))" by (simp add: fresh_pool_facts)
  have b: "isPrimary (ndEngine (started ''node1'')) = Ret False" unfolding started_primary(1) by simp
  from backup_keeps_transaction [OF node_ok_started _ ch b n] n show ?thesis by auto
qed


section \<open>Stopping and starting\<close>

text \<open>
  C30. A node cannot be restarted. Take any run of a node that \<open>NewNode\<close> built, and stop it while
  it is running, with a running pool that has room for a transaction. \<open>Start\<close> reports success
  again, but neither the pool's notification channel, nor the node's \<open>done\<close> channel, nor the
  engine's context is made anew: the first transaction the pool admits panics, whether a client or
  a peer sends it, so does the next \<open>Stop\<close>, and the loop of the engine ends at its first
  \<open>ctx.Done()\<close> case without having changed anything.
\<close>

theorem restarted_node_panics:
  assumes "NewNode c = Inr n0" and "node_reachable A S G n0 n" and "ndRunning n" and "mpIsRunning (ndMempool n)" and "nd_Stop G n = Ret n1"
    and "ge_listen G (gtAddress (ndTransport n)) = None" and "env_ok (ve_mp V)"
    and "mp_Size (ndMempool n) < mcMaxTxs (mpConfig (ndMempool n))"
    and "SizeBytes (ndMempool n) + int (length tx) \<le> mcMaxBytes (mpConfig (ndMempool n))"
  shows "\<exists>n2. nd_Start G n1 = (n2, True, None) \<and> ndRunning n2 \<and> nd_Stop G n2 = Panic Closed_Channel \<and>
    (admission_error (ve_mp V) tx cl 0 0 0 (ndMempool n2) = None \<longrightarrow> nd_SubmitTx V tx cl n2 = Panic Closed_Channel) \<and>
    (admission_error (ve_mp V) tx [] 0 0 0 (ndMempool n2) = None \<longrightarrow>
       node_tx_handler show_err V tx [] 0 0 0 n2 = Panic Closed_Channel) \<and>
    engine_run A S V (Run_Done # evs) (ndEngine n2) = Ret (ndEngine n2, True)"
proof -
  have "node_ok n" by (rule node_reachable_ok [OF assms(2) NewNode_ok [OF assms(1)]])
  then have ok: "mp_ok (ndMempool n)" by (simp add: node_ok_def wired_def engine_ok_def pool_ok_def good_pool_def)
  have d: "\<not> ndDone n" using assms(3,5) by (auto simp: nd_Stop_def)
  obtain mp t where mp: "mp_Stop (ndMempool n) = Ret mp" and t: "gt_Stop G (ndTransport n) = Ret t"
    using assms(3,5) d by (auto simp: nd_Stop_def go_bind_Ret_iff Let_def)
  have n1: "\<not> ndRunning n1" "ndDone n1" "ndMempool n1 = mp" "ndTransport n1 = t" "eStopped (ndEngine n1)"
    using assms(3,5) d mp t by (auto simp: nd_Stop_def put_pool_def engine_Stop_def Let_def)
  have "ge_listen G (gtAddress t) = None" using t assms(6) by (auto simp: gt_Stop_def split: if_splits)
  then obtain n2 where n2: "nd_Start G n1 = (n2, True, None)" "ndRunning n2" "ndDone n2" "ndMempool n2 = mp_Start mp"
    "eStopped (ndEngine n2)"
    using n1 by (simp add: nd_Start_def gt_Start_def engine_Start_def resetViewChangeTimer_def Let_def put_pool_def)
  note panic = restarted_pool_panics [OF ok assms(7,4) mp _ assms(8,9)]
  have "nd_Stop G n2 = Panic Closed_Channel" using n2(2,3) by (simp add: nd_Stop_def)
  moreover have "nd_SubmitTx V tx cl n2 = Panic Closed_Channel"
    if "admission_error (ve_mp V) tx cl 0 0 0 (ndMempool n2) = None"
    using panic [OF that [unfolded n2(4)]] by (simp add: nd_SubmitTx_def n2(4))
  moreover have "node_tx_handler show_err V tx [] 0 0 0 n2 = Panic Closed_Channel"
    if "admission_error (ve_mp V) tx [] 0 0 0 (ndMempool n2) = None"
    using panic [OF that [unfolded n2(4)]] by (simp add: node_tx_handler_def n2(4))
  moreover have "engine_run A S V (Run_Done # evs) (ndEngine n2) = Ret (ndEngine n2, True)" using n2(5) by simp
  ultimately show ?thesis using n2(1,2) by (intro exI [of _ n2]) blast
qed

theorem restarted_node_panics_witness:
  "\<exists>n1 n2. nd_Stop half_down (started ''node0'') = Ret n1 \<and> nd_Start half_down n1 = (n2, True, None) \<and>
     nd_Stop half_down n2 = Panic Closed_Channel \<and>
     engine_run noop_adapter (memory_store rev) sample_env [Run_Done] (ndEngine n2) = Ret (ndEngine n2, True)"
proof -
  have "\<not> mpChClosed (mp_Start (NewMempool None))" "mpIsRunning (mp_Start (NewMempool None))"
    by (simp_all add: fresh_pool_facts)
  moreover have "\<not> gtDone (ndTransport (started ''node0''))"
    by (simp add: started_def nd_Start_def new_node_fields half_down_starts Let_def NewGRPCTransport_def
        node_config_def node_DefaultConfig_def connect_peer_def split_peer_def AddPeer_def half_down_dials)
  ultimately obtain n1 where n1: "nd_Stop half_down (started ''node0'') = Ret n1"
    by (simp add: nd_Stop_def Let_def mp_Stop_def gt_Stop_def)
  have l: "ge_listen half_down a = None" for a by (simp add: half_down_def)
  have sz: "mp_Size (ndMempool (started ''node0'')) < mcMaxTxs (mpConfig (ndMempool (started ''node0'')))"
    "SizeBytes (ndMempool (started ''node0'')) + int (length [1 :: byte]) \<le> mcMaxBytes (mpConfig (ndMempool (started ''node0'')))"
    using mp_ok_empty [OF fresh_pool_facts(5,4)]
    by (simp_all add: fresh_pool_facts(1) mp_Size_def SizeBytes_def DefaultMempoolConfig_def)
  have run: "mpIsRunning (ndMempool (started ''node0''))" by (simp add: fresh_pool_facts)
  have E: "env_ok (ve_mp sample_env)" by (simp add: sample_env_def)
  have new: "NewNode (node_config ''node0'') = Inr (new_node ''node0'')" by (rule NewNode_sample) simp
  from restarted_node_panics [OF new started_reachable [of noop_adapter "memory_store rev"] started_fields(1) run n1 l E sz]
  obtain n2 where "nd_Start half_down n1 = (n2, True, None)" "nd_Stop half_down n2 = Panic Closed_Channel"
    "engine_run noop_adapter (memory_store rev) sample_env [Run_Done] (ndEngine n2) = Ret (ndEngine n2, True)" by blast
  with n1 show ?thesis by blast
qed

text \<open>A node whose listener fails is marked as running all the same, and no later \<open>Start\<close> can help.\<close>

lemma failed_start_is_final:
  assumes "\<not> ndRunning n" and "ge_listen G (gtAddress (ndTransport n)) = Some err"
  shows "\<exists>n' e. nd_Start G n = (n', False, Some e) \<and> nd_Start G' n' = (n', False, Some ''node already running'')"
  using assms by (simp add: nd_Start_def gt_Start_def Let_def)

section \<open>Several nodes in a process\<close>

text \<open>
  The handler of incoming transactions is shared by all the nodes of a process: after node
  \<open>j\<close> and then node \<open>k\<close> have started, a transaction that a peer sends to \<open>j\<close> goes to the pool of
  \<open>k\<close>, and the answer \<open>j\<close> gives is that of \<open>k\<close>'s pool.
\<close>

theorem handler_is_shared:
  assumes "proc_Start G1 j p = (p1, None)" and "proc_Start G2 k p1 = (p2, None)" and "j \<noteq> k"
    and "tmFromNode tx \<noteq> gtNodeID (ndTransport (prNodes p2 j))"
    and "AddTxWithMeta (ve_mp V) (tmTxData tx) (tmSender tx) (tmNonce tx) (tmGasPrice tx) (tmGasLimit tx)
      (ndMempool (prNodes p2 k)) = Ret (mp, err)"
  shows "\<exists>p3 resp. proc_BroadcastTx show_err V j (Some tx) p2 = Ret (p3, resp) \<and>
    prNodes p3 = (prNodes p2)(k := put_pool mp (prNodes p2 k)) \<and> prNodes p3 j = prNodes p2 j \<and>
    (btSuccess resp \<longleftrightarrow> err = None)"
proof -
  obtain n b e where s: "nd_Start G2 (prNodes p1 k) = (n, b, e)" by (cases "nd_Start G2 (prNodes p1 k)")
  then have "b \<longleftrightarrow> e = None" by (auto simp: nd_Start_def Let_def split: if_splits prod.splits option.splits)
  with s assms(2) have "prHandler p2 = Some k" by (auto simp: proc_Start_def)
  then show ?thesis using assms(3-5)
    by (cases err) (simp_all add: proc_BroadcastTx_def proc_handler_def BroadcastTx_def node_tx_handler_def)
qed

definition sample_tx :: "int TxMessage" where
  "sample_tx = \<lparr>tmTxData = [1, 2], tmTxHash = [], tmSender = [], tmNonce = 0, tmGasPrice = 0, tmGasLimit = 0,
     tmTimestamp = None, tmFromNode = ''peer''\<rparr>"

definition sample_proc :: "(NoopABCIAdapter, MemoryStore, string, int) Proc" where
  "sample_proc = \<lparr>prNodes = (\<lambda>i. new_node (if i = 0 then ''node0'' else ''node1'')), prHandler = None\<rparr>"

theorem handler_is_shared_witness:
  "\<exists>p1 p2 p3 resp. proc_Start half_down 0 sample_proc = (p1, None) \<and> proc_Start half_down 1 p1 = (p2, None) \<and>
     proc_BroadcastTx (\<lambda>e. []) sample_env 0 (Some sample_tx) p2 = Ret (p3, resp) \<and>
     prNodes p3 0 = prNodes p2 0 \<and> btSuccess resp"
proof -
  let ?p1 = "sample_proc\<lparr>prNodes := (prNodes sample_proc)(0 := started ''node0''), prHandler := Some 0\<rparr>"
  let ?p2 = "?p1\<lparr>prNodes := (prNodes ?p1)(1 := started ''node1''), prHandler := Some 1\<rparr>"
  have p1: "proc_Start half_down 0 sample_proc = (?p1, None)"
    by (simp add: proc_Start_def sample_proc_def nd_Start_half_down)
  have p2: "proc_Start half_down 1 ?p1 = (?p2, None)"
    by (simp add: proc_Start_def sample_proc_def nd_Start_half_down)
  have i: "gtNodeID (ndTransport (prNodes ?p2 0)) = ''node0''"
    by (simp add: started_def nd_Start_def new_node_fields half_down_starts Let_def NewGRPCTransport_def
        node_config_def node_DefaultConfig_def connect_peer_def split_peer_def AddPeer_def half_down_dials)
  have f: "tmFromNode sample_tx \<noteq> gtNodeID (ndTransport (prNodes ?p2 0))" unfolding i by (simp add: sample_tx_def)
  have "env_ok (ve_mp sample_env)" by (simp add: sample_env_def)
  from fresh_pool_admits [OF this, of "[]"] obtain mp where
    "AddTxWithMeta (ve_mp sample_env) [1, 2] [] 0 0 0 (mp_Start (NewMempool None)) = Ret (mp, None)" by blast
  then have a: "AddTxWithMeta (ve_mp sample_env) (tmTxData sample_tx) (tmSender sample_tx) (tmNonce sample_tx)
      (tmGasPrice sample_tx) (tmGasLimit sample_tx) (ndMempool (prNodes ?p2 1)) = Ret (mp, None)"
    by (simp add: sample_tx_def)
  have ne: "(0 :: nat) \<noteq> 1" by simp
  from handler_is_shared [OF p1 p2 ne f a, of "\<lambda>e. []"] p1 p2 show ?thesis by blast
qed

end
