(* ===== verification/Metrics.thy ===== *)
theory Metrics
  imports Messages
begin

text \<open>
  \<open>metrics/prometheus.go\<close>, and the places of \<open>engine_v2.go\<close> that call it. The collectors belong to
  the Prometheus library: what the code tells them is recorded as a list of calls, in the order
  they are made, and the registry they are registered with is a parameter. Times are nanoseconds;
  the conversion of a duration to floating-point seconds is part of the recorded call.
\<close>

section \<open>The collectors\<close>

datatype collector_kind =
    Counter
  | Gauge
  | Histogram nat nat
  | CounterVec "string list"
  | HistogramVec nat nat "string list"

text \<open>
  A histogram has exponential buckets: the first bound, in microseconds, doubled a number of times.
\<close>

record collector =
  clKind :: collector_kind
  clNamespace :: string
  clName :: string
  clHelp :: string

definition collectors :: "string \<Rightarrow> collector list" where
  "collectors namespace = map (\<lambda>(kind, name, help). \<lparr>clKind = kind, clNamespace = namespace, clName = name, clHelp = help\<rparr>)
     [(Counter, ''consensus_rounds_total'', ''Total number of consensus rounds completed''),
      (Histogram 1000 15, ''consensus_duration_seconds'', ''Duration of consensus rounds in seconds''),
      (Gauge, ''block_height'', ''Current block height''),
      (Gauge, ''current_view'', ''Current view number''),
      (CounterVec [''type''], ''messages_sent_total'', ''Total number of messages sent by type''),
      (CounterVec [''type''], ''messages_received_total'', ''Total number of messages received by type''),
      (HistogramVec 100 12 [''type''], ''message_processing_seconds'', ''Time to process messages by type''),
      (Counter, ''view_changes_total'', ''Total number of view changes''),
      (Histogram 1000 12, ''block_execution_seconds'', ''Time to execute blocks in seconds''),
      (Counter, ''transactions_total'', ''Total number of transactions processed''),
      (Gauge, ''tps'', ''Current transactions per second'')]"

text \<open>
  \<open>prometheus.MustRegister\<close> registers one collector after the other and panics at the first that the
  registry refuses; \<open>register\<close> is \<open>Registry.Register\<close> of the library, \<open>None\<close> its error.
\<close>

fun MustRegister :: "(collector \<Rightarrow> 'r \<Rightarrow> 'r option) \<Rightarrow> collector list \<Rightarrow> 'r \<Rightarrow> 'r go" where
  "MustRegister register [] r = Ret r"
| "MustRegister register (c # cs) r =
     (case register c r of None \<Rightarrow> Panic Explicit_Panic | Some r \<Rightarrow> MustRegister register cs r)"

section \<open>State and operations\<close>

text \<open>What a collector is told: observations and the gauge \<open>tps\<close> carry nanoseconds.\<close>

datatype metric_call =
    Inc_Rounds
  | Observe_Round int
  | Set_Height u64
  | Set_View u64
  | Inc_Sent string
  | Inc_Received string
  | Observe_Processing string int
  | Inc_View_Changes
  | Observe_Execution int
  | Add_Transactions int
  | Set_TPS "64 word" int

record Metrics =
  mtRoundStartTimes :: "(u64, gotime) gomap"
  mtTxCount :: "64 word"
  mtLastTpsUpdate :: gotime
  mtCalls :: "metric_call list"

definition tell :: "metric_call list \<Rightarrow> Metrics \<Rightarrow> Metrics" where
  "tell cs m = m\<lparr>mtCalls := mtCalls m @ cs\<rparr>"

definition NewMetrics ::
  "(collector \<Rightarrow> 'r \<Rightarrow> 'r option) \<Rightarrow> string \<Rightarrow> gotime \<Rightarrow> 'r \<Rightarrow> ('r \<times> Metrics) go" where
  "NewMetrics register namespace now r =
     (let m = \<lparr>mtRoundStartTimes = [], mtTxCount = 0, mtLastTpsUpdate = now, mtCalls = []\<rparr>
      in go_bind (MustRegister register (collectors namespace) r) (\<lambda>r. Ret (r, m)))"

definition StartConsensusRound :: "gotime \<Rightarrow> u64 \<Rightarrow> Metrics \<Rightarrow> Metrics" where
  "StartConsensusRound now seqNum m = m\<lparr>mtRoundStartTimes := go_put seqNum now (mtRoundStartTimes m)\<rparr>"

definition EndConsensusRound :: "gotime \<Rightarrow> u64 \<Rightarrow> Metrics \<Rightarrow> Metrics" where
  "EndConsensusRound now seqNum m =
     (case go_get (mtRoundStartTimes m) seqNum of
        None \<Rightarrow> m
      | Some startTime \<Rightarrow>
          tell [Observe_Round (now - startTime), Inc_Rounds]
            (m\<lparr>mtRoundStartTimes := go_del seqNum (mtRoundStartTimes m)\<rparr>))"

definition SetBlockHeight :: "u64 \<Rightarrow> Metrics \<Rightarrow> Metrics" where
  "SetBlockHeight height = tell [Set_Height height]"

definition SetCurrentView :: "u64 \<Rightarrow> Metrics \<Rightarrow> Metrics" where
  "SetCurrentView view = tell [Set_View view]"

definition IncrementMessagesSent :: "string \<Rightarrow> Metrics \<Rightarrow> Metrics" where
  "IncrementMessagesSent msgType = tell [Inc_Sent msgType]"

definition IncrementMessagesReceived :: "string \<Rightarrow> Metrics \<Rightarrow> Metrics" where
  "IncrementMessagesReceived msgType = tell [Inc_Received msgType]"

definition RecordMessageProcessingTime :: "string \<Rightarrow> int \<Rightarrow> Metrics \<Rightarrow> Metrics" where
  "RecordMessageProcessingTime msgType duration = tell [Observe_Processing msgType duration]"

definition IncrementViewChanges :: "Metrics \<Rightarrow> Metrics" where
  "IncrementViewChanges = tell [Inc_View_Changes]"

definition RecordBlockExecutionTime :: "int \<Rightarrow> Metrics \<Rightarrow> Metrics" where
  "RecordBlockExecutionTime duration = tell [Observe_Execution duration]"

text \<open>
  The clock is read twice, at \<open>now\<close> and \<open>now'\<close>; the counter is an \<open>int64\<close>, which wraps. A whole
  second is \<open>1.0\<close> exactly. A counter of the library refuses a negative count with a panic.
\<close>

definition AddTransactions :: "gotime \<Rightarrow> gotime \<Rightarrow> int \<Rightarrow> Metrics \<Rightarrow> Metrics go" where
  "AddTransactions now now' added m =
     (if added < 0 then Panic Explicit_Panic
      else
        let m = tell [Add_Transactions added] m;
            m = m\<lparr>mtTxCount := mtTxCount m + word_of_int added\<rparr>;
            elapsed = now - mtLastTpsUpdate m
        in Ret (if 1000000000 \<le> elapsed
                then (tell [Set_TPS (mtTxCount m) elapsed] m)\<lparr>mtTxCount := 0, mtLastTpsUpdate := now'\<rparr>
                else m))"

section \<open>The engine's calls\<close>

text \<open>
  The five places of the engine that report, each guarded by \<open>e.metrics != nil\<close>: the end of
  \<open>handleMessage\<close>, of \<open>proposeBlock\<close>, of \<open>executeBlock\<close> and of \<open>broadcast\<close>, \<open>startViewChange\<close>
  and \<open>onViewChangeComplete\<close>.
\<close>

datatype metric_event =
    Message_Handled MessageType gotime gotime
  | Block_Proposed u64 gotime
  | Block_Executed u64 nat gotime gotime gotime
  | View_Change_Started
  | View_Change_Completed u64
  | Message_Broadcast MessageType

fun report :: "metric_event \<Rightarrow> Metrics option \<Rightarrow> Metrics option go" where
  "report ev None = Ret None"
| "report (Message_Handled t startTime now) (Some m) =
     Ret (Some (IncrementMessagesReceived (MessageType_String t)
       (RecordMessageProcessingTime (MessageType_String t) (now - startTime) m)))"
| "report (Block_Proposed seqNum now) (Some m) = Ret (Some (StartConsensusRound now seqNum m))"
| "report (Block_Executed seqNum ntxs startTime now now') (Some m) =
     go_bind (AddTransactions now now' (int ntxs)
       (RecordBlockExecutionTime (now - startTime) (SetBlockHeight seqNum (EndConsensusRound now seqNum m))))
       (\<lambda>m. Ret (Some m))"
| "report View_Change_Started (Some m) = Ret (Some (IncrementViewChanges m))"
| "report (View_Change_Completed newView) (Some m) = Ret (Some (SetCurrentView newView m))"
| "report (Message_Broadcast t) (Some m) = Ret (Some (IncrementMessagesSent (MessageType_String t) m))"

fun reports :: "metric_event list \<Rightarrow> Metrics option \<Rightarrow> Metrics option go" where
  "reports [] m = Ret m"
| "reports (ev # evs) m = go_bind (report ev m) (reports evs)"

section \<open>NullMetrics\<close>

text \<open>The stand-in for tests: every operation of it does nothing.\<close>

datatype metric_op =
    Op_Start u64 | Op_End u64 | Op_Height u64 | Op_View u64 | Op_Sent string | Op_Received string
  | Op_Processing string int | Op_View_Changes | Op_Execution int | Op_Add int

definition null_metrics_op :: "metric_op \<Rightarrow> unit \<Rightarrow> unit" where
  "null_metrics_op p n = n"

section \<open>The HTTP server\<close>

record Server =
  svAddr :: string
  svListening :: bool
  svClosed :: bool

definition NewServer :: "string \<Rightarrow> Server" where
  "NewServer addr = \<lparr>svAddr = addr, svListening = False, svClosed = False\<rparr>"

text \<open>
  \<open>http.Server.ListenAndServe\<close>: it returns \<open>http.ErrServerClosed\<close> on a closed server, an error when
  the address cannot be bound (\<open>listen\<close>), and otherwise serves. The goroutine panics on any error
  but the first.
\<close>

datatype serve_result = ErrServerClosed | Listen_Error string | Serving

definition ListenAndServe :: "(string \<Rightarrow> string option) \<Rightarrow> Server \<Rightarrow> serve_result" where
  "ListenAndServe listen s =
     (if svClosed s then ErrServerClosed
      else case listen (svAddr s) of Some err \<Rightarrow> Listen_Error err | None \<Rightarrow> Serving)"

definition sv_Start :: "(string \<Rightarrow> string option) \<Rightarrow> Server \<Rightarrow> Server go" where
  "sv_Start listen s =
     (case ListenAndServe listen s of
        ErrServerClosed \<Rightarrow> Ret s
      | Listen_Error err \<Rightarrow> Panic Explicit_Panic
      | Serving \<Rightarrow> Ret (s\<lparr>svListening := True\<rparr>))"

definition sv_Stop :: "Server \<Rightarrow> Server" where
  "sv_Stop s = s\<lparr>svListening := False, svClosed := True\<rparr>"

section \<open>Accounts\<close>

text \<open>What the calls say: rounds counted, transactions told, and transactions in reported windows.\<close>

fun rounds_of :: "metric_call \<Rightarrow> nat" where
  "rounds_of Inc_Rounds = 1"
| "rounds_of _ = 0"

fun window_of :: "metric_call \<Rightarrow> 64 word" where
  "window_of (Set_TPS n _) = n"
| "window_of _ = 0"

fun long_window :: "metric_call \<Rightarrow> bool" where
  "long_window (Set_TPS _ t) = (1000000000 \<le> t)"
| "long_window _ = True"

text \<open>
  What should be counted: an execution completes a round when its number has been proposed by this
  node and not executed since.
\<close>

fun completed_rounds :: "metric_event list \<Rightarrow> u64 set \<Rightarrow> nat" where
  "completed_rounds [] S = 0"
| "completed_rounds (Block_Proposed n _ # evs) S = completed_rounds evs (insert n S)"
| "completed_rounds (Block_Executed n _ _ _ _ # evs) S = of_bool (n \<in> S) + completed_rounds evs (S - {n})"
| "completed_rounds (_ # evs) S = completed_rounds evs S"

fun executed_txs :: "metric_event \<Rightarrow> nat" where
  "executed_txs (Block_Executed _ k _ _ _) = k"
| "executed_txs _ = 0"

lemma tell_fields [simp]:
  "mtCalls (tell cs m) = mtCalls m @ cs" "mtRoundStartTimes (tell cs m) = mtRoundStartTimes m"
  "mtTxCount (tell cs m) = mtTxCount m" "mtLastTpsUpdate (tell cs m) = mtLastTpsUpdate m"
  by (simp_all add: tell_def)

lemmas metric_ops = SetBlockHeight_def SetCurrentView_def IncrementMessagesSent_def
  IncrementMessagesReceived_def RecordMessageProcessingTime_def IncrementViewChanges_def
  RecordBlockExecutionTime_def StartConsensusRound_def EndConsensusRound_def AddTransactions_def

definition rounds_told :: "Metrics \<Rightarrow> nat" where
  "rounds_told m = sum_list (map rounds_of (mtCalls m))"

definition txs_told :: "Metrics \<Rightarrow> 64 word" where
  "txs_told m = sum_list (map window_of (mtCalls m)) + mtTxCount m"

lemma report_account:
  shows "\<exists>m'. report ev (Some m) = Ret (Some m') \<and>
    rounds_told m' + completed_rounds evs (go_keys (mtRoundStartTimes m')) =
      rounds_told m + completed_rounds (ev # evs) (go_keys (mtRoundStartTimes m)) \<and>
    txs_told m' = txs_told m + of_nat (executed_txs ev) \<and>
    (list_all long_window (mtCalls m) \<longrightarrow> list_all long_window (mtCalls m'))"
proof (cases ev)
  case (Block_Executed n k s t t')
  show ?thesis
  proof (cases "go_get (mtRoundStartTimes m) n")
    case None
    then have "n \<notin> go_keys (mtRoundStartTimes m)" by (simp add: go_get_None_iff)
    with None show ?thesis
      by (simp add: Block_Executed metric_ops Let_def rounds_told_def txs_told_def algebra_simps)
  next
    case (Some x)
    then have "n \<in> go_keys (mtRoundStartTimes m)" by (metis go_get_None_iff option.distinct(1))
    with Some show ?thesis
      by (simp add: Block_Executed metric_ops Let_def rounds_told_def txs_told_def algebra_simps)
  qed
qed (simp_all add: metric_ops rounds_told_def txs_told_def)

lemma reports_account:
  "\<exists>m'. reports evs (Some m) = Ret (Some m') \<and>
    rounds_told m' = rounds_told m + completed_rounds evs (go_keys (mtRoundStartTimes m)) \<and>
    txs_told m' = txs_told m + of_nat (sum_list (map executed_txs evs)) \<and>
    (list_all long_window (mtCalls m) \<longrightarrow> list_all long_window (mtCalls m'))"
proof (induction evs arbitrary: m)
  case (Cons ev evs)
  obtain a where a: "report ev (Some m) = Ret (Some a)"
    "rounds_told a + completed_rounds evs (go_keys (mtRoundStartTimes a)) =
      rounds_told m + completed_rounds (ev # evs) (go_keys (mtRoundStartTimes m))"
    "txs_told a = txs_told m + of_nat (executed_txs ev)"
    "list_all long_window (mtCalls m) \<longrightarrow> list_all long_window (mtCalls a)"
    using report_account [of ev m evs] by blast
  from Cons.IH [of a] obtain b where "reports evs (Some a) = Ret (Some b)"
    "rounds_told b = rounds_told a + completed_rounds evs (go_keys (mtRoundStartTimes a))"
    "txs_told b = txs_told a + of_nat (sum_list (map executed_txs evs))"
    "list_all long_window (mtCalls a) \<longrightarrow> list_all long_window (mtCalls b)" by blast
  with a show ?case by (simp add: algebra_simps)
qed simp

definition fresh_metrics :: "gotime \<Rightarrow> Metrics" where
  "fresh_metrics now = \<lparr>mtRoundStartTimes = [], mtTxCount = 0, mtLastTpsUpdate = now, mtCalls = []\<rparr>"

text \<open>
  C38. The metrics add up. Whatever the engine reports, no report panics; the counter of consensus
  rounds counts exactly the executions of numbers this node proposed before and did not execute
  since (so a backup, which proposes nothing, counts none); the transactions of the throughput windows, which
  last a second at least, and those waiting for the next window are the transactions executed,
  modulo \<open>2 ^ 64\<close>.
\<close>

theorem metrics_add_up:
  "\<exists>m. reports evs (Some (fresh_metrics now)) = Ret (Some m) \<and>
    sum_list (map rounds_of (mtCalls m)) = completed_rounds evs {} \<and>
    sum_list (map window_of (mtCalls m)) + mtTxCount m = of_nat (sum_list (map executed_txs evs)) \<and>
    list_all long_window (mtCalls m)"
  using reports_account [of evs "fresh_metrics now"] by (simp add: fresh_metrics_def rounds_told_def txs_told_def)

lemma backup_completes_no_round:
  "list_all (\<lambda>ev. case ev of Block_Proposed _ _ \<Rightarrow> False | _ \<Rightarrow> True) evs \<Longrightarrow> completed_rounds evs {} = 0"
  by (induction evs "{} :: u64 set" rule: completed_rounds.induct) simp_all

section \<open>Registering twice\<close>

text \<open>
  The documented behaviour of \<open>Register\<close>: it refuses a collector whose full name, namespace and
  name, is taken, and takes the name of one it accepts.
\<close>

definition registry_laws :: "(collector \<Rightarrow> 'r \<Rightarrow> 'r option) \<Rightarrow> ('r \<Rightarrow> (string \<times> string) set) \<Rightarrow> bool" where
  "registry_laws register taken \<longleftrightarrow> (\<forall>c r.
     ((clNamespace c, clName c) \<in> taken r \<longrightarrow> register c r = None) \<and>
     (\<forall>r'. register c r = Some r' \<longrightarrow> taken r' = insert (clNamespace c, clName c) (taken r)))"

lemma MustRegister_takes:
  assumes "registry_laws register taken"
  shows "MustRegister register cs r = Ret r' \<Longrightarrow> taken r' = (\<lambda>c. (clNamespace c, clName c)) ` set cs \<union> taken r"
  using assms by (induction cs arbitrary: r) (auto simp: registry_laws_def split: option.splits)

lemma MustRegister_refuses:
  assumes "registry_laws register taken" and "(clNamespace c, clName c) \<in> taken r"
  shows "MustRegister register (c # cs) r = Panic Explicit_Panic"
  using assms by (simp add: registry_laws_def)

lemma NewMetrics_once:
  assumes L: "registry_laws register taken" and "NewMetrics register ns now r = Ret (r', m)" and "taken r' \<subseteq> taken s"
  shows "NewMetrics register ns now' s = Panic Explicit_Panic"
proof -
  from assms(2) have "MustRegister register (collectors ns) r = Ret r'"
    by (simp add: NewMetrics_def go_bind_Ret_iff)
  from MustRegister_takes [OF L this] assms(3) have "(ns, ''consensus_rounds_total'') \<in> taken s"
    by (auto simp: collectors_def)
  then have "MustRegister register (collectors ns) s = Panic Explicit_Panic"
    unfolding collectors_def list.map prod.case by (intro MustRegister_refuses [OF L]) simp
  then show ?thesis by (simp add: NewMetrics_def)
qed

end
