(* ===== verification/Pbftd.thy ===== *)
theory Pbftd
  imports Node_Runs Metrics
begin

text \<open>
  \<open>cmd/pbftd/main.go\<close>, with the metrics and the HTTP server of \<open>node/node.go\<close>: the node as a
  process. The flags come from viper, a library, as a record of its typed getters; files and
  \<open>encoding/json\<close> are arguments. The interrupt that ends the process arrives when the caller says.
\<close>

section \<open>A node with its metrics\<close>

definition node_metrics ::
  "(collector \<Rightarrow> 'r \<Rightarrow> 'r option) \<Rightarrow> gotime \<Rightarrow> NodeConfig \<Rightarrow> 'r \<Rightarrow> ('r \<times> Metrics option) go" where
  "node_metrics register now c r =
     (if ncMetricsEnabled c
      then go_bind (NewMetrics register ''pbft'' now r) (\<lambda>(r, m). Ret (r, Some m))
      else Ret (r, None))"

text \<open>
  The two constructors register the metrics once the configuration is valid, and
  \<open>NewNodeWithABCI\<close> before it connects to the application.
\<close>

definition NewNode_metered ::
  "(collector \<Rightarrow> 'r \<Rightarrow> 'r option) \<Rightarrow> gotime \<Rightarrow> NodeConfig \<Rightarrow> 'r
     \<Rightarrow> ('r \<times> (configError + (NoopABCIAdapter, 's, 'c, 'ts) Node \<times> Metrics option)) go" where
  "NewNode_metered register now c r =
     (case Validate c of
        Some err \<Rightarrow> Ret (r, Inl err)
      | None \<Rightarrow> go_bind (node_metrics register now c r) (\<lambda>(r, m).
          Ret (r, map_sum (\<lambda>err. err) (\<lambda>n. (n, m)) (NewNode c))))"

definition NewNodeWithABCI_metered ::
  "(string \<Rightarrow> string + 'n) \<Rightarrow> (collector \<Rightarrow> 'r \<Rightarrow> 'r option) \<Rightarrow> gotime \<Rightarrow> NodeConfig \<Rightarrow> 'r
     \<Rightarrow> ('r \<times> (node_init_error + ('n ABCIAdapter, 's, 'c, 'ts) Node \<times> Metrics option)) go" where
  "NewNodeWithABCI_metered dial register now c r =
     (case Validate c of
        Some err \<Rightarrow> Ret (r, Inl (Invalid_Config err))
      | None \<Rightarrow> go_bind (node_metrics register now c r) (\<lambda>(r, m).
          Ret (r, map_sum (\<lambda>err. err) (\<lambda>n. (n, m)) (NewNodeWithABCI dial c))))"

text \<open>The routes of \<open>startMetricsServer\<close>; the handler of \<open>/metrics\<close> is the library's.\<close>

definition quoted :: "string \<Rightarrow> string" where
  "quoted s = CHR 0x22 # s @ [CHR 0x22]"

definition status_line :: "string \<Rightarrow> string" where
  "status_line s = [CHR 0x0A, CHR 0x09, CHR 0x09, CHR 0x09] @ s"

definition show_bool :: "bool \<Rightarrow> string" where
  "show_bool b = (if b then ''true'' else ''false'')"

definition status_body :: "('a, 's, 'c, 'ts) Node \<Rightarrow> string" where
  "status_body n =
     ''{'' @ status_line (quoted ''node_id'' @ '': '' @ quoted (ncNodeID (ndConfig n)) @ '','') @
     status_line (quoted ''chain_id'' @ '': '' @ quoted (ncChainID (ndConfig n)) @ '','') @
     status_line (quoted ''running'' @ '': '' @ show_bool (ndRunning n) @ '','') @
     status_line (quoted ''view'' @ '': '' @ show_nat (unat (GetCurrentView (ndEngine n))) @ '','') @
     status_line (quoted ''height'' @ '': '' @ show_nat (unat (GetCurrentHeight (ndEngine n))) @ '','') @
     status_line (quoted ''peers'' @ '': '' @ show_nat (PeerCount (ndTransport n))) @
     [CHR 0x0A, CHR 0x09, CHR 0x09] @ ''}''"

datatype http_reply = Prometheus_Page | Http_OK "string option" string | Http_Not_Found

definition node_http :: "string \<Rightarrow> ('a, 's, 'c, 'ts) Node \<Rightarrow> http_reply" where
  "node_http path n =
     (if path = ''/metrics'' then Prometheus_Page
      else if path = ''/health'' then Http_OK None ''OK''
      else if path = ''/status'' then Http_OK (Some ''application/json'') (status_body n)
      else Http_Not_Found)"

section \<open>Flags and configuration\<close>

datatype flag_value =
  F_String string | F_Strings "string list" | F_Bool bool | F_Duration int | F_Uint64 u64 | F_Int int

text \<open>The flags of \<open>init\<close> with their defaults.\<close>

definition start_flags :: "(string \<times> flag_value) list" where
  "start_flags =
     [(''node-id'', F_String []),
      (''chain-id'', F_String ''pbft-chain''),
      (''listen'', F_String ''0.0.0.0:26656''),
      (''abci'', F_String ''localhost:26658''),
      (''peers'', F_Strings []),
      (''metrics'', F_String ''0.0.0.0:26660''),
      (''metrics-enabled'', F_Bool True),
      (''request-timeout'', F_Duration 5000000000),
      (''view-change-timeout'', F_Duration 10000000000),
      (''checkpoint-interval'', F_Uint64 100),
      (''window-size'', F_Uint64 200),
      (''validators'', F_String []),
      (''config'', F_String []),
      (''benchmark'', F_Bool False),
      (''benchmark-tx-count'', F_Int 1000)]"

record viper =
  vp_GetString :: "string \<Rightarrow> string"
  vp_GetStringSlice :: "string \<Rightarrow> string list"
  vp_GetBool :: "string \<Rightarrow> bool"
  vp_GetDuration :: "string \<Rightarrow> int"
  vp_GetUint64 :: "string \<Rightarrow> u64"
  vp_GetInt :: "string \<Rightarrow> int"

record pbftd_env =
  pb_ReadInConfig :: "string \<Rightarrow> string + viper"
  pb_ReadFile :: "string \<Rightarrow> string + bytes"
  pb_Unmarshal :: "bytes \<Rightarrow> string + Validator list"

datatype start_error =
    Config_File_Failed string
  | Node_ID_Required
  | Validators_Failed string
  | Create_Failed configError
  | Start_Failed string

definition loadValidatorsFromFile :: "pbftd_env \<Rightarrow> string \<Rightarrow> string + Validator list" where
  "loadValidatorsFromFile E path =
     (case pb_ReadFile E path of Inl err \<Rightarrow> Inl err | Inr data \<Rightarrow> pb_Unmarshal E data)"

definition build_config :: "viper \<Rightarrow> NodeConfig" where
  "build_config v =
     \<lparr>ncNodeID = vp_GetString v ''node-id'', ncChainID = vp_GetString v ''chain-id'',
      ncListenAddr = vp_GetString v ''listen'', ncABCIAddr = vp_GetString v ''abci'',
      ncPeers = vp_GetStringSlice v ''peers'', ncValidators = [],
      ncRequestTimeout = vp_GetDuration v ''request-timeout'',
      ncViewChangeTimeout = vp_GetDuration v ''view-change-timeout'',
      ncCheckpointInterval = vp_GetUint64 v ''checkpoint-interval'',
      ncWindowSize = vp_GetUint64 v ''window-size'',
      ncMetricsEnabled = vp_GetBool v ''metrics-enabled'', ncMetricsAddr = vp_GetString v ''metrics'',
      ncLogLevel = [], ncDataDir = []\<rparr>"

text \<open>The first half of \<open>runStart\<close>: the configuration of the node, and viper after the file.\<close>

definition start_config :: "pbftd_env \<Rightarrow> viper \<Rightarrow> start_error + NodeConfig \<times> viper" where
  "start_config E v =
     (let configFile = vp_GetString v ''config'' in
      case (if configFile \<noteq> [] then pb_ReadInConfig E configFile else Inr v) of
        Inl err \<Rightarrow> Inl (Config_File_Failed err)
      | Inr v \<Rightarrow>
          let config = build_config v in
          if ncNodeID config = [] then Inl Node_ID_Required
          else
            let validatorsFile = vp_GetString v ''validators'' in
            case (if validatorsFile \<noteq> [] then loadValidatorsFromFile E validatorsFile
                  else Inr createDefaultValidators) of
              Inl err \<Rightarrow> Inl (Validators_Failed err)
            | Inr validators \<Rightarrow> Inr (config\<lparr>ncValidators := validators\<rparr>, v))"

text \<open>
  \<open>runStart\<close> up to the wait for the signal. The last component is the number of transactions of
  the benchmark, when one was asked for.
\<close>

definition runStart ::
  "(collector \<Rightarrow> 'r \<Rightarrow> 'r option) \<Rightarrow> gotime \<Rightarrow> pbftd_env \<Rightarrow> ('c, 'ts) grpc_env \<Rightarrow> viper \<Rightarrow> 'r
     \<Rightarrow> ('r \<times> (start_error + (NoopABCIAdapter, 's, 'c, 'ts) Node \<times> Metrics option \<times> int option)) go" where
  "runStart register now E G v r =
     (case start_config E v of
        Inl err \<Rightarrow> Ret (r, Inl err)
      | Inr (config, v) \<Rightarrow> go_bind (NewNode_metered register now config r) (\<lambda>(r, res).
          case res of
            Inl err \<Rightarrow> Ret (r, Inl (Create_Failed err))
          | Inr (n, m) \<Rightarrow>
              let (n, _, err) = nd_Start G n in
              case err of
                Some err \<Rightarrow> Ret (r, Inl (Start_Failed err))
              | None \<Rightarrow> Ret (r, Inr (n, m,
                  if vp_GetBool v ''benchmark'' then Some (vp_GetInt v ''benchmark-tx-count'') else None))))"

text \<open>The other commands only print.\<close>

definition runStatus :: "string list" where
  "runStatus = [''Status: Not connected to node'', ''Use '' @ [CHR 0x27] @ ''pbftd start'' @ [CHR 0x27] @ '' to start a node'']"

definition print_version :: "string list" where
  "print_version = [''pbftd v0.1.0'', ''PBFT Consensus for Cosmos SDK v0.53.0'', ''Built with Go 1.22+'']"

section \<open>The benchmark\<close>

definition benchmark_tx :: "nat \<Rightarrow> string" where
  "benchmark_tx i = ''{'' @ quoted ''type'' @ '':'' @ quoted ''set'' @ '','' @ quoted ''key'' @ '':'' @
     quoted (''key-'' @ show_nat i) @ '','' @ quoted ''value'' @ '':'' @ quoted (''value-'' @ show_nat i) @ ''}''"

text \<open>
  The loop of \<open>runBenchmark\<close>: a failed submission is logged and the loop goes on. It sleeps after
  every hundredth transaction, when the engine may run; what the engine does is \<open>between\<close>.
\<close>

fun benchmark_loop ::
  "engine_env \<Rightarrow> (nat \<Rightarrow> ('a, 's, 'c, 'ts) Node \<Rightarrow> ('a, 's, 'c, 'ts) Node) \<Rightarrow> nat list
     \<Rightarrow> ('a, 's, 'c, 'ts) Node \<Rightarrow> ('a, 's, 'c, 'ts) Node go" where
  "benchmark_loop V between [] n = Ret n"
| "benchmark_loop V between (i # is) n =
     go_bind (nd_SubmitTx V (bytes_of_string (benchmark_tx i)) ''benchmark-client'' n)
       (\<lambda>(n, err). benchmark_loop V between is (between i n))"

definition runBenchmark ::
  "engine_env \<Rightarrow> (nat \<Rightarrow> ('a, 's, 'c, 'ts) Node \<Rightarrow> ('a, 's, 'c, 'ts) Node) \<Rightarrow> int
     \<Rightarrow> ('a, 's, 'c, 'ts) Node \<Rightarrow> ('a, 's, 'c, 'ts) Node go" where
  "runBenchmark V between txCount = benchmark_loop V between [0..<nat txCount]"

section \<open>Parsing peers\<close>

text \<open>\<open>strings.Split\<close> at a character.\<close>

fun split_on :: "char \<Rightarrow> string \<Rightarrow> string list" where
  "split_on c [] = [[]]"
| "split_on c (x # xs) =
     (if x = c then [] # split_on c xs
      else case split_on c xs of [] \<Rightarrow> [[x]] | p # ps \<Rightarrow> (x # p) # ps)"

text \<open>
  \<open>strings.TrimSpace\<close>: white space is that of \<open>unicode.IsSpace\<close>, here as UTF-8, taken off one code
  point at a time on the left and then on the right.
\<close>

definition space_codes :: "string list" where
  "space_codes = map (map char_of)
     ([[0x09 :: nat], [0x0A], [0x0B], [0x0C], [0x0D], [0x20], [0xC2, 0x85], [0xC2, 0xA0], [0xE1, 0x9A, 0x80]] @
      map (\<lambda>k. [0xE2, 0x80, 0x80 + k]) [0..<11] @
      [[0xE2, 0x80, 0xA8], [0xE2, 0x80, 0xA9], [0xE2, 0x80, 0xAF], [0xE2, 0x81, 0x9F], [0xE3, 0x80, 0x80]])"

definition leading :: "string list \<Rightarrow> string \<Rightarrow> string option" where
  "leading ps s = find (\<lambda>p. p \<noteq> [] \<and> take (length p) s = p) ps"

function strip :: "string list \<Rightarrow> string \<Rightarrow> string" where
  "strip ps s = (case leading ps s of None \<Rightarrow> s | Some p \<Rightarrow> strip ps (drop (length p) s))"
  by pat_completeness auto

termination strip
proof (relation "measure (\<lambda>(ps, s). length s)")
  fix ps :: "string list" and s p
  assume "leading ps s = Some p"
  then have "p \<noteq> []" "take (length p) s = p" by (auto simp: leading_def find_Some_iff)
  then show "((ps, drop (length p) s), (ps, s)) \<in> measure (\<lambda>(ps, s). length s)"
    by (cases s) auto
qed simp

declare strip.simps [simp del]

definition TrimSpace :: "string \<Rightarrow> string" where
  "TrimSpace s = rev (strip (map rev space_codes) (rev (strip space_codes s)))"

definition parsePeers :: "string \<Rightarrow> string list" where
  "parsePeers peersStr =
     (if peersStr = [] then []
      else filter (\<lambda>peer. peer \<noteq> []) (map TrimSpace (split_on CHR '','' peersStr)))"

subsection \<open>What the parser accepts\<close>

fun join_peers :: "string list \<Rightarrow> string" where
  "join_peers [] = []"
| "join_peers [p] = p"
| "join_peers (p # q # ps) = p @ CHR '','' # join_peers (q # ps)"

definition clean_peer :: "string \<Rightarrow> bool" where
  "clean_peer p \<longleftrightarrow> p \<noteq> [] \<and> CHR '','' \<notin> set p \<and> TrimSpace p = p"

lemma split_on_none: "c \<notin> set a \<Longrightarrow> split_on c a = [a]"
  by (induction a) auto

lemma split_on_append: "c \<notin> set a \<Longrightarrow> split_on c (a @ c # b) = a # split_on c b"
  by (induction a) (auto split: list.split)

lemma split_on_join: "ps \<noteq> [] \<Longrightarrow> list_all (\<lambda>p. CHR '','' \<notin> set p) ps \<Longrightarrow> split_on CHR '','' (join_peers ps) = ps"
  by (induction ps rule: join_peers.induct) (simp_all add: split_on_none split_on_append)

lemma split_on_parts: "p \<in> set (split_on c s) \<Longrightarrow> c \<notin> set p"
  by (induction s arbitrary: p) (auto split: if_splits list.splits)

lemma leading_None: "leading ps s = None \<longleftrightarrow> (\<forall>p \<in> set ps. p = [] \<or> take (length p) s \<noteq> p)"
  by (auto simp: leading_def find_None_iff)

lemma strip_leads: "leading ps (strip ps s) = None"
  by (induction ps s rule: strip.induct) (subst strip.simps, simp split: option.split)

lemma strip_none: "leading ps s = None \<Longrightarrow> strip ps s = s"
  by (subst strip.simps) simp

lemma strip_drop: "\<exists>k. strip ps s = drop k s"
proof (induction ps s rule: strip.induct)
  case (1 ps s)
  show ?case
  proof (cases "leading ps s")
    case None
    then show ?thesis by (intro exI [of _ 0]) (simp add: strip_none)
  next
    case (Some p)
    from 1 [OF Some] obtain k where "strip ps (drop (length p) s) = drop k (drop (length p) s)" by blast
    then show ?thesis using Some by (subst strip.simps) (auto intro: exI [of _ "k + length p"])
  qed
qed

lemma leading_take: "leading ps s = None \<Longrightarrow> leading ps (take k s) = None"
  unfolding leading_None by (metis append_take_drop_id append_eq_append_conv_if take_take min.absorb_iff2 length_take
      min.cobounded2 nat_le_linear take_all)

lemma TrimSpace_idem: "TrimSpace (TrimSpace s) = TrimSpace s"
proof -
  let ?a = "strip space_codes s" and ?R = "map rev space_codes"
  obtain k where k: "strip ?R (rev ?a) = drop k (rev ?a)" using strip_drop by blast
  then have T: "TrimSpace s = take (length ?a - k) ?a" by (simp add: TrimSpace_def rev_drop)
  have "leading space_codes (TrimSpace s) = None" unfolding T by (rule leading_take [OF strip_leads])
  then have "strip space_codes (TrimSpace s) = TrimSpace s" by (rule strip_none)
  moreover have "strip ?R (rev (TrimSpace s)) = rev (TrimSpace s)"
    by (rule strip_none) (simp add: TrimSpace_def strip_leads)
  ultimately show ?thesis by (simp add: TrimSpace_def [of "TrimSpace s"])
qed

lemma TrimSpace_set: "set (TrimSpace s) \<subseteq> set s"
proof -
  obtain j k where "strip space_codes s = drop j s" "strip (map rev space_codes) (rev (drop j s)) = drop k (rev (drop j s))"
    using strip_drop by metis
  then show ?thesis using set_drop_subset [of k "rev (drop j s)"] set_drop_subset [of j s]
    by (simp add: TrimSpace_def)
qed

lemma parsePeers_clean: "list_all clean_peer (parsePeers s)"
proof -
  have "clean_peer (TrimSpace q)" if "q \<in> set (split_on CHR '','' s)" "TrimSpace q \<noteq> []" for q
    using that TrimSpace_set [of q] split_on_parts [OF that(1)] by (auto simp: clean_peer_def TrimSpace_idem)
  then show ?thesis by (auto simp: parsePeers_def list_all_iff)
qed

text \<open>
  Parsing undoes joining with commas exactly on lists of clean peers: no peer is empty, has a comma,
  or begins or ends with white space. So every result of the parser is such a list.
\<close>

theorem parsePeers_inverts_join: "parsePeers (join_peers ps) = ps \<longleftrightarrow> list_all clean_peer ps"
proof
  assume "parsePeers (join_peers ps) = ps"
  then show "list_all clean_peer ps" using parsePeers_clean [of "join_peers ps"] by simp
next
  assume c: "list_all clean_peer ps"
  show "parsePeers (join_peers ps) = ps"
  proof (cases "ps = []")
    case False
    with c have "join_peers ps \<noteq> []"
      by (cases ps rule: join_peers.cases) (simp_all add: clean_peer_def)
    moreover have "split_on CHR '','' (join_peers ps) = ps"
      by (rule split_on_join [OF False]) (use c in \<open>simp add: list_all_iff clean_peer_def\<close>)
    moreover have "map TrimSpace ps = ps" using c by (simp add: list_all_iff clean_peer_def map_idI)
    moreover have "filter (\<lambda>p. p \<noteq> []) ps = ps" using c by (simp add: list_all_iff clean_peer_def filter_id_conv)
    ultimately show ?thesis by (simp add: parsePeers_def)
  qed (simp add: parsePeers_def)
qed

section \<open>Two nodes in a process\<close>

text \<open>
  C32. A process has room for the metrics of one node. Once a valid configuration with metrics has
  been through either constructor, whatever the constructor returned, the next node with
  metrics panics; so does a second attempt after the application could not be reached.
\<close>

theorem second_metered_node_panics:
  assumes "registry_laws register taken" and "Validate c = None" and "ncMetricsEnabled c"
    and "NewNode_metered register now c r = Ret (r', res) \<or> NewNodeWithABCI_metered dial register now c r = Ret (r', res')"
    and "Validate c' = None" and "ncMetricsEnabled c'"
  shows "NewNode_metered register now' c' r' = Panic Explicit_Panic \<and>
    NewNodeWithABCI_metered dial' register now' c' r' = Panic Explicit_Panic"
proof -
  obtain m where m: "NewMetrics register ''pbft'' now r = Ret (r', m)"
    using assms(2-4) by (auto simp: NewNode_metered_def NewNodeWithABCI_metered_def node_metrics_def go_bind_Ret_iff)
  have "NewMetrics register ''pbft'' now' r' = Panic Explicit_Panic"
    by (rule NewMetrics_once [OF assms(1) m]) simp
  then show ?thesis using assms(5,6)
    by (simp add: NewNode_metered_def NewNodeWithABCI_metered_def node_metrics_def)
qed

text \<open>A registry that keeps the names it has taken.\<close>

definition name_registry :: "collector \<Rightarrow> (string \<times> string) list \<Rightarrow> (string \<times> string) list option" where
  "name_registry c names =
     (let key = (clNamespace c, clName c) in if key \<in> set names then None else Some (key # names))"

lemma name_registry_laws: "registry_laws name_registry set"
  by (auto simp: registry_laws_def name_registry_def Let_def)

lemma name_registry_fresh: "\<exists>names m. NewMetrics name_registry ns now [] = Ret (names, m)"
  by (simp add: NewMetrics_def collectors_def name_registry_def Let_def)

theorem second_metered_node_panics_witness:
  "\<exists>names. NewNode_metered name_registry 0 (node_config ''node0'') [] =
       Ret (names, Inr (new_node ''node0'', Some (fresh_metrics 0))) \<and>
     NewNode_metered name_registry 1 (node_config ''node1'') names =
       (Panic Explicit_Panic :: (_ \<times> (_ + (NoopABCIAdapter, MemoryStore, string, int) Node \<times> _)) go)"
proof -
  have c: "Validate (node_config i) = None" "ncMetricsEnabled (node_config i)" if "i \<noteq> []" for i
    using that by (simp_all add: Validate_def node_config_def node_DefaultConfig_def createDefaultValidators_def)
  obtain names m where m: "NewMetrics name_registry ''pbft'' 0 [] = Ret (names, m)"
    using name_registry_fresh by blast
  then have "m = fresh_metrics 0" by (auto simp: NewMetrics_def go_bind_Ret_iff fresh_metrics_def)
  with m have first: "NewNode_metered name_registry 0 (node_config ''node0'') [] =
       Ret (names, Inr (new_node ''node0'', Some (fresh_metrics 0)))"
    using c [of "''node0''"] by (simp add: NewNode_metered_def node_metrics_def NewNode_sample)
  from second_metered_node_panics [OF name_registry_laws c, of "''node0''" 0 "[]" names _ "\<lambda>a. Inl a" "Inl (Invalid_Config ErrEmptyNodeID)" "node_config ''node1''" 1]
    c [of "''node1''"] first show ?thesis by auto
qed

section \<open>Starting a node\<close>

lemma connect_done: "gtDone (fold (connect_peer G i) ps t) = gtDone t"
proof (induction ps arbitrary: t)
  case (Cons p ps)
  have "gtDone (connect_peer G i p t) = gtDone t"
    by (simp add: connect_peer_def AddPeer_def split: option.split sum.split)
  then show ?case by (simp add: Cons.IH)
qed simp

lemma default_quorum: "QuorumSize (NewValidatorSet createDefaultValidators) = 3"
  by (simp add: createDefaultValidators_def NewValidatorSet_def QuorumSize_def Size_def FaultyTolerance_def)

text \<open>
  C31. \<open>pbftd start\<close> without files: with an identifier, non-empty chain and listen flags, an address
  it can bind and, where metrics are enabled, a registry that takes them, it returns a running
  node that keeps the invariant, in view 0 with the four default validators and a quorum of three,
  which is the primary iff it is called \<open>node0\<close>, whether or not it is one of the four; the
  interrupt then ends it without a panic.
\<close>

theorem pbftd_starts:
  fixes G :: "('c, 'ts) grpc_env"
  assumes "vp_GetString v ''config'' = []" and "vp_GetString v ''validators'' = []"
    and "vp_GetString v ''node-id'' = i" and "i \<noteq> []" and "vp_GetString v ''chain-id'' \<noteq> []"
    and "vp_GetString v ''listen'' = a" and "a \<noteq> []" and "ge_listen G a = None"
    and "node_metrics register now (build_config v) r = Ret (r', m)"
  shows "\<exists>(n :: (NoopABCIAdapter, 's, 'c, 'ts) Node) bench n'.
    runStart register now E G v r = Ret (r', Inr (n, m, bench)) \<and> node_ok n \<and> ndRunning n \<and>
    eView (ndEngine n) = 0 \<and> QuorumSize (eValidatorSet (ndEngine n)) = 3 \<and>
    isPrimary (ndEngine n) = Ret (i = ''node0'') \<and> nd_Stop G n = Ret n' \<and> \<not> ndRunning n'"
proof -
  let ?c = "(build_config v)\<lparr>ncValidators := createDefaultValidators\<rparr>"
  have c: "start_config E v = Inr (?c, v)"
    using assms(1-4) by (simp add: start_config_def Let_def build_config_def)
  have val: "Validate ?c = None"
    using assms(3-7) by (simp add: Validate_def build_config_def createDefaultValidators_def)
  have met: "node_metrics register now ?c r = Ret (r', m)"
    using assms(9) by (simp add: node_metrics_def)
  let ?n = "assemble ?c NewNoopABCIAdapter :: (NoopABCIAdapter, 's, 'c, 'ts) Node"
  have new: "NewNode ?c = Inr ?n" using val by (simp add: NewNode_def)
  have f: "\<not> ndRunning ?n" "\<not> ndDone ?n" "ndMempool ?n = NewMempool None" "ndConfig ?n = ?c"
    "ndEngine ?n = SetMempool (NewMempool None) (NewEngineV2 (engine_config ?c) (NewValidatorSet createDefaultValidators) True NewNoopABCIAdapter)"
    "gtAddress (ndTransport ?n) = a" "\<not> gtDone (ndTransport ?n)"
    using assms(6)
    by (simp_all add: assemble_def Let_def default_pool SetMessageHandler_def NewGRPCTransport_def) (simp add: build_config_def)
  let ?t = "fold (connect_peer G (ncNodeID ?c)) (ncPeers ?c)
    ((ndTransport ?n)\<lparr>gtListening := True, gtServer := True, gtRunning := True\<rparr>)"
  obtain n where n: "nd_Start G ?n = (n, True, None)" and nf: "ndRunning n" "\<not> ndDone n" "ndTransport n = ?t"
    "ndMempool n = mp_Start (NewMempool None)"
    "ndEngine n = engine_Start ((ndEngine ?n)\<lparr>eMempool := Some (mp_Start (NewMempool None))\<rparr>)"
    using assms(8) f by (simp add: nd_Start_def gt_Start_def Let_def put_pool_def SetMempool_def)
  have "node_reachable noop_adapter (undefined :: 's store_ops) G ?n n" by (rule nr_step [OF nr_init ns_start [OF n]])
  then have ok: "node_ok n" by (rule node_reachable_ok) (rule NewNode_ok [OF new])
  have e: "eView (ndEngine n) = 0" "eValidatorSet (ndEngine n) = NewValidatorSet createDefaultValidators"
    "cfNodeID (eConfig (ndEngine n)) = i"
    unfolding nf(5) f(5)
    by (simp_all add: engine_Start_def resetViewChangeTimer_def SetMempool_def NewEngineV2_def engine_config_def)
      (simp add: build_config_def assms(3))
  have p: "isPrimary (ndEngine n) = Ret (i = ''node0'')"
    by (simp add: isPrimary_def e primary_at_def createDefaultValidators_def NewValidatorSet_def eq_commute)
  have "\<not> gtDone (ndTransport n)" "\<not> mpChClosed (ndMempool n)" "mpIsRunning (ndMempool n)"
    by (simp_all add: nf connect_done f(7) fresh_pool_facts)
  then obtain n' where stop: "nd_Stop G n = Ret n'" "\<not> ndRunning n'"
    using nf(1,2) by (simp add: nd_Stop_def Let_def mp_Stop_def gt_Stop_def put_pool_def)
  have run: "runStart register now E G v r = Ret (r', Inr (n, m,
      if vp_GetBool v ''benchmark'' then Some (vp_GetInt v ''benchmark-tx-count'') else None))"
    by (simp add: runStart_def c NewNode_metered_def val met new n)
  show ?thesis
    by (intro exI conjI) (rule run, rule ok, rule nf(1), rule e(1), simp only: e(2) default_quorum, rule p, rule stop(1), rule stop(2))
qed

text \<open>Viper over the flag table: what was given on the command line, and the defaults.\<close>

definition flag_viper :: "(string \<times> flag_value) list \<Rightarrow> viper" where
  "flag_viper given =
     (let get = (\<lambda>k. case map_of (given @ start_flags) k of None \<Rightarrow> F_Int 0 | Some x \<Rightarrow> x) in
      \<lparr>vp_GetString = (\<lambda>k. case get k of F_String s \<Rightarrow> s | _ \<Rightarrow> []),
       vp_GetStringSlice = (\<lambda>k. case get k of F_Strings l \<Rightarrow> l | _ \<Rightarrow> []),
       vp_GetBool = (\<lambda>k. case get k of F_Bool b \<Rightarrow> b | _ \<Rightarrow> False),
       vp_GetDuration = (\<lambda>k. case get k of F_Duration d \<Rightarrow> d | _ \<Rightarrow> 0),
       vp_GetUint64 = (\<lambda>k. case get k of F_Uint64 x \<Rightarrow> x | _ \<Rightarrow> 0),
       vp_GetInt = (\<lambda>k. case get k of F_Int x \<Rightarrow> x | _ \<Rightarrow> 0)\<rparr>)"

definition no_files :: pbftd_env where
  "no_files = \<lparr>pb_ReadInConfig = (\<lambda>f. Inl ''no such file''), pb_ReadFile = (\<lambda>f. Inl ''no such file''),
     pb_Unmarshal = (\<lambda>b. Inl ''no data'')\<rparr>"

theorem pbftd_starts_witness:
  "\<exists>names n bench n'. runStart name_registry 0 no_files half_down
       (flag_viper [(''node-id'', F_String ''node0''), (''peers'', F_Strings [''node1@host1''])]) [] =
       Ret (names, Inr (n :: (NoopABCIAdapter, MemoryStore, string, int) Node, Some (fresh_metrics 0), bench)) \<and>
     isPrimary (ndEngine n) = Ret True \<and> nd_Stop half_down n = Ret n'"
proof -
  let ?v = "flag_viper [(''node-id'', F_String ''node0''), (''peers'', F_Strings [''node1@host1''])]"
  have v: "vp_GetString ?v ''config'' = []" "vp_GetString ?v ''validators'' = []" "vp_GetString ?v ''node-id'' = ''node0''"
    "vp_GetString ?v ''chain-id'' \<noteq> []" "vp_GetString ?v ''listen'' = ''0.0.0.0:26656''" "vp_GetBool ?v ''metrics-enabled''"
    by (simp_all add: flag_viper_def start_flags_def)
  obtain names m where m: "NewMetrics name_registry ''pbft'' 0 [] = Ret (names, m)" using name_registry_fresh by blast
  then have "m = fresh_metrics 0" by (auto simp: NewMetrics_def go_bind_Ret_iff fresh_metrics_def)
  with m v(6) have "node_metrics name_registry 0 (build_config ?v) [] = Ret (names, Some (fresh_metrics 0))"
    by (simp add: node_metrics_def build_config_def)
  from pbftd_starts [OF v(1-3) _ v(4,5) _ _ this, of half_down no_files] show ?thesis
    by (simp add: half_down_def) blast
qed

section \<open>What the benchmark submits\<close>

text \<open>
  With room for the transaction nothing is evicted. The last nonce of a sender is only recorded
  when it is positive, so any number of transactions of nonce 0 come in.
\<close>

lemma AddTx_room:
  assumes "mpIsRunning mp" and "\<not> mpChClosed mp" and "admission_error E d s 0 p g mp = None"
    and "mpTxCount mp < mcMaxTxs (mpConfig mp)" and "mpTxBytes mp + int (length d) \<le> mcMaxBytes (mpConfig mp)"
  shows "\<exists>mp'. AddTxWithMeta E d s 0 p g mp = Ret (mp', None) \<and>
    mpTxStore mp' = go_put (computeTxHash d) (new_tx E d s 0 p g mp) (mpTxStore mp) \<and>
    mpTxCount mp' = mpTxCount mp + 1 \<and> mpTxBytes mp' = mpTxBytes mp + int (length d) \<and>
    mpConfig mp' = mpConfig mp \<and> mpRecentlyRemoved mp' = mpRecentlyRemoved mp \<and>
    mpSenderNonce mp' = mpSenderNonce mp \<and> mpCheckTxCallback mp' = mpCheckTxCallback mp \<and>
    mpIsRunning mp' \<and> \<not> mpChClosed mp'"
proof -
  let ?tx = "new_tx E d s 0 p g mp"
  have tx: "tID ?tx = computeTxHash d" "tx_Size ?tx = int (length d)" "tNonce ?tx = 0"
    by (simp_all add: new_tx_def NewTxWithMeta_def NewTx_def computeTxHash_def tx_Size_def Let_def)
  have r: "mpTxCount (received mp) = mpTxCount mp" "mpTxBytes (received mp) = mpTxBytes mp" "mpConfig (received mp) = mpConfig mp"
    "mpTxStore (received mp) = mpTxStore mp" "mpRecentlyRemoved (received mp) = mpRecentlyRemoved mp"
    "mpSenderNonce (received mp) = mpSenderNonce mp" "mpCheckTxCallback (received mp) = mpCheckTxCallback mp"
    "mpIsRunning (received mp) = mpIsRunning mp" "mpChClosed (received mp) = mpChClosed mp"
    by (simp_all add: received_def update_metrics_def)
  have "ensureCapacity E ?tx (received mp) = Ret (received mp, None)"
    using assms(4,5) unfolding ensureCapacity_def by (subst evict_while.simps, subst evict_while.simps) (simp add: r tx)
  then show ?thesis
    using assms(1-3)
    by (simp add: AddTx_unfold notify_new_tx_def addTxLocked_def Let_def acceptTx_def updateMetrics_def update_metrics_def
        computeTxHash_def r tx)
qed

lemma show_nat_length: "length (show_nat n) \<le> Suc n"
proof (induction n rule: show_nat.induct)
  case (1 n)
  show ?case
  proof (cases "n < 10")
    case False
    then have "length (show_nat (n div 10)) \<le> Suc (n div 10)" by (rule 1)
    moreover have "Suc (Suc (n div 10)) \<le> Suc n" using False by simp
    ultimately show ?thesis by (subst show_nat.simps) (simp add: False)
  qed (subst show_nat.simps, simp)
qed

lemma benchmark_tx_length: "length (benchmark_tx i) \<le> 100 + 2 * i"
  using show_nat_length [of i] by (simp add: benchmark_tx_def quoted_def)

definition bench_hash :: "nat \<Rightarrow> string" where
  "bench_hash i = computeTxHash (bytes_of_string (benchmark_tx i))"

text \<open>The pool after the first \<open>i\<close> transactions of a benchmark.\<close>

definition bench_pool :: "nat \<Rightarrow> Mempool \<Rightarrow> bool" where
  "bench_pool i mp \<longleftrightarrow> mpConfig mp = DefaultMempoolConfig \<and> mpIsRunning mp \<and> \<not> mpChClosed mp \<and>
     mpRecentlyRemoved mp = [] \<and> mpSenderNonce mp = [] \<and> mpCheckTxCallback mp = None \<and>
     mpTxCount mp = int i \<and> mpTxBytes mp \<le> int (i * 20000) \<and> go_keys (mpTxStore mp) = bench_hash ` {..<i}"

lemma bench_pool_submit:
  assumes "bench_pool i (ndMempool n)" and "i < 5000" and "bench_hash i \<notin> bench_hash ` {..<i}"
    and "isPrimary (ndEngine n) = Ret b"
  shows "\<exists>n' err. nd_SubmitTx V (bytes_of_string (benchmark_tx i)) ''benchmark-client'' n = Ret (n', err) \<and>
    bench_pool (Suc i) (ndMempool n') \<and> isPrimary (ndEngine n') = Ret b"
proof -
  let ?d = "bytes_of_string (benchmark_tx i)" and ?s = "''benchmark-client''" and ?mp = "ndMempool n"
  have len: "int (length ?d) \<le> 20000" using benchmark_tx_length [of i] assms(2) by simp
  have c: "mpConfig ?mp = DefaultMempoolConfig" "mpTxCount ?mp = int i" "mpTxBytes ?mp \<le> int (i * 20000)"
    using assms(1) by (simp_all add: bench_pool_def)
  have "computeTxHash ?d \<notin> go_keys (mpTxStore ?mp)" using assms(1,3) by (simp add: bench_pool_def bench_hash_def)
  then have "go_get (mpTxStore ?mp) (computeTxHash ?d) = None" by (simp add: go_get_None_iff)
  then have adm: "admission_error (ve_mp V) ?d ?s 0 0 0 ?mp = None"
    using assms(1) len by (simp add: admission_error_def Let_def bench_pool_def HasTx_def checkNonce_def new_tx_def
        NewTxWithMeta_def NewTx_def computeTxHash_def [symmetric] DefaultMempoolConfig_def)
  have "int (i * 20000) \<le> 100000000" using assms(2) by simp
  with c len assms(2) have room: "mpTxCount ?mp < mcMaxTxs (mpConfig ?mp)"
    "mpTxBytes ?mp + int (length ?d) \<le> mcMaxBytes (mpConfig ?mp)"
    by (simp_all add: DefaultMempoolConfig_def)
  have run: "mpIsRunning ?mp" "\<not> mpChClosed ?mp" using assms(1) by (simp_all add: bench_pool_def)
  from AddTx_room [OF run adm room] obtain mp where
    mp: "AddTxWithMeta (ve_mp V) ?d ?s 0 0 0 ?mp = Ret (mp, None)"
      "mpTxStore mp = go_put (bench_hash i) (new_tx (ve_mp V) ?d ?s 0 0 0 ?mp) (mpTxStore ?mp)"
      "mpTxCount mp = mpTxCount ?mp + 1" "mpTxBytes mp = mpTxBytes ?mp + int (length ?d)"
      "mpConfig mp = mpConfig ?mp" "mpRecentlyRemoved mp = mpRecentlyRemoved ?mp" "mpSenderNonce mp = mpSenderNonce ?mp"
      "mpCheckTxCallback mp = mpCheckTxCallback ?mp" "mpIsRunning mp" "\<not> mpChClosed mp"
    unfolding bench_hash_def [symmetric] by (elim exE conjE) (rule that)
  have pool: "bench_pool (Suc i) mp"
    using assms(1) len by (simp add: bench_pool_def mp lessThan_Suc)
  have p: "isPrimary (ndEngine (put_pool mp n)) = Ret b" using assms(4) by (simp add: isPrimary_def)
  show ?thesis
    using pool p by (cases b) (simp_all add: nd_SubmitTx_def mp(1) Let_def SubmitRequest_def isPrimary_def)
qed

text \<open>
  The benchmark fills the pool. On a node whose pool is new and running, primary or not, up to 5000
  benchmark transactions of different hashes all come into the pool, as long as what the engine
  does between the submissions commits no block: the loop returns, whatever submissions the
  request channel refuses, and the pool holds exactly these transactions.
\<close>

theorem benchmark_fills_pool:
  assumes "ndMempool n = mp_Start (NewMempool (Some DefaultMempoolConfig))" and "isPrimary (ndEngine n) = Ret b"
    and "k \<le> 5000" and "inj_on (\<lambda>i. computeTxHash (bytes_of_string (benchmark_tx i))) {..<k}"
    and "\<forall>i n. ndMempool (between i n) = ndMempool n \<and> isPrimary (ndEngine (between i n)) = isPrimary (ndEngine n)"
  shows "\<exists>n'. runBenchmark V between (int k) n = Ret n' \<and> mp_Size (ndMempool n') = int k \<and>
    {h. HasTx h (ndMempool n')} = (\<lambda>i. computeTxHash (bytes_of_string (benchmark_tx i))) ` {..<k}"
proof -
  have loop: "\<exists>n'. benchmark_loop V between [i..<k] n = Ret n' \<and> bench_pool k (ndMempool n')"
    if "i \<le> k" "bench_pool i (ndMempool n)" "isPrimary (ndEngine n) = Ret b" for i n
    using that
  proof (induction "k - i" arbitrary: i n)
    case (Suc x)
    then have lt: "i < k" by simp
    have "bench_hash i \<notin> bench_hash ` {..<i}"
      using assms(4) lt unfolding bench_hash_def inj_on_def by (metis (no_types, lifting) imageE lessThan_iff less_irrefl less_trans)
    with Suc.prems lt assms(3) obtain n1 err where
      1: "nd_SubmitTx V (bytes_of_string (benchmark_tx i)) ''benchmark-client'' n = Ret (n1, err)"
        "bench_pool (Suc i) (ndMempool n1)" "isPrimary (ndEngine n1) = Ret b"
      using bench_pool_submit [of i n b V] by auto
    have "x = k - Suc i" "Suc i \<le> k" using Suc.hyps(2) lt by simp_all
    from Suc.hyps(1) [OF this, of "between i n1"] 1(2,3) assms(5) obtain n' where
      "benchmark_loop V between [Suc i..<k] (between i n1) = Ret n'" "bench_pool k (ndMempool n')" by auto
    then show ?case using 1(1) lt by (simp add: upt_conv_Cons)
  qed simp
  have "bench_pool 0 (ndMempool n)"
    by (simp add: bench_pool_def assms(1) default_pool fresh_pool_facts) (simp add: mp_Start_def NewMempool_def)
  from loop [OF _ this assms(2)] obtain n' where
    n': "benchmark_loop V between [0..<k] n = Ret n'" "bench_pool k (ndMempool n')" by auto
  have "{h. HasTx h (ndMempool n')} = go_keys (mpTxStore (ndMempool n'))"
    using go_get_None_iff [of "mpTxStore (ndMempool n')"] by (auto simp: HasTx_def)
  with n' show ?thesis by (simp add: runBenchmark_def bench_pool_def mp_Size_def bench_hash_def)
qed

theorem benchmark_fills_pool_witness:
  "\<exists>n'. runBenchmark sample_env (\<lambda>i n. n) 1 (started ''node1'') = Ret n' \<and> mp_Size (ndMempool n') = 1 \<and>
     HasTx (computeTxHash (bytes_of_string (benchmark_tx 0))) (ndMempool n')"
proof -
  have "ndMempool (started ''node1'') = mp_Start (NewMempool (Some DefaultMempoolConfig))" by (simp add: default_pool)
  from benchmark_fills_pool [OF this started_primary(1), of 1 "\<lambda>i n. n" sample_env]
  show ?thesis by (auto simp: lessThan_Suc)
qed

end
