(* ===== verification/Abci_Props.thy ===== *)
theory Abci_Props
  imports Abci Adapters Engine_Inv
begin

text \<open>
  What the adapter for a remote application does that the built-in ones do not: the hash its
  \<open>Commit\<close> reports. The blocks an engine executes drive an adapter through \<open>FinalizeBlock\<close>,
  \<open>Commit\<close> and \<open>SetLastAppHash\<close>, in this order.
\<close>

section \<open>Executing a sequence of blocks\<close>

text \<open>For each block, the hash of its execution and the hash that \<open>Commit\<close> reported.\<close>

fun run_blocks :: "'a adapter_ops \<Rightarrow> Block list \<Rightarrow> 'a \<Rightarrow> ('a \<times> (bytes \<times> bytes) list) option" where
  "run_blocks A [] a = Some (a, [])"
| "run_blocks A (b # bs) a =
     (case ad_FinalizeBlock A b a of
        (a, Inl err) \<Rightarrow> None
      | (a, Inr r) \<Rightarrow>
          (case ad_Commit A a of
             (a, Inl err) \<Rightarrow> None
           | (a, Inr (h, _)) \<Rightarrow>
               (case run_blocks A bs (ad_SetLastAppHash A (erAppHash r) a) of
                  None \<Rightarrow> None
                | Some (a, l) \<Rightarrow> Some (a, (erAppHash r, h) # l))))"

lemma run_blocks_Cons:
  assumes "run_blocks A (b # bs) a = Some (a', l)"
  obtains a1 r a2 h ret l' where "ad_FinalizeBlock A b a = (a1, Inr r)" "ad_Commit A a1 = (a2, Inr (h, ret))"
    "run_blocks A bs (ad_SetLastAppHash A (erAppHash r) a2) = Some (a', l')" "l = (erAppHash r, h) # l'"
  using assms that by (auto split: prod.splits sum.splits option.splits)

text \<open>This is what \<open>executeBlock\<close> does with its adapter when it records a block.\<close>

lemma handleValidatorUpdates_adapter [simp]: "eAdapter (handleValidatorUpdates us e) = eAdapter e"
  using updates_fields [of us e] by (elim exE) simp

lemma saveBlockToStore_adapter: "eAdapter (fst (saveBlockToStore S b e)) = eAdapter e"
  by (simp add: saveBlockToStore_def split_beta split: option.split)

lemma record_commit_adapter:
  "eAdapter (record_commit A S V n s b r e) = ad_SetLastAppHash A (erAppHash r) (eAdapter e)"
proof -
  let ?e = "(put_state n (MarkExecuted s) (e\<lparr>eLastAppHash := erAppHash r,
                eAdapter := ad_SetLastAppHash A (erAppHash r) (eAdapter e)\<rparr>))"
  obtain e3 err where sb: "saveBlockToStore S b (?e\<lparr>eCommittedBlocks := eCommittedBlocks ?e @ [b]\<rparr>) = (e3, err)" by fastforce
  have "eAdapter e3 = ad_SetLastAppHash A (erAppHash r) (eAdapter e)"
    using saveBlockToStore_adapter [of S b "?e\<lparr>eCommittedBlocks := eCommittedBlocks ?e @ [b]\<rparr>"] unfolding sb
    by (simp add: put_state_def)
  then show ?thesis unfolding record_commit_def Let_def sb prod.case by (simp split: option.split)
qed

lemma executeBlock_runs:
  assumes "executeBlock A S V n s e = Ret e'" and "sBlock s = Some b" and "eCommittedBlocks e' \<noteq> eCommittedBlocks e"
  shows "\<exists>l. run_blocks A [b] (eAdapter e) = Some (eAdapter e', l) \<and> map fst l = [eLastAppHash e']"
proof -
  have ad: "eAdapter (record_commit A S V n s b r e) = ad_SetLastAppHash A (erAppHash r) (eAdapter e)"
    "eLastAppHash (record_commit A S V n s b r e) = erAppHash r" for r e
    by (simp_all add: record_commit_adapter record_commit_fields)
  from assms(1) show ?thesis
  proof (cases rule: executeBlock_cases)
    case (recorded b' r a1 h a2)
    then show ?thesis using assms(2) ad [of r "e\<lparr>eAdapter := a2\<rparr>"] by (cases h) simp
  next
    case (checkpointed b' r a1 h a2)
    then show ?thesis using assms(2) ad [of r "e\<lparr>eAdapter := a2\<rparr>"] by (cases h) (simp add: createCheckpoint_fields)
  qed (use assms(3) in simp_all)
qed

section \<open>The hash of the previous block\<close>

lemma aa_FinalizeBlock_own:
  assumes "aa_FinalizeBlock R b a = (a', r)"
  shows "aaLastAppHash a' = aaLastAppHash a \<and> aaLastHeight a' = aaLastHeight a"
  using assms by (auto simp: aa_FinalizeBlock_def cl_FinalizeBlock_def via_def forward_def Let_def split_beta split: sum.splits prod.splits)

lemma aa_Commit_own:
  assumes "aa_Commit R a = (a', Inr (h, ret))"
  shows "h = aaLastAppHash a \<and> aaLastAppHash a' = aaLastAppHash a \<and> aaLastHeight a' = int64_inc (aaLastHeight a)"
  using assms by (auto simp: aa_Commit_def cl_Commit_def via_def forward_def Let_def split_beta split: sum.splits prod.splits)

text \<open>
  C37. \<open>Commit\<close> of the remote adapter reports the wrong hash. Execute any blocks through it, as the
  engine does: the hash reported with each block is not the one its execution returned but that of
  the block before, and for the first block whatever \<open>InitChain\<close>, \<open>Info\<close> or nobody left there. With
  the mock adapter, which the tests use in its place, it is always the hash of the block itself.
\<close>

theorem Commit_reports_previous_hash:
  assumes "run_blocks (abci_adapter R now) bs a = Some (a', l)" and "run_blocks mock_adapter bs m = Some (m', k)"
  shows "map snd l = take (length bs) (aaLastAppHash a # map fst l) \<and> length l = length bs \<and>
    aaLastAppHash a' = last (aaLastAppHash a # map fst l) \<and>
    map snd k = map bHash bs \<and> map fst k = map bHash bs"
proof -
  have "map snd l = take (length bs) (aaLastAppHash a # map fst l) \<and> length l = length bs \<and>
      aaLastAppHash a' = last (aaLastAppHash a # map fst l)"
    using assms(1)
  proof (induction bs arbitrary: a l)
    case (Cons b bs)
    from Cons.prems obtain a1 r a2 h ret l' where
      1: "ad_FinalizeBlock (abci_adapter R now) b a = (a1, Inr r)" "ad_Commit (abci_adapter R now) a1 = (a2, Inr (h, ret))"
        "run_blocks (abci_adapter R now) bs (ad_SetLastAppHash (abci_adapter R now) (erAppHash r) a2) = Some (a', l')"
        "l = (erAppHash r, h) # l'" by (rule run_blocks_Cons)
    from 1(1,2) have "h = aaLastAppHash a"
      using aa_FinalizeBlock_own [of R b a a1] aa_Commit_own [of R a1 a2 h ret] by (simp add: abci_adapter_def)
    moreover from Cons.IH [OF 1(3)] have "map snd l' = take (length bs) (erAppHash r # map fst l')"
      "length l' = length bs" "aaLastAppHash a' = last (erAppHash r # map fst l')" by (simp_all add: abci_adapter_def)
    ultimately show ?case unfolding 1(4) by simp
  qed simp
  moreover have "map snd k = map bHash bs \<and> map fst k = map bHash bs"
    using assms(2)
  proof (induction bs arbitrary: m k)
    case (Cons b bs)
    from Cons.prems obtain a1 r a2 h ret l' where
      1: "ad_FinalizeBlock mock_adapter b m = (a1, Inr r)" "ad_Commit mock_adapter a1 = (a2, Inr (h, ret))"
        "run_blocks mock_adapter bs (ad_SetLastAppHash mock_adapter (erAppHash r) a2) = Some (m', l')"
        "k = (erAppHash r, h) # l'" by (rule run_blocks_Cons)
    from 1(1,2) have "h = bHash b" "erAppHash r = bHash b"
      by (auto simp: mock_adapter_def mo_FinalizeBlock_def mo_Commit_def Let_def)
    with Cons.IH [OF 1(3)] show ?case unfolding 1(4) by simp
  qed simp
  ultimately show ?thesis by blast
qed

text \<open>A remote application whose hash is the data of the last block.\<close>

definition echo_rpc :: "bytes abci_rpc" where
  "echo_rpc = \<lparr>rpc_Info = (\<lambda>n. (n, Inl ''no info'')), rpc_InitChain = (\<lambda>r n. ([], Inr [])),
     rpc_CheckTx = (\<lambda>r n. (n, Inr \<lparr>rcCode = 0, rcLog = []\<rparr>)), rpc_PrepareProposal = (\<lambda>r n. (n, Inr (rpTxs r))),
     rpc_ProcessProposal = (\<lambda>r n. (n, Inr Proposal_ACCEPT)),
     rpc_FinalizeBlock = (\<lambda>r n. (concat (rfTxs r),
        Inr \<lparr>rfbTxResults = [], rfbValidatorUpdates = [], rfbAppHash = concat (rfTxs r)\<rparr>)),
     rpc_Commit = (\<lambda>n. (n, Inr 0)), rpc_Query = (\<lambda>r n. (n, Inl ''no query''))\<rparr>"

definition remote_adapter :: "bytes ABCIAdapter" where
  "remote_adapter = \<lparr>aaClient = \<lparr>clPeer = [], clConnected = True, clLastHeight = 0, clLastAppHash = [],
     clAddress = ''host'', clTimeout = 0\<rparr>, aaLastHeight = 0, aaLastAppHash = [], aaMaxTxBytes = 1024 * 1024, aaChainID = []\<rparr>"

theorem Commit_reports_previous_hash_witness:
  "\<exists>a l. run_blocks (abci_adapter echo_rpc 0) [raw_block 1 [raw_tx ''a'' [5]], raw_block 2 [raw_tx ''b'' [6]]] remote_adapter = Some (a, l) \<and>
     map fst l = [[5], [6]] \<and> map snd l = [[], [5]]"
proof -
  let ?bs = "[raw_block 1 [raw_tx ''a'' [5]], raw_block 2 [raw_tx ''b'' [6]]]"
  have "\<exists>a l. run_blocks (abci_adapter echo_rpc 0) ?bs remote_adapter = Some (a, l) \<and> map fst l = [[5], [6]]"
    by (simp add: abci_adapter_def aa_FinalizeBlock_def cl_FinalizeBlock_def aa_Commit_def cl_Commit_def via_def forward_def
        Let_def echo_rpc_def NewFinalizeBlockRequest_def block_data_def raw_block_def raw_tx_def
        FinalizeBlockResponseToResult_def remote_adapter_def)
  then obtain a l where r: "run_blocks (abci_adapter echo_rpc 0) ?bs remote_adapter = Some (a, l)" "map fst l = [[5], [6]]" by (elim exE conjE) (rule that)
  have "\<exists>m k. run_blocks mock_adapter ?bs NewMockABCIAdapter = Some (m, k)"
    by (simp add: mock_adapter_def mo_FinalizeBlock_def mo_Commit_def Let_def)
  then obtain m k where "run_blocks mock_adapter ?bs NewMockABCIAdapter = Some (m, k)" by (elim exE) (rule that)
  from Commit_reports_previous_hash [OF r(1) this] r show ?thesis by (simp add: remote_adapter_def)
qed

end
