(* ===== verification/Tcp_Transport.thy ===== *)
theory Tcp_Transport
  imports Transport
begin

text \<open>
  \<open>network/transport.go\<close>: the TCP transport, which sends JSON over sockets, and the mock transport
  of the tests. A connection \<open>'c\<close> is a socket; what is read from it is a list of JSON values \<open>'j\<close>, each
  with whether \<open>done\<close> was closed when the reading loop came round, and \<open>None\<close> for an end of file or
  a read error. Dialling, listening and writing are parameters (\<open>tcp_env\<close>), and so is
  \<open>encoding/json\<close>.
\<close>

section \<open>State\<close>

record 'c TcpPeer =
  tpID :: string
  tpAddress :: string
  tpConn :: "'c option"

record ('c, 'j) TcpTransport =
  ttNodeID :: string
  ttAddress :: string
  ttListening :: bool
  ttPeers :: "(string, 'c TcpPeer) gomap"
  ttHandlerSet :: bool
  ttRunning :: bool
  ttDone :: bool
  ttSent :: "('c \<times> 'j) list"
  ttClosed :: "'c list"

record ('c, 'j) tcp_env =
  te_listen :: "string \<Rightarrow> string option"
  te_dial :: "string \<Rightarrow> string + 'c"
  te_write :: "'c \<Rightarrow> 'j \<Rightarrow> string option"
  te_remote :: "'c \<Rightarrow> string"
  te_peers :: "(string \<times> 'c TcpPeer) list \<Rightarrow> (string \<times> 'c TcpPeer) list"
  te_enc_handshake :: "string \<Rightarrow> 'j"
  te_dec_handshake :: "'j \<Rightarrow> string option"
  te_enc_message :: "Message \<Rightarrow> 'j"
  te_dec_message :: "'j \<Rightarrow> Message option"

definition NewTransport :: "string \<Rightarrow> string \<Rightarrow> ('c, 'j) TcpTransport" where
  "NewTransport nodeID address =
     \<lparr>ttNodeID = nodeID, ttAddress = address, ttListening = False, ttPeers = [], ttHandlerSet = False,
      ttRunning = False, ttDone = False, ttSent = [], ttClosed = []\<rparr>"

definition tt_Start :: "('c, 'j) tcp_env \<Rightarrow> ('c, 'j) TcpTransport \<Rightarrow> ('c, 'j) TcpTransport \<times> string option" where
  "tt_Start N t =
     (case te_listen N (ttAddress t) of
        Some err \<Rightarrow> (t, Some (''failed to start listener: '' @ err))
      | None \<Rightarrow> (t\<lparr>ttListening := True, ttRunning := True\<rparr>, None))"

definition tt_Stop :: "('c, 'j) tcp_env \<Rightarrow> ('c, 'j) TcpTransport \<Rightarrow> ('c, 'j) TcpTransport go" where
  "tt_Stop N t =
     (if ttDone t then Panic Closed_Channel
      else Ret (t\<lparr>ttRunning := False, ttDone := True, ttListening := False,
                  ttClosed := ttClosed t @ List.map_filter (tpConn \<circ> snd) (te_peers N (ttPeers t))\<rparr>))"

section \<open>Connections\<close>

definition close_conn :: "'c \<Rightarrow> ('c, 'j) TcpTransport \<Rightarrow> ('c, 'j) TcpTransport" where
  "close_conn conn t = t\<lparr>ttClosed := ttClosed t @ [conn]\<rparr>"

definition register_peer :: "string \<Rightarrow> string \<Rightarrow> 'c \<Rightarrow> ('c, 'j) TcpTransport \<Rightarrow> ('c, 'j) TcpTransport" where
  "register_peer i addr conn t =
     t\<lparr>ttPeers := go_put i \<lparr>tpID = i, tpAddress = addr, tpConn = Some conn\<rparr> (ttPeers t)\<rparr>"

text \<open>The reading loop: it waits for more, has seen \<open>done\<close>, or has lost its peer.\<close>

datatype tcp_end = Reading | Stopped | Disconnected

fun read_messages ::
  "('c, 'j) tcp_env \<Rightarrow> (Message \<Rightarrow> 'w \<Rightarrow> 'w) \<Rightarrow> ('c, 'j) TcpTransport \<Rightarrow> (bool \<times> 'j option) list \<Rightarrow> 'w \<Rightarrow> 'w \<times> tcp_end" where
  "read_messages N h t [] w = (w, Reading)"
| "read_messages N h t ((stopped, v) # evs) w =
     (if stopped then (w, Stopped)
      else case Option.bind v (te_dec_message N) of
        None \<Rightarrow> (w, Disconnected)
      | Some msg \<Rightarrow> read_messages N h t evs (if ttHandlerSet t then h msg w else w))"

text \<open>
  \<open>handleConnection\<close>: the first value read is the handshake. Every return closes the connection;
  only the end of the stream removes the peer.
\<close>

definition handleConnection ::
  "('c, 'j) tcp_env \<Rightarrow> (Message \<Rightarrow> 'w \<Rightarrow> 'w) \<Rightarrow> 'c \<Rightarrow> (bool \<times> 'j option) list \<Rightarrow> ('c, 'j) TcpTransport \<Rightarrow> 'w
     \<Rightarrow> ('c, 'j) TcpTransport \<times> 'w" where
  "handleConnection N h conn evs t w =
     (case evs of
        [] \<Rightarrow> (t, w)
      | (_, v) # rest \<Rightarrow>
          (case Option.bind v (te_dec_handshake N) of
             None \<Rightarrow> (close_conn conn t, w)
           | Some i \<Rightarrow>
               let t = register_peer i (te_remote N conn) conn t;
                   (w, how) = read_messages N h t rest w
               in case how of
                    Reading \<Rightarrow> (t, w)
                  | Stopped \<Rightarrow> (close_conn conn t, w)
                  | Disconnected \<Rightarrow> (close_conn conn (t\<lparr>ttPeers := go_del i (ttPeers t)\<rparr>), w)))"

text \<open>
  \<open>Connect\<close> up to the start of the reading goroutine, which runs \<open>handleConnection\<close> on the
  returned connection.
\<close>

definition Connect ::
  "('c, 'j) tcp_env \<Rightarrow> string \<Rightarrow> string \<Rightarrow> ('c, 'j) TcpTransport \<Rightarrow> ('c, 'j) TcpTransport \<times> (string + 'c)" where
  "Connect N peerID address t =
     (case te_dial N address of
        Inl err \<Rightarrow> (t, Inl (''failed to connect to '' @ address @ '': '' @ err))
      | Inr conn \<Rightarrow>
          let v = te_enc_handshake N (ttNodeID t); t = t\<lparr>ttSent := ttSent t @ [(conn, v)]\<rparr>
          in case te_write N conn v of
               Some err \<Rightarrow> (close_conn conn t, Inl (''handshake failed: '' @ err))
             | None \<Rightarrow> (register_peer peerID address conn t, Inr conn))"

text \<open>
  The loop of \<open>acceptConnections\<close>: with each round, whether \<open>done\<close> is closed, whether the
  transport is running, and what \<open>Accept\<close> returned. It yields the connections handed to
  \<open>handleConnection\<close>, one goroutine each, and whether it has ended; an error while running
  makes it go on.
\<close>

fun acceptConnections :: "(bool \<times> bool \<times> 'c option) list \<Rightarrow> 'c list \<times> bool" where
  "acceptConnections [] = ([], False)"
| "acceptConnections ((stopped, running, accepted) # evs) =
     (if stopped then ([], True)
      else case accepted of
        None \<Rightarrow> if \<not> running then ([], True) else acceptConnections evs
      | Some conn \<Rightarrow> let (conns, ended) = acceptConnections evs in (conn # conns, ended))"

section \<open>Sending\<close>

definition sendToPeer ::
  "('c, 'j) tcp_env \<Rightarrow> 'c TcpPeer \<Rightarrow> Message \<Rightarrow> ('c, 'j) TcpTransport \<Rightarrow> ('c, 'j) TcpTransport \<times> string option" where
  "sendToPeer N peer msg t =
     (case tpConn peer of
        None \<Rightarrow> (t, Some (''no connection to peer '' @ tpID peer))
      | Some conn \<Rightarrow> (t\<lparr>ttSent := ttSent t @ [(conn, te_enc_message N msg)]\<rparr>, te_write N conn (te_enc_message N msg)))"

definition tt_Broadcast ::
  "('c, 'j) tcp_env \<Rightarrow> Message \<Rightarrow> ('c, 'j) TcpTransport \<Rightarrow> ('c, 'j) TcpTransport \<times> string option" where
  "tt_Broadcast N msg t =
     fold (\<lambda>e (t, lastErr).
            let (t, err) = sendToPeer N (snd e) msg t in (t, case err of Some x \<Rightarrow> Some x | None \<Rightarrow> lastErr))
       (te_peers N (ttPeers t)) (t, None)"

definition tt_Send ::
  "('c, 'j) tcp_env \<Rightarrow> string \<Rightarrow> Message \<Rightarrow> ('c, 'j) TcpTransport \<Rightarrow> ('c, 'j) TcpTransport \<times> string option" where
  "tt_Send N nodeID msg t =
     (case go_get (ttPeers t) nodeID of
        None \<Rightarrow> (t, Some (''peer '' @ nodeID @ '' not found''))
      | Some peer \<Rightarrow> sendToPeer N peer msg t)"

definition tt_SetMessageHandler :: "('c, 'j) TcpTransport \<Rightarrow> ('c, 'j) TcpTransport" where
  "tt_SetMessageHandler t = t\<lparr>ttHandlerSet := True\<rparr>"

definition tt_GetPeers :: "('c, 'j) tcp_env \<Rightarrow> ('c, 'j) TcpTransport \<Rightarrow> string list" where
  "tt_GetPeers N t = map fst (te_peers N (ttPeers t))"

definition tt_PeerCount :: "('c, 'j) TcpTransport \<Rightarrow> nat" where
  "tt_PeerCount t = length (ttPeers t)"

section \<open>The mock transport\<close>

record MockTransport =
  mtNodeID :: string
  mtHandlerSet :: bool
  mtSentMessages :: "Message list"
  mtPeers :: "string list"

definition NewMockTransport :: "string \<Rightarrow> string list \<Rightarrow> MockTransport" where
  "NewMockTransport nodeID peers = \<lparr>mtNodeID = nodeID, mtHandlerSet = False, mtSentMessages = [], mtPeers = peers\<rparr>"

definition mt_Broadcast :: "Message \<Rightarrow> MockTransport \<Rightarrow> MockTransport" where
  "mt_Broadcast msg mt = mt\<lparr>mtSentMessages := mtSentMessages mt @ [msg]\<rparr>"

definition mt_Send :: "string \<Rightarrow> Message \<Rightarrow> MockTransport \<Rightarrow> MockTransport" where
  "mt_Send nodeID msg mt = mt\<lparr>mtSentMessages := mtSentMessages mt @ [msg]\<rparr>"

definition mt_SetMessageHandler :: "MockTransport \<Rightarrow> MockTransport" where
  "mt_SetMessageHandler mt = mt\<lparr>mtHandlerSet := True\<rparr>"

definition SimulateReceive :: "(Message \<Rightarrow> 'w \<Rightarrow> 'w) \<Rightarrow> Message \<Rightarrow> MockTransport \<Rightarrow> 'w \<Rightarrow> 'w" where
  "SimulateReceive h msg mt w = (if mtHandlerSet mt then h msg w else w)"

definition GetSentMessages :: "MockTransport \<Rightarrow> Message list" where
  "GetSentMessages mt = mtSentMessages mt"

definition ClearSentMessages :: "MockTransport \<Rightarrow> MockTransport" where
  "ClearSentMessages mt = mt\<lparr>mtSentMessages := []\<rparr>"

section \<open>Broadcasts\<close>

lemma tt_Broadcast_calls:
  "ttSent (fst (fold (\<lambda>e (t, lastErr). let (t, err) = sendToPeer N (snd e) msg t
        in (t, case err of Some x \<Rightarrow> Some x | None \<Rightarrow> lastErr)) ps (t, le))) =
     ttSent t @ List.map_filter (\<lambda>e. map_option (\<lambda>c. (c, te_enc_message N msg)) (tpConn (snd e))) ps \<and>
   ttPeers (fst (fold (\<lambda>e (t, lastErr). let (t, err) = sendToPeer N (snd e) msg t
        in (t, case err of Some x \<Rightarrow> Some x | None \<Rightarrow> lastErr)) ps (t, le))) = ttPeers t"
proof (induction ps arbitrary: t le)
  case (Cons p ps)
  then show ?case
    by (cases "tpConn (snd p)") (simp_all add: sendToPeer_def List.map_filter_simps)
qed (simp add: List.map_filter_simps)

text \<open>All three transports of the repository make one call per target and broadcast.\<close>

interpretation tcp: broadcast_spec "\<lambda>m t. fst (tt_Broadcast N m t)" ttSent
  "\<lambda>t. List.map_filter (tpConn \<circ> snd) (te_peers N (ttPeers t))" "\<lambda>c m. (c, te_enc_message N m)" for N
proof unfold_locales
  have mf: "List.map_filter (\<lambda>e. map_option f (g e)) xs = map f (List.map_filter g xs)" for f g xs
    by (induction xs) (simp_all add: List.map_filter_simps split: option.split)
  fix m and t :: "('a, 'b) TcpTransport"
  show "mset (ttSent (fst (tt_Broadcast N m t))) =
      mset (ttSent t) + mset (map (\<lambda>c. (c, te_enc_message N m)) (List.map_filter (tpConn \<circ> snd) (te_peers N (ttPeers t))))"
    using tt_Broadcast_calls [of N m "te_peers N (ttPeers t)" t None] by (simp add: tt_Broadcast_def mf comp_def)
  show "List.map_filter (tpConn \<circ> snd) (te_peers N (ttPeers (fst (tt_Broadcast N m t)))) =
      List.map_filter (tpConn \<circ> snd) (te_peers N (ttPeers t))"
    using tt_Broadcast_calls [of N m "te_peers N (ttPeers t)" t None] by (simp add: tt_Broadcast_def)
qed

interpretation mock_tr: broadcast_spec mt_Broadcast mtSentMessages "\<lambda>_. [()]" "\<lambda>_ m. m"
  by unfold_locales (simp_all add: mt_Broadcast_def)

section \<open>What is handled\<close>

text \<open>What a run of \<open>Encode\<close> calls puts on a connection, as the reading loop sees it.\<close>

definition frames :: "'j list \<Rightarrow> (bool \<times> 'j option) list" where
  "frames vs = map (\<lambda>v. (False, Some v)) vs"

lemma read_messages_all:
  assumes "\<And>m. te_dec_message N (te_enc_message N m) = Some m" and "ttHandlerSet t"
  shows "read_messages N h t (frames (map (te_enc_message N) ms)) w = (fold h ms w, Reading)"
  by (induction ms arbitrary: w) (simp_all add: frames_def assms)

text \<open>
  A connection is read differently at its two ends. \<open>Connect\<close> writes one handshake and
  \<open>handleConnection\<close> at the accepting end reads it and then passes every message on. The
  dialling end runs the same \<open>handleConnection\<close> although the acceptor sends no handshake: when
  the JSON of a message also decodes as a handshake, as it does with the field \<open>node_id\<close> both
  have, the first message the acceptor sends is taken for one, the connection is registered under
  the node identifier of that message, and the message itself is never handled.
\<close>

theorem dialling_end_loses_first_message:
  assumes msg: "\<And>m. te_dec_message N (te_enc_message N m) = Some m"
    and hand: "\<And>i. te_dec_handshake N (te_enc_handshake N i) = Some i"
    and fields: "\<And>m. te_dec_handshake N (te_enc_message N m) = Some (mNodeID m)"
    and set: "ttHandlerSet a" "ttHandlerSet d"
    and dial: "Connect N peerID address d = (d', Inr conn)"
  shows "(\<exists>v. ttSent d' = ttSent d @ [(conn, v)] \<and>
      snd (handleConnection N h c (frames (v # map (te_enc_message N) ms)) a w) = fold h ms w) \<and>
    snd (handleConnection N h conn (frames (map (te_enc_message N) (m # ms))) d' w) = fold h ms w \<and>
    go_get (ttPeers (fst (handleConnection N h conn (frames (map (te_enc_message N) (m # ms))) d' w))) (mNodeID m) =
      Some \<lparr>tpID = mNodeID m, tpAddress = te_remote N conn, tpConn = Some conn\<rparr>"
proof -
  have c: "ttSent d' = ttSent d @ [(conn, te_enc_handshake N (ttNodeID d))]" "ttHandlerSet d'"
    using dial set(2) by (auto simp: Connect_def Let_def register_peer_def split: sum.splits option.splits)
  have r: "read_messages N h (register_peer i x y t) (map (\<lambda>v. (False, Some v)) (map (te_enc_message N) ms)) w =
      (fold h ms w, Reading)" if "ttHandlerSet t" for i x y and t :: "('a, 'b) TcpTransport"
    using read_messages_all [of N "register_peer i x y t" h ms w, OF msg] that
    by (simp add: frames_def register_peer_def)
  note simps = handleConnection_def frames_def hand fields r [OF set(1), simplified] r [OF c(2), simplified]
  have "\<exists>v. ttSent d' = ttSent d @ [(conn, v)] \<and>
      snd (handleConnection N h c (frames (v # map (te_enc_message N) ms)) a w) = fold h ms w"
    by (rule exI [of _ "te_enc_handshake N (ttNodeID d)"]) (simp add: c(1) simps)
  then show ?thesis by (intro conjI) (simp_all add: simps, simp add: register_peer_def)
qed

text \<open>A network where handshakes and messages are distinguished only by their other fields.\<close>

definition json_net :: "(nat, string + Message) tcp_env" where
  "json_net = \<lparr>te_listen = (\<lambda>a. None), te_dial = (\<lambda>a. Inr (length a)), te_write = (\<lambda>c v. None),
     te_remote = (\<lambda>c. ''10.0.0.1:26656''), te_peers = (\<lambda>ps. ps), te_enc_handshake = Inl,
     te_dec_handshake = (\<lambda>v. case v of Inl i \<Rightarrow> Some i | Inr m \<Rightarrow> Some (mNodeID m)),
     te_enc_message = Inr,
     te_dec_message = (\<lambda>v. case v of Inl i \<Rightarrow> Some (NewMessage 0 PrePrepare 0 0 [] i) | Inr m \<Rightarrow> Some m)\<rparr>"

theorem dialling_end_loses_first_message_witness:
  "snd (handleConnection json_net (\<lambda>m n. n + unat (mSequenceNum m)) 5
     (frames (map (te_enc_message json_net) [NewMessage 0 Prepare 0 1 [] ''node1'', NewMessage 0 Commit 0 2 [] ''node1'']))
     (fst (Connect json_net ''node1'' ''host1'' (tt_SetMessageHandler (NewTransport ''node0'' ''host0'')))) 0) = 2"
proof -
  let ?d = "tt_SetMessageHandler (NewTransport ''node0'' ''host0'') :: (nat, string + Message) TcpTransport"
  have laws: "te_dec_message json_net (te_enc_message json_net m) = Some m"
    "te_dec_handshake json_net (te_enc_handshake json_net i) = Some i"
    "te_dec_handshake json_net (te_enc_message json_net m) = Some (mNodeID m)" for m i
    by (simp_all add: json_net_def)
  have set: "ttHandlerSet ?d" by (simp add: tt_SetMessageHandler_def)
  have c: "Connect json_net ''node1'' ''host1'' ?d = (fst (Connect json_net ''node1'' ''host1'' ?d), Inr 5)"
    by (simp add: Connect_def json_net_def)
  have f: "fold (\<lambda>m n. n + unat (mSequenceNum m)) [NewMessage 0 Commit 0 2 [] ''node1''] 0 = 2"
    by (simp add: NewMessage_def)
  show ?thesis
    by (rule trans [OF dialling_end_loses_first_message [OF laws set set c, THEN conjunct2, THEN conjunct1] f])
qed

end
