(* ===== verification/Crypto.thy ===== *)
theory Crypto
  imports Sha256
begin

text \<open>
  \<open>crypto/crypto.go\<close>: hashes, Merkle roots, the byte form of signatures, and signing and
  verifying. \<open>crypto/ecdsa\<close>, \<open>crypto/elliptic\<close> and the random source are the parameter \<open>ecdsa\<close>;
  a \<open>big.Int\<close> is an integer, its \<open>Bytes\<close> are the big-endian bytes of its absolute value. The slices
  given to \<open>MerkleRoot\<close> have no spare capacity, so that \<open>append\<close> copies.
\<close>

section \<open>Hashes\<close>

definition Hash :: "bytes \<Rightarrow> bytes" where
  "Hash dat = sha256 dat"

definition HashHex :: "bytes \<Rightarrow> string" where
  "HashHex dat = hex_encode (Hash dat)"

definition DoubleHash :: "bytes \<Rightarrow> bytes" where
  "DoubleHash dat = sha256 (sha256 dat)"

definition ValidatorID :: "bytes \<Rightarrow> string" where
  "ValidatorID publicKey = hex_encode (take 20 (Hash publicKey))"

section \<open>Merkle roots\<close>

fun pair_up :: "bytes list \<Rightarrow> bytes list" where
  "pair_up (a # b # rest) = Hash (a @ b) # pair_up rest"
| "pair_up _ = []"

definition pad_level :: "bytes list \<Rightarrow> bytes list" where
  "pad_level level = (if odd (length level) then level @ [last level] else level)"

lemma length_pair_up [simp]: "length (pair_up xs) = length xs div 2"
  by (induction xs rule: pair_up.induct) simp_all

lemma length_pad_level: "length (pad_level xs) = (if odd (length xs) then Suc (length xs) else length xs)"
  by (simp add: pad_level_def)

function merkle_levels :: "bytes list \<Rightarrow> bytes list" where
  "merkle_levels level = (if length level > 1 then merkle_levels (pair_up (pad_level level)) else level)"
  by auto
termination
proof (relation "measure length")
  fix level :: "bytes list"
  assume "1 < length level"
  then have "length (pad_level level) div 2 < length level" unfolding length_pad_level by (auto elim: oddE)
  then show "(pair_up (pad_level level), level) \<in> measure length" by simp
qed simp

declare merkle_levels.simps [simp del]

definition MerkleRoot :: "bytes list \<Rightarrow> bytes" where
  "MerkleRoot hashes =
     (if length hashes = 0 then []
      else if length hashes = 1 then hashes ! 0
      else merkle_levels hashes ! 0)"

section \<open>Signatures\<close>

record Signature =
  sgR :: int
  sgS :: int

fun be_bytes :: "nat \<Rightarrow> bytes" where
  "be_bytes n = (if n = 0 then [] else be_bytes (n div 256) @ [of_nat (n mod 256)])"

declare be_bytes.simps [simp del]

definition be_value :: "bytes \<Rightarrow> nat" where
  "be_value b = foldl (\<lambda>n w. 256 * n + unat w) 0 b"

definition big_Bytes :: "int \<Rightarrow> bytes" where
  "big_Bytes x = be_bytes (nat \<bar>x\<bar>)"

text \<open>
  \<open>copy(signature[32-len(r):32], r)\<close> and \<open>copy(signature[64-len(s):], s)\<close>: a start below 0 panics;
  an \<open>s\<close> of more than 32 bytes runs over the bytes of \<open>r\<close>.
\<close>

definition sig_Bytes :: "Signature \<Rightarrow> bytes go" where
  "sig_Bytes sig =
     (let rBytes = big_Bytes (sgR sig); sBytes = big_Bytes (sgS sig);
          signature = replicate 64 (0 :: byte)
      in if length rBytes > 32 then Panic Index_Out_Of_Range
         else
           let signature = take (32 - length rBytes) signature @ rBytes @ drop 32 signature
           in if length sBytes > 64 then Panic Index_Out_Of_Range
              else Ret (take (64 - length sBytes) signature @ sBytes))"

definition SignatureFromBytes :: "bytes \<Rightarrow> string + Signature" where
  "SignatureFromBytes dat =
     (if length dat \<noteq> 64
      then Inl (''invalid signature length: expected 64, got '' @ show_nat (length dat))
      else Inr \<lparr>sgR = int (be_value (take 32 dat)), sgS = int (be_value (drop 32 dat))\<rparr>)"

section \<open>Keys\<close>

text \<open>Private and public keys; \<open>e_sign\<close> takes what the random source yields.\<close>

record ('sk, 'pk, 'rnd) ecdsa =
  e_generate :: "'rnd \<Rightarrow> string + 'sk"
  e_public :: "'sk \<Rightarrow> 'pk"
  e_sign :: "'rnd \<Rightarrow> 'sk \<Rightarrow> bytes \<Rightarrow> string + int \<times> int"
  e_verify :: "'pk \<Rightarrow> bytes \<Rightarrow> int \<Rightarrow> int \<Rightarrow> bool"
  e_marshal :: "'pk \<Rightarrow> bytes"
  e_unmarshal :: "bytes \<Rightarrow> 'pk option"

record ('sk, 'pk) KeyPair =
  kpPrivateKey :: 'sk
  kpPublicKey :: 'pk

definition GenerateKeyPair :: "('sk, 'pk, 'rnd) ecdsa \<Rightarrow> 'rnd \<Rightarrow> string + ('sk, 'pk) KeyPair" where
  "GenerateKeyPair E rnd =
     (case e_generate E rnd of
        Inl err \<Rightarrow> Inl (''failed to generate key pair: '' @ err)
      | Inr sk \<Rightarrow> Inr \<lparr>kpPrivateKey = sk, kpPublicKey = e_public E sk\<rparr>)"

definition kp_Sign :: "('sk, 'pk, 'rnd) ecdsa \<Rightarrow> 'rnd \<Rightarrow> bytes \<Rightarrow> ('sk, 'pk) KeyPair \<Rightarrow> string + Signature" where
  "kp_Sign E rnd message kp =
     (case e_sign E rnd (kpPrivateKey kp) (sha256 message) of
        Inl err \<Rightarrow> Inl (''failed to sign message: '' @ err)
      | Inr (r, s) \<Rightarrow> Inr \<lparr>sgR = r, sgS = s\<rparr>)"

definition Verify :: "('sk, 'pk, 'rnd) ecdsa \<Rightarrow> 'pk \<Rightarrow> bytes \<Rightarrow> Signature \<Rightarrow> bool" where
  "Verify E publicKey message sig = e_verify E publicKey (sha256 message) (sgR sig) (sgS sig)"

definition PublicKeyBytes :: "('sk, 'pk, 'rnd) ecdsa \<Rightarrow> ('sk, 'pk) KeyPair \<Rightarrow> bytes" where
  "PublicKeyBytes E kp = e_marshal E (kpPublicKey kp)"

definition PublicKeyFromBytes :: "('sk, 'pk, 'rnd) ecdsa \<Rightarrow> bytes \<Rightarrow> string + 'pk" where
  "PublicKeyFromBytes E dat =
     (case e_unmarshal E dat of None \<Rightarrow> Inl ''invalid public key bytes'' | Some pk \<Rightarrow> Inr pk)"

record ('sk, 'pk) DefaultSigner =
  dsKeyPair :: "('sk, 'pk) KeyPair"
  dsAddress :: string

definition NewDefaultSignerFromKeyPair :: "('sk, 'pk, 'rnd) ecdsa \<Rightarrow> ('sk, 'pk) KeyPair \<Rightarrow> ('sk, 'pk) DefaultSigner" where
  "NewDefaultSignerFromKeyPair E kp = \<lparr>dsKeyPair = kp, dsAddress = ValidatorID (PublicKeyBytes E kp)\<rparr>"

definition NewDefaultSigner :: "('sk, 'pk, 'rnd) ecdsa \<Rightarrow> 'rnd \<Rightarrow> string + ('sk, 'pk) DefaultSigner" where
  "NewDefaultSigner E rnd =
     (case GenerateKeyPair E rnd of
        Inl err \<Rightarrow> Inl err
      | Inr kp \<Rightarrow> Inr \<lparr>dsKeyPair = kp, dsAddress = ValidatorID (PublicKeyBytes E kp)\<rparr>)"

definition ds_Sign :: "('sk, 'pk, 'rnd) ecdsa \<Rightarrow> 'rnd \<Rightarrow> bytes \<Rightarrow> ('sk, 'pk) DefaultSigner \<Rightarrow> (string + bytes) go" where
  "ds_Sign E rnd message s =
     (case kp_Sign E rnd message (dsKeyPair s) of
        Inl err \<Rightarrow> Ret (Inl err)
      | Inr sig \<Rightarrow> go_bind (sig_Bytes sig) (\<lambda>b. Ret (Inr b)))"

definition ds_PublicKey :: "('sk, 'pk, 'rnd) ecdsa \<Rightarrow> ('sk, 'pk) DefaultSigner \<Rightarrow> bytes" where
  "ds_PublicKey E s = PublicKeyBytes E (dsKeyPair s)"

definition VerifyWithPublicKey :: "('sk, 'pk, 'rnd) ecdsa \<Rightarrow> bytes \<Rightarrow> bytes \<Rightarrow> bytes \<Rightarrow> string + bool" where
  "VerifyWithPublicKey E publicKeyBytes message signatureBytes =
     (case PublicKeyFromBytes E publicKeyBytes of
        Inl err \<Rightarrow> Inl err
      | Inr publicKey \<Rightarrow>
          (case SignatureFromBytes signatureBytes of
             Inl err \<Rightarrow> Inl err
           | Inr sig \<Rightarrow> Inr (Verify E publicKey message sig)))"

section \<open>Signatures round-trip\<close>

lemma be_value_simps [simp]: "be_value [] = 0" "be_value (b @ [w]) = 256 * be_value b + unat w"
  by (simp_all add: be_value_def)

lemma unat_byte_less: "unat (w :: byte) < 256"
  using unsigned_less [of w] by simp

lemma be_value_zeros [simp]: "be_value (replicate k 0 @ b) = be_value b"
proof (induction b rule: rev_induct)
  case Nil
  have "be_value (replicate k 0) = 0" by (induction k) (simp_all add: be_value_def)
  then show ?case by simp
next
  case (snoc w b)
  then show ?case using be_value_simps(2) [of "replicate k 0 @ b" w] by simp
qed

lemma be_value_less: "be_value b < 256 ^ length b"
proof (induction b rule: rev_induct)
  case (snoc w b)
  then have "256 * be_value b + unat w < 256 * 256 ^ length b" using unat_byte_less [of w] by linarith
  then show ?case by simp
qed simp

lemma be_value_be_bytes [simp]: "be_value (be_bytes n) = n"
proof (induction n rule: be_bytes.induct)
  case (1 n)
  show ?case
  proof (cases "n = 0")
    case False
    have "unat (of_nat (n mod 256) :: byte) = n mod 256" by (simp add: unat_of_nat)
    with 1 False show ?thesis by (simp add: be_bytes.simps [of n])
  qed (simp add: be_bytes.simps)
qed

lemma length_be_bytes: "n < 256 ^ k \<Longrightarrow> length (be_bytes n) \<le> k"
proof (induction k arbitrary: n)
  case (Suc k)
  show ?case
  proof (cases "n = 0")
    case False
    have "n div 256 < 256 ^ k" using Suc.prems by (simp add: less_mult_imp_div_less mult.commute)
    with Suc.IH False show ?thesis by (simp add: be_bytes.simps [of n])
  qed (simp add: be_bytes.simps)
qed (simp add: be_bytes.simps)

text \<open>Two byte strings of one length with one value are equal.\<close>

lemma be_value_inj: "length a = length b \<Longrightarrow> be_value a = be_value b \<Longrightarrow> a = b"
proof (induction a arbitrary: b rule: rev_induct)
  case (snoc w a)
  then obtain b' v where b: "b = b' @ [v]" by (cases b rule: rev_cases) simp_all
  with snoc.prems have eq: "256 * be_value a + unat w = 256 * be_value b' + unat v" by simp
  have "unat w = unat v" using arg_cong [OF eq, of "\<lambda>n. n mod 256"] unat_byte_less [of w] unat_byte_less [of v] by simp
  moreover from this eq have "be_value a = be_value b'" by simp
  ultimately show ?case using snoc.IH [of b'] snoc.prems b by (simp add: word_unat_eq_iff)
qed simp

definition sig_range :: "Signature \<Rightarrow> bool" where
  "sig_range sig \<longleftrightarrow> 0 \<le> sgR sig \<and> sgR sig < 2 ^ 256 \<and> 0 \<le> sgS sig \<and> sgS sig < 2 ^ 256"

lemma big_Bytes_256:
  assumes "0 \<le> x" and "x < 2 ^ 256"
  shows "length (big_Bytes x) \<le> 32" and "be_value (big_Bytes x) = nat x"
proof -
  have "(256 :: nat) ^ 32 = 2 ^ 256" by simp
  moreover have "nat x < 2 ^ 256" using assms by (simp add: nat_less_iff)
  ultimately have "nat \<bar>x\<bar> < 256 ^ 32" using assms(1) by (simp only: abs_of_nonneg)
  then show "length (big_Bytes x) \<le> 32" unfolding big_Bytes_def by (rule length_be_bytes)
  show "be_value (big_Bytes x) = nat x" using assms(1) by (simp add: big_Bytes_def)
qed

lemma sig_Bytes_eq:
  assumes "sig_range sig"
  defines "half \<equiv> \<lambda>x. replicate (32 - length (big_Bytes x)) (0 :: byte) @ big_Bytes x"
  shows "sig_Bytes sig = Ret (half (sgR sig) @ half (sgS sig))" "length (half (sgR sig)) = 32"
    "length (half (sgS sig)) = 32" "be_value (half (sgR sig)) = nat (sgR sig)" "be_value (half (sgS sig)) = nat (sgS sig)"
proof -
  have r: "length (big_Bytes (sgR sig)) \<le> 32" "be_value (big_Bytes (sgR sig)) = nat (sgR sig)"
    and s: "length (big_Bytes (sgS sig)) \<le> 32" "be_value (big_Bytes (sgS sig)) = nat (sgS sig)"
    using assms(1) big_Bytes_256 by (simp_all add: sig_range_def)
  show "length (half (sgR sig)) = 32" "length (half (sgS sig)) = 32"
    "be_value (half (sgR sig)) = nat (sgR sig)" "be_value (half (sgS sig)) = nat (sgS sig)"
    using r s by (simp_all add: half_def)
  show "sig_Bytes sig = Ret (half (sgR sig) @ half (sgS sig))"
    using r(1) s(1) by (simp add: sig_Bytes_def Let_def half_def take_replicate)
qed

text \<open>
  C39. The byte form of signatures is exact: a signature whose two numbers fit in 256 bits becomes
  64 bytes that read back as the same signature, and every string of 64 bytes is the byte form of
  the signature it reads as.
\<close>

theorem signature_bytes_roundtrip:
  "(sig_range sig \<longrightarrow> (\<exists>b. sig_Bytes sig = Ret b \<and> length b = 64 \<and> SignatureFromBytes b = Inr sig)) \<and>
   (length dat = 64 \<longrightarrow> (\<exists>sg. SignatureFromBytes dat = Inr sg \<and> sig_range sg \<and> sig_Bytes sg = Ret dat))"
proof (intro conjI impI)
  assume r: "sig_range sig"
  then have "int (nat (sgR sig)) = sgR sig" "int (nat (sgS sig)) = sgS sig" by (simp_all add: sig_range_def)
  with sig_Bytes_eq [OF r] show "\<exists>b. sig_Bytes sig = Ret b \<and> length b = 64 \<and> SignatureFromBytes b = Inr sig"
    by (simp add: SignatureFromBytes_def)
next
  assume l: "length dat = 64"
  let ?sg = "\<lparr>sgR = int (be_value (take 32 dat)), sgS = int (be_value (drop 32 dat))\<rparr>"
  have p: "(256 :: nat) ^ 32 = 2 ^ 256" by simp
  have "be_value (take 32 dat) < 256 ^ 32" "be_value (drop 32 dat) < 256 ^ 32"
    using be_value_less [of "take 32 dat"] be_value_less [of "drop 32 dat"] l by simp_all
  then have "int (be_value (take 32 dat)) < 2 ^ 256" "int (be_value (drop 32 dat)) < 2 ^ 256"
    unfolding p by (simp_all only: of_nat_less_numeral_power_cancel_iff)
  then have r: "sig_range ?sg" by (simp add: sig_range_def)
  note e = sig_Bytes_eq [OF r]
  have "replicate (32 - length (big_Bytes (sgR ?sg))) 0 @ big_Bytes (sgR ?sg) = take 32 dat"
    by (rule be_value_inj) (use e(2,4) l in simp_all)
  moreover have "replicate (32 - length (big_Bytes (sgS ?sg))) 0 @ big_Bytes (sgS ?sg) = drop 32 dat"
    by (rule be_value_inj) (use e(3,5) l in simp_all)
  ultimately have "sig_Bytes ?sg = Ret (take 32 dat @ drop 32 dat)" using e(1) by simp
  then show "\<exists>sg. SignatureFromBytes dat = Inr sg \<and> sig_range sg \<and> sig_Bytes sg = Ret dat"
    using r l by (intro exI [of _ ?sg]) (simp add: SignatureFromBytes_def)
qed

theorem signature_bytes_roundtrip_witness:
  "\<exists>b. sig_Bytes \<lparr>sgR = 258, sgS = 7\<rparr> = Ret b \<and> length b = 64 \<and> SignatureFromBytes b = Inr \<lparr>sgR = 258, sgS = 7\<rparr>"
  using signature_bytes_roundtrip [of "\<lparr>sgR = 258, sgS = 7\<rparr>" "replicate 64 0"] by (simp add: sig_range_def)

text \<open>
  What the code relies on of \<open>crypto/ecdsa\<close> and \<open>crypto/elliptic\<close>: a signature made with a private
  key verifies under its public key and has both numbers in range, and the byte form of a public
  key reads back.
\<close>

definition ecdsa_ok :: "('sk, 'pk, 'rnd) ecdsa \<Rightarrow> bool" where
  "ecdsa_ok E \<longleftrightarrow>
     (\<forall>rnd sk h r s. e_sign E rnd sk h = Inr (r, s) \<longrightarrow>
        e_verify E (e_public E sk) h r s \<and> sig_range \<lparr>sgR = r, sgS = s\<rparr>) \<and>
     (\<forall>pk. e_unmarshal E (e_marshal E pk) = Some pk)"

text \<open>
  What a signer signs verifies. For every signer made by \<open>NewDefaultSigner\<close>, the bytes \<open>Sign\<close>
  returns are accepted by \<open>VerifyWithPublicKey\<close> with the signer's own key bytes and the same
  message; \<open>Sign\<close> never panics; and the signer's address is the identifier of that key.
\<close>

theorem signed_message_verifies:
  assumes "ecdsa_ok E" and "NewDefaultSigner E rnd = Inr sg"
  shows "((\<exists>err. ds_Sign E rnd' msg sg = Ret (Inl err)) \<or>
      (\<exists>b. ds_Sign E rnd' msg sg = Ret (Inr b) \<and> VerifyWithPublicKey E (ds_PublicKey E sg) msg b = Inr True)) \<and>
    dsAddress sg = ValidatorID (ds_PublicKey E sg)"
proof -
  obtain sk where sg: "sg = \<lparr>dsKeyPair = \<lparr>kpPrivateKey = sk, kpPublicKey = e_public E sk\<rparr>,
      dsAddress = ValidatorID (e_marshal E (e_public E sk))\<rparr>"
    using assms(2) by (auto simp: NewDefaultSigner_def GenerateKeyPair_def PublicKeyBytes_def split: sum.splits)
  show ?thesis
  proof (cases "e_sign E rnd' sk (sha256 msg)")
    case (Inl err)
    then show ?thesis by (simp add: sg ds_Sign_def kp_Sign_def ds_PublicKey_def PublicKeyBytes_def)
  next
    case (Inr p)
    obtain r s where p: "p = (r, s)" by (cases p)
    have ok: "e_verify E (e_public E sk) (sha256 msg) r s" "sig_range \<lparr>sgR = r, sgS = s\<rparr>"
      "e_unmarshal E (e_marshal E (e_public E sk)) = Some (e_public E sk)"
      using assms(1) Inr p by (simp_all add: ecdsa_ok_def)
    note b = sig_Bytes_eq [OF ok(2), simplified]
    have i: "int (nat r) = r" "int (nat s) = s" using ok(2) by (simp_all add: sig_range_def)
    show ?thesis using Inr b ok i
      by (simp add: p sg ds_Sign_def kp_Sign_def ds_PublicKey_def PublicKeyBytes_def VerifyWithPublicKey_def
          PublicKeyFromBytes_def SignatureFromBytes_def Verify_def)
  qed
qed

text \<open>A scheme that "signs" with the first byte of the digest.\<close>

definition toy_ecdsa :: "(nat, nat, unit) ecdsa" where
  "toy_ecdsa = \<lparr>e_generate = (\<lambda>_. Inr 9), e_public = (\<lambda>sk. sk), e_sign = (\<lambda>_ sk h. Inr (0, int (unat (hd h)))),
     e_verify = (\<lambda>pk h r s. r = 0 \<and> s = int (unat (hd h))), e_marshal = (\<lambda>pk. replicate pk 0),
     e_unmarshal = (\<lambda>b. Some (length b))\<rparr>"

theorem signed_message_verifies_witness:
  "\<exists>sg b. NewDefaultSigner toy_ecdsa () = Inr sg \<and> ds_Sign toy_ecdsa () [1, 2] sg = Ret (Inr b) \<and>
     VerifyWithPublicKey toy_ecdsa (ds_PublicKey toy_ecdsa sg) [1, 2] b = Inr True"
proof -
  have "int (unat (w :: byte)) < 2 ^ 256" for w
  proof -
    have "int (unat w) < 256" using unat_byte_less [of w] by linarith
    also have "(256 :: int) \<le> 2 ^ 256" by simp
    finally show ?thesis .
  qed
  then have ok: "ecdsa_ok toy_ecdsa" by (simp add: ecdsa_ok_def toy_ecdsa_def sig_range_def)
  obtain sg where sg: "NewDefaultSigner toy_ecdsa () = Inr sg"
    by (simp add: NewDefaultSigner_def GenerateKeyPair_def toy_ecdsa_def)
  have "ds_Sign toy_ecdsa () [1, 2] sg \<noteq> Ret (Inl err)" for err
    by (cases "sig_Bytes \<lparr>sgR = 0, sgS = int (unat (hd (sha256 [1, 2])))\<rparr>")
      (simp_all add: ds_Sign_def kp_Sign_def toy_ecdsa_def)
  with signed_message_verifies [OF ok sg, of "()" "[1, 2]"] sg show ?thesis by blast
qed

section \<open>What a Merkle root binds\<close>

text \<open>The strings hashed on the way from a level to its root.\<close>

fun paired :: "bytes list \<Rightarrow> bytes list" where
  "paired (a # b # rest) = (a @ b) # paired rest"
| "paired _ = []"

function merkle_inputs :: "bytes list \<Rightarrow> bytes list" where
  "merkle_inputs level =
     (if length level > 1 then paired (pad_level level) @ merkle_inputs (pair_up (pad_level level)) else [])"
  by auto
termination
proof (relation "measure length")
  fix level :: "bytes list"
  assume "1 < length level"
  then have "length (pad_level level) div 2 < length level" unfolding length_pad_level by (auto elim: oddE)
  then show "(pair_up (pad_level level), level) \<in> measure length" by simp
qed simp

declare merkle_inputs.simps [simp del]

definition collide :: "bytes list \<Rightarrow> bytes list \<Rightarrow> bool" where
  "collide xs ys \<longleftrightarrow> (\<exists>a \<in> set xs. \<exists>b \<in> set ys. a \<noteq> b \<and> sha256 a = sha256 b)"

lemma pair_up_inj:
  assumes "length xs = length ys" and "even (length xs)" and "\<forall>x \<in> set xs \<union> set ys. length x = 32"
    and "pair_up xs = pair_up ys" and "\<not> collide (paired xs) (paired ys)"
  shows "xs = ys"
  using assms
proof (induction xs arbitrary: ys rule: pair_up.induct)
  case (1 a b rest)
  then obtain c d rest' where ys: "ys = c # d # rest'" by (cases ys rule: pair_up.cases) auto
  have "sha256 (a @ b) = sha256 (c @ d)" using "1.prems"(4) by (simp add: ys Hash_def)
  then have "a @ b = c @ d" using "1.prems"(5) by (auto simp: ys collide_def)
  then have "a = c" "b = d" using "1.prems"(3) by (simp_all add: ys)
  moreover have "rest = rest'"
    by (rule "1.IH") (use "1.prems" in \<open>auto simp: ys collide_def\<close>)
  ultimately show ?case by (simp add: ys)
qed auto

lemma pad_level_inj: "length xs = length ys \<Longrightarrow> pad_level xs = pad_level ys \<Longrightarrow> xs = ys"
  by (auto simp: pad_level_def split: if_splits)

lemma merkle_levels_inj:
  assumes "length xs = length ys" and "\<forall>x \<in> set xs \<union> set ys. length x = 32"
    and "merkle_levels xs = merkle_levels ys" and "\<not> collide (merkle_inputs xs) (merkle_inputs ys)"
  shows "xs = ys"
  using assms
proof (induction xs arbitrary: ys rule: merkle_levels.induct)
  case (1 xs)
  show ?case
  proof (cases "length xs > 1")
    case False
    with "1.prems"(1,3) show ?thesis by (simp add: merkle_levels.simps [of xs] merkle_levels.simps [of ys])
  next
    case True
    let ?x = "pad_level xs" and ?y = "pad_level ys"
    have ins: "merkle_inputs xs = paired ?x @ merkle_inputs (pair_up ?x)" "merkle_inputs ys = paired ?y @ merkle_inputs (pair_up ?y)"
      using True "1.prems"(1) by (simp_all add: merkle_inputs.simps [of xs] merkle_inputs.simps [of ys])
    have len: "length ?x = length ?y" "even (length ?x)" using "1.prems"(1) by (simp_all add: length_pad_level)
    have pair32: "\<forall>x \<in> set (pair_up l). length x = 32" for l by (induction l rule: pair_up.induct) (auto simp: Hash_def)
    have sub: "set ?x \<subseteq> set xs" "set ?y \<subseteq> set ys" using True "1.prems"(1) by (auto simp: pad_level_def intro: last_in_set)
    have "pair_up ?x = pair_up ?y"
    proof (rule "1.IH" [OF True])
      show "merkle_levels (pair_up ?x) = merkle_levels (pair_up ?y)"
        using "1.prems"(1,3) True by (simp add: merkle_levels.simps [of xs] merkle_levels.simps [of ys])
      show "\<not> collide (merkle_inputs (pair_up ?x)) (merkle_inputs (pair_up ?y))"
        using "1.prems"(4) by (auto simp: ins collide_def)
    qed (use len pair32 in auto)
    moreover have "\<not> collide (paired ?x) (paired ?y)" using "1.prems"(4) by (auto simp: ins collide_def)
    ultimately have "?x = ?y" using pair_up_inj [OF len] "1.prems"(2) sub by blast
    then show ?thesis by (rule pad_level_inj [OF "1.prems"(1)])
  qed
qed

lemma merkle_levels_single: "xs \<noteq> [] \<Longrightarrow> length (merkle_levels xs) = 1"
proof (induction xs rule: merkle_levels.induct)
  case (1 xs)
  show ?case
  proof (cases "length xs > 1")
    case True
    then have "0 < length (pad_level xs) div 2" unfolding length_pad_level by (auto elim: oddE)
    then have "pair_up (pad_level xs) \<noteq> []" by (metis length_pair_up length_0_conv less_irrefl)
    with 1 True show ?thesis by (simp add: merkle_levels.simps [of xs])
  next
    case False
    with 1 have "length xs = 1" by (cases xs) auto
    then show ?thesis by (simp add: merkle_levels.simps [of xs])
  qed
qed

lemma MerkleRoot_levels: "xs \<noteq> [] \<Longrightarrow> merkle_levels xs = [MerkleRoot xs]"
proof -
  assume ne: "xs \<noteq> []"
  from merkle_levels_single [OF this] obtain r where r: "merkle_levels xs = [r]" by (auto simp: length_Suc_conv)
  show ?thesis
  proof (cases "length xs = 1")
    case True
    then obtain x where "xs = [x]" by (auto simp: length_Suc_conv)
    then show ?thesis by (simp add: MerkleRoot_def merkle_levels.simps)
  qed (use ne r in \<open>simp add: MerkleRoot_def\<close>)
qed

text \<open>
  C40. A Merkle root binds the list of hashes under it as long as its length is known: two lists of
  32-byte hashes of the same length with the same root are equal, unless computing the two roots
  hashed two different strings to the same digest. Without the length it does not: a list of odd
  length above one and the list with its last hash repeated always have the same root.
\<close>

theorem MerkleRoot_binds_given_length:
  "(length xs = length ys \<and> xs \<noteq> [] \<and> (\<forall>x \<in> set xs \<union> set ys. length x = 32) \<and> MerkleRoot xs = MerkleRoot ys \<longrightarrow>
      xs = ys \<or> collide (merkle_inputs xs) (merkle_inputs ys)) \<and>
   (odd (length zs) \<and> 1 < length zs \<longrightarrow> MerkleRoot (zs @ [last zs]) = MerkleRoot zs)"
proof (intro conjI impI)
  assume a: "length xs = length ys \<and> xs \<noteq> [] \<and> (\<forall>x \<in> set xs \<union> set ys. length x = 32) \<and> MerkleRoot xs = MerkleRoot ys"
  then have "ys \<noteq> []" by auto
  with a have "merkle_levels xs = merkle_levels ys" by (simp add: MerkleRoot_levels)
  then show "xs = ys \<or> collide (merkle_inputs xs) (merkle_inputs ys)" using merkle_levels_inj a by blast
next
  assume z: "odd (length zs) \<and> 1 < length zs"
  have "pad_level (zs @ [last zs]) = pad_level zs" using z by (simp add: pad_level_def)
  then have "merkle_levels (zs @ [last zs]) = merkle_levels zs"
    using z by (cases "zs = []") (simp_all add: merkle_levels.simps [of zs] merkle_levels.simps [of "zs @ [last zs]"])
  moreover have "zs \<noteq> []" using z by auto
  ultimately show "MerkleRoot (zs @ [last zs]) = MerkleRoot zs" using z by (simp add: MerkleRoot_def)
qed

theorem MerkleRoot_binds_given_length_witness:
  "MerkleRoot [[1], [2], [3], [3]] = MerkleRoot [[1], [2], [3]] \<and>
   (if MerkleRoot [replicate 32 1, replicate 32 2] = MerkleRoot [replicate 32 2, replicate 32 1]
    then collide (merkle_inputs [replicate 32 1, replicate 32 2]) (merkle_inputs [replicate 32 2, replicate 32 1])
    else length (MerkleRoot [replicate 32 1, replicate 32 2]) = 32)"
proof -
  have "replicate 32 (1 :: byte) \<noteq> replicate 32 2" by (simp add: replicate_eq_replicate)
  moreover have "length (MerkleRoot [replicate 32 1, replicate 32 2]) = 32"
    by (simp add: MerkleRoot_def merkle_levels.simps [of "[a, b]" for a b] merkle_levels.simps [of "[a]" for a]
      pad_level_def Hash_def del: replicate.simps)
  ultimately show ?thesis
    using MerkleRoot_binds_given_length [of "[replicate 32 1, replicate 32 2]" "[replicate 32 2, replicate 32 1]" "[[1], [2], [3]]"]
    by auto
qed

section \<open>Random bytes\<close>

text \<open>\<open>rand.Read\<close> fills a slice or fails; a negative length is a panic of \<open>make\<close>.\<close>

definition RandomBytes :: "(nat \<Rightarrow> string + bytes) \<Rightarrow> int \<Rightarrow> (string + bytes) go" where
  "RandomBytes read len =
     (if len < 0 then Panic Index_Out_Of_Range
      else Ret (case read (nat len) of
        Inl err \<Rightarrow> Inl (''failed to generate random bytes: '' @ err)
      | Inr b \<Rightarrow> Inr b))"

end
