(* ===== verification/Certificates.thy ===== *)
theory Certificates
  imports Engine_Restart
begin

text \<open>
  Where the votes of a node come from. \<open>M\<close> is a set of messages; a log is polled from \<open>M\<close> if every
  vote in it is the node's own or that of the sender some message of \<open>M\<close> names, and if a number is
  prepared only after a quorum of \<open>PREPARE\<close>s. The handlers keep this, whatever \<open>M\<close> holds.
\<close>

section \<open>Voters\<close>

definition preparers :: "codec \<Rightarrow> Message set \<Rightarrow> string \<Rightarrow> u64 \<Rightarrow> string set" where
  "preparers K M self n = insert self {pNodeID p | m p. m \<in> M \<and> mType m = Prepare \<and> mSequenceNum m = n \<and>
     dec_prepare K (mPayload m) = Some p}"

definition committers :: "codec \<Rightarrow> Message set \<Rightarrow> string \<Rightarrow> u64 \<Rightarrow> string set" where
  "committers K M self n = insert self {cNodeID c | m c. m \<in> M \<and> mType m = Commit \<and> mSequenceNum m = n \<and>
     dec_commit K (mPayload m) = Some c}"

lemma preparersI: "m \<in> M \<Longrightarrow> mType m = Prepare \<Longrightarrow> dec_prepare K (mPayload m) = Some p \<Longrightarrow>
    pNodeID p \<in> preparers K M self (mSequenceNum m)"
  unfolding preparers_def by blast

lemma committersI: "m \<in> M \<Longrightarrow> mType m = Commit \<Longrightarrow> dec_commit K (mPayload m) = Some c \<Longrightarrow>
    cNodeID c \<in> committers K M self (mSequenceNum m)"
  unfolding committers_def by blast

lemma self_votes [simp]: "self \<in> preparers K M self n" "self \<in> committers K M self n"
  by (simp_all add: preparers_def committers_def)

lemma votes_mono: "M \<subseteq> M' \<Longrightarrow> preparers K M self n \<subseteq> preparers K M' self n"
    "M \<subseteq> M' \<Longrightarrow> committers K M self n \<subseteq> committers K M' self n"
  unfolding preparers_def committers_def by blast+

definition tally :: "codec \<Rightarrow> Message set \<Rightarrow> ValidatorSet \<Rightarrow> string \<Rightarrow> u64 \<Rightarrow> State \<Rightarrow> bool" where
  "tally K M vs self n s \<longleftrightarrow> go_keys (sPrepareMsgs s) \<subseteq> preparers K M self n \<and>
     go_keys (sCommitMsgs s) \<subseteq> committers K M self n \<and>
     (sPhase s = Prepared \<or> sPhase s = Committed \<longrightarrow> QuorumSize vs \<le> int (card (go_keys (sPrepareMsgs s))))"

lemma tally_New [simp]: "tally K M vs self n (NewState v n')"
  by (simp add: tally_def NewState_def)

lemma tally_propose: "tally K M vs self n s \<Longrightarrow> tally K M vs self n (SetPrePrepare m b s)"
  by (simp add: tally_def SetPrePrepare_def)

lemma tally_prepare:
  assumes "tally K M vs self n s" and "pNodeID p \<in> preparers K M self n"
  shows "tally K M vs self n (AddPrepare p s)"
proof -
  have "card (go_keys (sPrepareMsgs s)) \<le> card (insert (pNodeID p) (go_keys (sPrepareMsgs s)))"
    by (rule card_mono) auto
  with assms show ?thesis by (auto simp: tally_def AddPrepare_def)
qed

lemma tally_commit: "tally K M vs self n s \<Longrightarrow> cNodeID c \<in> committers K M self n \<Longrightarrow> tally K M vs self n (AddCommit c s)"
  by (simp add: tally_def AddCommit_def)

lemma tally_prepared:
  assumes "tally K M vs self n s" and "state_ok s" and "IsPrepared (QuorumSize vs) s"
  shows "tally K M vs self n (TransitionToPrepared s)"
  using assms unfolding ballot_counts(1) [OF assms(2)] by (simp add: tally_def TransitionToPrepared_def)

lemma tally_committed: "tally K M vs self n s \<Longrightarrow> tally K M vs self n (TransitionToCommitted s)"
  by (simp add: tally_def TransitionToCommitted_def)

lemma tally_executed [simp]: "tally K M vs self n (MarkExecuted s) = tally K M vs self n s"
  by (simp add: tally_def MarkExecuted_def)

section \<open>Polled logs\<close>

definition polled :: "codec \<Rightarrow> Message set \<Rightarrow> ('a, 's) Engine \<Rightarrow> bool" where
  "polled K M e \<longleftrightarrow> (\<forall>n s. GetExistingState n (eStateLog e) = Some s \<longrightarrow>
     tally K M (eValidatorSet e) (cfNodeID (eConfig e)) n s)"

lemma polled_mono:
  assumes "M \<subseteq> M'" and "polled K M e"
  shows "polled K M' e"
  using assms(2) votes_mono [OF assms(1)] unfolding polled_def tally_def by (meson subset_trans)

lemma polled_same:
  "polled K M e \<Longrightarrow> eStateLog e' = eStateLog e \<Longrightarrow> eValidatorSet e' = eValidatorSet e \<Longrightarrow> eConfig e' = eConfig e \<Longrightarrow>
   polled K M e'"
  by (simp add: polled_def)

lemma polled_fields [simp]:
  "polled K M (e\<lparr>eAdapter := a\<rparr>) = polled K M e" "polled K M (e\<lparr>eRequestChan := q\<rparr>) = polled K M e"
  "polled K M (e\<lparr>eMsgChan := ms\<rparr>) = polled K M e" "polled K M (e\<lparr>eSequenceNum := k\<rparr>) = polled K M e"
  "polled K M (e\<lparr>eMempool := mp\<rparr>) = polled K M e" "polled K M (e\<lparr>eTimer := ti\<rparr>) = polled K M e"
  "polled K M (e\<lparr>eStopped := x\<rparr>) = polled K M e" "polled K M (e\<lparr>eVcm := vcm\<rparr>) = polled K M e"
  "polled K M (e\<lparr>eView := v\<rparr>) = polled K M e" "polled K M (broadcast m e) = polled K M e"
  "polled K M (resetViewChangeTimer e) = polled K M e"
  by (simp_all add: polled_def)

lemma polled_checkpoint: "polled K M e \<Longrightarrow> polled K M (createCheckpoint S V c e)"
  by (simp add: polled_def createCheckpoint_fields Advance_get)

lemma polled_write:
  assumes "polled K M e" and "eValidatorSet e' = eValidatorSet e" and "eConfig e' = eConfig e"
    and "\<And>k. GetExistingState k (eStateLog e') = (if k = n then Some t else GetExistingState k (eStateLog e))"
    and "tally K M (eValidatorSet e) (cfNodeID (eConfig e)) n t"
  shows "polled K M e'"
  using assms by (simp add: polled_def)

lemma polled_found:
  "polled K M e \<Longrightarrow> tally K M (eValidatorSet e) (cfNodeID (eConfig e)) n
     (case GetExistingState n (eStateLog e) of Some s \<Rightarrow> s | None \<Rightarrow> NewState v n)"
  by (simp add: polled_def split: option.split)

lemma GetState_found: "GetState v n sl = (sl', s) \<Longrightarrow> s = (case GetExistingState n sl of Some s \<Rightarrow> s | None \<Rightarrow> NewState v n)"
  by (auto simp: GetState_def GetExistingState_def Let_def split: option.splits)

lemma polled_issue:
  assumes "polled K M e"
  shows "polled K M (issue_proposal V n v txs e)"
proof (rule polled_write [OF assms _ _ issue_proposal_state])
  show "eValidatorSet (issue_proposal V n v txs e) = eValidatorSet e" "eConfig (issue_proposal V n v txs e) = eConfig e"
    using issue_proposal_frame(1) [of e V n v txs] by (simp_all add: consensus_frame_def)
qed (intro tally_prepare tally_propose polled_found assms, simp)

lemma polled_accept:
  assumes "polled K M e"
  shows "polled K M (accept_proposal V m pp e)"
proof -
  let ?n = "mSequenceNum m"
  obtain sl s where g: "GetState (mView m) ?n (eStateLog e) = (sl, s)" by (cases "GetState (mView m) ?n (eStateLog e)")
  let ?t = "AddPrepare (NewPrepareMsg (mView m) ?n (mDigest m) (cfNodeID (eConfig e))) (SetPrePrepare pp (ppBlock pp) s)"
  show ?thesis
  proof (rule polled_write [OF assms, where n = ?n and t = ?t])
    show "eValidatorSet (accept_proposal V m pp e) = eValidatorSet e" "eConfig (accept_proposal V m pp e) = eConfig e"
      using accept_proposal_frame(1) [of e V m pp] by (simp_all add: consensus_frame_def)
    show "GetExistingState k (eStateLog (accept_proposal V m pp e)) =
        (if k = ?n then Some ?t else GetExistingState k (eStateLog e))" for k
      using GetState_other [OF g, of k] by (simp add: accept_proposal_def Let_def g)
    show "tally K M (eValidatorSet e) (cfNodeID (eConfig e)) ?n ?t"
      unfolding GetState_found [OF g] by (intro tally_prepare tally_propose polled_found assms) simp
  qed
qed

lemma polled_reprocess:
  assumes "polled K M e"
  shows "polled K M (reprocessPrePrepare V v pp e)"
proof -
  let ?n = "ppSequenceNum pp"
  obtain sl s where g: "GetState v ?n (eStateLog e) = (sl, s)" by (cases "GetState v ?n (eStateLog e)")
  let ?t = "SetPrePrepare (pp\<lparr>ppView := v\<rparr>) (ppBlock pp) s"
  show ?thesis
  proof (rule polled_write [OF assms, where n = ?n and t = ?t])
    show "eValidatorSet (reprocessPrePrepare V v pp e) = eValidatorSet e" "eConfig (reprocessPrePrepare V v pp e) = eConfig e"
      using reprocess_frame(1) [of e V v pp] by (simp_all add: consensus_frame_def)
    show "GetExistingState k (eStateLog (reprocessPrePrepare V v pp e)) =
        (if k = ?n then Some ?t else GetExistingState k (eStateLog e))" for k
      using GetState_other [OF g, of k] by (simp add: reprocessPrePrepare_def Let_def g)
    show "tally K M (eValidatorSet e) (cfNodeID (eConfig e)) ?n ?t"
      unfolding GetState_found [OF g] by (intro tally_propose polled_found assms)
  qed
qed

lemma polled_reprocess_all: "polled K M e \<Longrightarrow> polled K M (fold (reprocessPrePrepare V v) pps e)"
  by (induction pps arbitrary: e) (simp_all add: polled_reprocess)

lemma polled_put:
  "polled K M e \<Longrightarrow> tally K M (eValidatorSet e) (cfNodeID (eConfig e)) n t \<Longrightarrow> polled K M (put_state n t e)"
  by (rule polled_write [where n = n and t = t]) simp_all

lemma polled_found_at:
  "polled K M e \<Longrightarrow> GetExistingState n (eStateLog e) = Some s \<Longrightarrow> tally K M (eValidatorSet e) (cfNodeID (eConfig e)) n s"
  by (simp add: polled_def)

section \<open>The handlers\<close>

lemma polled_handlePrepare:
  assumes "polled K M e" and log: "log_ok (eStateLog e)" and "m \<in> M" "mType m = Prepare" "ve_codec V = K"
  shows "polled K M (handlePrepare V m e)"
proof (cases rule: handlePrepare_cases [of m e V])
  case (counted p s)
  have "pNodeID p \<in> preparers K M (cfNodeID (eConfig e)) (mSequenceNum m)"
    by (rule preparersI [OF assms(3,4)]) (use counted(2) assms(5) in simp)
  with polled_found_at [OF assms(1) counted(3)] show ?thesis unfolding counted(5)
    by (intro polled_put assms(1) tally_prepare)
next
  case (prepared p s c r)
  have "pNodeID p \<in> preparers K M (cfNodeID (eConfig e)) (mSequenceNum m)"
    by (rule preparersI [OF assms(3,4)]) (use prepared(2) assms(5) in simp)
  with polled_found_at [OF assms(1) prepared(3)]
  have t: "tally K M (eValidatorSet e) (cfNodeID (eConfig e)) (mSequenceNum m) (AddPrepare p s)" by (rule tally_prepare)
  have "state_ok (AddPrepare p s)" using log_ok_get [OF log prepared(3)] by blast
  from tally_prepared [OF t this prepared(4)]
  have "polled K M (put_state (mSequenceNum m) (AddCommit c (TransitionToPrepared (AddPrepare p s))) e)"
    by (intro polled_put assms(1) tally_commit) (simp_all add: prepared(6))
  then show ?thesis unfolding prepared(10) by (rule polled_same) simp_all
qed (use assms(1) in simp)

text \<open>An application that never changes the validators.\<close>

definition static_validators :: "'a adapter_ops \<Rightarrow> bool" where
  "static_validators A \<longleftrightarrow> (\<forall>b a a' r. ad_FinalizeBlock A b a = (a', Inr r) \<longrightarrow> erValidatorUpdates r = [])"

lemma static_noop: "static_validators noop_adapter"
  by (auto simp: static_validators_def noop_adapter_def no_FinalizeBlock_def Let_def)

lemma polled_execute:
  assumes "executeBlock A S V n s e = Ret e'" and st: "static_validators A"
    and "polled K M e" and "tally K M (eValidatorSet e) (cfNodeID (eConfig e)) n s"
  shows "polled K M e' \<and> eValidatorSet e' = eValidatorSet e"
proof -
  have rec: "polled K M (record_commit A S V n s b r (e\<lparr>eAdapter := a2\<rparr>)) \<and>
      eValidatorSet (record_commit A S V n s b r (e\<lparr>eAdapter := a2\<rparr>)) = eValidatorSet e"
    if "ad_FinalizeBlock A b (eAdapter e) = (a1, Inr r)" for b r a1 a2
  proof -
    have "erValidatorUpdates r = []" using st that unfolding static_validators_def by blast
    then have vs: "eValidatorSet (record_commit A S V n s b r (e\<lparr>eAdapter := a2\<rparr>)) = eValidatorSet e"
      by (simp add: record_commit_fields(10))
    moreover have "polled K M (record_commit A S V n s b r (e\<lparr>eAdapter := a2\<rparr>))"
      by (rule polled_write [OF assms(3) vs, where n = n and t = "MarkExecuted s"])
        (use assms(4) in \<open>simp_all add: record_commit_fields\<close>)
    ultimately show ?thesis by blast
  qed
  from assms(1) show ?thesis
  proof (cases rule: executeBlock_cases)
    case (failed a)
    then show ?thesis using assms(3) by simp
  next
    case (recorded b r a1 h a2)
    with rec show ?thesis by blast
  next
    case (checkpointed b r a1 h a2)
    from rec [OF checkpointed(3), of a2] show ?thesis
      unfolding checkpointed(5) by (simp add: polled_checkpoint createCheckpoint_fields)
  qed (use assms(3) in simp)
qed

lemma polled_handleCommit:
  assumes h: "handleCommit A S V m e = Ret e'" and st: "static_validators A" and "polled K M e"
    and "m \<in> M" "mType m = Commit" "ve_codec V = K"
  shows "polled K M e' \<and> eValidatorSet e' = eValidatorSet e"
  using h
proof (cases rule: handleCommit_cases)
  case (counted c s)
  have "cNodeID c \<in> committers K M (cfNodeID (eConfig e)) (mSequenceNum m)"
    by (rule committersI [OF assms(4,5)]) (use counted(2) assms(6) in simp)
  with polled_found_at [OF assms(3) counted(3)] show ?thesis unfolding counted(5)
    by (simp add: polled_put assms(3) tally_commit)
next
  case (committed c s t)
  have "cNodeID c \<in> committers K M (cfNodeID (eConfig e)) (mSequenceNum m)"
    by (rule committersI [OF assms(4,5)]) (use committed(2) assms(6) in simp)
  with polled_found_at [OF assms(3) committed(3)]
  have t: "tally K M (eValidatorSet e) (cfNodeID (eConfig e)) (mSequenceNum m) t"
    unfolding committed(6) by (intro tally_committed tally_commit)
  from polled_execute [OF committed(7) st, of K M] polled_put [OF assms(3) t] t show ?thesis by simp
qed (use assms(3) in simp)

lemma polled_message:
  assumes h: "handleMessage A S V m e = Ret e'" and st: "static_validators A" and p: "polled K M e" and ok: "engine_ok e"
    and m: "m \<in> M" "ve_codec V = K"
  shows "polled K M e' \<and> eValidatorSet e' = eValidatorSet e \<and> eConfig e' = eConfig e"
proof -
  note cb = engine_ok_facts(6) [OF ok] and log = engine_ok_facts(5) [OF ok]
  consider (pp) "handlePrePrepare A V m e = Ret e'" | (p) "mType m = Prepare" "e' = handlePrepare V m e"
    | (c) "mType m = Commit" "handleCommit A S V m e = Ret e'"
    | (vc) "handleViewChange V m e = Ret e'" | (nv) "handleNewView V m e = Ret e'" | (no) "e' = e"
    using h by (cases "mType m") (simp_all add: handleMessage_def)
  then show ?thesis
  proof cases
    case pp
    have fr: "eValidatorSet e' = eValidatorSet e" "eConfig e' = eConfig e"
      using handlePrePrepare_frame(1) [OF pp] by (simp_all add: consensus_frame_def)
    from pp have "polled K M e'"
    proof (cases rule: handlePrePrepare_cases)
      case (accepted q b a)
      then show ?thesis using p by (simp add: polled_accept)
    qed (use p in simp_all)
    with fr show ?thesis by blast
  next
    case p
    with handlePrepare_frame(1) [of e V m] polled_handlePrepare [OF assms(3) log m(1) p(1) m(2)] show ?thesis
      by (simp add: consensus_frame_def)
  next
    case c
    have "eConfig e' = eConfig e"
      using c(2) by (cases rule: handleCommit_cases) (auto elim!: executeBlock_cases simp: record_commit_fields createCheckpoint_fields)
    with polled_handleCommit [OF c(2) st assms(3) m(1) c(1) m(2)] show ?thesis by blast
  next
    case vc
    then show ?thesis
    proof (cases rule: handleViewChange_cases)
      case (quorum w)
      from quorum(5) show ?thesis
      proof (cases rule: broadcastNewView_cases)
        case (sent x r ok')
        have "vmOnCompleteSet (eVcm (broadcast r (e\<lparr>eVcm := fst (HandleViewChange w (eVcm e))\<rparr>)))"
          using cb by (simp add: HandleViewChange_fields)
        with sent(4) show ?thesis by (cases rule: vcm_HandleNewView_cases) (simp_all add: assms(3))
      qed (simp add: assms(3))
    qed (simp_all add: assms(3))
  next
    case nv
    from nv cb show ?thesis
    proof (cases rule: handleNewView_cases)
      case (installed w)
      let ?e = "resetViewChangeTimer (e\<lparr>eVcm := install_view w (eVcm e), eView := nvView w\<rparr>)"
      have "polled K M ?e" using assms(3) by simp
      with reprocess_all_frame [of ?e V "nvView w" "nvPrePrepareMsgs w"] show ?thesis
        unfolding installed(5) by (simp add: polled_reprocess_all consensus_frame_def)
    qed (use assms(3) in simp)
  qed (use assms(3) in simp)
qed

lemma polled_request:
  assumes "run_request A V e = Some (Ret e')" and p: "polled K M e"
  shows "polled K M e' \<and> eValidatorSet e' = eValidatorSet e \<and> eConfig e' = eConfig e"
  using assms(1)
proof (cases rule: run_request_cases)
  case (propose r q)
  have fr: "eValidatorSet e' = eValidatorSet e" "eConfig e' = eConfig e"
    using proposeBlock_frame(1) [OF propose(3)] by (simp_all add: consensus_frame_def)
  from propose(3) have "polled K M e'"
  proof (cases rule: proposeBlock_cases)
    case (issued a txs txs')
    then show ?thesis using p by (simp add: polled_issue)
  qed (use p in simp_all)
  with fr show ?thesis by blast
qed (use p in simp)

text \<open>What stands behind a commit: a quorum of \<open>PREPARE\<close>s and a quorum of \<open>COMMIT\<close>s.\<close>

definition voted_for :: "codec \<Rightarrow> Message set \<Rightarrow> ValidatorSet \<Rightarrow> string \<Rightarrow> u64 \<Rightarrow> bool" where
  "voted_for K M vs self n \<longleftrightarrow> (\<exists>P \<subseteq> preparers K M self n. QuorumSize vs \<le> int (card P)) \<and>
     (\<exists>C \<subseteq> committers K M self n. QuorumSize vs \<le> int (card C))"

lemma committed_voted:
  assumes p: "polled K M e" and log: "log_ok (eStateLog e)"
    and g: "GetExistingState (mSequenceNum m) (eStateLog e) = Some s" and "sPhase s = Prepared"
    and m: "m \<in> M" "mType m = Commit" "dec_commit K (mPayload m) = Some c"
    and q: "IsCommitted (QuorumSize (eValidatorSet e)) (AddCommit c s)"
  shows "voted_for K M (eValidatorSet e) (cfNodeID (eConfig e)) (mSequenceNum m)"
proof -
  have t: "tally K M (eValidatorSet e) (cfNodeID (eConfig e)) (mSequenceNum m) s" by (rule polled_found_at [OF p g])
  have ok: "state_ok (AddCommit c s)" using log_ok_get [OF log g] by blast
  have C: "go_keys (sCommitMsgs (AddCommit c s)) \<subseteq> committers K M (cfNodeID (eConfig e)) (mSequenceNum m)"
    using tally_commit [OF t committersI [OF m]] by (simp add: tally_def)
  have "QuorumSize (eValidatorSet e) \<le> int (card (go_keys (sCommitMsgs (AddCommit c s))))"
    using q unfolding ballot_counts(2) [OF ok] by blast
  with C t assms(4) show ?thesis unfolding voted_for_def tally_def by blast
qed

end
