(* ===== verification/Agreement.thy ===== *)
theory Agreement
  imports Cluster Certificates
begin

text \<open>
  What the nodes of a cluster agree on. \<open>M\<close> is everything that is ever sent: what a node handles
  comes from \<open>M\<close>, and what it proposes goes into \<open>M\<close>; votes, view changes and clocks are arbitrary,
  so \<open>M\<close> may hold anything faulty nodes send. A message offers a block under a number if it makes
  its receiver store the block there.
\<close>

section \<open>Offers\<close>

definition offers :: "codec \<Rightarrow> Message \<Rightarrow> (u64 \<times> Block) list" where
  "offers K m =
     (case mType m of
        PrePrepare \<Rightarrow>
          (case dec_pre_prepare K (mPayload m) of
             None \<Rightarrow> []
           | Some pp \<Rightarrow> (case ppBlock pp of None \<Rightarrow> [] | Some b \<Rightarrow> [(mSequenceNum m, b)]))
      | NewView \<Rightarrow>
          (case dec_new_view K (mPayload m) of
             None \<Rightarrow> []
           | Some nv \<Rightarrow> List.map_filter (\<lambda>pp. map_option (Pair (ppSequenceNum pp)) (ppBlock pp)) (nvPrePrepareMsgs nv))
      | _ \<Rightarrow> [])"

definition offered :: "codec \<Rightarrow> Message set \<Rightarrow> (u64 \<times> Block) set" where
  "offered K M = (\<Union>m\<in>M. set (offers K m))"

lemma offered_pre_prepare:
  assumes "m \<in> M" "mType m = PrePrepare" "dec_pre_prepare K (mPayload m) = Some pp" "ppBlock pp = Some b"
  shows "(mSequenceNum m, b) \<in> offered K M"
  unfolding offered_def by (rule UN_I [OF assms(1)]) (simp add: offers_def assms(2-4))

lemma offered_new_view:
  assumes "m \<in> M" "mType m = NewView" "dec_new_view K (mPayload m) = Some nv"
    and "pp \<in> set (nvPrePrepareMsgs nv)" "ppBlock pp = Some b"
  shows "(ppSequenceNum pp, b) \<in> offered K M"
  unfolding offered_def
  by (rule UN_I [OF assms(1)]) (use assms(2-5) in \<open>force simp: offers_def List.map_filter_def\<close>)

section \<open>What every handler leaves alone\<close>

text \<open>The message channel and whether a transport is attached.\<close>

definition io :: "('a, 's) Engine \<Rightarrow> Message list \<times> bool" where
  "io e = (eMsgChan e, eTransportSet e)"

lemma io_helpers [simp]:
  "io (broadcast m e) = io e" "io (put_state n s e) = io e" "io (resetViewChangeTimer e) = io e"
  "io (e\<lparr>eAdapter := a\<rparr>) = io e" "io (e\<lparr>eStateLog := l\<rparr>) = io e" "io (e\<lparr>eStore := st\<rparr>) = io e"
  "io (e\<lparr>eVcm := v\<rparr>) = io e" "io (e\<lparr>eView := k\<rparr>) = io e"  "io (e\<lparr>eCommittedBlocks := bs\<rparr>) = io e"
  "io (e\<lparr>eMempool := mp\<rparr>) = io e" "io (e\<lparr>eCheckpoints := cs\<rparr>) = io e" "io (e\<lparr>eLastAppHash := h\<rparr>) = io e"
  "io (e\<lparr>eValidatorSet := vs\<rparr>) = io e" "io (e\<lparr>eSequenceNum := k\<rparr>) = io e" "io (e\<lparr>eTimer := ti\<rparr>) = io e"
  by (simp_all add: io_def broadcast_def put_state_def resetViewChangeTimer_def)

lemma io_store [simp]:
  "io (fst (saveBlockToStore S b e)) = io e" "io (fst (saveCheckpointToStore S c e)) = io e"
  "io (fst (SaveState S e)) = io e"
  using store_fields [of S b e "fst (saveBlockToStore S b e)" "snd (saveBlockToStore S b e)" c]
    store_fields [of S b e "fst (saveCheckpointToStore S c e)" "snd (saveCheckpointToStore S c e)" c]
    store_fields [of S b e "fst (SaveState S e)" "snd (SaveState S e)" c] by auto

lemma io_updates [simp]: "io (handleValidatorUpdates us e) = io e"
  using updates_fields [of us e] by auto

lemma io_record [simp]: "io (record_commit A S V n s b r e) = io e"
  by (simp add: record_commit_def Let_def split_beta split: option.split)

lemma io_checkpoint [simp]: "io (createCheckpoint S V n e) = io e"
  by (simp add: createCheckpoint_def Let_def split_beta)

lemma io_execute:
  assumes "executeBlock A S V n s e = Ret e'"
  shows "io e' = io e"
  using assms by (cases rule: executeBlock_cases) simp_all

lemma io_accept [simp]: "io (accept_proposal V m pp e) = io e"
  by (simp add: accept_proposal_def Let_def split: prod.split)

lemma io_issue [simp]: "io (issue_proposal V n v txs e) = io e"
  by (simp add: issue_proposal_def Let_def split: prod.split)

lemma io_reprocess: "io (fold (reprocessPrePrepare V v) pps e) = io e"
  by (induction pps arbitrary: e) (simp_all add: reprocessPrePrepare_def Let_def split: prod.split)

lemma io_message:
  assumes "handleMessage A S V m e = Ret e'" and cb: "vmOnCompleteSet (eVcm e)"
  shows "io e' = io e"
  using assms(1)
proof (cases rule: handleMessage_cases)
  case pre_prepare
  then show ?thesis by (cases rule: handlePrePrepare_cases) simp_all
next
  case prepare
  then show ?thesis by (cases rule: handlePrepare_cases [of m e V]) simp_all
next
  case commit
  then show ?thesis by (cases rule: handleCommit_cases) (simp_all add: io_execute)
next
  case view_change
  then show ?thesis
  proof (cases rule: handleViewChange_cases)
    case (quorum vc)
    from quorum(5) show ?thesis
    proof (cases rule: broadcastNewView_cases)
      case (sent nv r ok)
      have "vmOnCompleteSet (eVcm (broadcast r (e\<lparr>eVcm := fst (HandleViewChange vc (eVcm e))\<rparr>)))"
        using cb by (simp add: HandleViewChange_fields)
      with sent(4) show ?thesis by (cases rule: vcm_HandleNewView_cases) simp_all
    qed simp
  qed simp_all
next
  case new_view
  then show ?thesis using cb by (cases rule: handleNewView_cases) (simp_all add: io_reprocess)
qed simp

section \<open>Steps of a node of the cluster\<close>

inductive cluster_step ::
  "'a adapter_ops \<Rightarrow> 's store_ops \<Rightarrow> codec \<Rightarrow> Message set \<Rightarrow> ('a, 's) Engine \<Rightarrow> ('a, 's) Engine \<Rightarrow> bool" for A S K M where
  cs_message: "ve_ok V \<Longrightarrow> ve_codec V = K \<Longrightarrow> eMsgChan e = m # q \<Longrightarrow> m \<in> M \<Longrightarrow>
    handleMessage A S V m (e\<lparr>eMsgChan := q\<rparr>) = Ret e' \<Longrightarrow> cluster_step A S K M e e'"
| cs_request: "ve_codec V = K \<Longrightarrow> run_request A V e = Some (Ret e') \<Longrightarrow>
    set (drop (length (eOut e)) (eOut e')) \<subseteq> M \<Longrightarrow> cluster_step A S K M e e'"
| cs_timeout: "eTimer e \<noteq> None \<Longrightarrow> startViewChange V e = Ret e' \<Longrightarrow> cluster_step A S K M e e'"
| cs_incoming: "cluster_step A S K M e (handleIncomingMessage m e)"
| cs_submit: "cluster_step A S K M e (fst (SubmitRequest V op cl e))"
| cs_start: "cluster_step A S K M e (engine_Start e)"
| cs_stop: "cluster_step A S K M e (engine_Stop e)"
| cs_pool: "eMempool e = Some mp \<Longrightarrow> mp_step mp mp' \<Longrightarrow> cluster_step A S K M e (e\<lparr>eMempool := Some mp'\<rparr>)"

lemma cluster_step_engine: "cluster_step A S K M e e' \<Longrightarrow> engine_step A S e e'"
proof (induction rule: cluster_step.induct)
  case (cs_message V e m q e')
  then have "run_msg A S V e = Some (Ret e')" by (simp add: run_msg_def)
  with cs_message(1) show ?case by (rule es_message)
qed (blast intro: engine_step.intros)+

lemma cluster_step_transport:
  assumes "cluster_step A S K M e e'" and ok: "engine_ok e"
  shows "eTransportSet e' = eTransportSet e"
  using assms(1)
proof (cases rule: cluster_step.cases)
  case (cs_message V m q)
  have "vmOnCompleteSet (eVcm (e\<lparr>eMsgChan := q\<rparr>))" using engine_ok_facts(6) [OF ok] by simp
  from io_message [OF cs_message(5) this] show ?thesis by (simp add: io_def)
next
  case (cs_request V)
  from cs_request(2) show ?thesis
  proof (cases rule: run_request_cases)
    case (propose r q)
    from propose(3) have "io e' = io (e\<lparr>eRequestChan := q\<rparr>)" by (cases rule: proposeBlock_cases) simp_all
    then show ?thesis by (simp add: io_def)
  qed simp
next
  case (cs_timeout V)
  from cs_timeout(2) obtain vcm out ps where
    "e' = (case out of Some m \<Rightarrow> broadcast m (e\<lparr>eVcm := vcm\<rparr>) | None \<Rightarrow> e\<lparr>eVcm := vcm\<rparr>)
          \<lparr>eTimer := Some (cfViewChangeTimeout (eConfig e) * 2)\<rparr>" by (rule startViewChange_fields)
  then show ?thesis by (simp split: option.split)
qed (simp_all add: handleIncomingMessage_def SubmitRequest_def Let_def engine_Start_def engine_Stop_def)

lemma cluster_run_ok: "(cluster_step A S K M)\<^sup>*\<^sup>* e0 e \<Longrightarrow> engine_ok e0 \<Longrightarrow> engine_ok e \<and> eTransportSet e = eTransportSet e0"
  by (induction rule: rtranclp_induct) (auto intro: engine_step_ok cluster_step_engine dest: cluster_step_transport)

section \<open>What a handler does to the log\<close>

text \<open>
  \<open>moves X N e e'\<close>: the chain and the low mark stay, no state disappears or forgets that it was
  executed, and every block under a number was there or is in \<open>X\<close>; a new state is above the low
  mark, unless \<open>N\<close>.
\<close>

definition moves :: "(u64 \<times> Block) set \<Rightarrow> bool \<Rightarrow> ('a, 's) Engine \<Rightarrow> ('a, 's) Engine \<Rightarrow> bool" where
  "moves X N e e' \<longleftrightarrow> eCommittedBlocks e' = eCommittedBlocks e \<and> slLow (eStateLog e') = slLow (eStateLog e) \<and>
     (\<forall>n s. GetExistingState n (eStateLog e) = Some s \<longrightarrow>
        (\<exists>s'. GetExistingState n (eStateLog e') = Some s' \<and> (sExecuted s \<longrightarrow> sExecuted s'))) \<and>
     (\<forall>n s'. GetExistingState n (eStateLog e') = Some s' \<longrightarrow>
        (\<forall>b. sBlock s' = Some b \<longrightarrow> (n, b) \<in> X \<or> (\<exists>s. GetExistingState n (eStateLog e) = Some s \<and> sBlock s = Some b)) \<and>
        (N \<or> slLow (eStateLog e) < n \<or> GetExistingState n (eStateLog e) \<noteq> None))"

lemma moves_refl: "moves X N e e"
  by (auto simp: moves_def)

lemma moves_same: "eCommittedBlocks e' = eCommittedBlocks e \<Longrightarrow> eStateLog e' = eStateLog e \<Longrightarrow> moves X N e e'"
  by (auto simp: moves_def)

lemma moves_trans:
  assumes "moves X N a b" and "moves X N b c"
  shows "moves X N a c"
  unfolding moves_def
proof (intro conjI allI impI)
  show "eCommittedBlocks c = eCommittedBlocks a" "slLow (eStateLog c) = slLow (eStateLog a)"
    using assms by (simp_all add: moves_def)
next
  fix n s
  assume "GetExistingState n (eStateLog a) = Some s"
  with assms show "\<exists>s'. GetExistingState n (eStateLog c) = Some s' \<and> (sExecuted s \<longrightarrow> sExecuted s')"
    unfolding moves_def by meson
next
  fix n s' x
  assume "GetExistingState n (eStateLog c) = Some s'" "sBlock s' = Some x"
  with assms show "(n, x) \<in> X \<or> (\<exists>s. GetExistingState n (eStateLog a) = Some s \<and> sBlock s = Some x)"
    unfolding moves_def by meson
next
  fix n s'
  assume "GetExistingState n (eStateLog c) = Some s'"
  with assms show "N \<or> slLow (eStateLog a) < n \<or> GetExistingState n (eStateLog a) \<noteq> None"
    unfolding moves_def by (metis not_None_eq)
qed

text \<open>One state written, after \<open>GetState\<close> or over an existing one.\<close>

lemma moves_write:
  assumes "eCommittedBlocks e' = eCommittedBlocks e" and "slLow (eStateLog e') = slLow (eStateLog e)"
    and get: "\<And>k. GetExistingState k (eStateLog e') = (if k = n then Some t else GetExistingState k (eStateLog e))"
    and ex: "\<And>s. GetExistingState n (eStateLog e) = Some s \<Longrightarrow> sExecuted s \<Longrightarrow> sExecuted t"
    and blk: "\<And>b. sBlock t = Some b \<Longrightarrow> (n, b) \<in> X \<or> (\<exists>s. GetExistingState n (eStateLog e) = Some s \<and> sBlock s = Some b)"
    and new: "N \<or> slLow (eStateLog e) < n \<or> GetExistingState n (eStateLog e) \<noteq> None"
  shows "moves X N e e'"
  using assms by (auto simp: moves_def)

lemma moves_over:
  assumes "GetExistingState n (eStateLog e) = Some s" and "sBlock t = sBlock s" and "sExecuted t = sExecuted s"
  shows "moves X N e (put_state n t e)"
  by (rule moves_write [where n = n and t = t]) (use assms in simp_all)

lemma moves_adapter: "moves X N (e\<lparr>eAdapter := a\<rparr>) e' = moves X N e e'" "moves X N e (e'\<lparr>eMsgChan := q\<rparr>) = moves X N e e'"
  "moves X N (e\<lparr>eMsgChan := q\<rparr>) e' = moves X N e e'" "moves X N (e\<lparr>eRequestChan := r\<rparr>) e' = moves X N e e'"
  "moves X N (e\<lparr>eSequenceNum := k\<rparr>) e' = moves X N e e'"
  by (simp_all add: moves_def)


section \<open>The handlers\<close>

lemma issue_proposal_moves:
  assumes "slLow (eStateLog e) < n" and "(n, proposed_block V n v txs e) \<in> X"
  shows "moves X N e (issue_proposal V n v txs e)"
proof (rule moves_write [where n = n])
  show "eCommittedBlocks (issue_proposal V n v txs e) = eCommittedBlocks e"
    "slLow (eStateLog (issue_proposal V n v txs e)) = slLow (eStateLog e)"
    using issue_proposal_frame(1) [of e V n v txs] by (simp_all add: consensus_frame_def)
qed (rule issue_proposal_state, use assms in \<open>auto simp: State_defs split: option.splits\<close>)

lemma accept_proposal_moves:
  assumes "slLow (eStateLog e) < mSequenceNum m" and "\<And>b. ppBlock pp = Some b \<Longrightarrow> (mSequenceNum m, b) \<in> X"
  shows "moves X N e (accept_proposal V m pp e)"
proof -
  let ?n = "mSequenceNum m"
  obtain sl s where g: "GetState (mView m) ?n (eStateLog e) = (sl, s)" by (cases "GetState (mView m) ?n (eStateLog e)")
  have s: "s = (case GetExistingState ?n (eStateLog e) of Some s \<Rightarrow> s | None \<Rightarrow> NewState (mView m) ?n)"
    using g by (auto simp: GetState_def GetExistingState_def Let_def split: option.splits)
  let ?t = "AddPrepare (NewPrepareMsg (mView m) ?n (mDigest m) (cfNodeID (eConfig e))) (SetPrePrepare pp (ppBlock pp) s)"
  show ?thesis
  proof (rule moves_write [where n = ?n and t = ?t])
    show "eCommittedBlocks (accept_proposal V m pp e) = eCommittedBlocks e"
      "slLow (eStateLog (accept_proposal V m pp e)) = slLow (eStateLog e)"
      using accept_proposal_frame(1) [of e V m pp] by (simp_all add: consensus_frame_def)
    show "GetExistingState k (eStateLog (accept_proposal V m pp e)) =
        (if k = ?n then Some ?t else GetExistingState k (eStateLog e))" for k
      using GetState_other [OF g, of k] by (simp add: accept_proposal_def Let_def g)
  qed (use assms s in \<open>auto simp: State_defs split: option.splits\<close>)
qed

lemma reprocess_moves:
  assumes "\<And>b. ppBlock pp = Some b \<Longrightarrow> (ppSequenceNum pp, b) \<in> X"
  shows "moves X True e (reprocessPrePrepare V v pp e)"
proof -
  let ?n = "ppSequenceNum pp"
  obtain sl s where g: "GetState v ?n (eStateLog e) = (sl, s)" by (cases "GetState v ?n (eStateLog e)")
  have s: "s = (case GetExistingState ?n (eStateLog e) of Some s \<Rightarrow> s | None \<Rightarrow> NewState v ?n)"
    using g by (auto simp: GetState_def GetExistingState_def Let_def split: option.splits)
  let ?t = "SetPrePrepare (pp\<lparr>ppView := v\<rparr>) (ppBlock pp) s"
  show ?thesis
  proof (rule moves_write [where n = ?n and t = ?t])
    show "eCommittedBlocks (reprocessPrePrepare V v pp e) = eCommittedBlocks e"
      "slLow (eStateLog (reprocessPrePrepare V v pp e)) = slLow (eStateLog e)"
      using reprocess_frame(1) [of e V v pp] by (simp_all add: consensus_frame_def)
    show "GetExistingState k (eStateLog (reprocessPrePrepare V v pp e)) =
        (if k = ?n then Some ?t else GetExistingState k (eStateLog e))" for k
      using GetState_other [OF g, of k] by (simp add: reprocessPrePrepare_def Let_def g)
  qed (use assms s in \<open>auto simp: State_defs split: option.splits\<close>)
qed

lemma reprocess_all_moves:
  "(\<And>pp b. pp \<in> set pps \<Longrightarrow> ppBlock pp = Some b \<Longrightarrow> (ppSequenceNum pp, b) \<in> X) \<Longrightarrow>
   moves X True e (fold (reprocessPrePrepare V v) pps e)"
proof (induction pps arbitrary: e)
  case (Cons pp pps)
  have "moves X True e (reprocessPrePrepare V v pp e)" by (rule reprocess_moves) (rule Cons.prems, simp_all)
  then show ?case using Cons.IH [of "reprocessPrePrepare V v pp e"] Cons.prems by (auto intro: moves_trans)
qed (simp add: moves_refl)

lemma handlePrepare_moves: "moves X N e (handlePrepare V m e)"
proof (cases rule: handlePrepare_cases [of m e V])
  case (counted p s)
  then show ?thesis by (simp add: moves_over State_defs)
next
  case (prepared p s c r)
  have "moves X N e (put_state (mSequenceNum m) (AddCommit c (TransitionToPrepared (AddPrepare p s))) e)"
    by (rule moves_over [OF prepared(3)]) (simp_all add: State_defs)
  then show ?thesis unfolding prepared(10) by (simp add: moves_def)
qed (simp add: moves_refl)

lemma handleViewChange_moves:
  assumes "handleViewChange V m e = Ret e'" and cb: "vmOnCompleteSet (eVcm e)"
  shows "moves X N e e'"
  using assms(1)
proof (cases rule: handleViewChange_cases)
  case (quorum vc)
  from quorum(5) show ?thesis
  proof (cases rule: broadcastNewView_cases)
    case (sent nv r ok)
    have "vmOnCompleteSet (eVcm (broadcast r (e\<lparr>eVcm := fst (HandleViewChange vc (eVcm e))\<rparr>)))"
      using cb by (simp add: HandleViewChange_fields)
    with sent(4) show ?thesis by (cases rule: vcm_HandleNewView_cases) (simp_all add: moves_same)
  qed (simp add: moves_same)
qed (simp_all add: moves_same)

text \<open>Every message but a \<open>COMMIT\<close>.\<close>

lemma handleMessage_moves:
  assumes h: "handleMessage A S V m e = Ret e'" and nc: "mType m \<noteq> Commit" and "m \<in> M" and K: "ve_codec V = K"
    and cb: "vmOnCompleteSet (eVcm e)"
  shows "moves (offered K M) (mType m = NewView) e e'"
proof -
  consider (pp) "mType m = PrePrepare" "handlePrePrepare A V m e = Ret e'" | (p) "e' = handlePrepare V m e"
    | (vc) "handleViewChange V m e = Ret e'" | (nv) "mType m = NewView" "handleNewView V m e = Ret e'" | (no) "e' = e"
    using h nc by (cases "mType m") (simp_all add: handleMessage_def)
  then show ?thesis
  proof cases
    case pp
    from pp(2) show ?thesis
    proof (cases rule: handlePrePrepare_cases)
      case (accepted q b a)
      have "(mSequenceNum m, b) \<in> offered K M"
        by (rule offered_pre_prepare [OF assms(3) pp(1)]) (use accepted K in simp_all)
      with accepted(3,5) have "moves (offered K M) (mType m = NewView) (e\<lparr>eAdapter := a\<rparr>) e'"
        unfolding accepted(7) by (intro accept_proposal_moves) (simp_all add: IsInWindow_def)
      then show ?thesis by (simp add: moves_adapter)
    qed (simp_all add: moves_refl moves_same)
  next
    case nv
    from nv(2) cb show ?thesis
    proof (cases rule: handleNewView_cases)
      case (installed w)
      let ?e = "resetViewChangeTimer (e\<lparr>eVcm := install_view w (eVcm e), eView := nvView w\<rparr>)"
      have "moves (offered K M) True ?e e'" unfolding installed(5)
        by (rule reprocess_all_moves, rule offered_new_view [OF assms(3) nv(1)]) (use installed(1) K in simp_all)
      moreover have "moves (offered K M) True e ?e" by (rule moves_same) simp_all
      ultimately show ?thesis using nv(1) moves_trans by auto
    qed (simp add: moves_refl)
  qed (simp_all add: handlePrepare_moves handleViewChange_moves cb moves_refl)
qed


section \<open>The ledger of a node\<close>

text \<open>Every logged block was offered; the chain is a list of offered blocks, under the numbers \<open>ns\<close>.\<close>

definition backed :: "(u64 \<times> Block) set \<Rightarrow> ('a, 's) Engine \<Rightarrow> bool" where
  "backed X e \<longleftrightarrow> (\<forall>n s b. GetExistingState n (eStateLog e) = Some s \<longrightarrow> sBlock s = Some b \<longrightarrow> (n, b) \<in> X)"

definition above_low :: "('a, 's) Engine \<Rightarrow> bool" where
  "above_low e \<longleftrightarrow> (\<forall>n. GetExistingState n (eStateLog e) \<noteq> None \<longrightarrow> slLow (eStateLog e) < n)"

definition ledger :: "(u64 \<times> Block) set \<Rightarrow> u64 list \<Rightarrow> ('a, 's) Engine \<Rightarrow> bool" where
  "ledger X ns e \<longleftrightarrow> list_all2 (\<lambda>n b. (n, b) \<in> X) ns (eCommittedBlocks e) \<and>
     (\<forall>n \<in> set ns. n \<le> slLow (eStateLog e) \<or> (\<exists>s. GetExistingState n (eStateLog e) = Some s \<and> sExecuted s))"

lemma moves_backed: "moves X N e e' \<Longrightarrow> backed X e \<Longrightarrow> backed X e'"
  unfolding moves_def backed_def by metis

lemma moves_above_low: "moves X False e e' \<Longrightarrow> above_low e \<Longrightarrow> above_low e'"
  unfolding moves_def above_low_def by (metis not_None_eq)

lemma moves_ledger: "moves X N e e' \<Longrightarrow> ledger Y ns e \<Longrightarrow> ledger Y ns e'"
  unfolding moves_def ledger_def by metis

text \<open>
  Everything together: what is logged is in \<open>X\<close>, what is in the chain is in \<open>Y\<close>, and the numbers
  are distinct as long as no new view intervenes.
\<close>

definition accounted :: "(u64 \<times> Block) set \<Rightarrow> (u64 \<times> Block) set \<Rightarrow> bool \<Rightarrow> ('a, 's) Engine \<Rightarrow> bool" where
  "accounted X Y N e \<longleftrightarrow> backed X e \<and> (\<exists>ns. ledger Y ns e \<and> (N \<or> distinct ns \<and> above_low e))"

lemma moves_accounted:
  assumes "moves X N' e e'" and "accounted X Y N e" and "N' \<Longrightarrow> N"
  shows "accounted X Y N e'"
proof -
  obtain ns where ns: "backed X e" "ledger Y ns e" "N \<or> distinct ns \<and> above_low e" using assms(2) by (auto simp: accounted_def)
  have "above_low e'" if "\<not> N" using that ns(3) assms(1,3) moves_above_low by (metis (full_types))
  with moves_backed [OF assms(1) ns(1)] moves_ledger [OF assms(1) ns(2)] ns(3) show ?thesis
    unfolding accounted_def by blast
qed

lemma handleCommit_accounted:
  assumes "handleCommit A S V m e = Ret e'" and ac: "accounted X Y N e" and log: "log_ok (eStateLog e)"
    and seal: "\<And>c s b. dec_commit (ve_codec V) (mPayload m) = Some c \<Longrightarrow>
      GetExistingState (mSequenceNum m) (eStateLog e) = Some s \<Longrightarrow> sPhase s = Prepared \<Longrightarrow>
      IsCommitted (QuorumSize (eValidatorSet e)) (AddCommit c s) \<Longrightarrow> (mSequenceNum m, b) \<in> X \<Longrightarrow> (mSequenceNum m, b) \<in> Y"
  shows "accounted X Y N e'"
  using assms(1)
proof (cases rule: handleCommit_cases)
  case (counted c s)
  have "moves X N e e'" unfolding counted(5) by (rule moves_over [OF counted(3)]) (simp_all add: State_defs)
  then show ?thesis using ac by (rule moves_accounted)
next
  case (committed c s t)
  let ?n = "mSequenceNum m"
  have t: "sBlock t = sBlock s" "sExecuted t = sExecuted s" "sSequenceNum t = ?n"
    using committed(6) log_ok_get [OF log committed(3)] by (simp_all add: State_defs)
  let ?e = "put_state ?n t e"
  have mv: "moves X N e ?e" by (rule moves_over [OF committed(3)]) (use t in simp_all)
  have ac': "accounted X Y N ?e" by (rule moves_accounted [OF mv ac])
  then obtain ns where ns: "backed X ?e" "ledger Y ns ?e" "N \<or> distinct ns \<and> above_low ?e"
    by (auto simp: accounted_def)
  have get: "GetExistingState ?n (eStateLog ?e) = Some t" by simp
  have rec: "accounted X Y N (record_commit A S V ?n t b r (?e\<lparr>eAdapter := a\<rparr>))"
    if b: "sBlock t = Some b" and new: "\<not> sExecuted t" for b r a
  proof -
    let ?r = "record_commit A S V ?n t b r (?e\<lparr>eAdapter := a\<rparr>)"
    have g: "GetExistingState k (eStateLog ?r) = (if k = ?n then Some (MarkExecuted t) else GetExistingState k (eStateLog ?e))" for k
      by (simp add: record_commit_fields)
    have f: "eCommittedBlocks ?r = eCommittedBlocks ?e @ [b]" "slLow (eStateLog ?r) = slLow (eStateLog ?e)"
      by (simp_all add: record_commit_fields)
    have x: "(?n, b) \<in> X" using ns(1) get b by (auto simp: backed_def)
    have y: "(?n, b) \<in> Y" by (rule seal [OF committed(2,3,5,4) x])
    have "backed X ?r" using ns(1) b x unfolding backed_def g by (auto simp: MarkExecuted_def)
    moreover have "ledger Y (ns @ [?n]) ?r"
      using ns(2) y unfolding ledger_def g f by (auto simp: MarkExecuted_def intro: list_all2_appendI)
    moreover have "distinct (ns @ [?n]) \<and> above_low ?r" if "\<not> N"
    proof -
      have d: "distinct ns" "above_low ?e" using ns(3) that by simp_all
      then have low: "slLow (eStateLog ?e) < ?n" using get by (simp add: above_low_def)
      have "?n \<notin> set ns" using ns(2) get new low unfolding ledger_def by (auto simp del: put_state_fields)
      then show ?thesis using d low unfolding above_low_def g f(2) by auto
    qed
    ultimately show ?thesis unfolding accounted_def by blast
  qed
  have adv: "accounted X Y N (createCheckpoint S V k e1)" if "accounted X Y N e1" for k and e1 :: "('a, 'b) Engine"
  proof -
    let ?c = "createCheckpoint S V k e1"
    have g: "GetExistingState j (eStateLog ?c) = (if k > slLow (eStateLog e1) \<and> j \<le> k then None else GetExistingState j (eStateLog e1))" for j
      by (simp add: createCheckpoint_fields Advance_get)
    have l: "slLow (eStateLog ?c) = max (slLow (eStateLog e1)) k"
      by (cases "slLow (eStateLog e1) < k")
        (simp_all add: createCheckpoint_fields AdvanceWatermarks_def Let_def max_absorb1 max_absorb2)
    have c: "eCommittedBlocks ?c = eCommittedBlocks e1" by (simp add: createCheckpoint_fields)
    from that obtain ns where ns: "backed X e1" "ledger Y ns e1" "N \<or> distinct ns \<and> above_low e1"
      by (auto simp: accounted_def)
    have "backed X ?c" using ns(1) unfolding backed_def g by (auto split: if_splits)
    moreover have "ledger Y ns ?c" using ns(2) unfolding ledger_def g l c by (auto simp: le_max_iff_disj)
    moreover have "above_low ?c" if "above_low e1" using that unfolding above_low_def g l by (auto split: if_splits)
    ultimately show ?thesis using ns(3) unfolding accounted_def by blast
  qed
  from committed(7) show ?thesis
  proof (cases rule: executeBlock_cases)
    case skipped
    then show ?thesis using ac' by simp
  next
    case (failed a)
    have "moves X N ?e e'" unfolding failed(3) by (rule moves_same) simp_all
    then show ?thesis using ac' by (rule moves_accounted)
  next
    case (recorded b r a1 h a2)
    then show ?thesis using rec by simp
  next
    case (checkpointed b r a1 h a2)
    then show ?thesis using rec adv by simp
  qed
qed (use ac in simp)


section \<open>Runs\<close>

text \<open>An offered block that a quorum prepared and a quorum committed, the node's own votes included.\<close>

definition certified :: "codec \<Rightarrow> Message set \<Rightarrow> ValidatorSet \<Rightarrow> string \<Rightarrow> (u64 \<times> Block) set" where
  "certified K M vs self = {(n, b). (n, b) \<in> offered K M \<and> voted_for K M vs self n}"

lemma cluster_step_accounted:
  assumes "cluster_step A S K M e e'" and K: "codec_ok K" and ok: "engine_ok e" and tr: "eTransportSet e"
    and po: "polled K M e"
    and ac: "accounted (offered K M) (certified K M (eValidatorSet e) (cfNodeID (eConfig e))) N e" and nv: "N \<or> (\<forall>m \<in> M. mType m \<noteq> NewView)"
  shows "accounted (offered K M) (certified K M (eValidatorSet e) (cfNodeID (eConfig e))) N e'"
proof -
  let ?Y = "certified K M (eValidatorSet e) (cfNodeID (eConfig e))"
  have same: "accounted (offered K M) ?Y N b" if "eCommittedBlocks b = eCommittedBlocks a" "eStateLog b = eStateLog a"
    "accounted (offered K M) ?Y N a" for a b :: "('a, 'b) Engine"
    using moves_accounted [OF moves_same [OF that(1,2)] that(3)] by blast
  from assms(1) show ?thesis
  proof (cases rule: cluster_step.cases)
    case (cs_message V m q)
    let ?e = "e\<lparr>eMsgChan := q\<rparr>"
    have ok': "engine_ok ?e" using ok by simp
    have ac': "accounted (offered K M) ?Y N ?e" by (rule same [OF _ _ ac]) simp_all
    show ?thesis
    proof (cases "mType m = Commit")
      case True
      then have "handleCommit A S V m ?e = Ret e'" using cs_message(5) by (simp add: handleMessage_def)
      then show ?thesis
      proof (rule handleCommit_accounted [OF _ ac' engine_ok_facts(5) [OF ok']])
        fix c s b
        assume c: "dec_commit (ve_codec V) (mPayload m) = Some c"
          "GetExistingState (mSequenceNum m) (eStateLog ?e) = Some s" "sPhase s = Prepared"
          "IsCommitted (QuorumSize (eValidatorSet ?e)) (AddCommit c s)" "(mSequenceNum m, b) \<in> offered K M"
        have "polled K M ?e" using po by simp
        from committed_voted [OF this engine_ok_facts(5) [OF ok'] c(2,3) cs_message(4) True _ c(4)] c(1,5) cs_message(2)
        show "(mSequenceNum m, b) \<in> ?Y" by (simp add: certified_def)
      qed
    next
      case False
      from moves_accounted [OF handleMessage_moves [OF cs_message(5) False cs_message(4,2) engine_ok_facts(6) [OF ok']] ac']
      show ?thesis using nv cs_message(4) by blast
    qed
  next
    case (cs_request V)
    from cs_request(2) show ?thesis
    proof (cases rule: run_request_cases)
      case (skip r q)
      show ?thesis by (rule same [OF _ _ ac]) (simp_all add: skip)
    next
      case (propose r q)
      let ?e = "e\<lparr>eRequestChan := q\<rparr>"
      have ac': "accounted (offered K M) ?Y N ?e" by (rule same [OF _ _ ac]) simp_all
      from propose(3) show ?thesis
      proof (cases rule: proposeBlock_cases)
        case (issued a txs txs')
        let ?n = "eSequenceNum ?e + 1"
        let ?i = "?e\<lparr>eSequenceNum := ?n, eAdapter := a\<rparr>"
        let ?b = "proposed_block V ?n (eView ?e) txs' ?i"
        let ?m = "proposal V (eView ?e) ?n (cfNodeID (eConfig ?i)) ?b"
        have out: "eOut e' = eOut e @ [?m]" using tr issued(4) by (simp add: issue_proposal_sends)
        then have "?m \<in> M" using cs_request(3) by simp
        then have "(mSequenceNum ?m, ?b) \<in> offered K M"
          by (rule offered_pre_prepare [where pp = "NewPrePrepareMsg (eView ?e) ?n ?b (cfNodeID (eConfig ?i))"])
            (use K cs_request(1) in \<open>simp_all add: proposal_def\<close>)
        then have "(?n, ?b) \<in> offered K M" by (simp add: proposal_def)
        then have "moves (offered K M) False ?i e'" unfolding issued(4)
          by (intro issue_proposal_moves) (use issued(1) in \<open>simp_all add: IsInWindow_def\<close>)
        then have "moves (offered K M) False ?e e'" by (simp add: moves_adapter)
        then show ?thesis using ac' by (rule moves_accounted) simp
      qed (use same [OF _ _ ac'] in simp_all)
    qed
  next
    case (cs_timeout V)
    from cs_timeout(2) obtain vcm out ps where
      "e' = (case out of Some m \<Rightarrow> broadcast m (e\<lparr>eVcm := vcm\<rparr>) | None \<Rightarrow> e\<lparr>eVcm := vcm\<rparr>)
            \<lparr>eTimer := Some (cfViewChangeTimeout (eConfig e) * 2)\<rparr>" by (rule startViewChange_fields)
    then show ?thesis by (intro same [OF _ _ ac]) (simp_all split: option.split)
  qed (use same [OF _ _ ac] in \<open>simp_all add: handleIncomingMessage_def SubmitRequest_def Let_def engine_Start_def
      engine_Stop_def\<close>)
qed

lemma cluster_step_polled:
  assumes "cluster_step A S K M e e'" and st: "static_validators A" and ok: "engine_ok e" and po: "polled K M e"
  shows "polled K M e' \<and> eValidatorSet e' = eValidatorSet e \<and> eConfig e' = eConfig e"
  using assms(1)
proof (cases rule: cluster_step.cases)
  case (cs_message V m q)
  have "polled K M (e\<lparr>eMsgChan := q\<rparr>)" "engine_ok (e\<lparr>eMsgChan := q\<rparr>)" using po ok by simp_all
  from polled_message [OF cs_message(5) st this cs_message(4,2)] show ?thesis by simp
next
  case (cs_request V)
  from polled_request [OF cs_request(2) po] show ?thesis .
next
  case (cs_timeout V)
  from cs_timeout(2) obtain vcm out ps where
    "e' = (case out of Some m \<Rightarrow> broadcast m (e\<lparr>eVcm := vcm\<rparr>) | None \<Rightarrow> e\<lparr>eVcm := vcm\<rparr>)
          \<lparr>eTimer := Some (cfViewChangeTimeout (eConfig e) * 2)\<rparr>" by (rule startViewChange_fields)
  then show ?thesis using po by (simp split: option.split)
qed (use po in \<open>simp_all add: handleIncomingMessage_def SubmitRequest_def Let_def engine_Start_def engine_Stop_def polled_def\<close>)

lemma cluster_run_certified:
  assumes "(cluster_step A S K M)\<^sup>*\<^sup>* (booted c vs a mp store) e" and "codec_ok K" and "good_pool mp" and "static_validators A"
  shows "accounted (offered K M) (certified K M vs (cfNodeID c)) (\<not> (\<forall>m \<in> M. mType m \<noteq> NewView)) e \<and>
    polled K M e \<and> eValidatorSet e = vs \<and> eConfig e = c"
  using assms(1)
proof (induction rule: rtranclp_induct)
  case base
  let ?e = "booted c vs a mp store :: ('a, 'b) Engine"
  have none: "GetExistingState n (eStateLog ?e) = None" for n by (simp add: GetExistingState_def NewStateLog_def)
  have "ledger Y [] ?e" for Y by (simp add: ledger_def)
  then have "accounted X Y N ?e" for X Y N
    by (intro accounted_def [THEN iffD2] conjI exI [of _ "[]"]) (simp_all only: backed_def above_low_def none, simp_all)
  then show ?case by (simp add: polled_def none del: booted_fields(7))
next
  case (step e e')
  have ok: "engine_ok e" "eTransportSet e" using cluster_run_ok [OF step(1) engine_ok_booted [OF assms(3)]]
    by (simp_all add: booted_def SetStore_def SetMempool_def NewEngineV2_def)
  have po: "polled K M e" using step(3) by blast
  from cluster_step_accounted [OF step(2) assms(2) ok po] step(3)
  have "accounted (offered K M) (certified K M vs (cfNodeID c)) (\<not> (\<forall>m \<in> M. mType m \<noteq> NewView)) e'" by blast
  with cluster_step_polled [OF step(2) assms(4) ok(1) po] step(3) show ?case by simp
qed

text \<open>
  C3. Every committed block is certified. Let \<open>M\<close> be everything that is ever sent in a cluster,
  whatever faulty nodes contribute, and let the applications of two nodes leave the validators as
  they are. Then the chain of either node lists, under numbers \<open>ns\<close>, blocks that some message of
  \<open>M\<close> offered under that number, and for each of these numbers a quorum of different names sent
  \<open>PREPARE\<close>s in \<open>M\<close> and a quorum of different names sent \<open>COMMIT\<close>s in \<open>M\<close>, the node's own vote
  counted: nothing is committed that was not proposed, nor without two quorums. Two nodes commit
  the same block under one number unless the traffic offers different blocks under a number, in
  one view or in several. Without new views no node commits a number twice. (The votes are not
  compared with the block, so that offers which differ can split the nodes.)
\<close>

theorem committed_blocks_certified:
  assumes "codec_ok K" and "static_validators A" "static_validators B" and "good_pool mp" "good_pool mp'"
    and "(cluster_step A S K M)\<^sup>*\<^sup>* (booted c vs a mp store) e"
    and "(cluster_step B T K M)\<^sup>*\<^sup>* (booted c' vs' a' mp' store') e'"
  shows "\<exists>ns ns'.
     list_all2 (\<lambda>n b. (n, b) \<in> offered K M \<and> voted_for K M vs (cfNodeID c) n) ns (eCommittedBlocks e) \<and>
     list_all2 (\<lambda>n b. (n, b) \<in> offered K M \<and> voted_for K M vs' (cfNodeID c') n) ns' (eCommittedBlocks e') \<and>
     (\<forall>i < length ns. \<forall>j < length ns'. ns ! i = ns' ! j \<longrightarrow>
        eCommittedBlocks e ! i = eCommittedBlocks e' ! j \<or> \<not> single_valued (offered K M)) \<and>
     ((\<forall>m \<in> M. mType m \<noteq> NewView) \<longrightarrow> distinct ns \<and> distinct ns')"
proof -
  from cluster_run_certified [OF assms(6,1,4,2)] obtain ns where
    1: "list_all2 (\<lambda>n b. (n, b) \<in> offered K M \<and> voted_for K M vs (cfNodeID c) n) ns (eCommittedBlocks e)"
      "(\<forall>m \<in> M. mType m \<noteq> NewView) \<longrightarrow> distinct ns" unfolding accounted_def ledger_def certified_def by auto
  from cluster_run_certified [OF assms(7,1,5,3)] obtain ns' where
    2: "list_all2 (\<lambda>n b. (n, b) \<in> offered K M \<and> voted_for K M vs' (cfNodeID c') n) ns' (eCommittedBlocks e')"
      "(\<forall>m \<in> M. mType m \<noteq> NewView) \<longrightarrow> distinct ns'" unfolding accounted_def ledger_def certified_def by auto
  have "eCommittedBlocks e ! i = eCommittedBlocks e' ! j \<or> \<not> single_valued (offered K M)"
    if "i < length ns" "j < length ns'" "ns ! i = ns' ! j" for i j
    using single_valuedD [of "offered K M" "ns ! i"] list_all2_nthD [OF 1(1) that(1)] list_all2_nthD [OF 2(1) that(2)]
      that(3) by auto
  with 1 2 show ?thesis by blast
qed


text \<open>Two nodes that receive one proposal and its votes.\<close>

lemma deliver_run:
  "deliver A S V ms e = Ret e' \<Longrightarrow> set ms \<subseteq> M \<Longrightarrow> ve_ok V \<Longrightarrow> engine_ok e \<Longrightarrow> eMsgChan e = [] \<Longrightarrow>
   (cluster_step A S (ve_codec V) M)\<^sup>*\<^sup>* e e'"
proof (induction ms arbitrary: e)
  case (Cons m ms)
  then obtain e1 where h: "handleMessage A S V m e = Ret e1" "deliver A S V ms e1 = Ret e'"
    by (auto simp: go_bind_Ret_iff)
  let ?e = "handleIncomingMessage m e"
  have ch: "?e = e\<lparr>eMsgChan := [m]\<rparr>" using Cons.prems(5) by (simp add: handleIncomingMessage_def chan_cap_def)
  have "e\<lparr>eMsgChan := []\<rparr> = e" using Cons.prems(5) by simp
  then have hm: "handleMessage A S V m (?e\<lparr>eMsgChan := []\<rparr>) = Ret e1" using h(1) unfolding ch by simp
  have "m \<in> M" using Cons.prems(2) by simp
  from cs_message [OF Cons.prems(3) refl _ this hm] have "cluster_step A S (ve_codec V) M ?e e1" by (simp add: ch)
  then have "(cluster_step A S (ve_codec V) M)\<^sup>*\<^sup>* e e1"
    by (intro converse_rtranclp_into_rtranclp [of _ e ?e] cs_incoming r_into_rtranclp)
  moreover have "eMsgChan e1 = []"
    using io_message [OF h(1) engine_ok_facts(6) [OF Cons.prems(4)]] Cons.prems(5) by (simp add: io_def)
  then have "(cluster_step A S (ve_codec V) M)\<^sup>*\<^sup>* e1 e'"
    using Cons.IH [OF h(2)] handleMessage_ok [OF h(1) Cons.prems(4,3)] Cons.prems(2,3) by simp
  ultimately show ?case by (rule rtranclp_trans)
qed simp

definition sample_traffic :: "Message list" where
  "sample_traffic = proposal sample_env 0 1 ''node0'' (raw_block 1 []) #
     map (prepare_vote sample_env 0 1) forged_votes @ map (commit_vote sample_env 0 1) forged_votes"

definition sample_peer :: "string \<Rightarrow> (NoopABCIAdapter, MemoryStore) Engine" where
  "sample_peer i = booted (DefaultConfig i) default_set NewNoopABCIAdapter (NewMempool None) NewMemoryStore"

lemma sample_traffic_offers: "offered sample_codec (set sample_traffic) = {(1, raw_block 1 [])}"
proof -
  have "offers sample_codec (proposal sample_env 0 1 ''node0'' (raw_block 1 [])) = [(1, raw_block 1 [])]"
    using codec_okD(1) [OF codec_ok_sample] by (simp add: offers_def proposal_def)
  moreover have "offers sample_codec (prepare_vote sample_env 0 1 w) = []" "offers sample_codec (commit_vote sample_env 0 1 w) = []" for w
    by (cases w; simp add: offers_def prepare_vote_def commit_vote_def)+
  ultimately show ?thesis by (simp add: offered_def sample_traffic_def)
qed

lemma sample_peer_facts:
  "engine_ok (sample_peer i)" "eMsgChan (sample_peer i) = []" "eConfig (sample_peer i) = DefaultConfig i"
proof -
  show "engine_ok (sample_peer i)" unfolding sample_peer_def by (rule engine_ok_booted) simp
qed (simp_all add: sample_peer_def)

lemma sample_peer_delivers:
  "\<exists>e. deliver noop_adapter (memory_store rev) sample_env sample_traffic (sample_peer i) = Ret e \<and>
     eCommittedBlocks e = [raw_block 1 []]"
proof -
  let ?e = "sample_peer i"
  have f: "eView ?e = 0" "eMsgChan ?e = []" "eConfig ?e = DefaultConfig i" "eCommittedBlocks ?e = []"
    "eValidatorSet ?e = default_set" "eStateLog ?e = NewStateLog 200" by (simp_all add: sample_peer_def) (simp add: DefaultConfig_def)
  have p: "getPrimaryID ?e = Ret ''node0''"
    using sample_node_facts(1) by (simp add: getPrimaryID_def f) (simp add: sample_node_def)
  have q: "QuorumSize (eValidatorSet ?e) \<le> int (card (voter ` set forged_votes))"
    unfolding f by (rule forged_votes_quorum)
  have w: "IsInWindow 1 (eStateLog ?e)" "GetExistingState 1 (eStateLog ?e) = None" "cfCheckpointInterval (eConfig ?e) \<noteq> 0"
    by (simp_all add: f IsInWindow_def NewStateLog_def GetExistingState_def DefaultConfig_def)
  have "codec_ok (ve_codec sample_env)" by simp
  from accepting_adapter.proposal_then_votes [OF noop.accepting_adapter_axioms this sample_peer_facts(1) p w q,
      of "memory_store rev" "raw_block 1 []"]
  show ?thesis unfolding sample_traffic_def f by auto
qed

lemma sample_peer_commits:
  "\<exists>e. (cluster_step noop_adapter (memory_store rev) sample_codec (set sample_traffic))\<^sup>*\<^sup>* (sample_peer i) e \<and>
     eCommittedBlocks e = [raw_block 1 []]"
proof -
  obtain e where e: "deliver noop_adapter (memory_store rev) sample_env sample_traffic (sample_peer i) = Ret e"
    "eCommittedBlocks e = [raw_block 1 []]" using sample_peer_delivers by blast
  have "(cluster_step noop_adapter (memory_store rev) (ve_codec sample_env) (set sample_traffic))\<^sup>*\<^sup>* (sample_peer i) e"
    by (rule deliver_run [OF e(1)]) (use sample_peer_facts in simp_all)
  with e(2) show ?thesis by auto
qed

theorem committed_blocks_certified_witness:
  "\<exists>e e'. (cluster_step noop_adapter (memory_store rev) sample_codec (set sample_traffic))\<^sup>*\<^sup>* (sample_peer ''node1'') e \<and>
     (cluster_step noop_adapter (memory_store rev) sample_codec (set sample_traffic))\<^sup>*\<^sup>* (sample_peer ''node2'') e' \<and>
     length (eCommittedBlocks e) = 1 \<and> length (eCommittedBlocks e') = 1 \<and> eCommittedBlocks e ! 0 = eCommittedBlocks e' ! 0 \<and>
     voted_for sample_codec (set sample_traffic) default_set ''node1'' 1"
proof -
  let ?M = "set sample_traffic"
  obtain e where e: "(cluster_step noop_adapter (memory_store rev) sample_codec ?M)\<^sup>*\<^sup>* (sample_peer ''node1'') e"
    "eCommittedBlocks e = [raw_block 1 []]" using sample_peer_commits by blast
  obtain e' where e': "(cluster_step noop_adapter (memory_store rev) sample_codec ?M)\<^sup>*\<^sup>* (sample_peer ''node2'') e'"
    "eCommittedBlocks e' = [raw_block 1 []]" using sample_peer_commits by blast
  from committed_blocks_certified [OF codec_ok_sample static_noop static_noop good_pool_New good_pool_New
      e(1) [unfolded sample_peer_def] e'(1) [unfolded sample_peer_def]]
  obtain ns ns' where n: "list_all2 (\<lambda>n b. (n, b) \<in> offered sample_codec ?M \<and>
      voted_for sample_codec ?M default_set (cfNodeID (DefaultConfig ''node1'')) n) ns (eCommittedBlocks e)"
    by (elim exE conjE) (rule that)
  have l: "length ns = 1" using list_all2_lengthD [OF n] e(2) by simp
  then have "(ns ! 0, raw_block 1 []) \<in> offered sample_codec ?M"
    "voted_for sample_codec ?M default_set (cfNodeID (DefaultConfig ''node1'')) (ns ! 0)"
    using list_all2_nthD [OF n, of 0] e(2) by simp_all
  then have "voted_for sample_codec ?M default_set ''node1'' 1" by (simp add: sample_traffic_offers DefaultConfig_def)
  with e e' show ?thesis by (intro exI [of _ e] exI [of _ e']) simp
qed

end
