(* ===== verification/Ordering.thy ===== *)
theory Ordering
  imports Agreement
begin

text \<open>
  What nothing in the engine enforces: that blocks are executed in the order of their numbers, and
  that a number is executed once. Messages about one number leave the others alone
  (\<open>aside\<close>), so that numbers commit in whatever order their messages arrive; and a new view reopens
  numbers below the window.
\<close>

section \<open>Numbers do not interfere\<close>

definition aside :: "u64 \<Rightarrow> ('a, 's) Engine \<Rightarrow> ('a, 's) Engine \<Rightarrow> bool" where
  "aside n e e' \<longleftrightarrow> eView e' = eView e \<and> eConfig e' = eConfig e \<and> eValidatorSet e' = eValidatorSet e \<and>
     slLow (eStateLog e') = slLow (eStateLog e) \<and> slHigh (eStateLog e') = slHigh (eStateLog e) \<and>
     (\<forall>k. k \<noteq> n \<longrightarrow> GetExistingState k (eStateLog e') = GetExistingState k (eStateLog e))"

lemma aside_refl: "aside n e e"
  by (simp add: aside_def)

lemma aside_trans: "aside n a b \<Longrightarrow> aside n b c \<Longrightarrow> aside n a c"
  by (simp add: aside_def)

lemma aside_put: "aside n e (put_state n s e)"
  by (simp add: aside_def)

lemma aside_accept: "mSequenceNum m = n \<Longrightarrow> aside n e (accept_proposal V m pp (e\<lparr>eAdapter := a\<rparr>))"
proof -
  assume n: "mSequenceNum m = n"
  obtain sl s where g: "GetState (mView m) n (eStateLog e) = (sl, s)" by (cases "GetState (mView m) n (eStateLog e)")
  show ?thesis
    using GetState_other [OF g] GetState_marks [OF g] by (simp add: aside_def accept_proposal_def Let_def g n)
qed

lemma aside_execute:
  assumes "executeBlock A S V n s e = Ret e'" and st: "static_validators A"
    and cp: "sSequenceNum s = n" "n mod cfCheckpointInterval (eConfig e) \<noteq> 0"
  shows "aside n e e'"
  using assms(1)
proof (cases rule: executeBlock_cases)
  case (recorded b r a1 h a2)
  have "erValidatorUpdates r = []" using st recorded(3) unfolding static_validators_def by blast
  then show ?thesis by (simp add: aside_def recorded(5) record_commit_fields)
qed (use cp in \<open>simp_all add: aside_def\<close>)

lemma aside_message:
  assumes h: "handleMessage A S V m e = Ret e'" and "mSequenceNum m = n" and ty: "mType m \<in> {PrePrepare, Prepare, Commit}"
    and st: "static_validators A" and cp: "n mod cfCheckpointInterval (eConfig e) \<noteq> 0" and log: "log_ok (eStateLog e)"
  shows "aside n e e'"
proof -
  consider "handlePrePrepare A V m e = Ret e'" | "e' = handlePrepare V m e" | "handleCommit A S V m e = Ret e'"
    using h ty by (auto simp: handleMessage_def)
  then show ?thesis
  proof cases
    case 1
    then show ?thesis
    proof (cases rule: handlePrePrepare_cases)
      case (accepted pp b a)
      show ?thesis unfolding accepted(7) by (rule aside_accept [OF assms(2)])
    qed (simp_all add: aside_def)
  next
    case 2
    show ?thesis by (cases rule: handlePrepare_cases [of m e V]) (simp_all add: 2 aside_def assms(2))
  next
    case 3
    then show ?thesis
    proof (cases rule: handleCommit_cases)
      case (committed c s t)
      have "sSequenceNum t = n" using committed(6) log_ok_get [OF log committed(3)] assms(2) by simp
      from aside_execute [OF committed(7) [unfolded assms(2)] st this] cp
      have "aside n (put_state n t e) e'" by simp
      then show ?thesis by (rule aside_trans [OF aside_put])
    qed (simp_all add: aside_def assms(2))
  qed
qed

lemma aside_deliver:
  assumes "deliver A S V ms e = Ret e'" and "\<forall>m \<in> set ms. mSequenceNum m = n \<and> mType m \<in> {PrePrepare, Prepare, Commit}"
    and "static_validators A" and "n mod cfCheckpointInterval (eConfig e) \<noteq> 0" and "engine_ok e" and "ve_ok V"
  shows "aside n e e' \<and> engine_ok e'"
  using assms
proof (induction ms arbitrary: e)
  case (Cons m ms)
  then obtain e1 where h: "handleMessage A S V m e = Ret e1" "deliver A S V ms e1 = Ret e'"
    by (auto simp: go_bind_Ret_iff)
  have a: "aside n e e1"
    by (rule aside_message [OF h(1)]) (use Cons.prems engine_ok_facts(5) in auto)
  have "engine_ok e1" by (rule handleMessage_ok [OF h(1) Cons.prems(5,6)])
  moreover have "cfCheckpointInterval (eConfig e1) = cfCheckpointInterval (eConfig e)" using a by (simp add: aside_def)
  ultimately have "aside n e1 e' \<and> engine_ok e'" using Cons.IH [OF h(2)] Cons.prems(2-4,6) by simp
  with a show ?case by (blast intro: aside_trans)
qed (simp add: aside_refl)

section \<open>The order of execution\<close>

text \<open>All the messages of a round: the proposal, and a vote of each kind from each voter.\<close>

definition round_of :: "engine_env \<Rightarrow> u64 \<Rightarrow> string \<Rightarrow> vote list \<Rightarrow> u64 \<times> Block \<Rightarrow> Message list" where
  "round_of V v p ws = (\<lambda>(n, b). proposal V v n p b # map (prepare_vote V v n) ws @ map (commit_vote V v n) ws)"

lemma round_of_messages:
  "\<forall>m \<in> set (round_of V v p ws (n, b)). mSequenceNum m = n \<and> mType m \<in> {PrePrepare, Prepare, Commit}"
  by (auto simp: round_of_def proposal_def prepare_vote_def commit_vote_def)

definition open_for :: "('a, 's) Engine \<Rightarrow> u64 \<Rightarrow> bool" where
  "open_for e n \<longleftrightarrow> IsInWindow n (eStateLog e) \<and> GetExistingState n (eStateLog e) = None \<and>
     n mod cfCheckpointInterval (eConfig e) \<noteq> 0"

lemma rounds_commit:
  assumes "codec_ok (ve_codec V)" and "ve_ok V" and A: "accepting_adapter A" and st: "static_validators A"
    and "engine_ok e" and "getPrimaryID e = Ret p" and "cfCheckpointInterval (eConfig e) \<noteq> 0"
    and "QuorumSize (eValidatorSet e) \<le> int (card (voter ` set ws))"
    and "distinct (map fst nbs)" and "\<forall>nb \<in> set nbs. open_for e (fst nb)"
  shows "\<exists>e'. deliver A S V (concat (map (round_of V (eView e) p ws) nbs)) e = Ret e' \<and>
    eCommittedBlocks e' = eCommittedBlocks e @ map snd nbs"
  using assms(5-)
proof (induction nbs arbitrary: e)
  case (Cons nb nbs)
  obtain n b where nb: "nb = (n, b)" by (cases nb)
  have o: "IsInWindow n (eStateLog e)" "GetExistingState n (eStateLog e) = None" "n mod cfCheckpointInterval (eConfig e) \<noteq> 0"
    using Cons.prems(6) nb by (simp_all add: open_for_def)
  from accepting_adapter.proposal_then_votes [OF A assms(1) Cons.prems(1,2) o(1,2) Cons.prems(3,4)] obtain e1 where
    1: "deliver A S V (round_of V (eView e) p ws nb) e = Ret e1" "eCommittedBlocks e1 = eCommittedBlocks e @ [b]"
    unfolding nb round_of_def prod.case by blast
  from aside_deliver [OF 1(1) _ st o(3) Cons.prems(1) assms(2)] round_of_messages [of V "eView e" p ws n b] nb
  have a: "aside n e e1" "engine_ok e1" by auto
  then have f: "eView e1 = eView e" "getPrimaryID e1 = Ret p" "eConfig e1 = eConfig e" "eValidatorSet e1 = eValidatorSet e"
    using Cons.prems(2) by (simp_all add: aside_def getPrimaryID_def)
  have "\<forall>nb \<in> set nbs. open_for e1 (fst nb)"
  proof
    fix x assume x: "x \<in> set nbs"
    then have "fst x \<noteq> n" using Cons.prems(5) nb by force
    moreover have "open_for e (fst x)" using Cons.prems(6) x by simp
    ultimately show "open_for e1 (fst x)" using a(1) by (simp add: open_for_def aside_def IsInWindow_def)
  qed
  then obtain e' where "deliver A S V (concat (map (round_of V (eView e1) p ws) nbs)) e1 = Ret e'"
    "eCommittedBlocks e' = eCommittedBlocks e1 @ map snd nbs"
    using Cons.IH [of e1] a(2) f Cons.prems(3-5) by auto
  with 1 f nb show ?case by (auto simp: deliver_append)
qed simp

text \<open>
  C6. The order of execution is the order of arrival. Take a node with a set of unused numbers of
  its window, none of them a checkpoint, an application that accepts every block and keeps the
  validators, and let the rounds of these numbers, which carry one block each, arrive in any order:
  the node executes and appends the blocks in that order, whatever the numbers are. Two nodes that
  receive the same messages, the rounds in different orders, execute different sequences of
  blocks: nothing makes a node wait for the numbers before.
\<close>

theorem execution_follows_arrival:
  assumes "codec_ok (ve_codec V)" and "ve_ok V" and "accepting_adapter A" and "static_validators A"
    and "engine_ok e" "engine_ok f" and "getPrimaryID e = Ret p" "getPrimaryID f = Ret p"
    and "eView e = v" "eView f = v" and "cfCheckpointInterval (eConfig e) \<noteq> 0" "cfCheckpointInterval (eConfig f) \<noteq> 0"
    and "QuorumSize (eValidatorSet e) \<le> int (card (voter ` set ws))"
      "QuorumSize (eValidatorSet f) \<le> int (card (voter ` set ws))"
    and "distinct (map fst nbs)" and "mset nbs' = mset nbs"
    and "\<forall>nb \<in> set nbs. open_for e (fst nb) \<and> open_for f (fst nb)"
  shows "\<exists>e' f'. deliver A S V (concat (map (round_of V v p ws) nbs)) e = Ret e' \<and>
     deliver A S V (concat (map (round_of V v p ws) nbs')) f = Ret f' \<and>
     mset (concat (map (round_of V v p ws) nbs')) = mset (concat (map (round_of V v p ws) nbs)) \<and>
     eCommittedBlocks e' = eCommittedBlocks e @ map snd nbs \<and>
     eCommittedBlocks f' = eCommittedBlocks f @ map snd nbs'"
proof -
  have set: "set nbs' = set nbs" using assms(16) by (rule mset_eq_setD)
  have dis: "distinct (map fst nbs')"
    using assms(15,16) by (metis mset_eq_imp_distinct_iff mset_map)
  obtain e' where "deliver A S V (concat (map (round_of V v p ws) nbs)) e = Ret e'"
      "eCommittedBlocks e' = eCommittedBlocks e @ map snd nbs"
    using rounds_commit [OF assms(1-5,7,11,13,15), of S] assms(9,17) by auto
  moreover obtain f' where "deliver A S V (concat (map (round_of V v p ws) nbs')) f = Ret f'"
      "eCommittedBlocks f' = eCommittedBlocks f @ map snd nbs'"
    using rounds_commit [OF assms(1-4,6,8,12,14) dis, of S] assms(10,17) set by auto
  moreover have "mset (concat (map (round_of V v p ws) nbs')) = mset (concat (map (round_of V v p ws) nbs))"
    using assms(16) by (metis mset_concat mset_map sum_mset_sum_list)
  ultimately show ?thesis by blast
qed


theorem execution_follows_arrival_witness:
  "\<exists>e' f'. deliver noop_adapter (memory_store rev) sample_env
       (concat (map (round_of sample_env 0 ''node0'' forged_votes) [(1, raw_block 1 []), (2, raw_block 2 [])]))
       (fresh_engine NewNoopABCIAdapter ''node1'') = Ret e' \<and>
     deliver noop_adapter (memory_store rev) sample_env
       (concat (map (round_of sample_env 0 ''node0'' forged_votes) [(2, raw_block 2 []), (1, raw_block 1 [])]))
       (fresh_engine NewNoopABCIAdapter ''node2'') = Ret f' \<and>
     eCommittedBlocks e' = [raw_block 1 [], raw_block 2 []] \<and> eCommittedBlocks f' = [raw_block 2 [], raw_block 1 []]"
proof -
  have c: "codec_ok (ve_codec sample_env)" "ve_ok sample_env" by simp_all
  have o: "\<forall>nb \<in> set [(1, raw_block 1 []), (2, raw_block 2 [])].
      open_for (fresh_engine NewNoopABCIAdapter ''node1'' :: (NoopABCIAdapter, MemoryStore) Engine) (fst nb) \<and>
      open_for (fresh_engine NewNoopABCIAdapter ''node2'' :: (NoopABCIAdapter, MemoryStore) Engine) (fst nb)"
    by (simp add: open_for_def) (simp add: IsInWindow_def NewStateLog_def GetExistingState_def DefaultConfig_def)
  show ?thesis
    using execution_follows_arrival [OF c noop.accepting_adapter_axioms static_noop, of
      "fresh_engine NewNoopABCIAdapter ''node1''" "fresh_engine NewNoopABCIAdapter ''node2''" "''node0''" 0
      forged_votes "[(1, raw_block 1 []), (2, raw_block 2 [])]" "[(2, raw_block 2 []), (1, raw_block 1 [])]" "memory_store rev",
      OF _ _ _ _ _ _ _ _ _ _ _ _ o] forged_votes_quorum by simp
qed


section \<open>Executing twice\<close>

text \<open>
  A new view message that one node can make: a quorum of copies of one view change message, no
  certificates, and a pre-prepare of its choice.
\<close>

definition forged_new_view :: "u64 \<Rightarrow> int \<Rightarrow> string \<Rightarrow> string \<Rightarrow> u64 \<Rightarrow> Block \<Rightarrow> NewViewMsg" where
  "forged_new_view v q i p n b = \<lparr>nvView = v, nvViewChangeMsgs = replicate (nat q) (sample_vote i v []),
     nvPrePrepareMsgs = [NewPrePrepareMsg v n b p], nvNewPrimaryID = p\<rparr>"

text \<open>
  C7. A new view reopens any number, and makes a node execute any block there, an old one included.
  A node of any view below \<open>v\<close> receives a \<open>NEW-VIEW\<close> that anybody can make, without certificates
  and with one pre-prepare, for a number \<open>n\<close> its log does not hold, be it below the low mark
  because it was executed and dropped at a checkpoint. With the votes of a quorum of claimed
  voters the node executes the block, whether or not it is in its chain already, and without ever
  asking \<open>ProcessProposal\<close>.
\<close>

theorem forged_new_view_executes:
  assumes "codec_ok (ve_codec V)" and A: "\<And>a b. \<exists>r. snd (ad_FinalizeBlock A b a) = Inr r" "\<And>a. \<exists>r. snd (ad_Commit A a) = Inr r"
    and ok: "engine_ok e" and "eView e < v" and "primary_at v (eValidatorSet e) = Ret p"
    and "0 < n" and new: "GetExistingState n (eStateLog e) = None" and iv: "cfCheckpointInterval (eConfig e) \<noteq> 0"
    and q: "QuorumSize (eValidatorSet e) \<le> int (card (voter ` set ws))"
    and m: "mType m = NewView" "dec_new_view (ve_codec V) (mPayload m) =
      Some (forged_new_view v (QuorumSize (eValidatorSet e)) i p n b)"
  shows "\<exists>e'. deliver A S V (m # map (prepare_vote V v n) ws @ map (commit_vote V v n) ws) e = Ret e' \<and>
    eCommittedBlocks e' = eCommittedBlocks e @ [b]"
proof -
  let ?nv = "forged_new_view v (QuorumSize (eValidatorSet e)) i p n b"
  let ?pp = "NewPrePrepareMsg v n b p"
  have qs: "vmQuorumSize (eVcm e) = QuorumSize (eValidatorSet e)" and cb: "vmOnCompleteSet (eVcm e)"
    using engine_ok_facts [OF ok] by simp_all
  have ver: "verifyNewViewMsg ?nv (eVcm e) = Ret True"
    unfolding forged_new_view_def qs [symmetric] by (rule one_sender_forges_new_view) (use assms(7) in simp)
  let ?i = "resetViewChangeTimer (e\<lparr>eVcm := install_view ?nv (eVcm e), eView := v\<rparr>)"
  have nvw: "nvView ?nv = v" "nvNewPrimaryID ?nv = p" "nvPrePrepareMsgs ?nv = [?pp]" by (simp_all add: forged_new_view_def)
  have "HandleNewView ?nv (eVcm e) = Ret (install_view ?nv (eVcm e), True, Some v)"
    by (simp add: HandleNewView_def ver cb install_view_def Let_def nvw)
  then have "vcm_HandleNewView ?nv e = Ret (?i, True)"
    using assms(6) by (simp add: vcm_HandleNewView_def onViewChangeComplete_def isPrimary_def Let_def)
  then have h: "handleMessage A S V m e = Ret (reprocessPrePrepare V v ?pp ?i)"
    using m assms(5,6) by (simp add: handleMessage_def handleNewView_def not_le nvw)
  let ?e = "reprocessPrePrepare V v ?pp ?i"
  have okv: "engine_ok ?i" using engine_ok_install [OF ok, of ?nv] by (simp add: nvw)
  have fr: "consensus_frame ?i ?e" by (rule reprocess_frame)
  then have f: "eView ?e = v" "eValidatorSet ?e = eValidatorSet e" "eConfig ?e = eConfig e"
    "eCommittedBlocks ?e = eCommittedBlocks e" by (simp_all add: consensus_frame_def)
  have ok': "engine_ok ?e"
    by (rule consensus_frame_ok [OF okv fr reprocess_frame(2) [OF engine_ok_facts(5) [OF okv]]])
  have g: "GetState v n (eStateLog e) = ((eStateLog e)\<lparr>slStates := go_put n (NewState v n) (slStates (eStateLog e))\<rparr>, NewState v n)"
    using new by (simp add: GetState_def GetExistingState_def Let_def)
  let ?s = "SetPrePrepare (?pp\<lparr>ppView := v\<rparr>) (Some b) (NewState v n)"
  have st: "GetExistingState n (eStateLog ?e) = Some ?s"
    by (simp add: reprocessPrePrepare_def Let_def g NewPrePrepareMsg_def)
  have s: "sPhase ?s = PrePrepared" "sBlock ?s = Some b" "\<not> sExecuted ?s" by (simp_all add: State_defs)
  obtain r where r: "snd (ad_FinalizeBlock A b (eAdapter ?e)) = Inr r" using A(1) by blast
  obtain t where t: "snd (ad_Commit A (fst (ad_FinalizeBlock A b (eAdapter ?e)))) = Inr t" using A(2) by blast
  have app: "ad_FinalizeBlock A b (eAdapter ?e) = (fst (ad_FinalizeBlock A b (eAdapter ?e)), Inr r)"
    "ad_Commit A (fst (ad_FinalizeBlock A b (eAdapter ?e))) =
       (fst (ad_Commit A (fst (ad_FinalizeBlock A b (eAdapter ?e)))), Inr t)"
    by (simp_all add: prod_eq_iff r t)
  from quorum_commits [OF assms(1) ok' st s app, of ws S] iv q h f show ?thesis by simp
qed

text \<open>A node that has executed block 1, passed a checkpoint, and executes block 1 again.\<close>

definition trimmed_engine :: "(NoopABCIAdapter, MemoryStore) Engine" where
  "trimmed_engine = one_block_engine\<lparr>eStateLog := AdvanceWatermarks 100 (eStateLog one_block_engine)\<rparr>"

theorem forged_new_view_executes_witness:
  "\<exists>e'. eCommittedBlocks trimmed_engine = [raw_block 1 []] \<and> \<not> IsInWindow 1 (eStateLog trimmed_engine) \<and>
     deliver noop_adapter (memory_store rev) sample_env
       ((NewMessage 0 NewView 1 0 [] ''mallory'')\<lparr>mPayload := enc_new_view sample_codec
           (forged_new_view 1 3 ''mallory'' ''node1'' 1 (raw_block 1 []))\<rparr> #
         map (prepare_vote sample_env 1 1) forged_votes @ map (commit_vote sample_env 1 1) forged_votes)
       trimmed_engine = Ret e' \<and>
     eCommittedBlocks e' = [raw_block 1 [], raw_block 1 []]"
proof -
  let ?e = trimmed_engine
  let ?nv = "forged_new_view 1 3 ''mallory'' ''node1'' 1 (raw_block 1 [])"
  let ?m = "(NewMessage 0 NewView 1 0 [] ''mallory'')\<lparr>mPayload := enc_new_view sample_codec ?nv\<rparr>"
  have c: "codec_ok (ve_codec sample_env)" by simp
  have lo: "slLow (eStateLog one_block_engine) = 0" by (simp add: one_block_engine_def NewStateLog_def)
  have f: "eView ?e = 0" "eConfig ?e = DefaultConfig ''node1''" "eValidatorSet ?e = default_set"
    "eCommittedBlocks ?e = [raw_block 1 []]" by (simp_all add: trimmed_engine_def one_block_engine_def)
  have ok: "engine_ok ?e"
    by (rule engine_ok_cong [OF one_block_engine_facts(1)])
      (use engine_ok_facts(5) [OF one_block_engine_facts(1)] in \<open>simp_all add: trimmed_engine_def log_ok_Advance\<close>)
  have g: "GetExistingState 1 (eStateLog ?e) = None" "\<not> IsInWindow 1 (eStateLog ?e)"
    by (simp_all add: trimmed_engine_def Advance_get lo) (simp add: IsInWindow_def AdvanceWatermarks_def lo Let_def)
  have p: "primary_at 1 (eValidatorSet ?e) = Ret ''node1''" and q3: "QuorumSize (eValidatorSet ?e) = 3"
    by (simp_all add: f primary_at_def createDefaultValidators_def NewValidatorSet_def signed_modulo_int_def QuorumSize_def Size_def
      FaultyTolerance_def)
  have m: "mType ?m = NewView" "dec_new_view (ve_codec sample_env) (mPayload ?m) =
      Some (forged_new_view 1 (QuorumSize (eValidatorSet ?e)) ''mallory'' ''node1'' 1 (raw_block 1 []))"
    by (simp_all add: q3)
  have "\<exists>r. snd (ad_FinalizeBlock noop_adapter b a) = Inr r" "\<exists>r. snd (ad_Commit noop_adapter a) = Inr r" for a b
    using noop.finalize_iff noop.commit_total by simp_all
  from forged_new_view_executes [OF c this ok _ p _ g(1) _ _ m, of forged_votes "memory_store rev"] forged_votes_quorum f g(2)
  show ?thesis by simp
qed

end
