(* ===== verification/Silence.thy ===== *)
theory Silence
  imports Cluster Certificates
begin

text \<open>
  The nodes of a cluster that are not silent, connected by a network that may lose, repeat and
  reorder what they send, while no timer fires. What a node broadcasts goes to its peers, not to
  itself: \<open>Node.Start\<close> (\<open>connect_peer\<close>) never makes a node its own peer. If as many backups as the
  protocol tolerates are silent, nothing is ever committed.
\<close>

section \<open>A network of live nodes\<close>

type_synonym ('a, 's) net = "(string \<Rightarrow> ('a, 's) Engine) \<times> (string \<times> Message) set"

text \<open>What node \<open>i\<close> has broadcast on the way from \<open>e\<close> to \<open>e'\<close>.\<close>

definition sent :: "string \<Rightarrow> ('a, 's) Engine \<Rightarrow> ('a, 's) Engine \<Rightarrow> (string \<times> Message) set" where
  "sent i e e' = Pair i ` set (drop (length (eOut e)) (eOut e'))"

inductive net_step ::
  "'a adapter_ops \<Rightarrow> 's store_ops \<Rightarrow> codec \<Rightarrow> string set \<Rightarrow> ('a, 's) net \<Rightarrow> ('a, 's) net \<Rightarrow> bool" for A S K live where
  ns_deliver: "i \<in> live \<Longrightarrow> (j, m) \<in> T \<Longrightarrow> j \<noteq> i \<Longrightarrow> ve_codec V = K \<Longrightarrow> handleMessage A S V m (E i) = Ret e \<Longrightarrow>
    net_step A S K live (E, T) (E(i := e), T \<union> sent i (E i) e)"
| ns_request: "i \<in> live \<Longrightarrow> ve_codec V = K \<Longrightarrow> run_request A V (E i) = Some (Ret e) \<Longrightarrow>
    net_step A S K live (E, T) (E(i := e), T \<union> sent i (E i) e)"
| ns_client: "net_step A S K live (E, T) (E(i := fst (SubmitRequest V op cl (E i))), T)"
| ns_mempool: "eMempool (E i) = Some mp \<Longrightarrow> mp_step mp mp' \<Longrightarrow>
    net_step A S K live (E, T) (E(i := (E i)\<lparr>eMempool := Some mp'\<rparr>), T)"

section \<open>What they send\<close>

text \<open>
  Proposals of the primary, \<open>PREPARE\<close>s of the backups in their own name, and \<open>COMMIT\<close>s in the name
  of the primary.
\<close>

definition lawful :: "codec \<Rightarrow> string \<Rightarrow> string set \<Rightarrow> string \<Rightarrow> Message \<Rightarrow> bool" where
  "lawful K p live j m \<longleftrightarrow> j \<in> live \<and>
     (mType m = PrePrepare \<and> j = p \<or>
      mType m = Prepare \<and> j \<noteq> p \<and> (\<forall>q. dec_prepare K (mPayload m) = Some q \<longrightarrow> pNodeID q = j) \<or>
      mType m = Commit \<and> (\<forall>c. dec_commit K (mPayload m) = Some c \<longrightarrow> cNodeID c = p))"

lemma lawful_voters:
  assumes "\<forall>(j, m) \<in> T. lawful K p live j m"
  shows "preparers K (snd ` T) i n \<subseteq> insert i (live - {p})" and "committers K (snd ` T) i n \<subseteq> {i, p}"
  using assms by (force simp: preparers_def committers_def lawful_def)+

text \<open>A node of the cluster that has committed nothing since it had the chain \<open>bs\<close>.\<close>

definition calm :: "codec \<Rightarrow> ValidatorSet \<Rightarrow> string \<Rightarrow> Message set \<Rightarrow> string \<Rightarrow> Block list \<Rightarrow> ('a, 's) Engine \<Rightarrow> bool" where
  "calm K vs p M i bs e \<longleftrightarrow> log_ok (eStateLog e) \<and> polled K M e \<and> eValidatorSet e = vs \<and> cfNodeID (eConfig e) = i \<and>
     getPrimaryID e = Ret p \<and> eCommittedBlocks e = bs"

lemma calm_mono: "M \<subseteq> M' \<Longrightarrow> calm K vs p M i bs e \<Longrightarrow> calm K vs p M' i bs e"
  using polled_mono unfolding calm_def by blast

lemma calm_frame:
  assumes "calm K vs p M i bs e" and "consensus_frame e e'" and "log_ok (eStateLog e')" and "polled K M e'"
  shows "calm K vs p M i bs e'"
  using assms unfolding calm_def consensus_frame_def getPrimaryID_def by metis

lemma calm_deliver:
  assumes c: "calm K vs p (snd ` T) i bs e" and T: "\<forall>(j, m) \<in> T. lawful K p live j m" and m: "(j, m) \<in> T" "j \<noteq> i"
    and i: "i \<in> live" and K: "codec_ok K" "ve_codec V = K" and h: "handleMessage A S V m e = Ret e'"
    and few: "i \<noteq> p \<Longrightarrow> int (card (insert i (live - {p}))) < QuorumSize vs" "2 < QuorumSize vs" and fin: "finite live"
  shows "calm K vs p (snd ` T) i bs e' \<and> (\<forall>m' \<in> set (drop (length (eOut e)) (eOut e')). lawful K p live i m')"
proof -
  have f: "log_ok (eStateLog e)" "polled K (snd ` T) e" "eValidatorSet e = vs" "cfNodeID (eConfig e) = i" "getPrimaryID e = Ret p"
    using c by (simp_all add: calm_def)
  have mM: "m \<in> snd ` T" using m(1) by force
  have law: "lawful K p live j m" using T m(1) by blast
  consider (pp) "mType m = PrePrepare" "handlePrePrepare A V m e = Ret e'" | (p) "mType m = Prepare" "e' = handlePrepare V m e"
    | (c) "mType m = Commit" "handleCommit A S V m e = Ret e'"
    using h law by (auto simp: lawful_def handleMessage_def)
  then show ?thesis
  proof cases
    case pp
    with law m(2) have ip: "i \<noteq> p" by (auto simp: lawful_def)
    have fr: "consensus_frame e e'" "log_ok (eStateLog e')" using handlePrePrepare_frame(1,2) [OF pp(2)] f(1) by blast+
    from pp(2) have "polled K (snd ` T) e' \<and> (\<forall>m' \<in> set (drop (length (eOut e)) (eOut e')). lawful K p live i m')"
    proof (cases rule: handlePrePrepare_cases)
      case (accepted q b a)
      have "lawful K p live i (prepare_reply V m i)"
        using i ip K by (simp add: lawful_def prepare_reply_def prepare_vote_def)
      with f show ?thesis unfolding accepted(7) by (auto simp: polled_accept accept_proposal_fields)
    qed (use f in simp_all)
    with calm_frame [OF c fr] show ?thesis by blast
  next
    case p
    have fr: "consensus_frame e e'" "log_ok (eStateLog e')" using handlePrepare_frame(1,2) [of e V m] f(1) p(2) by blast+
    have po: "polled K (snd ` T) e'" unfolding p(2) by (rule polled_handlePrepare [OF f(2,1) mM p(1) K(2)])
    have "lawful K p live i m'" if "m' \<in> set (drop (length (eOut e)) (eOut e'))" for m'
    proof (cases rule: handlePrepare_cases [of m e V])
      case (prepared q s k r)
      have ok: "state_ok (AddPrepare q s)" using log_ok_get [OF f(1) prepared(3)] by blast
      have g: "GetExistingState (mSequenceNum m) (eStateLog e') = Some (AddCommit k (TransitionToPrepared (AddPrepare q s)))"
        unfolding p(2) prepared(10) by simp
      have "go_keys (sPrepareMsgs (AddPrepare q s)) \<subseteq> preparers K (snd ` T) i (mSequenceNum m)"
        using polled_found_at [OF po g] fr(1) f(4) prepared(5)
        by (simp add: tally_def TransitionToPrepared_def AddPrepare_def AddCommit_def consensus_frame_def)
      then have sub: "go_keys (sPrepareMsgs (AddPrepare q s)) \<subseteq> insert i (live - {p})" using lawful_voters(1) [OF T] by blast
      have "QuorumSize vs \<le> int (card (go_keys (sPrepareMsgs (AddPrepare q s))))"
        using prepared(4) unfolding ballot_counts(1) [OF ok] f(3) by blast
      also have "\<dots> \<le> int (card (insert i (live - {p})))" using card_mono [OF _ sub] fin by simp
      finally have "i = p" using few(1) by linarith
      moreover have "m' = r" using that unfolding p(2) prepared(10) by (auto simp: broadcast_def split: if_splits)
      ultimately show ?thesis using i prepared(6-9) K f(4) by (simp add: lawful_def)
    qed (use that p(2) in simp_all)
    with calm_frame [OF c fr po] show ?thesis by blast
  next
    case c
    from c(2) show ?thesis
    proof (cases rule: handleCommit_cases)
      case (counted k s)
      have k: "cNodeID k \<in> committers K (snd ` T) (cfNodeID (eConfig e)) (mSequenceNum m)"
        by (rule committersI [OF mM c(1)]) (use counted(2) K in simp)
      have po: "polled K (snd ` T) e'" unfolding counted(5)
        by (intro polled_put tally_commit polled_found_at [OF f(2) counted(3)] f(2) k)
      have ok: "state_ok (AddCommit k s)" "sSequenceNum (AddCommit k s) = mSequenceNum m"
        using log_ok_get [OF f(1) counted(3)] by auto
      have "log_ok (eStateLog e')" using log_ok_write [OF f(1) ok] counted(5) by simp
      moreover have "consensus_frame e e'" by (simp add: counted(5) consensus_frame_def)
      ultimately show ?thesis using calm_frame [OF assms(1) _ _ po] counted(5) by simp
    next
      case (committed k s t)
      have k: "cNodeID k \<in> committers K (snd ` T) (cfNodeID (eConfig e)) (mSequenceNum m)"
        by (rule committersI [OF mM c(1)]) (use committed(2) K in simp)
      have ok: "state_ok (AddCommit k s)" using log_ok_get [OF f(1) committed(3)] by blast
      have "go_keys (sCommitMsgs (AddCommit k s)) \<subseteq> committers K (snd ` T) i (mSequenceNum m)"
        using tally_commit [OF polled_found_at [OF f(2) committed(3)] k] f(4) by (simp add: tally_def)
      then have "go_keys (sCommitMsgs (AddCommit k s)) \<subseteq> {i, p}" using lawful_voters(2) [OF T] by blast
      then have "card (go_keys (sCommitMsgs (AddCommit k s))) \<le> card {i, p}" by (intro card_mono) simp_all
      also have "\<dots> \<le> 2" by (simp add: card_insert_if)
      finally have "int (card (go_keys (sCommitMsgs (AddCommit k s)))) \<le> 2" by simp
      with committed(4) few(2) show ?thesis unfolding ballot_counts(2) [OF ok] f(3) by linarith
    qed (use assms(1) in simp)
  qed
qed

lemma calm_request:
  assumes c: "calm K vs p M i bs e" and i: "i \<in> live" and h: "run_request A V e = Some (Ret e')"
  shows "calm K vs p M i bs e' \<and> (\<forall>m' \<in> set (drop (length (eOut e)) (eOut e')). lawful K p live i m')"
  using h
proof (cases rule: run_request_cases)
  case (skip r q)
  then show ?thesis using c by (auto simp: calm_def getPrimaryID_def)
next
  case (propose r q)
  let ?e = "e\<lparr>eRequestChan := q\<rparr>"
  have c': "calm K vs p M i bs ?e" using c by (auto simp: calm_def getPrimaryID_def)
  have "i = p" using propose(2) c' by (auto simp: calm_def isPrimary_def getPrimaryID_def)
  obtain ms where ms: "eOut e' = eOut e @ ms" "\<forall>m \<in> set ms. mType m = PrePrepare"
    using proposeBlock_sends [OF propose(3)] by auto
  have fr: "consensus_frame ?e e'" "log_ok (eStateLog e')"
    using proposeBlock_frame(1,2) [OF propose(3)] c' by (simp_all add: calm_def)
  have "polled K M e'" using polled_request [OF h] c by (simp add: calm_def)
  from calm_frame [OF c' fr this] ms \<open>i = p\<close> i show ?thesis by (simp add: lawful_def)
qed

section \<open>Silent backups\<close>

lemma net_step_calm:
  assumes "net_step A S K live (E, T) (E', T')" and K: "codec_ok K" and fin: "finite live"
    and few: "\<And>i. i \<in> live - {p} \<Longrightarrow> int (card (insert i (live - {p}))) < QuorumSize vs" "2 < QuorumSize vs"
    and c: "\<forall>i \<in> live. calm K vs p (snd ` T) i (bs i) (E i)" and T: "\<forall>(j, m) \<in> T. lawful K p live j m"
  shows "(\<forall>i \<in> live. calm K vs p (snd ` T') i (bs i) (E' i)) \<and> (\<forall>(j, m) \<in> T'. lawful K p live j m)"
proof -
  have step: ?thesis if i: "i \<in> live" and E': "E' = E(i := e)" "T' = T \<union> sent i (E i) e"
    and e: "calm K vs p (snd ` T) i (bs i) e \<and> (\<forall>m' \<in> set (drop (length (eOut (E i))) (eOut e)). lawful K p live i m')"
    for i e
  proof -
    have sub: "snd ` T \<subseteq> snd ` T'" using E'(2) by blast
    have "\<forall>k \<in> live. calm K vs p (snd ` T) k (bs k) (E' k)" using c e E'(1) by simp
    then have "\<forall>k \<in> live. calm K vs p (snd ` T') k (bs k) (E' k)" using calm_mono [OF sub] by blast
    moreover have "\<forall>(j, m) \<in> T'. lawful K p live j m" using T e unfolding E'(2) sent_def by auto
    ultimately show ?thesis by blast
  qed
  from assms(1) show ?thesis
  proof (cases rule: net_step.cases)
    case (ns_deliver i j m V e)
    have ci: "calm K vs p (snd ` T) i (bs i) (E i)" using c ns_deliver(3) by blast
    have fi: "i \<noteq> p \<Longrightarrow> int (card (insert i (live - {p}))) < QuorumSize vs" using few(1) ns_deliver(3) by blast
    from step [OF ns_deliver(3,1,2) calm_deliver [OF ci T ns_deliver(4,5,3) K ns_deliver(6,7) fi few(2) fin]] show ?thesis .
  next
    case (ns_request i V e)
    have ci: "calm K vs p (snd ` T) i (bs i) (E i)" using c ns_request(3) by blast
    from step [OF ns_request(3,1,2) calm_request [OF ci ns_request(3,5)]] show ?thesis .
  next
    case (ns_client i V op cl)
    then show ?thesis using c T by (auto simp: calm_def getPrimaryID_def SubmitRequest_def Let_def)
  next
    case (ns_mempool i mp mp')
    then show ?thesis using c T by (auto simp: calm_def getPrimaryID_def)
  qed
qed

lemma net_run_calm:
  assumes "(net_step A S K live)\<^sup>*\<^sup>* (E, {}) N" and "codec_ok K" and "finite live"
    and "\<And>i. i \<in> live - {p} \<Longrightarrow> int (card (insert i (live - {p}))) < QuorumSize vs" "2 < QuorumSize vs"
    and "\<forall>i \<in> live. calm K vs p {} i (bs i) (E i)"
  shows "(\<forall>i \<in> live. calm K vs p (snd ` snd N) i (bs i) (fst N i)) \<and> (\<forall>(j, m) \<in> snd N. lawful K p live j m)"
  using assms(1)
proof (induction rule: rtranclp_induct)
  case base
  then show ?case using assms(6) by simp
next
  case (step N N')
  obtain E1 T1 where N: "N = (E1, T1)" by (cases N)
  obtain E2 T2 where N': "N' = (E2, T2)" by (cases N')
  have IH: "\<forall>i \<in> live. calm K vs p (snd ` T1) i (bs i) (E1 i)" "\<forall>(j, m) \<in> T1. lawful K p live j m"
    using step(3) by (simp_all add: N)
  from net_step_calm [OF step(2) [unfolded N N'] assms(2,3) assms(4) assms(5) IH] show ?case by (simp add: N')
qed

text \<open>
  C10. The protocol does not tolerate the failures it is built for. Take \<open>3f + 1\<close> validators with
  distinct names and \<open>f \<ge> 1\<close>, running engines that agree on the primary \<open>p\<close> of their view, with
  nothing in their logs, and any \<open>f\<close> backups that are silent. The others run the code: clients
  submit what they like, the primary proposes, and every message a node broadcasts reaches any
  other node any number of times and in any order; no timer fires. Then nobody ever commits a
  block, the primary included, and no backup prepares one. That the primary never sends a
  \<open>PREPARE\<close> is not assumed but part of the conclusion: \<open>proposeBlock\<close> records its vote and sends
  the proposal only, and a node's broadcasts are not delivered to itself. So a backup collects
  \<open>2f\<close> prepares, its own among them, and \<open>IsPrepared\<close> asks for \<open>2f + 1\<close>, the proposal not counting
  as the primary's vote.
\<close>

theorem f_silent_backups_block_progress:
  assumes "codec_ok K" and "pbft_set vs" and "1 \<le> FaultyTolerance vs" and "p \<in> ids vs"
    and "silent \<subseteq> ids vs - {p}" and "int (card silent) = FaultyTolerance vs" and "live = ids vs - silent"
    and "\<forall>i \<in> live. engine_ok (E i) \<and> eValidatorSet (E i) = vs \<and> cfNodeID (eConfig (E i)) = i \<and>
      getPrimaryID (E i) = Ret p \<and> (\<forall>n. GetExistingState n (eStateLog (E i)) = None)"
    and "(net_step A S K live)\<^sup>*\<^sup>* (E, {}) (E', T)"
  shows "(\<forall>i \<in> live. eCommittedBlocks (E' i) = eCommittedBlocks (E i)) \<and>
    (\<forall>i \<in> live - {p}. \<forall>n s. GetExistingState n (eStateLog (E' i)) = Some s \<longrightarrow> sPhase s \<noteq> Prepared \<and> sPhase s \<noteq> Committed) \<and>
    (\<forall>(j, m) \<in> T. mType m = Prepare \<longrightarrow> j \<noteq> p)"
proof -
  let ?f = "tolerance_of vs"
  have fin: "finite (ids vs)" by (simp add: ids_def)
  have f: "card silent = ?f" "1 \<le> ?f" using assms(3,6) by (simp_all add: tolerance_of_def)
  have n: "card (ids vs) = 3 * ?f + 1"
    using card_ids [of vs] assms(2) pbft_set_size(1) [OF assms(2)] by (simp add: pbft_set_def)
  have q: "QuorumSize vs = 2 * int ?f + 1"
    using pbft_set_size(2) [OF assms(2)] QuorumSize_ge_1 [of vs] by (simp add: quorum_of_def)
  have "live - {p} = ids vs - {p} - silent" using assms(7) by blast
  then have "card (live - {p}) = 2 * ?f"
    using n assms(4,5) fin f by (simp add: card_Diff_subset finite_subset [OF assms(5)])
  then have few: "int (card (insert i (live - {p}))) < QuorumSize vs" if "i \<in> live - {p}" for i
    using that q by (simp add: insert_absorb)
  have two: "2 < QuorumSize vs" using q f(2) by linarith
  have fl: "finite live" using fin assms(7) by simp
  have "\<forall>i \<in> live. calm K vs p {} i (eCommittedBlocks (E i)) (E i)"
    using assms(8) by (auto simp: calm_def polled_def dest: engine_ok_facts(5))
  from net_run_calm [OF assms(9,1) fl few two this]
  have c: "\<forall>i \<in> live. calm K vs p (snd ` T) i (eCommittedBlocks (E i)) (E' i)" and T: "\<forall>(j, m) \<in> T. lawful K p live j m"
    by simp_all
  have "sPhase s \<noteq> Prepared \<and> sPhase s \<noteq> Committed"
    if i: "i \<in> live - {p}" and g: "GetExistingState k (eStateLog (E' i)) = Some s" for i k s
  proof -
    have ci: "polled K (snd ` T) (E' i)" "eValidatorSet (E' i) = vs" "cfNodeID (eConfig (E' i)) = i"
      using c i by (simp_all add: calm_def)
    have t: "tally K (snd ` T) vs i k s" using polled_found_at [OF ci(1) g] ci(2,3) by simp
    then have "go_keys (sPrepareMsgs s) \<subseteq> preparers K (snd ` T) i k" by (simp add: tally_def)
    with lawful_voters(1) [OF T] have "go_keys (sPrepareMsgs s) \<subseteq> insert i (live - {p})" by blast
    then have "card (go_keys (sPrepareMsgs s)) \<le> card (insert i (live - {p}))" using fl by (intro card_mono) simp_all
    with few [OF i] have "\<not> QuorumSize vs \<le> int (card (go_keys (sPrepareMsgs s)))" by linarith
    with t show ?thesis by (simp add: tally_def)
  qed
  moreover have "\<forall>(j, m) \<in> T. mType m = Prepare \<longrightarrow> j \<noteq> p" using T by (auto simp: lawful_def)
  moreover have "\<forall>i \<in> live. eCommittedBlocks (E' i) = eCommittedBlocks (E i)" using c by (simp add: calm_def)
  ultimately show ?thesis by blast
qed

text \<open>
  Four validators, \<open>node3\<close> silent: a request reaches \<open>node0\<close>, which proposes, and its proposal
  reaches \<open>node1\<close>, which answers with a \<open>PREPARE\<close>.
\<close>

theorem f_silent_backups_block_progress_witness:
  "\<exists>E' T b s. (net_step noop_adapter (memory_store rev) sample_codec {''node0'', ''node1'', ''node2''})\<^sup>*\<^sup>*
       (fresh_engine NewNoopABCIAdapter, {}) (E', T) \<and>
     (''node0'', proposal sample_env 0 1 ''node0'' b) \<in> T \<and> (''node1'', sends_prepare sample_env 0 1 b ''node1'') \<in> T \<and>
     GetExistingState 1 (eStateLog (E' ''node1'')) = Some s \<and> sPhase s = PrePrepared \<and>
     (\<forall>i \<in> {''node0'', ''node1'', ''node2''}. eCommittedBlocks (E' i) = [])"
proof -
  let ?live = "{''node0'', ''node1'', ''node2''}"
  let ?E = "fresh_engine NewNoopABCIAdapter :: string \<Rightarrow> (NoopABCIAdapter, MemoryStore) Engine"
  let ?N = "net_step noop_adapter (memory_store rev) sample_codec ?live"
  let ?q = "\<lparr>rqOperation = [7], rqTimestamp = 0, rqClientID = ''client''\<rparr>"
  let ?s = "fst (SubmitRequest sample_env [7] ''client'' (?E ''node0''))"
  have K: "ve_codec sample_env = sample_codec" "codec_ok (ve_codec sample_env)" by simp_all
  have s: "?s = (?E ''node0'')\<lparr>eRequestChan := [?q]\<rparr>" "(?E ''node0'')\<lparr>eRequestChan := []\<rparr> = ?E ''node0''"
    "(?E ''node0'')\<lparr>eSequenceNum := 1, eAdapter := NewNoopABCIAdapter\<rparr> = (?E ''node0'')\<lparr>eSequenceNum := 1\<rparr>"
    by (simp_all add: SubmitRequest_def sample_env_def chan_cap_def fresh_engine_def NewEngineV2_def)
  have tr: "eTransportSet (?E i)" "eOut (?E i) = []" for i by (simp_all add: fresh_engine_def NewEngineV2_def)
  let ?p = "issue_proposal sample_env 1 0 [[7]] ((?E ''node0'')\<lparr>eSequenceNum := 1\<rparr>)"
  define b where "b = proposed_block sample_env 1 0 [[7]] ((?E ''node0'')\<lparr>eSequenceNum := 1\<rparr>)"
  let ?m = "proposal sample_env 0 1 ''node0'' b" and ?pp = "NewPrePrepareMsg 0 1 b ''node0''"
  have "proposeBlock noop_adapter sample_env (Some ?q) (?E ''node0'') = Ret ?p"
    by (simp add: proposeBlock_def collect_txs_def Let_def propose_txs_def noop.prepare_as_is s(3))
  then have r: "run_request noop_adapter sample_env ?s = Some (Ret ?p)"
    using fresh_engine_facts(1) [of NewNoopABCIAdapter "''node0''"] unfolding s(1)
    by (simp add: run_request_def Let_def s(2) isPrimary_def getPrimaryID_def DefaultConfig_def)
  have po: "eOut ?p = [?m]" using tr by (simp add: issue_proposal_sends b_def DefaultConfig_def)
  obtain a where h: "handleMessage noop_adapter (memory_store rev) sample_env ?m (?E ''node1'') =
      Ret (accept_proposal sample_env ?m ?pp ((?E ''node1'')\<lparr>eAdapter := a\<rparr>))"
    using proposal_accepted [OF K(2), of "?E ''node1''" "''node0''" 1 noop_adapter b "memory_store rev"]
    by (auto simp: noop.process_accepts)
  let ?a = "accept_proposal sample_env ?m ?pp ((?E ''node1'')\<lparr>eAdapter := a\<rparr>)"
  have m: "mView ?m = 0" "mSequenceNum ?m = 1" "mDigest ?m = bHash b" by (simp_all add: proposal_def)
  have ao: "eOut ?a = [sends_prepare sample_env 0 1 b ''node1'']"
    using tr by (simp add: accept_proposal_fields prepare_reply_def m DefaultConfig_def)
  obtain sl s0 where gs: "GetState 0 1 (eStateLog ((?E ''node1'')\<lparr>eAdapter := a\<rparr>)) = (sl, s0)"
    by fastforce
  have s0: "s0 = NewState 0 1" using gs by (auto simp: GetState_def GetExistingState_def NewStateLog_def Let_def)
  let ?st = "AddPrepare (NewPrepareMsg 0 1 (bHash b) ''node1'') (SetPrePrepare ?pp (Some b) (NewState 0 1))"
  have st: "GetExistingState 1 (eStateLog ?a) = Some ?st" "sPhase ?st = PrePrepared"
    using accept_proposal_state [OF gs m(1,2), of sample_env ?pp] by (simp_all add: s0 m DefaultConfig_def State_defs)
  let ?E1 = "?E(''node0'' := ?s)" let ?E2 = "?E1(''node0'' := ?p)" let ?E3 = "?E2(''node1'' := ?a)"
  let ?T2 = "{(''node0'', ?m)}" let ?T3 = "?T2 \<union> {(''node1'', sends_prepare sample_env 0 1 b ''node1'')}"
  have s1: "?N (?E, {}) (?E1, {})" by (rule ns_client)
  have l: "''node0'' \<in> ?live" "''node1'' \<in> ?live" by simp_all
  have s2: "?N (?E1, {}) (?E2, ?T2)"
    using ns_request [OF l(1) K(1), of noop_adapter ?E1 ?p "memory_store rev" "{}"] r by (simp add: sent_def po s(1) tr)
  have s3: "?N (?E2, ?T2) (?E3, ?T3)"
    using ns_deliver [OF l(2) _ _ K(1), of "''node0''" ?m ?T2 noop_adapter "memory_store rev" ?E2 ?a] h
    by (simp add: sent_def ao tr)
  have run: "?N\<^sup>*\<^sup>* (?E, {}) (?E3, ?T3)" using s1 s2 s3 by (meson rtranclp.rtrancl_refl rtranclp.rtrancl_into_rtrancl)
  have c: "codec_ok sample_codec" "1 \<le> FaultyTolerance default_set" "''node0'' \<in> ids default_set"
    "{''node3''} \<subseteq> ids default_set - {''node0''}" "int (card {''node3''}) = FaultyTolerance default_set"
    "?live = ids default_set - {''node3''}"
    using K(2) by (auto simp: size_default ids_default)
  have e: "\<forall>i \<in> ?live. engine_ok (?E i) \<and> eValidatorSet (?E i) = default_set \<and> cfNodeID (eConfig (?E i)) = i \<and>
      getPrimaryID (?E i) = Ret ''node0'' \<and> (\<forall>n. GetExistingState n (eStateLog (?E i)) = None)"
    by (simp add: DefaultConfig_def)
  from f_silent_backups_block_progress [OF c(1) pbft_set_default c(2-6) e run]
  have "\<forall>i \<in> ?live. eCommittedBlocks (?E3 i) = []" by (elim conjE) simp
  with run st show ?thesis
    by (intro exI [of _ ?E3] exI [of _ ?T3] exI [of _ b] exI [of _ ?st]) (intro conjI, assumption, simp_all)
qed

end
