(* ===== verification/Service.thy ===== *)
theory Service
  imports Transport
begin

text \<open>
  \<open>api/pbft/v1/service_grpc.pb.go\<close>: the client stub and the server registration of the service that
  the transports speak. A connection and a registered server are the grpc library's: the client
  works on any \<open>Invoke\<close>, and the server side is the table the library dispatches on. The stream
  is registered but never opened by the code.
\<close>

section \<open>Requests, responses and errors\<close>

datatype 'ts request =
    BroadcastMessageRequest "'ts PBFTMessage option"
  | SendMessageRequest string "'ts PBFTMessage option"
  | SyncStateRequest u64 u64
  | GetCheckpointRequest u64
  | GetStatusRequest
  | BroadcastTxRequest "'ts TxMessage option"
  | SendTxRequest string "'ts TxMessage option"

datatype 'ts response =
    BroadcastMessageResponse bool string
  | SendMessageResponse bool string
  | SyncState_Response "'ts SyncStateResponse"
  | GetCheckpointResponse "ProtoCheckpoint option" bytes
  | GetStatus_Response GetStatusResponse
  | BroadcastTx_Response BroadcastTxResponse
  | SendTx_Response SendTxResponse

datatype rpc_error = Unimplemented string | Rpc_Error string

type_synonym ('w, 'ts) outcome = "('w \<times> (rpc_error + 'ts response)) go"

text \<open>The accessors of the generated code, which accept a nil receiver.\<close>

fun request_GetMessage :: "'ts request option \<Rightarrow> 'ts PBFTMessage option" where
  "request_GetMessage (Some (BroadcastMessageRequest m)) = m"
| "request_GetMessage (Some (SendMessageRequest target m)) = m"
| "request_GetMessage _ = None"

fun request_GetTx :: "'ts request option \<Rightarrow> 'ts TxMessage option" where
  "request_GetTx (Some (BroadcastTxRequest tx)) = tx"
| "request_GetTx (Some (SendTxRequest target tx)) = tx"
| "request_GetTx _ = None"

fun request_GetTargetNodeId :: "'ts request option \<Rightarrow> string" where
  "request_GetTargetNodeId (Some (SendMessageRequest target m)) = target"
| "request_GetTargetNodeId (Some (SendTxRequest target tx)) = target"
| "request_GetTargetNodeId _ = []"

section \<open>The client\<close>

text \<open>\<open>ClientConnInterface.Invoke\<close>, the argument \<open>cc\<close>, takes the full method name.\<close>

type_synonym ('w, 'ts) conn_interface = "string \<Rightarrow> 'ts request \<Rightarrow> 'w \<Rightarrow> ('w, 'ts) outcome"

definition client_BroadcastMessage :: "('w, 'ts) conn_interface \<Rightarrow> 'ts PBFTMessage option \<Rightarrow> 'w \<Rightarrow> ('w, 'ts) outcome" where
  "client_BroadcastMessage cc m = cc ''/pbft.v1.PBFTService/BroadcastMessage'' (BroadcastMessageRequest m)"

definition client_SendMessage :: "('w, 'ts) conn_interface \<Rightarrow> string \<Rightarrow> 'ts PBFTMessage option \<Rightarrow> 'w \<Rightarrow> ('w, 'ts) outcome" where
  "client_SendMessage cc target m = cc ''/pbft.v1.PBFTService/SendMessage'' (SendMessageRequest target m)"

definition client_SyncState :: "('w, 'ts) conn_interface \<Rightarrow> u64 \<Rightarrow> u64 \<Rightarrow> 'w \<Rightarrow> ('w, 'ts) outcome" where
  "client_SyncState cc lo hi = cc ''/pbft.v1.PBFTService/SyncState'' (SyncStateRequest lo hi)"

definition client_GetCheckpoint :: "('w, 'ts) conn_interface \<Rightarrow> u64 \<Rightarrow> 'w \<Rightarrow> ('w, 'ts) outcome" where
  "client_GetCheckpoint cc n = cc ''/pbft.v1.PBFTService/GetCheckpoint'' (GetCheckpointRequest n)"

definition client_GetStatus :: "('w, 'ts) conn_interface \<Rightarrow> 'w \<Rightarrow> ('w, 'ts) outcome" where
  "client_GetStatus cc = cc ''/pbft.v1.PBFTService/GetStatus'' GetStatusRequest"

definition client_BroadcastTx :: "('w, 'ts) conn_interface \<Rightarrow> 'ts TxMessage option \<Rightarrow> 'w \<Rightarrow> ('w, 'ts) outcome" where
  "client_BroadcastTx cc tx = cc ''/pbft.v1.PBFTService/BroadcastTx'' (BroadcastTxRequest tx)"

definition client_SendTx :: "('w, 'ts) conn_interface \<Rightarrow> string \<Rightarrow> 'ts TxMessage option \<Rightarrow> 'w \<Rightarrow> ('w, 'ts) outcome" where
  "client_SendTx cc target tx = cc ''/pbft.v1.PBFTService/SendTx'' (SendTxRequest target tx)"

section \<open>The server\<close>

text \<open>The interface \<open>PBFTServiceServer\<close>, without the stream.\<close>

record ('w, 'ts) PBFTServiceServer =
  srv_BroadcastMessage :: "'ts PBFTMessage option \<Rightarrow> 'w \<Rightarrow> ('w, 'ts) outcome"
  srv_SendMessage :: "string \<Rightarrow> 'ts PBFTMessage option \<Rightarrow> 'w \<Rightarrow> ('w, 'ts) outcome"
  srv_SyncState :: "u64 \<Rightarrow> u64 \<Rightarrow> 'w \<Rightarrow> ('w, 'ts) outcome"
  srv_GetCheckpoint :: "u64 \<Rightarrow> 'w \<Rightarrow> ('w, 'ts) outcome"
  srv_GetStatus :: "'w \<Rightarrow> ('w, 'ts) outcome"
  srv_BroadcastTx :: "'ts TxMessage option \<Rightarrow> 'w \<Rightarrow> ('w, 'ts) outcome"
  srv_SendTx :: "string \<Rightarrow> 'ts TxMessage option \<Rightarrow> 'w \<Rightarrow> ('w, 'ts) outcome"

definition unimplemented :: "string \<Rightarrow> 'w \<Rightarrow> ('w, 'ts) outcome" where
  "unimplemented name w = Ret (w, Inl (Unimplemented (''method '' @ name @ '' not implemented'')))"

definition UnimplementedPBFTServiceServer :: "('w, 'ts) PBFTServiceServer" where
  "UnimplementedPBFTServiceServer =
     \<lparr>srv_BroadcastMessage = (\<lambda>m. unimplemented ''BroadcastMessage''),
      srv_SendMessage = (\<lambda>target m. unimplemented ''SendMessage''),
      srv_SyncState = (\<lambda>lo hi. unimplemented ''SyncState''),
      srv_GetCheckpoint = (\<lambda>n. unimplemented ''GetCheckpoint''),
      srv_GetStatus = unimplemented ''GetStatus'',
      srv_BroadcastTx = (\<lambda>tx. unimplemented ''BroadcastTx''),
      srv_SendTx = (\<lambda>target tx. unimplemented ''SendTx'')\<rparr>"

text \<open>
  A method handler: decode the request into a fresh value, then call the method, through the
  interceptor if the server has one. An interceptor that hands the method a request of another
  type makes its type assertion panic.
\<close>

type_synonym ('w, 'ts) interceptor =
  "'ts request \<Rightarrow> string \<Rightarrow> ('ts request \<Rightarrow> 'w \<Rightarrow> ('w, 'ts) outcome) \<Rightarrow> 'w \<Rightarrow> ('w, 'ts) outcome"

type_synonym ('w, 'ts) method_handler =
  "rpc_error + 'ts request \<Rightarrow> ('w, 'ts) interceptor option \<Rightarrow> 'w \<Rightarrow> ('w, 'ts) outcome"

definition unary_handler :: "string \<Rightarrow> ('ts request \<Rightarrow> 'w \<Rightarrow> ('w, 'ts) outcome) \<Rightarrow> ('w, 'ts) method_handler" where
  "unary_handler fullMethod call decoded intercept w =
     (case decoded of
        Inl err \<Rightarrow> Ret (w, Inl err)
      | Inr req \<Rightarrow> (case intercept of None \<Rightarrow> call req w | Some ic \<Rightarrow> ic req fullMethod call w))"

definition BroadcastMessage_Handler :: "('w, 'ts) PBFTServiceServer \<Rightarrow> ('w, 'ts) method_handler" where
  "BroadcastMessage_Handler srv = unary_handler ''/pbft.v1.PBFTService/BroadcastMessage''
     (\<lambda>req w. case req of BroadcastMessageRequest m \<Rightarrow> srv_BroadcastMessage srv m w | _ \<Rightarrow> Panic Explicit_Panic)"

definition SendMessage_Handler :: "('w, 'ts) PBFTServiceServer \<Rightarrow> ('w, 'ts) method_handler" where
  "SendMessage_Handler srv = unary_handler ''/pbft.v1.PBFTService/SendMessage''
     (\<lambda>req w. case req of SendMessageRequest target m \<Rightarrow> srv_SendMessage srv target m w | _ \<Rightarrow> Panic Explicit_Panic)"

definition SyncState_Handler :: "('w, 'ts) PBFTServiceServer \<Rightarrow> ('w, 'ts) method_handler" where
  "SyncState_Handler srv = unary_handler ''/pbft.v1.PBFTService/SyncState''
     (\<lambda>req w. case req of SyncStateRequest lo hi \<Rightarrow> srv_SyncState srv lo hi w | _ \<Rightarrow> Panic Explicit_Panic)"

definition GetCheckpoint_Handler :: "('w, 'ts) PBFTServiceServer \<Rightarrow> ('w, 'ts) method_handler" where
  "GetCheckpoint_Handler srv = unary_handler ''/pbft.v1.PBFTService/GetCheckpoint''
     (\<lambda>req w. case req of GetCheckpointRequest n \<Rightarrow> srv_GetCheckpoint srv n w | _ \<Rightarrow> Panic Explicit_Panic)"

definition GetStatus_Handler :: "('w, 'ts) PBFTServiceServer \<Rightarrow> ('w, 'ts) method_handler" where
  "GetStatus_Handler srv = unary_handler ''/pbft.v1.PBFTService/GetStatus''
     (\<lambda>req w. case req of GetStatusRequest \<Rightarrow> srv_GetStatus srv w | _ \<Rightarrow> Panic Explicit_Panic)"

definition BroadcastTx_Handler :: "('w, 'ts) PBFTServiceServer \<Rightarrow> ('w, 'ts) method_handler" where
  "BroadcastTx_Handler srv = unary_handler ''/pbft.v1.PBFTService/BroadcastTx''
     (\<lambda>req w. case req of BroadcastTxRequest tx \<Rightarrow> srv_BroadcastTx srv tx w | _ \<Rightarrow> Panic Explicit_Panic)"

definition SendTx_Handler :: "('w, 'ts) PBFTServiceServer \<Rightarrow> ('w, 'ts) method_handler" where
  "SendTx_Handler srv = unary_handler ''/pbft.v1.PBFTService/SendTx''
     (\<lambda>req w. case req of SendTxRequest target tx \<Rightarrow> srv_SendTx srv target tx w | _ \<Rightarrow> Panic Explicit_Panic)"

record ('w, 'ts) service_desc =
  sdServiceName :: string
  sdMethods :: "(string \<times> ('w, 'ts) method_handler) list"
  sdStreams :: "string list"

definition PBFTService_ServiceDesc :: "('w, 'ts) PBFTServiceServer \<Rightarrow> ('w, 'ts) service_desc" where
  "PBFTService_ServiceDesc srv =
     \<lparr>sdServiceName = ''pbft.v1.PBFTService'',
      sdMethods =
        [(''BroadcastMessage'', BroadcastMessage_Handler srv), (''SendMessage'', SendMessage_Handler srv),
         (''SyncState'', SyncState_Handler srv), (''GetCheckpoint'', GetCheckpoint_Handler srv),
         (''GetStatus'', GetStatus_Handler srv), (''BroadcastTx'', BroadcastTx_Handler srv),
         (''SendTx'', SendTx_Handler srv)],
      sdStreams = [''MessageStream'']\<rparr>"

section \<open>The transport as the server\<close>

text \<open>
  The methods of \<open>GRPCTransport\<close> shadow the embedded unimplemented ones. A checkpoint is answered
  without a state hash.
\<close>

definition transport_server ::
  "'ts ts_codec \<Rightarrow> (Message \<Rightarrow> 'w \<Rightarrow> 'w) \<Rightarrow> 'w state_provider \<Rightarrow> 'w tx_handler option \<Rightarrow> ('c, 'ts) GRPCTransport
     \<Rightarrow> ('w, 'ts) PBFTServiceServer" where
  "transport_server T h P handler t =
     \<lparr>srv_BroadcastMessage = (\<lambda>m w. let (w, ok) = BroadcastMessage T h m t w in Ret (w, Inr (BroadcastMessageResponse ok []))),
      srv_SendMessage = (\<lambda>target m w. let (w, ok) = SendMessage T h m t w in Ret (w, Inr (SendMessageResponse ok []))),
      srv_SyncState = (\<lambda>lo hi w. Ret (w, Inr (SyncState_Response (SyncState T P lo t w)))),
      srv_GetCheckpoint = (\<lambda>n w. Ret (w, Inr (GetCheckpointResponse (gt_GetCheckpoint P n t w) []))),
      srv_GetStatus = (\<lambda>w. Ret (w, Inr (GetStatus_Response (GetStatus t)))),
      srv_BroadcastTx = (\<lambda>tx w. go_bind (BroadcastTx handler tx t w) (\<lambda>(w, r). Ret (w, Inr (BroadcastTx_Response r)))),
      srv_SendTx = (\<lambda>target tx w. go_bind (SendTx handler tx t w) (\<lambda>(w, r). Ret (w, Inr (SendTx_Response r))))\<rparr>"

section \<open>From the stub to the server\<close>

text \<open>
  What grpc promises of a connection to a server with this service, for the requests its codec
  carries: the method of the full name \<open>/service/method\<close> gets the request, and there is no
  interceptor unless one was installed.
\<close>

definition routes_to :: "('ts request \<Rightarrow> bool) \<Rightarrow> ('w, 'ts) conn_interface \<Rightarrow> ('w, 'ts) service_desc \<Rightarrow> bool" where
  "routes_to carries cc desc \<longleftrightarrow>
     (\<forall>name handler req w. (name, handler) \<in> set (sdMethods desc) \<longrightarrow> carries req \<longrightarrow>
        cc (''/'' @ sdServiceName desc @ ''/'' @ name) req w = handler (Inr req) None w)"

text \<open>What a server answers to a request.\<close>

fun serve :: "('w, 'ts) PBFTServiceServer \<Rightarrow> 'ts request \<Rightarrow> 'w \<Rightarrow> ('w, 'ts) outcome" where
  "serve srv (BroadcastMessageRequest m) w = srv_BroadcastMessage srv m w"
| "serve srv (SendMessageRequest target m) w = srv_SendMessage srv target m w"
| "serve srv (SyncStateRequest lo hi) w = srv_SyncState srv lo hi w"
| "serve srv (GetCheckpointRequest n) w = srv_GetCheckpoint srv n w"
| "serve srv GetStatusRequest w = srv_GetStatus srv w"
| "serve srv (BroadcastTxRequest tx) w = srv_BroadcastTx srv tx w"
| "serve srv (SendTxRequest target tx) w = srv_SendTx srv target tx w"

fun call_stub :: "('w, 'ts) conn_interface \<Rightarrow> 'ts request \<Rightarrow> 'w \<Rightarrow> ('w, 'ts) outcome" where
  "call_stub cc (BroadcastMessageRequest m) w = client_BroadcastMessage cc m w"
| "call_stub cc (SendMessageRequest target m) w = client_SendMessage cc target m w"
| "call_stub cc (SyncStateRequest lo hi) w = client_SyncState cc lo hi w"
| "call_stub cc (GetCheckpointRequest n) w = client_GetCheckpoint cc n w"
| "call_stub cc GetStatusRequest w = client_GetStatus cc w"
| "call_stub cc (BroadcastTxRequest tx) w = client_BroadcastTx cc tx w"
| "call_stub cc (SendTxRequest target tx) w = client_SendTx cc target tx w"

lemma route_method:
  assumes "routes_to carries cc (PBFTService_ServiceDesc srv)" and "carries req"
    and "(name, handler) \<in> set (sdMethods (PBFTService_ServiceDesc srv))"
    and "full = ''/'' @ sdServiceName (PBFTService_ServiceDesc srv) @ ''/'' @ name"
  shows "cc full req w = handler (Inr req) None w"
  using assms by (simp add: routes_to_def)

lemma stub_routes:
  assumes "routes_to carries cc (PBFTService_ServiceDesc srv)" and "carries req"
  shows "cc ''/pbft.v1.PBFTService/BroadcastMessage'' req w = BroadcastMessage_Handler srv (Inr req) None w"
    and "cc ''/pbft.v1.PBFTService/SendMessage'' req w = SendMessage_Handler srv (Inr req) None w"
    and "cc ''/pbft.v1.PBFTService/SyncState'' req w = SyncState_Handler srv (Inr req) None w"
    and "cc ''/pbft.v1.PBFTService/GetCheckpoint'' req w = GetCheckpoint_Handler srv (Inr req) None w"
    and "cc ''/pbft.v1.PBFTService/GetStatus'' req w = GetStatus_Handler srv (Inr req) None w"
    and "cc ''/pbft.v1.PBFTService/BroadcastTx'' req w = BroadcastTx_Handler srv (Inr req) None w"
    and "cc ''/pbft.v1.PBFTService/SendTx'' req w = SendTx_Handler srv (Inr req) None w"
  unfolding atomize_conj
  by (intro conjI; rule route_method [OF assms]; simp add: PBFTService_ServiceDesc_def)

lemmas stub_defs = client_BroadcastMessage_def BroadcastMessage_Handler_def
  client_SendMessage_def SendMessage_Handler_def
  client_SyncState_def SyncState_Handler_def
  client_GetCheckpoint_def GetCheckpoint_Handler_def
  client_GetStatus_def GetStatus_Handler_def
  client_BroadcastTx_def BroadcastTx_Handler_def
  client_SendTx_def SendTx_Handler_def

text \<open>
  C36. Every stub reaches its method. Over a connection to a server with this service, calling a stub
  is calling the method of that name on the server: same request, same answer, same effect, for
  each of the seven methods.
\<close>

theorem stub_reaches_method:
  assumes "routes_to carries cc (PBFTService_ServiceDesc srv)" and "carries req"
  shows "call_stub cc req w = serve srv req w"
  using assms(2) by (cases req) (simp_all add: stub_routes [OF assms(1)] stub_defs unary_handler_def)

text \<open>A connection that looks the method up in the table, as the library does.\<close>

definition local_conn :: "('w, 'ts) service_desc \<Rightarrow> ('w, 'ts) conn_interface" where
  "local_conn desc full req w =
     (case find (\<lambda>(name, handler). full = ''/'' @ sdServiceName desc @ ''/'' @ name) (sdMethods desc) of
        Some (name, handler) \<Rightarrow> handler (Inr req) None w
      | None \<Rightarrow> Ret (w, Inl (Unimplemented (''unknown method '' @ full))))"

lemma find_entry:
  "distinct (map fst xs) \<Longrightarrow> (k, v) \<in> set xs \<Longrightarrow> find (\<lambda>(k', v'). f k = f k') xs = Some (k, v)" if "inj f"
  using that by (induction xs) (auto simp: inj_eq image_iff)

lemma local_conn_routes: "routes_to (\<lambda>req. True) (local_conn (PBFTService_ServiceDesc srv)) (PBFTService_ServiceDesc srv)"
proof -
  have inj: "inj (\<lambda>name. ''/'' @ sdServiceName (PBFTService_ServiceDesc srv) @ ''/'' @ name)" by (simp add: inj_def)
  have d: "distinct (map fst (sdMethods (PBFTService_ServiceDesc srv)))" by (simp add: PBFTService_ServiceDesc_def)
  show ?thesis
    by (simp only: routes_to_def local_conn_def) (auto simp only: find_entry [OF inj d] option.case prod.case)
qed

definition no_provider :: "'w state_provider" where
  "no_provider = \<lparr>sp_GetBlocksFromHeight = (\<lambda>h w. []), sp_GetCheckpoints = (\<lambda>w. []), sp_GetCheckpoint = (\<lambda>n w. None)\<rparr>"

theorem stub_reaches_method_witness:
  "call_stub (local_conn (PBFTService_ServiceDesc (transport_server nanos (\<lambda>m w. m # w) no_provider None
       (SetMessageHandler two_peers)))) (BroadcastMessageRequest (Some (messageToProto nanos (NewMessage 0 Commit 1 2 [] ''a'')))) [] =
     Ret ([NewMessage 0 Commit 1 2 [] ''a''], Inr (BroadcastMessageResponse True []))"
  unfolding stub_reaches_method [OF local_conn_routes TrueI]
  by (simp add: transport_server_def BroadcastMessage_def SetMessageHandler_def two_peers_def nanos_def
      messageToProto_def protoToMessage_def NewMessage_def)

end
