(* ===== verification/Network.thy ===== *)
theory Network
  imports Agreement Service Node_Runs
begin

text \<open>
  Two nodes connected: from what the engine of one broadcasts, through its transport, the wire
  format, the client stub, the server and the message channel, to the handlers of the other
  engine. Everything in between changes nothing.
\<close>

section \<open>Calls and their execution\<close>

fun request_of :: "'ts rpc \<Rightarrow> 'ts request" where
  "request_of (rpc_BroadcastMessage m) = BroadcastMessageRequest (Some m)"
| "request_of (rpc_SendMessage target m) = SendMessageRequest target (Some m)"
| "request_of (rpc_BroadcastTx tx) = BroadcastTxRequest (Some tx)"
| "request_of (rpc_SendTx target tx) = SendTxRequest target (Some tx)"

text \<open>The calls on connection \<open>c\<close> that a transport made on the way from \<open>t\<close> to \<open>t'\<close>.\<close>

definition calls_on :: "'c \<Rightarrow> ('c, 'ts) GRPCTransport \<Rightarrow> ('c, 'ts) GRPCTransport \<Rightarrow> 'ts rpc list" where
  "calls_on c t t' = map snd (filter (\<lambda>x. fst x = c) (drop (length (gtSent t)) (gtSent t')))"

text \<open>
  The other end: each call goes through the stub to the server of the peer, whose main loop then
  takes what has come into its channel.
\<close>

fun served ::
  "'a adapter_ops \<Rightarrow> 's store_ops \<Rightarrow> engine_env \<Rightarrow> (('a, 's) Engine, 'ts) conn_interface \<Rightarrow> 'ts rpc list
     \<Rightarrow> ('a, 's) Engine \<Rightarrow> ('a, 's) Engine go" where
  "served A S V cc [] e = Ret e"
| "served A S V cc (r # rs) e =
     go_bind (call_stub cc (request_of r) e) (\<lambda>(e, answer).
       go_bind (engine_run A S V [Run_Message] e) (\<lambda>(e, ended). served A S V cc rs e))"

lemma broadcasts_sent:
  "gtSent (fold (\<lambda>m t. fst (gt_Broadcast G m t)) ms t) = gtSent t @
     concat (map (\<lambda>m. map (\<lambda>p. (pcConn (snd p), rpc_BroadcastMessage (messageToProto (ge_ts G) m)))
       (ge_peers G (gtPeers t))) ms)"
proof -
  have "gtPeers (fst (gt_Broadcast G m t)) = gtPeers t"
    "gtSent (fst (gt_Broadcast G m t)) = gtSent t @ map (\<lambda>p. (pcConn (snd p), rpc_BroadcastMessage (messageToProto (ge_ts G) m)))
      (ge_peers G (gtPeers t))" for m t
    by (simp_all add: gt_Broadcast_def call_peers_result)
  then show ?thesis by (induction ms arbitrary: t) simp_all
qed

lemma one_conn:
  assumes "distinct (map (pcConn \<circ> snd) ps)" and "p \<in> set ps" and "pcConn (snd p) = c"
  shows "filter (\<lambda>x. fst x = c) (map (\<lambda>p. (pcConn (snd p), r)) ps) = [(c, r)]"
  using assms
proof (induction ps)
  case (Cons q ps)
  show ?case
  proof (cases "p = q")
    case True
    with Cons.prems have "c \<notin> pcConn ` snd ` set ps" by auto
    then have "filter (\<lambda>x. fst x = c) (map (\<lambda>p. (pcConn (snd p), r)) ps) = []"
      by (auto simp: filter_empty_conv)
    with True Cons.prems(3) show ?thesis by simp
  next
    case False
    with Cons.prems have "p \<in> set ps" "pcConn (snd q) \<noteq> c" by (auto simp: image_iff)
    with Cons show ?thesis by simp
  qed
qed simp

lemma calls_on_peer:
  assumes "go_order (ge_peers G)" and "distinct (map (pcConn \<circ> snd) (gtPeers (ndTransport n)))"
    and "p \<in> set (gtPeers (ndTransport n))"
  shows "calls_on (pcConn (snd p)) (ndTransport n) (ndTransport (engine_did G e n)) =
    map (\<lambda>m. rpc_BroadcastMessage (messageToProto (ge_ts G) m)) (drop (length (eOut (ndEngine n))) (eOut e))"
proof -
  let ?t = "ndTransport n" and ?ms = "drop (length (eOut (ndEngine n))) (eOut e)"
  let ?ps = "ge_peers G (gtPeers ?t)"
  have tr: "ndTransport (engine_did G e n) = fold (\<lambda>m t. fst (gt_Broadcast G m t)) ?ms ?t"
    by (simp add: engine_did_def Let_def split: option.split)
  have perm: "mset ?ps = mset (gtPeers ?t)" using assms(1) by (simp add: go_order_def)
  then have "distinct (map (pcConn \<circ> snd) ?ps)"
    using assms(2) by (metis mset_eq_imp_distinct_iff mset_map)
  moreover have "p \<in> set ?ps" using assms(3) perm by (metis mset_eq_setD)
  ultimately have one: "filter (\<lambda>x. fst x = pcConn (snd p)) (map (\<lambda>q. (pcConn (snd q), r)) ?ps) = [(pcConn (snd p), r)]" for r
    by (rule one_conn) simp
  show ?thesis
    unfolding calls_on_def tr broadcasts_sent by (simp add: filter_concat comp_def one concat_map_singleton)
qed

section \<open>From engine to engine\<close>

text \<open>
  C35. What an engine broadcasts, the engine of every connected peer handles. Take a step of a node's
  engine, a peer on a connection of its own, and at the peer a transport with its handler set
  behind a connection that carries broadcasts, an empty channel and an engine that keeps its invariant. Serving the
  calls made on this connection, in order, with the main loop taking each message as it comes,
  has exactly the outcome, panics included, of giving the broadcast messages to the peer's
  handlers: wire format, stub, server and channel change nothing, lose nothing and reorder
  nothing.
\<close>

theorem engine_reaches_engine:
  assumes "go_order (ge_peers G)" and "distinct (map (pcConn \<circ> snd) (gtPeers (ndTransport n)))"
    and "p \<in> set (gtPeers (ndTransport n))"
    and "routes_to carries cc (PBFTService_ServiceDesc (transport_server (ge_ts G) handleIncomingMessage P tx t))"
    and "\<And>m. carries (BroadcastMessageRequest (Some m))" and "gtHandlerSet t"
    and "eMsgChan f = []" and "engine_ok f" and "ve_ok V"
  shows "served A S V cc (calls_on (pcConn (snd p)) (ndTransport n) (ndTransport (engine_did G e n))) f =
    deliver A S V (drop (length (eOut (ndEngine n))) (eOut e)) f"
proof -
  have run_end: "engine_run A S V [] = (\<lambda>e. Ret (e, False))" by (rule ext) simp
  let ?r = "\<lambda>m. rpc_BroadcastMessage (messageToProto (ge_ts G) m)"
  have "served A S V cc (map ?r ms) f = deliver A S V ms f" if "eMsgChan f = []" "engine_ok f" for ms f
    using that
  proof (induction ms arbitrary: f)
    case (Cons m ms)
    let ?m = "protoToMessage (ge_ts G) (messageToProto (ge_ts G) m)"
    have stub: "call_stub cc (request_of (?r m)) f = Ret (f\<lparr>eMsgChan := [?m]\<rparr>, Inr (BroadcastMessageResponse True []))"
      using Cons.prems(1) assms(5,6)
      by (simp add: stub_routes [OF assms(4)] client_BroadcastMessage_def BroadcastMessage_Handler_def unary_handler_def
          transport_server_def BroadcastMessage_def handleIncomingMessage_def chan_cap_def)
    have "f\<lparr>eMsgChan := []\<rparr> = f" using Cons.prems(1) by simp
    then have loop: "engine_run A S V [Run_Message] (f\<lparr>eMsgChan := [?m]\<rparr>) =
        go_bind (handleMessage A S V m f) (\<lambda>e. Ret (e, False))"
      by (simp add: run_msg_def wire_transparent run_end)
    show ?case
    proof (cases "handleMessage A S V m f")
      case (Ret f1)
      have "eMsgChan f1 = []"
        using io_message [OF Ret engine_ok_facts(6) [OF Cons.prems(2)]] Cons.prems(1) by (simp add: io_def)
      with Cons.IH [OF this handleMessage_ok [OF Ret Cons.prems(2) assms(9)]] show ?thesis
        by (simp add: stub loop Ret del: request_of.simps engine_run.simps)
    qed (simp_all add: stub loop del: request_of.simps engine_run.simps)
  qed simp
  then show ?thesis using assms(7,8) calls_on_peer [OF assms(1-3)] by simp
qed

text \<open>The traffic of \<open>Agreement\<close>, broadcast by one node, makes its peer commit the block.\<close>

theorem engine_reaches_engine_witness:
  "\<exists>f. served noop_adapter (memory_store rev) sample_env
       (local_conn (PBFTService_ServiceDesc (transport_server nanos handleIncomingMessage no_provider None
         ((NewGRPCTransport ''node1'' ''host1'')\<lparr>gtHandlerSet := True\<rparr>))))
       (calls_on ''host1'' (ndTransport (started ''node0''))
         (ndTransport (engine_did half_down ((ndEngine (started ''node0''))\<lparr>eOut := eOut (ndEngine (started ''node0'')) @ sample_traffic\<rparr>)
           (started ''node0''))))
       (sample_peer ''node1'') = Ret f \<and> eCommittedBlocks f = [raw_block 1 []]"
proof -
  let ?n = "started ''node0''"
  obtain f where f: "deliver noop_adapter (memory_store rev) sample_env sample_traffic (sample_peer ''node1'') = Ret f"
    "eCommittedBlocks f = [raw_block 1 []]" using sample_peer_delivers by blast
  have peers: "map (pcConn \<circ> snd) (gtPeers (ndTransport ?n)) = [''host1'', ''host2'']"
    by (simp add: started_def nd_Start_def new_node_fields half_down_starts Let_def NewGRPCTransport_def
        node_config_def node_DefaultConfig_def connect_peer_def split_peer_def AddPeer_def half_down_dials)
  then have "''host1'' \<in> (pcConn \<circ> snd) ` set (gtPeers (ndTransport ?n))" unfolding list.set_map [symmetric] by simp
  then obtain p where p: "p \<in> set (gtPeers (ndTransport ?n))" "pcConn (snd p) = ''host1''" by auto
  have G: "go_order (ge_peers half_down)" "ge_ts half_down = nanos" by (simp_all add: half_down_def)
  have s: "gtHandlerSet ((NewGRPCTransport ''node1'' ''host1'')\<lparr>gtHandlerSet := True\<rparr>)" by simp
  have d: "distinct (map (pcConn \<circ> snd) (gtPeers (ndTransport ?n)))" unfolding peers by simp
  have v: "ve_ok sample_env" by simp
  let ?e = "(ndEngine ?n)\<lparr>eOut := eOut (ndEngine ?n) @ sample_traffic\<rparr>"
  note r = engine_reaches_engine [where A = noop_adapter and S = "memory_store rev" and e = ?e and n = ?n and V = sample_env,
      OF G(1) d p(1) local_conn_routes TrueI s sample_peer_facts(2,1) v, unfolded G(2) p(2)]
  have "drop (length (eOut (ndEngine ?n))) (eOut ?e) = sample_traffic" by (simp del: started_fields)
  then show ?thesis unfolding r using f by simp
qed

end
