(* ===== verification/Wire_Types.thy ===== *)
theory Wire_Types
  imports Service
begin

text \<open>
  The rest of \<open>api/pbft/v1\<close>: the \<open>proto.Message\<close> methods of \<open>proto_impl.go\<close>, the message stream
  of \<open>service_grpc.pb.go\<close> and the wire types of \<open>types.pb.go\<close> that nothing sends. A Go interface
  value is the method set of the type that implements it; the stream of the grpc library is a
  parameter.
\<close>

section \<open>The method set of \<open>proto.Message\<close>\<close>

text \<open>
  \<open>Reset\<close> overwrites the receiver, so it is a function to the new value; \<open>protoreflect.Message\<close>
  is an interface of the library, of which the code only returns nil (\<open>None\<close>).
\<close>

typedecl protoreflect_Message

record 'm proto_impl =
  pi_Reset :: "'m \<Rightarrow> 'm"
  pi_String :: "'m \<Rightarrow> string"
  pi_ProtoReflect :: "'m \<Rightarrow> protoreflect_Message option"

text \<open>The verb \<open>%v\<close> on a bool, on an \<open>int32\<close> and \<open>%d\<close> on a \<open>uint64\<close>.\<close>

definition v_bool :: "bool \<Rightarrow> string" where
  "v_bool b = (if b then ''true'' else ''false'')"

definition v_int :: "int \<Rightarrow> string" where
  "v_int i = (if i < 0 then ''-'' @ show_nat (nat (- i)) else show_nat (nat i))"

definition d_u64 :: "u64 \<Rightarrow> string" where
  "d_u64 n = show_nat (unat n)"

fun type_number :: "ProtoMessageType \<Rightarrow> int" where
  "type_number MESSAGE_TYPE_UNSPECIFIED = 0"
| "type_number MESSAGE_TYPE_PRE_PREPARE = 1"
| "type_number MESSAGE_TYPE_PREPARE = 2"
| "type_number MESSAGE_TYPE_COMMIT = 3"
| "type_number MESSAGE_TYPE_VIEW_CHANGE = 4"
| "type_number MESSAGE_TYPE_NEW_VIEW = 5"
| "type_number MESSAGE_TYPE_CHECKPOINT = 6"
| "type_number (OtherProtoType n) = n"

definition impl_PBFTMessage :: "'ts PBFTMessage proto_impl" where
  "impl_PBFTMessage =
     \<lparr>pi_Reset = (\<lambda>x. \<lparr>pmType = MESSAGE_TYPE_UNSPECIFIED, pmView = 0, pmSequenceNum = 0, pmDigest = [],
        pmNodeId = [], pmTimestamp = None, pmSignature = [], pmPayload = []\<rparr>),
      pi_String = (\<lambda>x. ''PBFTMessage{Type:'' @ v_int (type_number (pmType x)) @ '', View:'' @ d_u64 (pmView x) @
        '', Seq:'' @ d_u64 (pmSequenceNum x) @ ''}''),
      pi_ProtoReflect = (\<lambda>x. None)\<rparr>"

text \<open>The requests: each receiver is the constructor of its struct.\<close>

definition impl_BroadcastMessageRequest :: "'ts request proto_impl" where
  "impl_BroadcastMessageRequest =
     \<lparr>pi_Reset = (\<lambda>x. BroadcastMessageRequest None), pi_String = (\<lambda>x. ''BroadcastMessageRequest''),
      pi_ProtoReflect = (\<lambda>x. None)\<rparr>"

definition impl_SendMessageRequest :: "'ts request proto_impl" where
  "impl_SendMessageRequest =
     \<lparr>pi_Reset = (\<lambda>x. SendMessageRequest [] None),
      pi_String = (\<lambda>x. ''SendMessageRequest{Target:'' @ request_GetTargetNodeId (Some x) @ ''}''),
      pi_ProtoReflect = (\<lambda>x. None)\<rparr>"

definition impl_SyncStateRequest :: "'ts request proto_impl" where
  "impl_SyncStateRequest =
     \<lparr>pi_Reset = (\<lambda>x. SyncStateRequest 0 0),
      pi_String = (\<lambda>x. case x of SyncStateRequest lo hi \<Rightarrow>
        ''SyncStateRequest{From:'' @ d_u64 lo @ '', To:'' @ d_u64 hi @ ''}'' | _ \<Rightarrow> []),
      pi_ProtoReflect = (\<lambda>x. None)\<rparr>"

definition impl_GetCheckpointRequest :: "'ts request proto_impl" where
  "impl_GetCheckpointRequest =
     \<lparr>pi_Reset = (\<lambda>x. GetCheckpointRequest 0),
      pi_String = (\<lambda>x. case x of GetCheckpointRequest n \<Rightarrow> ''GetCheckpointRequest{Seq:'' @ d_u64 n @ ''}'' | _ \<Rightarrow> []),
      pi_ProtoReflect = (\<lambda>x. None)\<rparr>"

definition impl_GetStatusRequest :: "'ts request proto_impl" where
  "impl_GetStatusRequest =
     \<lparr>pi_Reset = (\<lambda>x. GetStatusRequest), pi_String = (\<lambda>x. ''GetStatusRequest''), pi_ProtoReflect = (\<lambda>x. None)\<rparr>"

definition impl_BroadcastTxRequest :: "'ts request proto_impl" where
  "impl_BroadcastTxRequest =
     \<lparr>pi_Reset = (\<lambda>x. BroadcastTxRequest None), pi_String = (\<lambda>x. ''BroadcastTxRequest''),
      pi_ProtoReflect = (\<lambda>x. None)\<rparr>"

definition impl_SendTxRequest :: "'ts request proto_impl" where
  "impl_SendTxRequest =
     \<lparr>pi_Reset = (\<lambda>x. SendTxRequest [] None),
      pi_String = (\<lambda>x. ''SendTxRequest{Target:'' @ request_GetTargetNodeId (Some x) @ ''}''),
      pi_ProtoReflect = (\<lambda>x. None)\<rparr>"

text \<open>The responses.\<close>

definition impl_BroadcastMessageResponse :: "'ts response proto_impl" where
  "impl_BroadcastMessageResponse =
     \<lparr>pi_Reset = (\<lambda>x. BroadcastMessageResponse False []),
      pi_String = (\<lambda>x. case x of BroadcastMessageResponse ok err \<Rightarrow>
        ''BroadcastMessageResponse{Success:'' @ v_bool ok @ ''}'' | _ \<Rightarrow> []),
      pi_ProtoReflect = (\<lambda>x. None)\<rparr>"

definition impl_SendMessageResponse :: "'ts response proto_impl" where
  "impl_SendMessageResponse =
     \<lparr>pi_Reset = (\<lambda>x. SendMessageResponse False []),
      pi_String = (\<lambda>x. case x of SendMessageResponse ok err \<Rightarrow>
        ''SendMessageResponse{Success:'' @ v_bool ok @ ''}'' | _ \<Rightarrow> []),
      pi_ProtoReflect = (\<lambda>x. None)\<rparr>"

definition impl_SyncStateResponse :: "'ts SyncStateResponse proto_impl" where
  "impl_SyncStateResponse =
     \<lparr>pi_Reset = (\<lambda>x. \<lparr>ssBlocks = [], ssCheckpoints = []\<rparr>), pi_String = (\<lambda>x. ''SyncStateResponse''),
      pi_ProtoReflect = (\<lambda>x. None)\<rparr>"

definition impl_GetCheckpointResponse :: "'ts response proto_impl" where
  "impl_GetCheckpointResponse =
     \<lparr>pi_Reset = (\<lambda>x. GetCheckpointResponse None []), pi_String = (\<lambda>x. ''GetCheckpointResponse''),
      pi_ProtoReflect = (\<lambda>x. None)\<rparr>"

definition impl_GetStatusResponse :: "GetStatusResponse proto_impl" where
  "impl_GetStatusResponse =
     \<lparr>pi_Reset = (\<lambda>x. \<lparr>gsNodeId = [], gsCurrentView = 0, gsCurrentHeight = 0, gsLastAppHash = [],
        gsPeerCount = 0, gsIsPrimary = False\<rparr>),
      pi_String = (\<lambda>x. ''GetStatusResponse{NodeId:'' @ gsNodeId x @ ''}''),
      pi_ProtoReflect = (\<lambda>x. None)\<rparr>"

definition impl_BroadcastTxResponse :: "BroadcastTxResponse proto_impl" where
  "impl_BroadcastTxResponse =
     \<lparr>pi_Reset = (\<lambda>x. \<lparr>btSuccess = False, btError = [], btTxHash = []\<rparr>),
      pi_String = (\<lambda>x. ''BroadcastTxResponse{Success:'' @ v_bool (btSuccess x) @ ''}''),
      pi_ProtoReflect = (\<lambda>x. None)\<rparr>"

definition impl_SendTxResponse :: "SendTxResponse proto_impl" where
  "impl_SendTxResponse =
     \<lparr>pi_Reset = (\<lambda>x. \<lparr>sxSuccess = False, sxError = []\<rparr>),
      pi_String = (\<lambda>x. ''SendTxResponse{Success:'' @ v_bool (sxSuccess x) @ ''}''),
      pi_ProtoReflect = (\<lambda>x. None)\<rparr>"

text \<open>The messages inside them.\<close>

definition impl_TxMessage :: "'ts TxMessage proto_impl" where
  "impl_TxMessage =
     \<lparr>pi_Reset = (\<lambda>x. \<lparr>tmTxData = [], tmTxHash = [], tmSender = [], tmNonce = 0, tmGasPrice = 0, tmGasLimit = 0,
        tmTimestamp = None, tmFromNode = []\<rparr>),
      pi_String = (\<lambda>x. ''TxMessage{Hash:'' @ tmTxHash x @ ''}''),
      pi_ProtoReflect = (\<lambda>x. None)\<rparr>"

definition impl_Block :: "'ts ProtoBlock proto_impl" where
  "impl_Block =
     \<lparr>pi_Reset = (\<lambda>x. \<lparr>pbHeader = None, pbTxs = [], pbHash = []\<rparr>), pi_String = (\<lambda>x. ''Block''),
      pi_ProtoReflect = (\<lambda>x. None)\<rparr>"

definition impl_Checkpoint :: "ProtoCheckpoint proto_impl" where
  "impl_Checkpoint =
     \<lparr>pi_Reset = (\<lambda>x. \<lparr>pkSequenceNum = 0, pkDigest = [], pkNodeId = []\<rparr>),
      pi_String = (\<lambda>x. ''Checkpoint{Seq:'' @ d_u64 (pkSequenceNum x) @ ''}''),
      pi_ProtoReflect = (\<lambda>x. None)\<rparr>"

section \<open>Dynamic dispatch\<close>

text \<open>A value of the interface: a pointer to one of the types, and the methods it carries.\<close>

datatype 'ts proto_message =
    Proto_PBFTMessage "'ts PBFTMessage" | Proto_Request "'ts request" | Proto_Response "'ts response"
  | Proto_TxMessage "'ts TxMessage" | Proto_Block "'ts ProtoBlock" | Proto_Checkpoint ProtoCheckpoint

fun request_impl :: "'ts request \<Rightarrow> 'ts request proto_impl" where
  "request_impl (BroadcastMessageRequest m) = impl_BroadcastMessageRequest"
| "request_impl (SendMessageRequest target m) = impl_SendMessageRequest"
| "request_impl (SyncStateRequest lo hi) = impl_SyncStateRequest"
| "request_impl (GetCheckpointRequest n) = impl_GetCheckpointRequest"
| "request_impl GetStatusRequest = impl_GetStatusRequest"
| "request_impl (BroadcastTxRequest tx) = impl_BroadcastTxRequest"
| "request_impl (SendTxRequest target tx) = impl_SendTxRequest"

fun response_String :: "'ts response \<Rightarrow> string" where
  "response_String (SyncState_Response r) = pi_String impl_SyncStateResponse r"
| "response_String (GetStatus_Response r) = pi_String impl_GetStatusResponse r"
| "response_String (BroadcastTx_Response r) = pi_String impl_BroadcastTxResponse r"
| "response_String (SendTx_Response r) = pi_String impl_SendTxResponse r"
| "response_String (BroadcastMessageResponse ok err) =
     pi_String impl_BroadcastMessageResponse (BroadcastMessageResponse ok err :: 'ts response)"
| "response_String (SendMessageResponse ok err) =
     pi_String impl_SendMessageResponse (SendMessageResponse ok err :: 'ts response)"
| "response_String (GetCheckpointResponse c h) =
     pi_String impl_GetCheckpointResponse (GetCheckpointResponse c h :: 'ts response)"

fun response_Reset :: "'ts response \<Rightarrow> 'ts response" where
  "response_Reset (SyncState_Response r) = SyncState_Response (pi_Reset impl_SyncStateResponse r)"
| "response_Reset (GetStatus_Response r) = GetStatus_Response (pi_Reset impl_GetStatusResponse r)"
| "response_Reset (BroadcastTx_Response r) = BroadcastTx_Response (pi_Reset impl_BroadcastTxResponse r)"
| "response_Reset (SendTx_Response r) = SendTx_Response (pi_Reset impl_SendTxResponse r)"
| "response_Reset (BroadcastMessageResponse ok err) = pi_Reset impl_BroadcastMessageResponse (BroadcastMessageResponse ok err)"
| "response_Reset (SendMessageResponse ok err) = pi_Reset impl_SendMessageResponse (SendMessageResponse ok err)"
| "response_Reset (GetCheckpointResponse c h) = pi_Reset impl_GetCheckpointResponse (GetCheckpointResponse c h)"

fun proto_String :: "'ts proto_message \<Rightarrow> string" where
  "proto_String (Proto_PBFTMessage m) = pi_String impl_PBFTMessage m"
| "proto_String (Proto_Request r) = pi_String (request_impl r) r"
| "proto_String (Proto_Response r) = response_String r"
| "proto_String (Proto_TxMessage tx) = pi_String impl_TxMessage tx"
| "proto_String (Proto_Block b) = pi_String impl_Block b"
| "proto_String (Proto_Checkpoint c) = pi_String impl_Checkpoint c"

fun proto_Reset :: "'ts proto_message \<Rightarrow> 'ts proto_message" where
  "proto_Reset (Proto_PBFTMessage m) = Proto_PBFTMessage (pi_Reset impl_PBFTMessage m)"
| "proto_Reset (Proto_Request r) = Proto_Request (pi_Reset (request_impl r) r)"
| "proto_Reset (Proto_Response r) = Proto_Response (response_Reset r)"
| "proto_Reset (Proto_TxMessage tx) = Proto_TxMessage (pi_Reset impl_TxMessage tx)"
| "proto_Reset (Proto_Block b) = Proto_Block (pi_Reset impl_Block b)"
| "proto_Reset (Proto_Checkpoint c) = Proto_Checkpoint (pi_Reset impl_Checkpoint c)"

lemmas request_impl_defs = impl_BroadcastMessageRequest_def impl_SendMessageRequest_def impl_SyncStateRequest_def
  impl_GetCheckpointRequest_def impl_GetStatusRequest_def impl_BroadcastTxRequest_def impl_SendTxRequest_def

lemmas response_impl_defs = impl_BroadcastMessageResponse_def impl_SendMessageResponse_def impl_SyncStateResponse_def
  impl_GetCheckpointResponse_def impl_GetStatusResponse_def impl_BroadcastTxResponse_def impl_SendTxResponse_def

lemmas message_impl_defs = impl_PBFTMessage_def impl_TxMessage_def impl_Block_def impl_Checkpoint_def

text \<open>The printed form up to the brace is the name of the type.\<close>

fun proto_type :: "'ts proto_message \<Rightarrow> string" where
  "proto_type (Proto_PBFTMessage m) = ''PBFTMessage''"
| "proto_type (Proto_Request (BroadcastMessageRequest m)) = ''BroadcastMessageRequest''"
| "proto_type (Proto_Request (SendMessageRequest target m)) = ''SendMessageRequest''"
| "proto_type (Proto_Request (SyncStateRequest lo hi)) = ''SyncStateRequest''"
| "proto_type (Proto_Request (GetCheckpointRequest n)) = ''GetCheckpointRequest''"
| "proto_type (Proto_Request GetStatusRequest) = ''GetStatusRequest''"
| "proto_type (Proto_Request (BroadcastTxRequest tx)) = ''BroadcastTxRequest''"
| "proto_type (Proto_Request (SendTxRequest target tx)) = ''SendTxRequest''"
| "proto_type (Proto_Response (BroadcastMessageResponse ok err)) = ''BroadcastMessageResponse''"
| "proto_type (Proto_Response (SendMessageResponse ok err)) = ''SendMessageResponse''"
| "proto_type (Proto_Response (SyncState_Response r)) = ''SyncStateResponse''"
| "proto_type (Proto_Response (GetCheckpointResponse c h)) = ''GetCheckpointResponse''"
| "proto_type (Proto_Response (GetStatus_Response r)) = ''GetStatusResponse''"
| "proto_type (Proto_Response (BroadcastTx_Response r)) = ''BroadcastTxResponse''"
| "proto_type (Proto_Response (SendTx_Response r)) = ''SendTxResponse''"
| "proto_type (Proto_TxMessage tx) = ''TxMessage''"
| "proto_type (Proto_Block b) = ''Block''"
| "proto_type (Proto_Checkpoint c) = ''Checkpoint''"

lemma proto_String_type: "takeWhile (\<lambda>c. c \<noteq> CHR ''{'') (proto_String m) = proto_type m"
  by (cases m rule: proto_type.cases) (simp_all add: request_impl_defs response_impl_defs message_impl_defs)

lemma same_String_same_type: "proto_String m = proto_String m' \<Longrightarrow> proto_type m = proto_type m'"
  by (metis proto_String_type)

text \<open>Resetting keeps the type of a message and forgets everything else.\<close>

lemma proto_Reset_type: "proto_type (proto_Reset m) = proto_type m"
  by (cases m rule: proto_type.cases) (simp_all add: request_impl_defs response_impl_defs message_impl_defs)

lemma proto_Reset_forgets: "proto_type m = proto_type m' \<Longrightarrow> proto_Reset m = proto_Reset m'"
  by (cases m rule: proto_type.cases; cases m' rule: proto_type.cases)
    (simp_all add: request_impl_defs response_impl_defs message_impl_defs)

section \<open>The message stream\<close>

text \<open>
  \<open>grpc.ClientStream\<close> and \<open>grpc.ServerStream\<close>: \<open>SendMsg\<close> and \<open>RecvMsg\<close> of the library, which
  decodes into the value it is given.
\<close>

record ('w, 'ts) message_stream =
  ms_SendMsg :: "'ts PBFTMessage \<Rightarrow> 'w \<Rightarrow> 'w \<times> rpc_error option"
  ms_RecvMsg :: "'ts PBFTMessage \<Rightarrow> 'w \<Rightarrow> 'w \<times> 'ts PBFTMessage \<times> rpc_error option"

definition new_PBFTMessage :: "'ts PBFTMessage" where
  "new_PBFTMessage = \<lparr>pmType = MESSAGE_TYPE_UNSPECIFIED, pmView = 0, pmSequenceNum = 0, pmDigest = [],
     pmNodeId = [], pmTimestamp = None, pmSignature = [], pmPayload = []\<rparr>"

definition client_Send :: "('w, 'ts) message_stream \<Rightarrow> 'ts PBFTMessage \<Rightarrow> 'w \<Rightarrow> 'w \<times> rpc_error option" where
  "client_Send x m w = ms_SendMsg x m w"

definition client_Recv :: "('w, 'ts) message_stream \<Rightarrow> 'w \<Rightarrow> 'w \<times> (rpc_error + 'ts PBFTMessage)" where
  "client_Recv x w =
     (let (w, m, err) = ms_RecvMsg x new_PBFTMessage w
      in (w, case err of Some err \<Rightarrow> Inl err | None \<Rightarrow> Inr m))"

definition server_Send :: "('w, 'ts) message_stream \<Rightarrow> 'ts PBFTMessage \<Rightarrow> 'w \<Rightarrow> 'w \<times> rpc_error option" where
  "server_Send x m w = ms_SendMsg x m w"

definition server_Recv :: "('w, 'ts) message_stream \<Rightarrow> 'w \<Rightarrow> 'w \<times> (rpc_error + 'ts PBFTMessage)" where
  "server_Recv x w =
     (let (w, m, err) = ms_RecvMsg x new_PBFTMessage w
      in (w, case err of Some err \<Rightarrow> Inl err | None \<Rightarrow> Inr m))"

text \<open>\<open>NewStream\<close> of the connection, the argument \<open>open_stream\<close>, takes the name and the full method name.\<close>

definition client_MessageStream ::
  "(string \<Rightarrow> string \<Rightarrow> 'w \<Rightarrow> 'w \<times> (rpc_error + ('w, 'ts) message_stream)) \<Rightarrow> 'w
     \<Rightarrow> 'w \<times> (rpc_error + ('w, 'ts) message_stream)" where
  "client_MessageStream open_stream w =
     (case open_stream ''MessageStream'' ''/pbft.v1.PBFTService/MessageStream'' w of
        (w, Inl err) \<Rightarrow> (w, Inl err)
      | (w, Inr stream) \<Rightarrow> (w, Inr stream))"

text \<open>
  The method of the server. \<open>GRPCTransport\<close> has none of its own, so it is the one of the embedded
  \<open>UnimplementedPBFTServiceServer\<close>.
\<close>

type_synonym ('w, 'ts) stream_method = "('w, 'ts) message_stream \<Rightarrow> 'w \<Rightarrow> ('w \<times> rpc_error option) go"

definition Unimplemented_MessageStream :: "('w, 'ts) stream_method" where
  "Unimplemented_MessageStream stream w = Ret (w, Some (Unimplemented ''method MessageStream not implemented''))"

definition MessageStream_Handler :: "('w, 'ts) stream_method \<Rightarrow> ('w, 'ts) stream_method" where
  "MessageStream_Handler srv stream w = srv stream w"

text \<open>Opening the stream of a node touches nothing and reads nothing.\<close>

lemma node_stream_refused:
  "MessageStream_Handler Unimplemented_MessageStream stream w =
     Ret (w, Some (Unimplemented ''method MessageStream not implemented''))"
  by (simp add: MessageStream_Handler_def Unimplemented_MessageStream_def)

section \<open>Construction and registration\<close>

definition NewPBFTServiceClient :: "('w, 'ts) conn_interface \<Rightarrow> 'ts request \<Rightarrow> 'w \<Rightarrow> ('w, 'ts) outcome" where
  "NewPBFTServiceClient cc = call_stub cc"

definition RegisterPBFTServiceServer ::
  "(('w, 'ts) service_desc \<Rightarrow> 's \<Rightarrow> 's) \<Rightarrow> ('w, 'ts) PBFTServiceServer \<Rightarrow> 's \<Rightarrow> 's" where
  "RegisterPBFTServiceServer register srv s = register (PBFTService_ServiceDesc srv) s"

section \<open>Wire types nothing sends\<close>

record ProtoPrePrepareMsg =
  pppView :: u64
  pppSequenceNum :: u64
  pppDigest :: bytes
  pppBlockData :: bytes
  pppPrimaryId :: string

record ProtoPrepareMsg =
  ppView :: u64
  ppSequenceNum :: u64
  ppDigest :: bytes
  ppNodeId :: string

record ProtoCommitMsg =
  pcmView :: u64
  pcmSequenceNum :: u64
  pcmDigest :: bytes
  pcmNodeId :: string

record ProtoPreparedCert =
  pcePrePrepare :: "ProtoPrePrepareMsg option"
  pcePrepares :: "ProtoPrepareMsg list"

record ProtoViewChangeMsg =
  pvcNewView :: u64
  pvcLastSeqNum :: u64
  pvcCheckpoints :: "ProtoCheckpoint list"
  pvcPreparedSet :: "ProtoPreparedCert list"
  pvcNodeId :: string

record ProtoNewViewMsg =
  pnvView :: u64
  pnvViewChangeMsgs :: "ProtoViewChangeMsg list"
  pnvPrePrepareMsgs :: "ProtoPrePrepareMsg list"
  pnvNewPrimaryId :: string

record 'ts ProtoTransaction =
  ptId :: string
  ptData :: bytes
  ptTimestamp :: "'ts option"
  ptSignature :: bytes
  ptFrom :: string

record ProtoValidator =
  pvId :: string
  pvPubKey :: bytes
  pvVotingPower :: "64 word"

record ProtoValidatorSet =
  pvsValidators :: "ProtoValidator list"

end
