(* ===== verification/View_Timer.thy ===== *)
theory View_Timer
  imports Prelude
begin

text \<open>
  The view change timer as the Go runtime sees it: \<open>ViewChangeTimer\<close> of \<open>view_change.go\<close>, which
  nothing uses, and the timer field of the engine, which \<open>resetViewChangeTimer\<close> and
  \<open>startViewChange\<close> of \<open>engine_v2.go\<close> write. A timer that fires runs its function in a goroutine of
  its own, so the engine may reset the timer between the firing and the end of that function.
\<close>

section \<open>Timers of the runtime\<close>

record timers =
  tsNext :: nat
  tsArmed :: "(nat, int) gomap"

definition AfterFunc :: "int \<Rightarrow> timers \<Rightarrow> timers \<times> nat" where
  "AfterFunc d w = (w\<lparr>tsNext := Suc (tsNext w), tsArmed := go_put (tsNext w) d (tsArmed w)\<rparr>, tsNext w)"

text \<open>\<open>Timer.Stop\<close> on a timer that has fired or was stopped does nothing.\<close>

definition timer_Stop :: "nat \<Rightarrow> timers \<Rightarrow> timers" where
  "timer_Stop i w = w\<lparr>tsArmed := go_del i (tsArmed w)\<rparr>"

definition stop_held :: "nat option \<Rightarrow> timers \<Rightarrow> timers" where
  "stop_held t w = (case t of None \<Rightarrow> w | Some i \<Rightarrow> timer_Stop i w)"

section \<open>ViewChangeTimer\<close>

record ViewChangeTimer =
  vtTimeout :: int
  vtTimer :: "nat option"

definition NewViewChangeTimer :: "int \<Rightarrow> ViewChangeTimer" where
  "NewViewChangeTimer timeout = \<lparr>vtTimeout = timeout, vtTimer = None\<rparr>"

definition vt_Start :: "ViewChangeTimer \<Rightarrow> timers \<Rightarrow> ViewChangeTimer \<times> timers" where
  "vt_Start vct w =
     (let (w, i) = AfterFunc (vtTimeout vct) (stop_held (vtTimer vct) w) in (vct\<lparr>vtTimer := Some i\<rparr>, w))"

definition vt_Stop :: "ViewChangeTimer \<Rightarrow> timers \<Rightarrow> ViewChangeTimer \<times> timers" where
  "vt_Stop vct w =
     (case vtTimer vct of None \<Rightarrow> (vct, w) | Some i \<Rightarrow> (vct\<lparr>vtTimer := None\<rparr>, timer_Stop i w))"

definition vt_Reset :: "int \<Rightarrow> ViewChangeTimer \<Rightarrow> timers \<Rightarrow> ViewChangeTimer \<times> timers" where
  "vt_Reset timeout vct w =
     (let vct = vct\<lparr>vtTimeout := timeout\<rparr>;
          (w, i) = AfterFunc (vtTimeout vct) (stop_held (vtTimer vct) w)
      in (vct\<lparr>vtTimer := Some i\<rparr>, w))"

section \<open>The timer of the engine\<close>

text \<open>
  \<open>etTimeouts\<close> counts the calls of \<open>startViewChange\<close> that have begun; the last statement of the
  function makes a timer of twice the timeout and puts it in the field, whatever the field holds.
\<close>

record engine_timer =
  etTimer :: "nat option"
  etTimeouts :: nat

definition et_reset :: "int \<Rightarrow> engine_timer \<Rightarrow> timers \<Rightarrow> engine_timer \<times> timers" where
  "et_reset timeout e w =
     (let (w, i) = AfterFunc timeout (stop_held (etTimer e) w) in (e\<lparr>etTimer := Some i\<rparr>, w))"

definition et_rearm :: "int \<Rightarrow> engine_timer \<Rightarrow> timers \<Rightarrow> engine_timer \<times> timers" where
  "et_rearm timeout e w =
     (let (w, i) = AfterFunc (timeout * 2) w in (e\<lparr>etTimer := Some i, etTimeouts := etTimeouts e - 1\<rparr>, w))"

section \<open>Runs\<close>

definition no_timers :: timers where
  "no_timers = \<lparr>tsNext = 0, tsArmed = []\<rparr>"

inductive vt_reachable :: "int \<Rightarrow> ViewChangeTimer \<times> timers \<Rightarrow> bool" for T where
  vr_init: "vt_reachable T (NewViewChangeTimer T, no_timers)"
| vr_start: "vt_reachable T (v, w) \<Longrightarrow> vt_reachable T (vt_Start v w)"
| vr_stop: "vt_reachable T (v, w) \<Longrightarrow> vt_reachable T (vt_Stop v w)"
| vr_reset: "vt_reachable T (v, w) \<Longrightarrow> vt_reachable T (vt_Reset d v w)"
| vr_fire: "vt_reachable T (v, w) \<Longrightarrow> i \<in> go_keys (tsArmed w) \<Longrightarrow> vt_reachable T (v, timer_Stop i w)"

inductive et_step :: "int \<Rightarrow> engine_timer \<times> timers \<Rightarrow> engine_timer \<times> timers \<Rightarrow> bool" for T where
  es_reset: "et_step T (e, w) (et_reset T e w)"
| es_fire: "i \<in> go_keys (tsArmed w) \<Longrightarrow> et_step T (e, w) (e\<lparr>etTimeouts := Suc (etTimeouts e)\<rparr>, timer_Stop i w)"
| es_rearm: "0 < etTimeouts e \<Longrightarrow> et_step T (e, w) (et_rearm T e w)"

definition armed :: "timers \<Rightarrow> nat set" where
  "armed w = go_keys (tsArmed w)"

lemma armed_ops [simp]:
  "armed (fst (AfterFunc d w)) = insert (tsNext w) (armed w)" "armed (timer_Stop i w) = armed w - {i}"
  "armed (stop_held t w) = armed w - set_option t" "armed no_timers = {}"
  "tsNext (timer_Stop i w) = tsNext w" "tsNext (stop_held t w) = tsNext w" "snd (AfterFunc d w) = tsNext w"
  "tsNext (fst (AfterFunc d w)) = Suc (tsNext w)"
  by (auto simp: armed_def AfterFunc_def timer_Stop_def stop_held_def no_timers_def split: option.splits)

text \<open>\<open>ViewChangeTimer\<close> never has a timer armed besides the one it holds.\<close>

lemma one_timer_at_most:
  "vt_reachable T s \<Longrightarrow> armed (snd s) \<subseteq> set_option (vtTimer (fst s))"
proof (induction rule: vt_reachable.induct)
  case (vr_stop v w)
  then show ?case by (auto simp: vt_Stop_def split: option.splits)
qed (auto simp: NewViewChangeTimer_def vt_Start_def vt_Reset_def case_prod_unfold Let_def)

text \<open>Timers are numbered as they are made; one that is not in the field is only ended by firing.\<close>

lemma reset_keeps_orphan:
  "i \<in> armed w \<Longrightarrow> etTimer e \<noteq> Some i \<Longrightarrow> i < tsNext w \<Longrightarrow> et_reset T e w = (e', w') \<Longrightarrow>
     i \<in> armed w' \<and> etTimer e' \<noteq> Some i \<and> i < tsNext w'"
  by (auto simp: et_reset_def Let_def case_prod_unfold)

definition resets :: "int \<Rightarrow> nat \<Rightarrow> engine_timer \<times> timers \<Rightarrow> engine_timer \<times> timers" where
  "resets T k = ((\<lambda>(e, w). et_reset T e w) ^^ k)"

lemma resets_keep_orphan:
  "i \<in> armed w \<Longrightarrow> etTimer e \<noteq> Some i \<Longrightarrow> i < tsNext w \<Longrightarrow> resets T k (e, w) = (e', w') \<Longrightarrow>
     i \<in> armed w' \<and> etTimer e' \<noteq> Some i \<and> i < tsNext w'"
proof (induction k arbitrary: e' w')
  case (Suc k)
  obtain e1 w1 where 1: "resets T k (e, w) = (e1, w1)" by (cases "resets T k (e, w)")
  then have "et_reset T e1 w1 = (e', w')" using Suc.prems(4) by (simp add: resets_def)
  with Suc.IH [OF Suc.prems(1-3) 1] show ?case by (metis reset_keeps_orphan)
qed (simp add: resets_def)

text \<open>
  C27. The engine can lose a timer. There is a run, a reset while a timeout is being handled, after
  which a timer is armed that the engine's field does not hold; no number of resets ends it,
  so it starts a view change however well the protocol goes on.
\<close>

theorem engine_can_lose_timer:
  "\<exists>e w i. (et_step T)\<^sup>*\<^sup>* (\<lparr>etTimer = None, etTimeouts = 0\<rparr>, no_timers) (e, w) \<and>
     (\<forall>k. i \<in> armed (snd (resets T k (e, w))) \<and> etTimer (fst (resets T k (e, w))) \<noteq> Some i)"
proof -
  let ?new = "\<lparr>etTimer = None, etTimeouts = 0\<rparr>"
  let ?e = "\<lparr>etTimer = Some 2, etTimeouts = 0\<rparr>" and ?w = "\<lparr>tsNext = 3, tsArmed = [(1, T), (2, T * 2)]\<rparr>"
  have "et_step T (?new, no_timers) (\<lparr>etTimer = Some 0, etTimeouts = 0\<rparr>, \<lparr>tsNext = 1, tsArmed = [(0, T)]\<rparr>)"
    using es_reset [of T ?new no_timers] by (simp add: et_reset_def AfterFunc_def stop_held_def no_timers_def)
  moreover have "et_step T \<dots> (\<lparr>etTimer = Some 0, etTimeouts = 1\<rparr>, \<lparr>tsNext = 1, tsArmed = []\<rparr>)"
    using es_fire [of 0 "\<lparr>tsNext = 1, tsArmed = [(0, T)]\<rparr>" T "\<lparr>etTimer = Some 0, etTimeouts = 0\<rparr>"]
    by (simp add: timer_Stop_def)
  moreover have "et_step T \<dots> (\<lparr>etTimer = Some 1, etTimeouts = 1\<rparr>, \<lparr>tsNext = 2, tsArmed = [(1, T)]\<rparr>)"
    using es_reset [of T "\<lparr>etTimer = Some 0, etTimeouts = 1\<rparr>" "\<lparr>tsNext = 1, tsArmed = []\<rparr>"]
    by (simp add: et_reset_def AfterFunc_def stop_held_def timer_Stop_def eval_nat_numeral)
  moreover have "et_step T \<dots> (?e, ?w)"
    using es_rearm [of "\<lparr>etTimer = Some 1, etTimeouts = 1\<rparr>" T "\<lparr>tsNext = 2, tsArmed = [(1, T)]\<rparr>"]
    by (simp add: et_rearm_def AfterFunc_def eval_nat_numeral)
  ultimately have run: "(et_step T)\<^sup>*\<^sup>* (?new, no_timers) (?e, ?w)"
    by (meson converse_rtranclp_into_rtranclp rtranclp.rtrancl_refl)
  have "1 \<in> armed (snd (resets T k (?e, ?w))) \<and> etTimer (fst (resets T k (?e, ?w))) \<noteq> Some 1" for k
    using resets_keep_orphan [of 1 ?w ?e T k] by (cases "resets T k (?e, ?w)") (simp add: armed_def)
  with run show ?thesis by (intro exI [of _ ?e] exI [of _ ?w] exI [of _ 1]) simp
qed

end
