(* ===== verification/Spec2Isabelle.thy ===== *)
theory Spec2Isabelle
  imports Quorum Reactor Sync Durability Pbftd Abci_Props Tcp_Transport Crypto Ordering Silence Network Wire_Types View_Timer
begin

text \<open>
  A verification development of the PBFT consensus engine for the Cosmos SDK (module
  \<open>pbft-cosmos\<close>, all paths below are under \<open>src/\<close>).

  \<^bold>\<open>The program.\<close> A node (\<open>node/node.go\<close>) wires four parts together: the engine
  (\<open>consensus/pbft/engine_v2.go\<close>), which runs the three phases of PBFT, checkpoints and view
  changes; a pool of transactions (\<open>mempool/mempool.go\<close>) and its reactor
  (\<open>mempool/reactor.go\<close>); and a transport (\<open>transport/grpc.go\<close>). The engine executes blocks
  through an application adapter (\<open>abci_noop.go\<close>, \<open>abci_local.go\<close> over \<open>abci/app.go\<close>, or
  \<open>abci_adapter.go\<close> over the client of \<open>abci/client.go\<close>) and may write to a store
  (\<open>persistence/store.go\<close>). A client's transaction goes into the pool and, at the primary, starts
  a proposal; messages arrive at the transport's handler, wait in a channel of the engine, and
  leave through \<open>Transport.Broadcast\<close>. \<open>cmd/pbftd/main.go\<close> starts one such node.

  \<^bold>\<open>How it is modelled.\<close> A struct is a record, an operation is a function from the old state to the
  new one with the environment's choices as arguments: the clock, the order in which \<open>range\<close>
  visits a map, what a remote call, a file or a library answers. The outcome of a call is a value
  of \<open>go\<close> (\<open>Prelude\<close>): a result, a panic, or no return, so that a crash and an endless loop are
  branches of the model. Go maps are association lists with distinct keys, \<open>uint64\<close> is a 64-bit
  word and wraps, \<open>int\<close> indices and counters of objects in memory are integers. A mutex makes a
  method atomic, which is the unit of interleaving; goroutines and \<open>select\<close> cases are steps of a
  relation (\<open>engine_step\<close>, \<open>mp_step\<close>, \<open>node_step\<close>, \<open>cluster_step\<close>,
  \<open>net_step\<close>, \<open>et_step\<close>) or lists of events.

  \<^bold>\<open>The theories.\<close>
  \<^item> Foundations: \<open>Prelude\<close> (Go's values, maps, loops, outcomes), \<open>Sha256\<close> (\<open>crypto/sha256\<close>),
    \<open>Types\<close> (\<open>types/types.go\<close>), \<open>Quorum\<close> (what a quorum promises), \<open>Messages\<close> (\<open>messages.go\<close>),
    \<open>Sample_Codec\<close> (a codec with the laws asked of \<open>encoding/json\<close>).
  \<^item> Engine: \<open>Consensus_State\<close> (\<open>state.go\<close>: one number's votes and phase, and the log with its
    window), \<open>View_Change\<close> and \<open>New_View\<close> (\<open>view_change.go\<close>), \<open>Adapter\<close> (the application
    interface), \<open>Engine\<close> (every handler of \<open>engine_v2.go\<close> and \<open>config.go\<close>), \<open>Engine_Inv\<close> (the
    invariant), \<open>Engine_Votes\<close>, \<open>Engine_Props\<close>, \<open>Engine_Proposals\<close>, \<open>Engine_Restart\<close> (what the
    handlers do), \<open>View_Timer\<close> (timers of the runtime), \<open>Metrics\<close> (\<open>metrics/prometheus.go\<close>).
  \<^item> Several nodes: \<open>Cluster\<close> (one round of the primary and the backups), \<open>Certificates\<close> (whose
    votes a log holds, given the messages that are sent), \<open>Agreement\<close> (a cluster with an arbitrary
    network and arbitrary faulty senders), \<open>Silence\<close> (a network of the nodes that are not silent,
    closed under what they broadcast), \<open>Ordering\<close> (numbers out of order and
    numbers executed twice).
  \<^item> Pool: \<open>Mempool\<close> (\<open>tx.go\<close>, \<open>mempool.go\<close>), \<open>Mempool_Inv\<close>, \<open>Mempool_Props\<close>, \<open>Reactor\<close>.
  \<^item> Storage: \<open>Store\<close> (the interface and the memory store), \<open>FileStore\<close>, \<open>Durability\<close> (torn
    writes), \<open>Sync\<close> (\<open>persistence/sync.go\<close>).
  \<^item> Application: \<open>Kv_App\<close> (\<open>abci/app.go\<close>), \<open>Adapters\<close> (the adapters in the process), \<open>Abci\<close> and
    \<open>Abci_Props\<close> (the client and the adapter for an application elsewhere).
  \<^item> Network and node: \<open>Transport\<close> (\<open>grpc.go\<close>, \<open>codec.go\<close>, the wire types), \<open>Service\<close>
    (\<open>service_grpc.pb.go\<close>), \<open>Wire_Types\<close> (\<open>proto_impl.go\<close>, the stream, the wire types nothing sends),
    \<open>Network\<close> (from the engine of one node to the engine of another), \<open>Tcp_Transport\<close> (\<open>network/transport.go\<close>), \<open>Node\<close>, \<open>Node_Props\<close>,
    \<open>Node_Runs\<close> (\<open>node.go\<close>, \<open>config.go\<close>), \<open>Pbftd\<close> (\<open>main.go\<close>, with the metrics and the HTTP pages of a
    node), \<open>Crypto\<close> (\<open>crypto/crypto.go\<close>).

  \<^bold>\<open>Interfaces.\<close> The laws one part relies on are locales, interpreted on the model of the code:
  \<open>bft_quorum\<close> (on validator sets of \<open>3 f + 1\<close>), \<open>store_spec\<close> (on the memory and the file store),
  \<open>builtin_adapter\<close> and \<open>accepting_adapter\<close> (on the no-op, mock and local adapters),
  \<open>broadcast_spec\<close> (on the three transports) and \<open>state_source\<close> (on the engine as a provider).

  \<^bold>\<open>What is shown.\<close>
  \<^item> Invariants of every reachable state of a pool, an engine and a node (\<open>mempool_invariant\<close>,
    \<open>engine_invariant\<close>, \<open>node_invariant\<close>), of the runs of a state object, and of the metrics
    (\<open>metrics_add_up\<close>).
  \<^item> Safety of consensus: the chain only grows (\<open>committed_history_only_grows\<close>) and grows only by
    a quorum of commits (\<open>commit_needs_quorum\<close>); the handlers refine an abstract ballot
    (\<open>handlers_refine_ballots\<close>); whatever is sent in a cluster, a committed block was offered under
    its number and a quorum of names sent \<open>PREPARE\<close>s and \<open>COMMIT\<close>s for that number
    (\<open>committed_blocks_certified\<close>), and on \<open>3 f + 1\<close> validators quorums share a correct node. The limits of this are theorems too: votes are counted by claimed names whatever
    they vote for, so an equivocating primary splits the nodes; numbers are executed in the order
    they complete (\<open>execution_follows_arrival\<close>); a new view message that anybody can make reopens
    executed numbers (\<open>forged_new_view_executes\<close>); the engine can lose a timer.
  \<^item> Liveness: if all answer, all commit; if the tolerated number of backups is silent, none does.
    The primary proposes a submitted transaction to every peer; \<open>pbftd start\<close> gives a running node;
    with honest peers \<open>Sync\<close> stores the whole chain.
  \<^item> Functional behaviour of an operation on all its branches (\<open>handlePrePrepare\<close>,
    \<open>AddTxWithMeta\<close>, \<open>ExecuteBlock\<close>, \<open>createCheckpoint\<close>, \<open>collectPreparedCertificates\<close>, the loops of
    a new view against a declarative reading of them), error paths, panics and loops that do not
    end, round trips of stores, recovery, signatures and new views.
  \<^item> Equivalence of the network with direct calls: a stub call is the method it names, and what an
    engine broadcasts is handled by its peers as if given to their handlers
    (\<open>engine_reaches_engine\<close>).

  \<^bold>\<open>Bounds.\<close> Nothing is bounded by fuel: a loop over \<open>uint64\<close> heights is a \<open>partial_function\<close> whose
  value \<open>None\<close> is that it never ends, and where it ends is proved (\<open>u64_for_terminates\<close>); the other
  loops are structural or have a measure. Event lists stand for finite prefixes of a goroutine's
  life, of any length.

  \<^bold>\<open>Parameters.\<close> What is not under \<open>src/\<close> is an argument with its documented behaviour as a
  hypothesis where something depends on it: \<open>encoding/json\<close> (that what was encoded decodes to the
  same value), grpc, sockets, \<open>timestamppb\<close>, the file system, \<open>crypto/ecdsa\<close>, the CometBFT stub
  and the application behind it, the Prometheus registry, viper. \<open>crypto/sha256\<close> is defined;
  where collisions matter they are a hypothesis or part of the conclusion.

  \<^bold>\<open>Not modelled.\<close> Log output; deadlines of contexts, except as errors of the calls they end;
  data races on fields the code reads without its lock; the contents of floating-point gauges;
  the command line handling of cobra, with \<open>main\<close>, which only calls it; the tests.
\<close>

end
